(* ===== verification/Mivlet_Prelude.thy ===== *)
theory Mivlet_Prelude
  imports
    Main
    "HOL-Library.Word"
    "HOL-Library.Char_ord"
    "HOL-Library.List_Lexorder"
    "HOL-Library.Product_Lexorder"
    "HOL-Library.Sublist"
begin

text \<open>
  Shared vocabulary of the development.

  \<^item> Machine integers of the source (\<open>u8\<close>, \<open>u32\<close>, \<open>u64\<close>) with Rust's saturating addition.
  \<^item> The result type of fallible code, \<open>'e + 'a\<close>: \<open>Inl\<close> is \<open>Err\<close>, \<open>Inr\<close> is \<open>Ok\<close>.
    \<open>bindE\<close> is the \<open>?\<close> operator, \<open>ok_or\<close> is \<open>Option::ok_or\<close>, \<open>foldE\<close> is a \<open>for\<close> loop whose
    body may return early with an error and threads the store, \<open>mapE\<close> is
    \<open>collect::<Result<Vec<_>>>\<close>, \<open>optE\<close> is \<open>Option::map(..).transpose()\<close>.
  \<^item> Keyed tables: the rows of one record kind of the encrypted store, ordered by key, with
    the interface \<open>keyed_table\<close> that the components rely on.
\<close>

section \<open>Machine integers\<close>

type_synonym u8 = "8 word"
type_synonym u32 = "32 word"
type_synonym u64 = "64 word"

definition sat_add :: "'a::len word \<Rightarrow> 'a word \<Rightarrow> 'a word" where
  "sat_add x y = (if x + y < x then - 1 else x + y)"

section \<open>Results\<close>

definition bindE :: "'e + 'a \<Rightarrow> ('a \<Rightarrow> 'e + 'b) \<Rightarrow> 'e + 'b" where
  "bindE r f = (case r of Inl e \<Rightarrow> Inl e | Inr x \<Rightarrow> f x)"

definition ok_or :: "'e \<Rightarrow> 'a option \<Rightarrow> 'e + 'a" where
  "ok_or e opt = (case opt of None \<Rightarrow> Inl e | Some x \<Rightarrow> Inr x)"

definition is_ok :: "'e + 'a \<Rightarrow> bool" where
  "is_ok r = (case r of Inl _ \<Rightarrow> False | Inr _ \<Rightarrow> True)"

fun foldE :: "('a \<Rightarrow> 's \<Rightarrow> 'e + 's) \<Rightarrow> 'a list \<Rightarrow> 's \<Rightarrow> 'e + 's" where
  "foldE f [] s = Inr s"
| "foldE f (x # xs) s = bindE (f x s) (foldE f xs)"

fun mapE :: "('a \<Rightarrow> 'e + 'b) \<Rightarrow> 'a list \<Rightarrow> 'e + 'b list" where
  "mapE f [] = Inr []"
| "mapE f (x # xs) = bindE (f x) (\<lambda>y. bindE (mapE f xs) (\<lambda>ys. Inr (y # ys)))"

definition optE :: "('a \<Rightarrow> 'e + 'b) \<Rightarrow> 'a option \<Rightarrow> 'e + 'b option" where
  "optE f opt = (case opt of None \<Rightarrow> Inr None | Some x \<Rightarrow> bindE (f x) (\<lambda>y. Inr (Some y)))"

section \<open>Keyed tables\<close>

type_synonym ('k, 'v) table = "('k \<times> 'v) list"

definition tget :: "('k, 'v) table \<Rightarrow> 'k \<Rightarrow> 'v option" where
  "tget t k = map_of t k"

fun tput :: "'k::linorder \<Rightarrow> 'v \<Rightarrow> ('k, 'v) table \<Rightarrow> ('k, 'v) table" where
  "tput k v [] = [(k, v)]"
| "tput k v ((k', v') # t) =
     (if k < k' then (k, v) # (k', v') # t
      else if k = k' then (k, v) # t
      else (k', v') # tput k v t)"

definition tdel :: "('k \<Rightarrow> 'v \<Rightarrow> bool) \<Rightarrow> ('k, 'v) table \<Rightarrow> ('k, 'v) table" where
  "tdel p t = filter (\<lambda>(k, v). \<not> p k v) t"

definition trows :: "('k, 'v) table \<Rightarrow> 'v list" where
  "trows t = map snd t"

definition tinv :: "('k::linorder, 'v) table \<Rightarrow> bool" where
  "tinv t = sorted_wrt (<) (map fst t)"

text \<open>\<open>ORDER BY key DESC\<close>, ties in the order of the rows.\<close>

definition newest_first :: "('a \<Rightarrow> string) \<Rightarrow> 'a list \<Rightarrow> 'a list" where
  "newest_first key rows = rev (sort_key key (rev rows))"

section \<open>Lemmas on results\<close>

named_theorems result_simps \<open>case analysis of fallible code\<close>

lemma bindE_simps [simp]: "bindE (Inl e) f = Inl e" "bindE (Inr x) f = f x"
  by (simp_all add: bindE_def)

lemma bindE_Inr [result_simps]: "bindE r f = Inr y \<longleftrightarrow> (\<exists>x. r = Inr x \<and> f x = Inr y)"
  by (cases r) auto

lemma bindE_Inl [result_simps]:
  "bindE r f = Inl e \<longleftrightarrow> r = Inl e \<or> (\<exists>x. r = Inr x \<and> f x = Inl e)"
  by (cases r) auto

lemma ok_or_simps [simp]: "ok_or e None = Inl e" "ok_or e (Some x) = Inr x"
  by (simp_all add: ok_or_def)

lemma ok_or_Inr [result_simps]: "ok_or e opt = Inr x \<longleftrightarrow> opt = Some x"
  by (cases opt) auto

lemma ok_or_Inl [result_simps]: "ok_or e opt = Inl e' \<longleftrightarrow> opt = None \<and> e' = e"
  by (cases opt) auto

lemma is_ok_simps [simp]: "is_ok (Inr x)" "\<not> is_ok (Inl e)"
  by (simp_all add: is_ok_def)

lemma is_ok_iff: "is_ok r \<longleftrightarrow> (\<exists>x. r = Inr x)"
  by (cases r) auto

lemma optE_simps [simp]: "optE f None = Inr None" "optE f (Some x) = bindE (f x) (\<lambda>y. Inr (Some y))"
  by (simp_all add: optE_def)

lemma if_Inr [result_simps]:
  "(if b then Inl e else r) = Inr y \<longleftrightarrow> \<not> b \<and> r = Inr y"
  "(if b then r else Inl e) = Inr y \<longleftrightarrow> b \<and> r = Inr y"
  by auto

text \<open>Elimination rules that read a successful run of fallible code backwards.\<close>

lemma bindE_elim:
  assumes "bindE r f = Inr y"
  obtains x where "r = Inr x" "f x = Inr y"
  using assms by (auto simp: bindE_Inr)

lemma guard_elim:
  assumes "(if b then Inl e else r) = Inr y"
  obtains "\<not> b" "r = Inr y"
  using assms by (cases b) auto

lemma ok_or_elim:
  assumes "ok_or e opt = Inr x"
  obtains "opt = Some x"
  using assms by (cases opt) auto

lemmas result_elims = bindE_elim guard_elim ok_or_elim

lemma fundef_cong_bindE [fundef_cong]:
  assumes "r = r'" and "\<And>x. r' = Inr x \<Longrightarrow> f x = g x"
  shows "bindE r f = bindE r' g"
  using assms by (cases r') auto

text \<open>A property kept by every iteration is kept by the loop.\<close>

lemma foldE_induct:
  assumes step: "\<And>x s s'. x \<in> set xs \<Longrightarrow> P s \<Longrightarrow> f x s = Inr s' \<Longrightarrow> P s'"
    and "P s" and "foldE f xs s = Inr s'"
  shows "P s'"
  using assms
proof (induction xs arbitrary: s)
  case Nil
  then show ?case by simp
next
  case (Cons x xs)
  from Cons.prems(3) obtain t where t: "f x s = Inr t" "foldE f xs t = Inr s'"
    by (auto simp: bindE_Inr)
  with Cons.prems(1,2) have "P t" by (meson list.set_intros(1))
  with Cons.IH Cons.prems(1) t(2) show ?case by (meson list.set_intros(2))
qed

text \<open>A reflexive and transitive relation that relates every iteration relates the loop.\<close>

lemma foldE_rel:
  assumes refl: "\<And>s. R s s" and trans: "\<And>a b c. R a b \<Longrightarrow> R b c \<Longrightarrow> R a c"
    and step: "\<And>x s s'. x \<in> set xs \<Longrightarrow> f x s = Inr s' \<Longrightarrow> R s s'"
    and "foldE f xs s = Inr s'"
  shows "R s s'"
  using foldE_induct [of xs "R s" f s s'] assms by blast

lemma foldE_append:
  "foldE f (xs @ ys) s = bindE (foldE f xs s) (foldE f ys)"
  by (induction xs arbitrary: s) (auto simp: bindE_def split: sum.splits)

lemma mapE_Inr: "mapE f xs = Inr ys \<longleftrightarrow> list_all2 (\<lambda>x y. f x = Inr y) xs ys"
proof (induction xs arbitrary: ys)
  case Nil
  then show ?case by auto
next
  case (Cons x xs)
  then show ?case by (cases ys) (auto simp: bindE_Inr)
qed

lemma mapE_member:
  assumes "mapE f xs = Inr ys" and "y \<in> set ys"
  shows "\<exists>x\<in>set xs. f x = Inr y"
  using assms
proof (induction xs arbitrary: ys)
  case (Cons x xs)
  then obtain z zs where "f x = Inr z" "mapE f xs = Inr zs" "ys = z # zs"
    by (auto simp: bindE_Inr)
  with Cons show ?case by auto
qed simp

section \<open>Lemmas on machine integers\<close>

lemma sat_add_ge: "x \<le> sat_add x y"
  by (auto simp: sat_add_def not_less)

lemma unat_sat_add:
  fixes x y :: "'a::len word"
  shows "unat (sat_add x y) = min (2 ^ LENGTH('a) - 1) (unat x + unat y)"
proof (cases "unat x + unat y < 2 ^ LENGTH('a)")
  case True
  then have "unat (x + y) = unat x + unat y" by (simp add: unat_word_ariths)
  with True show ?thesis
    by (auto simp: sat_add_def word_less_nat_alt min_def)
next
  case False
  then have o: "unat (x + y) = unat x + unat y - 2 ^ LENGTH('a)"
    using unat_plus_if_size [of x y] by (simp add: size_word.rep_eq)
  have "unat y < 2 ^ LENGTH('a)" by (rule unsigned_less)
  with False have "unat x + unat y - 2 ^ LENGTH('a) < unat x" by linarith
  with o have "x + y < x" by (simp add: word_less_nat_alt)
  moreover have "unat (- 1 :: 'a word) = 2 ^ LENGTH('a) - 1"
    by (simp add: unsigned_minus_1_eq_mask mask_eq_exp_minus_1)
  ultimately show ?thesis using False by (simp add: sat_add_def)
qed

lemma succ_word_neq: "(x :: u32) + 1 \<noteq> x"
  by simp

section \<open>The table interface\<close>

text \<open>
  What the collaboration engine relies on in the record store: a read returns the last value
  written under its key and is not disturbed by writes to other keys; the rows of a scan are
  exactly the stored values, each once, in key order.
\<close>

locale keyed_table =
  fixes get :: "'t \<Rightarrow> 'k::linorder \<Rightarrow> 'v option"
    and put :: "'k \<Rightarrow> 'v \<Rightarrow> 't \<Rightarrow> 't"
    and entries :: "'t \<Rightarrow> ('k \<times> 'v) list"
    and ok :: "'t \<Rightarrow> bool"
  assumes get_put: "get (put k v t) k' = (if k' = k then Some v else get t k')"
    and ok_put: "ok t \<Longrightarrow> ok (put k v t)"
    and entries_get: "ok t \<Longrightarrow> (k, v) \<in> set (entries t) \<longleftrightarrow> get t k = Some v"
    and entries_sorted: "ok t \<Longrightarrow> sorted_wrt (<) (map fst (entries t))"
begin

lemma put_same: "get (put k v t) k = Some v"
  by (simp add: get_put)

lemma put_other: "k' \<noteq> k \<Longrightarrow> get (put k v t) k' = get t k'"
  by (simp add: get_put)

lemma entries_distinct: "ok t \<Longrightarrow> distinct (map fst (entries t))"
  using entries_sorted strict_sorted_iff by blast

lemma entries_put:
  "ok t \<Longrightarrow> set (entries (put k v t)) = insert (k, v) {e \<in> set (entries t). fst e \<noteq> k}"
  by (auto simp: entries_get ok_put get_put split: if_splits)

lemma put_put_same_key:
  "ok t \<Longrightarrow> get (put k v' (put k v t)) = get (put k v' t)"
  by (auto simp: get_put fun_eq_iff)

lemma same_entries_same_get:
  assumes "ok t" "ok u" "set (entries t) = set (entries u)"
  shows "get t k = get u k"
proof (cases "get u k")
  case None
  with assms entries_get [of u k] entries_get [of t k] show ?thesis
    by (metis not_Some_eq)
next
  case (Some v)
  with assms entries_get [of u k v] entries_get [of t k v] show ?thesis by simp
qed

end

lemma tinv_Nil [simp]: "tinv []"
  by (simp add: tinv_def)

lemma tget_tput: "tget (tput k v t) k' = (if k' = k then Some v else tget t k')"
  by (induction t rule: tput.induct [of "\<lambda>k v t. tget (tput k v t) k' = (if k' = k then Some v else tget t k')" k v])
     (auto simp: tget_def)

lemma fst_set_tput: "fst ` set (tput k v t) = insert k (fst ` set t)"
  by (induction k v t rule: tput.induct) auto

lemma tinv_tput: "tinv t \<Longrightarrow> tinv (tput k v t)"
proof (induction k v t rule: tput.induct)
  case (2 k v k' v' t)
  then show ?case
    using fst_set_tput [of k v t] by (force simp: tinv_def image_iff)
qed (simp add: tinv_def)

interpretation store_table: keyed_table tget tput "\<lambda>t. t" tinv
proof unfold_locales
  fix t :: "('a, 'b) table" and k v
  assume "tinv t"
  then have "distinct (map fst t)" by (simp add: tinv_def strict_sorted_iff)
  then show "(k, v) \<in> set t \<longleftrightarrow> tget t k = Some v"
    by (simp add: tget_def)
next
  fix t :: "('a, 'b) table"
  show "tinv t \<Longrightarrow> sorted_wrt (<) (map fst t)" by (simp add: tinv_def)
qed (simp_all add: tget_tput tinv_tput)

lemma tget_trows: "tinv t \<Longrightarrow> tget t k = Some v \<Longrightarrow> v \<in> set (trows t)"
  using store_table.entries_get [of t k v] by (force simp: trows_def)

lemma trows_iff: "tinv t \<Longrightarrow> v \<in> set (trows t) \<longleftrightarrow> (\<exists>k. tget t k = Some v)"
  using store_table.entries_get [of t] by (force simp: trows_def)

lemma tput_same: "tinv t \<Longrightarrow> tget t k = Some v \<Longrightarrow> tput k v t = t"
proof (induction k v t rule: tput.induct)
  case (2 k v k' v' t)
  from 2(2) have lt: "\<forall>k''\<in>fst ` set t. k' < k''" and "tinv t"
    by (auto simp: tinv_def)
  have "\<not> k < k'"
  proof
    assume "k < k'"
    with 2(3) have "map_of t k = Some v" by (auto simp: tget_def split: if_splits)
    then have "k \<in> fst ` set t" by (metis image_eqI fst_conv map_of_SomeD)
    with lt \<open>k < k'\<close> show False by force
  qed
  with 2 \<open>tinv t\<close> show ?case by (auto simp: tget_def)
qed (simp add: tget_def)

lemma tget_None_iff: "tget t k = None \<longleftrightarrow> k \<notin> fst ` set t"
  by (simp add: tget_def map_of_eq_None_iff)

lemma tdel_tget:
  assumes "tinv t"
  shows "tget (tdel p t) k = (case tget t k of None \<Rightarrow> None | Some v \<Rightarrow> if p k v then None else Some v)"
proof -
  have inv': "tinv (tdel p t)"
    using assms by (auto simp: tinv_def tdel_def sorted_wrt_map intro: sorted_wrt_filter)
  show ?thesis
    using store_table.entries_get [OF assms, of k] store_table.entries_get [OF inv', of k]
    by (auto simp: tdel_def split: option.splits) (metis not_None_eq)+
qed

lemma tinv_tdel: "tinv t \<Longrightarrow> tinv (tdel p t)"
  by (auto simp: tinv_def tdel_def sorted_wrt_map intro: sorted_wrt_filter)

lemma set_newest_first [simp]: "set (newest_first key rows) = set rows"
  by (simp add: newest_first_def)

end
