(* ===== verification/Rust_Text.thy ===== *)
theory Rust_Text
  imports Mivlet_Prelude
begin

text \<open>
  The part of Rust's string library that the source uses. A Rust \<open>String\<close> is its UTF-8 byte
  sequence, a HOL \<open>string\<close>; \<open>len()\<close> is \<open>length\<close>. The Unicode scalar values of a string are the
  chunks \<open>scalars s\<close> (a leading byte and its continuation bytes), so \<open>chars().count()\<close> is
  \<open>chars_count\<close> and a character predicate is a predicate on chunks. \<open>White_Space\<close> and control
  characters are given by their UTF-8 encodings.
\<close>

section \<open>Definitions\<close>

definition byte :: "char \<Rightarrow> nat" where
  "byte c = of_char c"

definition is_cont :: "char \<Rightarrow> bool" where
  "is_cont c = (128 \<le> byte c \<and> byte c < 192)"

function scalars :: "string \<Rightarrow> string list" where
  "scalars [] = []"
| "scalars (c # s) = (c # takeWhile is_cont s) # scalars (dropWhile is_cont s)"
  by pat_completeness auto
termination
  by (relation "measure length") (auto simp: le_imp_less_Suc length_dropWhile_le)

definition chars_count :: "string \<Rightarrow> nat" where
  "chars_count s = length (scalars s)"

definition white_space :: "string \<Rightarrow> bool" where
  "white_space ch =
     (case map byte ch of
        [a] \<Rightarrow> 9 \<le> a \<and> a \<le> 13 \<or> a = 32
      | [a, b] \<Rightarrow> a = 194 \<and> (b = 133 \<or> b = 160)
      | [a, b, c] \<Rightarrow>
          a = 225 \<and> b = 154 \<and> c = 128
          \<or> a = 226 \<and> b = 128 \<and> (128 \<le> c \<and> c \<le> 138 \<or> c = 168 \<or> c = 169 \<or> c = 175)
          \<or> a = 226 \<and> b = 129 \<and> c = 159
          \<or> a = 227 \<and> b = 128 \<and> c = 128
      | _ \<Rightarrow> False)"

definition is_control :: "string \<Rightarrow> bool" where
  "is_control ch =
     (case map byte ch of
        [a] \<Rightarrow> a < 32 \<or> a = 127
      | [a, b] \<Rightarrow> a = 194 \<and> 128 \<le> b \<and> b \<le> 159
      | _ \<Rightarrow> False)"

definition trim_chunks :: "string list \<Rightarrow> string list" where
  "trim_chunks cs = rev (dropWhile white_space (rev (dropWhile white_space cs)))"

definition trim :: "string \<Rightarrow> string" where
  "trim s = concat (trim_chunks (scalars s))"

definition ascii_digit :: "char \<Rightarrow> bool" where
  "ascii_digit c = (48 \<le> byte c \<and> byte c \<le> 57)"

definition ascii_alphanumeric :: "char \<Rightarrow> bool" where
  "ascii_alphanumeric c =
     (ascii_digit c \<or> 65 \<le> byte c \<and> byte c \<le> 90 \<or> 97 \<le> byte c \<and> byte c \<le> 122)"

definition ascii_lower_char :: "char \<Rightarrow> char" where
  "ascii_lower_char c = (if 65 \<le> byte c \<and> byte c \<le> 90 then char_of (byte c + 32) else c)"

definition to_ascii_lowercase :: "string \<Rightarrow> string" where
  "to_ascii_lowercase s = map ascii_lower_char s"

definition starts_with :: "string \<Rightarrow> string \<Rightarrow> bool" where
  "starts_with s p = prefix p s"

definition strip_prefix :: "string \<Rightarrow> string \<Rightarrow> string option" where
  "strip_prefix s p = (if prefix p s then Some (drop (length p) s) else None)"

definition replace_char :: "char \<Rightarrow> char \<Rightarrow> string \<Rightarrow> string" where
  "replace_char a b s = map (\<lambda>c. if c = a then b else c) s"

text \<open>\<open>str::split\<close> on one character: always at least one piece.\<close>

fun split_char :: "char \<Rightarrow> string \<Rightarrow> string list" where
  "split_char d [] = [[]]"
| "split_char d (c # s) =
     (if c = d then [] # split_char d s
      else (case split_char d s of [] \<Rightarrow> [[c]] | p # ps \<Rightarrow> (c # p) # ps))"

text \<open>\<open>str::find\<close> of a pattern string: the least byte offset where it occurs.\<close>

fun find_sub :: "string \<Rightarrow> string \<Rightarrow> nat option" where
  "find_sub p [] = (if p = [] then Some 0 else None)"
| "find_sub p (c # s) = (if prefix p (c # s) then Some 0 else map_option Suc (find_sub p s))"

definition contains_sub :: "string \<Rightarrow> string \<Rightarrow> bool" where
  "contains_sub s p = (find_sub p s \<noteq> None)"

text \<open>Decimal rendering of an unsigned integer.\<close>

fun dec :: "nat \<Rightarrow> string" where
  "dec n = (if n < 10 then [char_of (48 + n)] else dec (n div 10) @ [char_of (48 + n mod 10)])"

declare dec.simps [simp del]

section \<open>Scalar values\<close>

text \<open>Chunk lists as they come out of \<open>scalars\<close>: only the first may start with a continuation byte.\<close>

definition chunk :: "string \<Rightarrow> bool" where
  "chunk ch = (ch \<noteq> [] \<and> list_all is_cont (tl ch))"

definition chunked :: "string list \<Rightarrow> bool" where
  "chunked cs = (list_all chunk cs \<and> list_all (\<lambda>ch. \<not> is_cont (hd ch)) (tl cs))"

lemma concat_scalars [simp]: "concat (scalars s) = s"
  by (induction s rule: scalars.induct) (simp_all)

lemma hd_scalars_not_cont:
  "s \<noteq> [] \<Longrightarrow> \<not> is_cont (hd s) \<Longrightarrow> list_all (\<lambda>ch. \<not> is_cont (hd ch)) (scalars s)"
proof (induction s rule: scalars.induct)
  case (2 c s)
  show ?case
  proof (cases "dropWhile is_cont s = []")
    case True
    with 2 show ?thesis by (simp del: dropWhile_eq_Nil_conv)
  next
    case False
    then have "\<not> is_cont (hd (dropWhile is_cont s))" by (rule hd_dropWhile)
    with 2 False show ?thesis by (simp del: dropWhile_eq_Nil_conv)
  qed
qed simp

lemma scalars_after_cont:
  "list_all (\<lambda>ch. \<not> is_cont (hd ch)) (scalars (dropWhile is_cont s))"
proof (cases "dropWhile is_cont s = []")
  case False
  then show ?thesis using hd_scalars_not_cont hd_dropWhile by blast
qed (simp del: dropWhile_eq_Nil_conv)

lemma list_all_takeWhile: "list_all P (takeWhile P xs)"
  by (induction xs) auto

lemma scalars_chunk: "list_all chunk (scalars s)"
  by (induction s rule: scalars.induct) (auto simp: chunk_def list_all_takeWhile)

lemma chunked_scalars: "chunked (scalars s)"
proof (cases s)
  case (Cons c s')
  with scalars_chunk [of s] scalars_after_cont show ?thesis by (simp add: chunked_def)
qed (simp add: chunked_def)

lemma takeWhile_append_stop: "list_all P xs \<Longrightarrow> (ys = [] \<or> \<not> P (hd ys)) \<Longrightarrow>
    takeWhile P (xs @ ys) = xs \<and> dropWhile P (xs @ ys) = ys"
  by (induction xs) (cases ys; auto)+

lemma chunked_tl: "chunked (ch # cs) \<Longrightarrow> chunked cs"
  by (cases cs) (auto simp: chunked_def)

lemma scalars_concat: "chunked cs \<Longrightarrow> scalars (concat cs) = cs"
proof (induction cs)
  case (Cons ch cs)
  from Cons.prems obtain c t where ch: "ch = c # t" "list_all is_cont t"
    by (cases ch) (auto simp: chunked_def chunk_def)
  have stop: "concat cs = [] \<or> \<not> is_cont (hd (concat cs))"
    using Cons.prems by (cases cs) (auto simp: chunked_def chunk_def hd_append)
  from takeWhile_append_stop [OF ch(2) stop] ch Cons.IH [OF chunked_tl [OF Cons.prems]]
  show ?case by simp
qed simp

lemma chunked_append1: "chunked (xs @ ys) \<Longrightarrow> chunked xs"
  by (cases xs) (auto simp: chunked_def)

lemma chunked_append2: "chunked (xs @ ys) \<Longrightarrow> chunked ys"
  by (induction xs) (auto dest: chunked_tl)

section \<open>Trimming\<close>

lemma trim_chunks_sublist: "\<exists>pre post. cs = pre @ trim_chunks cs @ post"
proof -
  let ?d = "dropWhile white_space cs"
  have "cs = takeWhile white_space cs @ ?d" by simp
  moreover have "?d = rev (dropWhile white_space (rev ?d)) @ rev (takeWhile white_space (rev ?d))"
    by (metis rev_append rev_rev_ident takeWhile_dropWhile_id)
  ultimately show ?thesis by (metis trim_chunks_def)
qed

lemma chunked_trim_chunks: "chunked cs \<Longrightarrow> chunked (trim_chunks cs)"
  by (metis trim_chunks_sublist chunked_append1 chunked_append2)

lemma scalars_trim [simp]: "scalars (trim s) = trim_chunks (scalars s)"
  by (simp add: trim_def scalars_concat chunked_trim_chunks chunked_scalars)

lemma dropWhile_idem_hd: "xs = [] \<or> \<not> P (hd xs) \<Longrightarrow> dropWhile P xs = xs"
  by (cases xs) auto

lemma trim_chunks_ends:
  "trim_chunks cs = [] \<or> \<not> white_space (hd (trim_chunks cs)) \<and> \<not> white_space (last (trim_chunks cs))"
proof (cases "trim_chunks cs = []")
  case False
  let ?d = "dropWhile white_space cs" and ?r = "dropWhile white_space (rev (dropWhile white_space cs))"
  have r: "?r \<noteq> []" using False by (simp add: trim_chunks_def)
  then have l: "\<not> white_space (last (rev ?r))" by (simp add: last_rev hd_dropWhile)
  have "?d = rev ?r @ rev (takeWhile white_space (rev ?d))"
    by (metis rev_append rev_rev_ident takeWhile_dropWhile_id)
  then have "hd ?d = hd (rev ?r)" using r by (metis hd_append2 rev_is_Nil_conv)
  moreover have "?d \<noteq> []" using r by (metis dropWhile.simps(1) rev.simps(1))
  ultimately have "\<not> white_space (hd (rev ?r))" using hd_dropWhile [of white_space cs] by simp
  with l show ?thesis by (simp add: trim_chunks_def)
qed simp

lemma trim_chunks_idem: "trim_chunks (trim_chunks cs) = trim_chunks cs"
proof -
  let ?t = "trim_chunks cs"
  have "dropWhile white_space ?t = ?t"
    using trim_chunks_ends [of cs] by (auto intro: dropWhile_idem_hd)
  moreover have "dropWhile white_space (rev ?t) = rev ?t"
    using trim_chunks_ends [of cs] by (auto intro: dropWhile_idem_hd simp: hd_rev)
  ultimately show ?thesis by (simp add: trim_chunks_def [of ?t])
qed

lemma trim_trim [simp]: "trim (trim s) = trim s"
  by (simp add: trim_def [of "trim s"] trim_chunks_idem) (simp add: trim_def)

lemma chars_count_trim: "chars_count (trim s) \<le> chars_count s"
proof -
  obtain pre post where "scalars s = pre @ trim_chunks (scalars s) @ post"
    using trim_chunks_sublist by blast
  then have "length (scalars s) = length pre + length (trim_chunks (scalars s)) + length post"
    by (metis length_append add.assoc)
  then show ?thesis by (simp add: chars_count_def)
qed

lemma chars_count_le_length: "chars_count s \<le> length s"
proof -
  have "length cs \<le> length (concat cs)" if "list_all chunk cs" for cs
    using that
  proof (induction cs)
    case (Cons ch cs)
    then have "0 < length ch" and "length cs \<le> length (concat cs)" by (auto simp: chunk_def)
    then have "Suc (length cs) \<le> length ch + length (concat cs)" by linarith
    then show ?case by simp
  qed simp
  then show ?thesis using scalars_chunk [of s] by (metis chars_count_def concat_scalars)
qed

text \<open>Text without any byte of a white-space encoding is not trimmed.\<close>

definition no_space_byte :: "char \<Rightarrow> bool" where
  "no_space_byte c = (\<not> (9 \<le> byte c \<and> byte c \<le> 13) \<and> byte c \<noteq> 32 \<and> byte c < 128)"

lemma scalars_subset: "ch \<in> set (scalars s) \<Longrightarrow> set ch \<subseteq> set s"
  using concat_scalars [of s] by (metis UN_I set_concat subsetI)

lemma trim_plain:
  assumes "list_all no_space_byte s"
  shows "trim s = s"
proof -
  have "\<not> white_space ch" if ch: "ch \<in> set (scalars s)" for ch
  proof -
    have "ch \<noteq> []" using ch scalars_chunk [of s] by (auto simp: list_all_iff chunk_def)
    then obtain c t where c: "ch = c # t" by (cases ch) auto
    with scalars_subset [OF ch] assms have "no_space_byte c" by (auto simp: list_all_iff)
    then show ?thesis
      by (auto simp: white_space_def no_space_byte_def c split: list.splits)
  qed
  then have "dropWhile white_space (scalars s) = scalars s"
    and "dropWhile white_space (rev (scalars s)) = rev (scalars s)"
    by (auto simp: dropWhile_eq_self_iff hd_rev)
  then have "trim_chunks (scalars s) = scalars s" by (simp add: trim_chunks_def)
  then show ?thesis by (simp add: trim_def)
qed

section \<open>Splitting and case\<close>

lemma split_char_not_Nil [simp]: "split_char d s \<noteq> []"
  by (induction d s rule: split_char.induct) (auto split: list.splits)

lemma to_ascii_lowercase_idem: "to_ascii_lowercase (to_ascii_lowercase s) = to_ascii_lowercase s"
proof -
  have "ascii_lower_char (ascii_lower_char c) = ascii_lower_char c" for c
    by (auto simp: ascii_lower_char_def byte_def)
  then show ?thesis by (simp add: to_ascii_lowercase_def)
qed

end
