(* ===== verification/Collab_Errors.thy ===== *)
theory Collab_Errors
  imports Rust_Text
begin

text \<open>
  The errors and the status texts of the collaboration engine. \<open>Invalid\<close> is
  \<open>StoreError::Invalid\<close>; every \<open>err_\<close> constant is one message of the source, every \<open>msg_\<close>
  constant one text the engine stores in the \<open>reason\<close> of a Work. \<open>Panicked\<close> is a Rust panic; the
  transaction is abandoned on both. \<open>Diverges\<close> is the value of a loop that has not ended when its
  fuel is spent: the theorems on those loops show that a well-formed store never yields it.
\<close>

datatype cerr = Invalid string | Panicked | Diverges

text \<open>U+2013 in UTF-8.\<close>

definition en_dash :: string where
  "en_dash = [CHR 0xE2, CHR 0x80, CHR 0x93]"

definition err_invalid_id :: cerr where
  "err_invalid_id = Invalid ''Invalid coordination ID.''"

definition err_agent_unavailable :: cerr where
  "err_agent_unavailable = Invalid ''This agent profile is unavailable. Choose an existing teammate.''"

definition err_participant_count :: cerr where
  "err_participant_count = Invalid ''Choose one to eight participants. A coordinator, when designated, must be one of them.''"

definition err_duplicate_participant :: cerr where
  "err_duplicate_participant = Invalid ''Each participant can be included only once.''"

definition err_conversation_unavailable :: cerr where
  "err_conversation_unavailable = Invalid ''This conversation is unavailable.''"

definition err_work_unavailable :: cerr where
  "err_work_unavailable = Invalid ''This work item is unavailable.''"

definition err_project_unavailable :: cerr where
  "err_project_unavailable = Invalid ''This project is unavailable.''"

definition err_project_archived :: cerr where
  "err_project_archived = Invalid ''This project is archived.''"

definition err_reload_participants :: cerr where
  "err_reload_participants = Invalid ''Reload this project's participants.''"

definition err_record_limit :: cerr where
  "err_record_limit = Invalid ''The local coordination record limit was reached. Archive or delete finished conversations.''"

definition err_conversation_not_owned :: cerr where
  "err_conversation_not_owned = Invalid ''The conversation is not owned by this workspace member.''"

definition err_project_not_owned :: cerr where
  "err_project_not_owned = Invalid ''The project is not owned by this workspace member.''"

definition err_direct_needs_one :: cerr where
  "err_direct_needs_one = Invalid ''A direct conversation needs exactly one teammate.''"

definition err_standalone_group_retired :: cerr where
  "err_standalone_group_retired = Invalid ''Create a project to work with more than one teammate. Standalone groups are retired.''"

definition err_choose_from_team :: cerr where
  "err_choose_from_team = Invalid ''Choose participants from this project's team.''"

definition err_thread_title_invalid :: cerr where
  "err_thread_title_invalid = Invalid ''Thread title is invalid.''"

definition err_thread_deleted :: cerr where
  "err_thread_deleted = Invalid ''A deleted conversation cannot be recreated.''"

definition err_thread_foreign :: cerr where
  "err_thread_foreign = Invalid ''Thread does not belong to this workspace.''"

definition err_thread_lifecycle_invalid :: cerr where
  "err_thread_lifecycle_invalid = Invalid ''Thread lifecycle is invalid.''"

definition err_conversation_not_found :: cerr where
  "err_conversation_not_found = Invalid ''Conversation was not found in this workspace.''"

definition err_thread_run_active :: cerr where
  "err_thread_run_active = Invalid ''Stop the response before deleting this conversation.''"

definition err_recipient_count :: cerr where
  "err_recipient_count = Invalid ''Choose one to eight workspace recipients.''"

definition err_duplicate_recipient :: cerr where
  "err_duplicate_recipient = Invalid ''Each workspace recipient can be included only once.''"

definition err_edited_message_unavailable :: cerr where
  "err_edited_message_unavailable = Invalid ''The edited conversation message is unavailable.''"

definition err_branch_needs_user_message :: cerr where
  "err_branch_needs_user_message = Invalid ''Only an available user message can start a conversation branch.''"

definition err_submission_id_taken :: cerr where
  "err_submission_id_taken = Invalid ''This submission ID already belongs to different work.''"

definition err_too_much_work :: cerr where
  "err_too_much_work = Invalid ''Archive or delete old conversations before starting more work.''"

definition err_reconcile_before_branch :: cerr where
  "err_reconcile_before_branch = Invalid ''Review and reconcile interrupted or failed work before editing this conversation. Stop or finish active work first; earlier external actions cannot be undone by branching.''"

definition err_not_participant :: cerr where
  "err_not_participant = Invalid ''This agent is not a participant in this conversation.''"

definition err_not_project_participant :: cerr where
  "err_not_project_participant = Invalid ''This agent is no longer a project participant.''"

definition err_assignment_changed :: cerr where
  "err_assignment_changed = Invalid ''This assignment was stopped or changed. Its late result was rejected.''"

definition err_membership_changed :: cerr where
  "err_membership_changed = Invalid ''Conversation membership changed. Start a fresh assignment.''"

definition err_model_changed :: cerr where
  "err_model_changed = Invalid ''The agent's model changed. Continue using its current model.''"

definition err_permissions_reduced :: cerr where
  "err_permissions_reduced = Invalid ''The agent's permissions were reduced. Review this assignment before continuing.''"

definition err_project_context_changed :: cerr where
  "err_project_context_changed = Invalid ''The project context changed. Review the current work record before continuing.''"

definition err_parent_inactive :: cerr where
  "err_parent_inactive = Invalid ''The parent request is no longer active.''"

definition err_late_failure_rejected :: cerr where
  "err_late_failure_rejected = Invalid ''This assignment was stopped or changed. Its late failure was rejected.''"

definition err_cloud_work_cannot_bind :: cerr where
  "err_cloud_work_cannot_bind = Invalid ''Cloud Work cannot bind a local provider attempt. Refresh or cancel its authenticated cloud task first.''"

definition err_background_owned :: cerr where
  "err_background_owned = Invalid ''This Work belongs to the native background owner. Reconnect to inspect or stop it.''"

definition err_not_queued :: cerr where
  "err_not_queued = Invalid ''This assignment is not queued.''"

definition err_not_dispatchable :: cerr where
  "err_not_dispatchable = Invalid ''This request is paused or another queued request for this agent comes first.''"

definition err_recipient_busy :: cerr where
  "err_recipient_busy = Invalid ''This teammate is already executing another assignment. The request remains queued.''"

definition err_teammate_busy :: cerr where
  "err_teammate_busy = Invalid ''This teammate is working on another assignment. The request remains queued.''"

definition err_dependency_unresolved :: cerr where
  "err_dependency_unresolved = Invalid ''An assignment dependency is unresolved.''"

definition err_exchange_limit :: cerr where
  "err_exchange_limit = Invalid ''This exchange reached its turn or usage limit. Review the results before continuing.''"

definition err_attempt_missing :: cerr where
  "err_attempt_missing = Invalid ''The queued provider attempt is missing.''"

definition err_attempt_mismatch :: cerr where
  "err_attempt_mismatch = Invalid ''Bind only this conversation's exact queued provider attempt.''"

definition err_model_mismatch :: cerr where
  "err_model_mismatch = Invalid ''The queued provider/model differs from this agent's saved selection.''"

definition err_authorship_immutable :: cerr where
  "err_authorship_immutable = Invalid ''This attempt already has immutable authorship.''"

definition err_invalid_terminal_status :: cerr where
  "err_invalid_terminal_status = Invalid ''Invalid terminal work status.''"

definition err_attempt_unavailable :: cerr where
  "err_attempt_unavailable = Invalid ''The provider attempt is unavailable.''"

definition err_attempt_evidence_invalid :: cerr where
  "err_attempt_evidence_invalid = Invalid ''Invalid attempt evidence.''"

definition err_still_executing :: cerr where
  "err_still_executing = Invalid ''This attempt is still executing.''"

definition err_completion_needs_evidence :: cerr where
  "err_completion_needs_evidence = Invalid ''Completion needs a completed provider attempt and its saved result.''"

definition err_no_assistant_source :: cerr where
  "err_no_assistant_source = Invalid ''The completed attempt has no saved assistant source.''"

definition err_cloud_has_no_tools :: cerr where
  "err_cloud_has_no_tools = Invalid ''Cloud text tasks have no native tools, delegation, or coordination actions. Only an authenticated task receipt may finish this Work.''"

definition err_call_id_reused :: cerr where
  "err_call_id_reused = Invalid ''A tool call ID was reused with different instructions.''"

definition err_not_executing :: cerr where
  "err_not_executing = Invalid ''This assignment is not executing.''"

definition err_delegation_depth :: cerr where
  "err_delegation_depth = Invalid ''Delegation depth reached or self-handoff requested. Report the remaining work.''"

definition err_delegation_budget :: cerr where
  "err_delegation_budget = Invalid ''This exchange reached its delegation budget.''"

definition err_circular_handoff :: cerr where
  "err_circular_handoff = Invalid ''Circular handoffs are not allowed. Return your result to the requester.''"

definition err_already_dispatched :: cerr where
  "err_already_dispatched = Invalid ''That assignment has already been dispatched. Wait for its result.''"

definition err_too_many_dependencies :: cerr where
  "err_too_many_dependencies = Invalid ''Use at most four dependencies.''"

definition err_dependency_not_peer :: cerr where
  "err_dependency_not_peer = Invalid ''Dependencies must be existing peer assignments within this request.''"

definition err_fact_confidence :: cerr where
  "err_fact_confidence = Invalid ''Agents may record inferences or dated observations. Only the user confirms facts.''"

definition err_fact_needs_project :: cerr where
  "err_fact_needs_project = Invalid ''Shared facts require a project.''"

definition err_fact_team_only :: cerr where
  "err_fact_team_only = Invalid ''Only a project's configured team members may record shared facts.''"

definition err_too_many_attachments :: cerr where
  "err_too_many_attachments = Invalid ''A request can reference at most twelve attached files.''"

definition err_attachment_identity :: cerr where
  "err_attachment_identity = Invalid ''Each attached file needs a unique bounded identity.''"

definition err_attachment_name :: cerr where
  "err_attachment_name = Invalid ''The attached file name is invalid.''"

definition err_attachment_mime :: cerr where
  "err_attachment_mime = Invalid ''The attached file media type is invalid.''"

definition err_attachment_size :: cerr where
  "err_attachment_size = Invalid ''The attached file size is invalid.''"

definition err_staged_reference :: cerr where
  "err_staged_reference = Invalid ''The staged file reference is invalid.''"

definition err_knowledge_reference :: cerr where
  "err_knowledge_reference = Invalid ''The knowledge reference is invalid.''"

definition err_in_memory_reference :: cerr where
  "err_in_memory_reference = Invalid ''In-memory inputs cannot carry durable references.''"

definition err_unknown_reference :: cerr where
  "err_unknown_reference = Invalid ''The attached file reference kind is unknown.''"

definition err_unstarted_only :: cerr where
  "err_unstarted_only = Invalid ''Only an unstarted queued request can be edited. Refresh its current state.''"

definition err_move_within_conversation :: cerr where
  "err_move_within_conversation = Invalid ''Move this request relative to another queued request in the same conversation.''"

definition err_queue_changed :: cerr where
  "err_queue_changed = Invalid ''The queue changed. Refresh before moving this request.''"

definition err_goal_unstarted_only :: cerr where
  "err_goal_unstarted_only = Invalid (''Set a goal on an unstarted request with 1'' @ en_dash @ ''24 turns and 1,000''
     @ en_dash @ ''512,000 tokens.'')"

definition err_goal_refresh :: cerr where
  "err_goal_refresh = Invalid ''Refresh this active goal before changing it. Interrupted work needs explicit Continue.''"

definition err_no_goal :: cerr where
  "err_no_goal = Invalid ''This request has no outcome goal.''"

definition err_goal_ended :: cerr where
  "err_goal_ended = Invalid ''This goal has ended. Review its saved evidence.''"

definition err_goal_owner_only :: cerr where
  "err_goal_owner_only = Invalid ''Only the goal's owning agent can report completed, continue or blocked.''"

definition err_goal_inactive :: cerr where
  "err_goal_inactive = Invalid ''This goal is no longer active.''"

definition err_live_delivery_boundary :: cerr where
  "err_live_delivery_boundary = Invalid ''Live steering requires the native provider delivery boundary.''"

definition err_frozen_cloud_input :: cerr where
  "err_frozen_cloud_input = Invalid ''This cloud text request has frozen input. Stop or finish it, then start a new request and review its complete cloud text; live steering is unavailable.''"

definition err_steering_id_used :: cerr where
  "err_steering_id_used = Invalid ''Steering event ID was already used.''"

definition err_refresh_before_steering :: cerr where
  "err_refresh_before_steering = Invalid ''Refresh this Work before steering it; completed Work needs a new request.''"

definition err_frozen_cloud_reply :: cerr where
  "err_frozen_cloud_reply = Invalid ''Cloud text task input is frozen. Review its saved answer, then start a new request with a fresh cloud review; this task cannot accept replies or live steering.''"

definition err_follow_up_id_used :: cerr where
  "err_follow_up_id_used = Invalid ''This follow-up event ID was already used.''"

definition err_reload_before_reply :: cerr where
  "err_reload_before_reply = Invalid ''This assignment changed. Reload before replying.''"

definition err_follow_up_limit :: cerr where
  "err_follow_up_limit = Invalid ''This assignment reached its follow-up limit. Start a fresh request with the saved results.''"

definition err_assignment_ended :: cerr where
  "err_assignment_ended = Invalid ''This assignment has already ended.''"

definition err_effort_ended :: cerr where
  "err_effort_ended = Invalid ''This delegated assignment's effort has ended. Start a fresh request instead of replaying it.''"

definition err_reconcile_prerequisite :: cerr where
  "err_reconcile_prerequisite = Invalid ''Review the saved result and reconcile the prerequisite before continuing.''"

definition err_self_message :: cerr where
  "err_self_message = Invalid ''An assignment cannot message itself.''"

definition err_outside_effort :: cerr where
  "err_outside_effort = Invalid ''Task messages must stay within the originating effort.''"

definition err_not_task_scoped :: cerr where
  "err_not_task_scoped = Invalid ''This agent can only message its task-scoped lead or worker.''"

definition err_waiting_for_user :: cerr where
  "err_waiting_for_user = Invalid ''This assignment is waiting for the user; another agent cannot bypass that decision.''"

definition err_message_limit :: cerr where
  "err_message_limit = Invalid ''This assignment reached its task-message limit.''"

definition err_claim_limit :: cerr where
  "err_claim_limit = Invalid ''This assignment reached its resource claim limit.''"

definition err_resource_claimed :: cerr where
  "err_resource_claimed = Invalid ''This shared resource is already claimed by another active effort. Coordinate before writing.''"

definition err_conversation_changed :: cerr where
  "err_conversation_changed = Invalid ''This conversation changed. Reload before editing.''"

definition err_confirm_sharing_history :: cerr where
  "err_confirm_sharing_history = Invalid ''Confirm sharing existing conversation history with new participants.''"

definition err_confirm_sharing_room :: cerr where
  "err_confirm_sharing_room = Invalid ''Confirm sharing this conversation's history with the project.''"

definition err_confirm_sharing_project :: cerr where
  "err_confirm_sharing_project = Invalid ''Confirm sharing existing project conversations, references and work with new participants.''"

definition err_needs_project_for_more :: cerr where
  "err_needs_project_for_more = Invalid ''Create a project to work with more than one teammate.''"

definition err_add_to_project_first :: cerr where
  "err_add_to_project_first = Invalid ''Add new participants to the project first.''"

definition err_main_chat_permanent :: cerr where
  "err_main_chat_permanent = Invalid ''The main Chat is permanent. Only Side Chats can be renamed, archived or deleted.''"

definition err_stop_before_archive :: cerr where
  "err_stop_before_archive = Invalid ''Stop this Side Chat's active request before archiving it.''"

definition err_has_saved_requests :: cerr where
  "err_has_saved_requests = Invalid ''This Side Chat has saved requests. Archive it to preserve them.''"

definition err_has_saved_records :: cerr where
  "err_has_saved_records = Invalid ''This Side Chat has saved project records. Archive it to preserve them.''"

definition err_main_chat_conflict :: cerr where
  "err_main_chat_conflict = Invalid ''The main Chat identity conflicts with an existing record.''"

definition err_placed_already :: cerr where
  "err_placed_already = Invalid ''This conversation changed or already belongs to a project.''"

definition err_team_changed :: cerr where
  "err_team_changed = Invalid ''The project team or decisions changed. Reload before editing.''"

definition err_project_missing :: cerr where
  "err_project_missing = Invalid ''Project missing.''"

definition err_prepare_originals :: cerr where
  "err_prepare_originals = Invalid ''Prepare the original files and images in the agent workspace before queueing this request, so its saved inputs survive restart.''"

definition err_primary_first :: cerr where
  "err_primary_first = Invalid ''The primary agent must be the first explicit workspace recipient.''"

definition err_cloud_receipt_needed :: cerr where
  "err_cloud_receipt_needed = Invalid ''A cloud Work result needs its authenticated native task receipt.''"

definition err_cloud_terminal_needed :: cerr where
  "err_cloud_terminal_needed = Invalid ''Refresh the cloud task and obtain a terminal receipt or acknowledged cancellation before starting a local continuation.''"

definition err_reconcile_first :: cerr where
  "err_reconcile_first = Invalid ''Inspect the latest saved results and reconcile external effects before continuing.''"

definition err_no_longer_participant :: cerr where
  "err_no_longer_participant = Invalid ''This agent is no longer a participant. Create a new assignment for a current participant.''"

definition err_parent_ended :: cerr where
  "err_parent_ended = Invalid ''Start a new request; this assignment's parent has ended.''"

definition err_invalid_status_transition :: cerr where
  "err_invalid_status_transition = Invalid ''Invalid execution status transition.''"

definition err_external_access_revoked :: cerr where
  "err_external_access_revoked = Invalid ''The external client's access expired or was revoked. Review this Work.''"

definition err_external_access_exceeded :: cerr where
  "err_external_access_exceeded = Invalid ''This Work exceeds the external client's current grant.''"

definition err_occurrence_unavailable :: cerr where
  "err_occurrence_unavailable = Invalid ''This automation occurrence is unavailable.''"

definition err_schedule_unavailable :: cerr where
  "err_schedule_unavailable = Invalid ''This automation schedule is unavailable.''"

definition err_event_expiry_unavailable :: cerr where
  "err_event_expiry_unavailable = Invalid ''This event trigger expiry is unavailable.''"

definition err_event_expiry_invalid :: cerr where
  "err_event_expiry_invalid = Invalid ''This event trigger expiry is invalid.''"

definition err_event_time_invalid :: cerr where
  "err_event_time_invalid = Invalid ''This event execution time is invalid.''"

definition err_event_trigger_changed :: cerr where
  "err_event_trigger_changed = Invalid ''This event trigger changed or expired. Review saved results before continuing.''"

definition err_event_receipt_expiry_unavailable :: cerr where
  "err_event_receipt_expiry_unavailable = Invalid ''This event receipt expiry is unavailable.''"

definition err_event_receipt_expired :: cerr where
  "err_event_receipt_expired = Invalid ''This event receipt expired. Redeliver a fresh event before continuing.''"

definition err_automation_stopped :: cerr where
  "err_automation_stopped = Invalid ''This automation was paused, stopped or its claim expired. Review saved results before continuing.''"

definition err_live_id_used :: cerr where
  "err_live_id_used = Invalid ''This live guidance ID already belongs to different text.''"

definition err_live_unavailable :: cerr where
  "err_live_unavailable = Invalid ''Live steering is available only for an active foreground Codex turn. Use a next-turn follow-up for this route.''"

definition err_live_wait :: cerr where
  "err_live_wait = Invalid ''Wait for the active provider turn before steering.''"

definition err_live_no_binding :: cerr where
  "err_live_no_binding = Invalid ''The active guidance request has no canonical run binding.''"

definition err_live_foreign :: cerr where
  "err_live_foreign = Invalid ''The active guidance request no longer belongs to this assignment.''"

definition err_live_unconfirmed :: cerr where
  "err_live_unconfirmed = Invalid ''Inspect the existing live guidance receipt before sending another update. Unconfirmed input is never resent.''"

definition err_live_receipt_unavailable :: cerr where
  "err_live_receipt_unavailable = Invalid ''The live guidance receipt is unavailable.''"

definition err_run_unavailable :: cerr where
  "err_run_unavailable = Invalid ''This assignment is no longer available.''"

definition err_cloud_attempt_receipt :: cerr where
  "err_cloud_attempt_receipt = Invalid ''Cloud-owned attempt results require an authenticated native task receipt.''"

definition err_late_result :: cerr where
  "err_late_result = Invalid ''A stopped or superseded assignment cannot write a late result.''"

definition err_parent_unavailable :: cerr where
  "err_parent_unavailable = Invalid ''The parent request is unavailable.''"

definition err_no_handover_owner :: cerr where
  "err_no_handover_owner = Invalid ''No current assignment owns this browser handover.''"

definition err_ambiguous_handover :: cerr where
  "err_ambiguous_handover = Invalid ''More than one assignment could own this browser handover. Stop or finish the other assignment first.''"

definition err_handover_no_run :: cerr where
  "err_handover_no_run = Invalid ''The browser assignment has no live run binding.''"

definition err_handover_no_author :: cerr where
  "err_handover_no_author = Invalid ''The browser assignment's live author binding is unavailable.''"

definition err_handover_changed :: cerr where
  "err_handover_changed = Invalid ''The browser assignment changed. Refresh before handing it over.''"

definition err_parent_context_invalid :: cerr where
  "err_parent_context_invalid = Invalid ''Invalid captured parent context.''"

definition err_child_context_invalid :: cerr where
  "err_child_context_invalid = Invalid ''Invalid captured child context.''"

definition err_workspace_context_invalid :: cerr where
  "err_workspace_context_invalid = Invalid ''Invalid captured workspace context.''"

definition err_idle_required :: cerr where
  "err_idle_required = Invalid ''Stop or finish current work before switching conversation alternatives.''"

text \<open>\<open>bounded\<close> reports \<open>{label} must be 1-{max} characters.\<close>\<close>

definition err_bounded :: "string \<Rightarrow> nat \<Rightarrow> cerr" where
  "err_bounded label n = Invalid (label @ '' must be 1-'' @ dec n @ '' characters.'')"

section \<open>Status texts\<close>

definition msg_archived :: string where
  "msg_archived = ''This project was archived.''"

definition msg_project_edited :: string where
  "msg_project_edited = ''Project instructions or files changed. Review the current context and reconcile prior effects before continuing.''"

definition msg_queue_edited :: string where
  "msg_queue_edited = ''Queued message edited before dispatch.''"

definition msg_follow_up_queued_turn :: string where
  "msg_follow_up_queued_turn = ''A user follow-up arrived. A fresh turn is queued to review it.''"

definition msg_message_queued_turn :: string where
  "msg_message_queued_turn = ''A task-scoped message arrived. A fresh turn is queued to review it.''"

definition msg_unconfirmed :: string where
  "msg_unconfirmed = ''Live guidance has no confirmed delivery receipt. Review the saved result before continuing; it was not resent.''"

definition msg_requester_stopped :: string where
  "msg_requester_stopped = ''The requesting assignment stopped or needs the user.''"

definition msg_report_unresolved :: string where
  "msg_report_unresolved = ''Report the unresolved delegated assignment and ask the user what is needed. Do not claim it completed.''"

definition msg_delegate_unresolved :: string where
  "msg_delegate_unresolved = ''A delegated assignment is unresolved. Review its result or question before continuing.''"

definition msg_limit_reached :: string where
  "msg_limit_reached = ''The exchange reached its turn or usage limit. Review results before continuing.''"

definition msg_results_ready :: string where
  "msg_results_ready = ''Delegated results are ready for review.''"

definition msg_agent_removed :: string where
  "msg_agent_removed = ''The agent was removed or its model changed. Inspect prior results before continuing with a current teammate.''"

definition msg_goal_blocker :: string where
  "msg_goal_blocker = ''The agent reported a goal blocker. Review its evidence before continuing.''"

definition msg_goal_paused :: string where
  "msg_goal_paused = ''Goal paused at the completed turn boundary.''"

definition msg_goal_continues :: string where
  "msg_goal_continues = ''A fresh bounded turn will continue toward the goal using saved evidence.''"

definition msg_goal_no_report :: string where
  "msg_goal_no_report = ''No fresh goal progress report was saved for this turn. Review the result and remaining criteria before explicitly continuing.''"

definition msg_goal_budget :: string where
  "msg_goal_budget = ''The goal reached its turn or token budget. Review saved results before explicitly continuing.''"

definition msg_reset_steered :: string where
  "msg_reset_steered = ''Work was steered. Review saved outcomes before choosing a new continuation.''"

definition msg_steered_after_run :: string where
  "msg_steered_after_run = ''Steering saved. Review prior outcomes before continuing; no external effect was replayed.''"

definition msg_steered_before :: string where
  "msg_steered_before = ''Steering saved before dispatch.''"

definition msg_requester_steered :: string where
  "msg_requester_steered = ''The requesting Work was steered. Review existing outcomes before continuing.''"

definition msg_reply_queued :: string where
  "msg_reply_queued = ''A user follow-up is queued for a fresh turn.''"

definition msg_reply_fresh :: string where
  "msg_reply_fresh = ''A user follow-up starts a fresh turn from the saved result.''"

definition msg_reply_waiting :: string where
  "msg_reply_waiting = ''A user follow-up is queued after delegated results.''"

definition msg_message_queued :: string where
  "msg_message_queued = ''A task-scoped follow-up is queued for the next turn.''"

definition msg_stopped_by_user :: string where
  "msg_stopped_by_user = ''Stopped by the user. Already completed external actions are not undone.''"

definition msg_project_stopped :: string where
  "msg_project_stopped = ''The user stopped this project.''"

definition msg_continue_reset :: string where
  "msg_continue_reset = ''An ordinary continuation replaced the reset request.''"

definition msg_continuation :: string where
  "msg_continuation = ''Continuation requested after reviewing saved results. Use a fresh attempt; never replay external effects.''"

definition msg_requester_failed :: string where
  "msg_requester_failed = ''The requesting task failed. Review prior effects before continuing.''"

definition msg_participants_changed :: string where
  "msg_participants_changed = ''Conversation participants changed. Review the assignment before continuing.''"

definition msg_room_shared :: string where
  "msg_room_shared = ''This conversation was shared with a project. Review its context before continuing.''"

definition msg_team_changed :: string where
  "msg_team_changed = ''The project lead or participants changed. Review current assignments before continuing.''"

definition msg_facts_changed :: string where
  "msg_facts_changed = ''Project decisions or facts changed. Read the current record before continuing; previous external effects may need reconciliation.''"

definition msg_restarted :: string where
  "msg_restarted = ''Mivlet restarted. Review saved outcomes before choosing a new continuation.''"

definition msg_app_stopped :: string where
  "msg_app_stopped = ''The app stopped during this work. Inspect saved results and reconcile any external actions before continuing. Nothing was replayed.''"

definition msg_owner_lost :: string where
  "msg_owner_lost = ''This assignment lost its execution owner. Inspect saved results and reconcile any external actions before continuing. Nothing was replayed.''"

definition msg_session_ended :: string where
  "msg_session_ended = ''Account session ended. Inspect saved results and reconcile uncertain external effects before continuing. Nothing was replayed.''"

definition msg_live_uncertain :: string where
  "msg_live_uncertain = ''Live guidance delivery is uncertain. Stop and inspect the saved result before continuing; it was not sent again.''"

definition msg_reset_cancelled :: string where
  "msg_reset_cancelled = ''Reset continuation cancelled by the user.''"

end
