(* ===== verification/Collab_Models.thy ===== *)
theory Collab_Models
  imports Collab_Errors Secret_Redaction
begin

text \<open>
  The data model of the collaboration engine (\<open>collaboration/models.rs\<close>): Work assignments and
  their status, conversations, teams, run authors, facts, agent commands and user commands, and
  the rows of the neighbouring tables that the engine reads (threads, messages, provider
  attempts, projects, external grants, schedule occurrences). Field names carry a prefix per
  record (\<open>w_\<close> for \<open>Work\<close>, \<open>c_\<close> for \<open>Conversation\<close>, ...); every field of the source struct is
  present unless the text before the record says otherwise.
\<close>

section \<open>JSON values (serde_json)\<close>

datatype json = JNull | JBool bool | JNum string | JStr string | JArr "json list"
  | JObj "(string, json) table"

text \<open>\<open>value[key]\<close> on the right of an assignment: \<open>Null\<close> unless an object has the key.\<close>

definition jindex :: "json \<Rightarrow> string \<Rightarrow> json" where
  "jindex v key = (case v of JObj o' \<Rightarrow> (case tget o' key of Some x \<Rightarrow> x | None \<Rightarrow> JNull) | _ \<Rightarrow> JNull)"

definition jstr :: "json \<Rightarrow> string option" where
  "jstr v = (case v of JStr s \<Rightarrow> Some s | _ \<Rightarrow> None)"

section \<open>Work status\<close>

datatype work_status = Queued | Running | Waiting | Blocked | AwaitingApproval | AwaitingUser
  | Completed | Failed | Cancelled

definition active :: "work_status \<Rightarrow> bool" where
  "active st = (case st of Queued \<Rightarrow> True | Running \<Rightarrow> True | Waiting \<Rightarrow> True
     | AwaitingApproval \<Rightarrow> True | _ \<Rightarrow> False)"

definition executing :: "work_status \<Rightarrow> bool" where
  "executing st = (case st of Running \<Rightarrow> True | AwaitingApproval \<Rightarrow> True | _ \<Rightarrow> False)"

section \<open>Records\<close>

record participant =
  pt_agent_id :: string
  pt_name :: string

record chat_binding =
  cb_role :: string
  cb_owner_kind :: string
  cb_owner_id :: string

record conversation =
  c_chat :: "chat_binding option"
  c_archived :: bool
  c_id :: string
  c_workspace_id :: string
  c_kind :: string
  c_title :: string
  c_project_id :: "string option"
  c_facilitator_id :: "string option"
  c_participants :: "participant list"
  c_revision :: u32
  c_generation :: u32
  c_created_at :: string
  c_updated_at :: string

record author =
  au_run_id :: string
  au_conversation_id :: string
  au_agent_id :: string
  au_name :: string
  au_work_id :: "string option"
  au_generation :: u32

record team =
  tm_project_id :: string
  tm_lead_agent_id :: "string option"
  tm_participant_ids :: "string list"
  tm_revision :: u32

record work_output =
  o_run_id :: string
  o_conversation_id :: string
  o_branch_id :: "string option"
  o_message_id :: "string option"
  o_source_revision_id :: "string option"
  o_text :: string
  o_evidence :: string
  o_created_at :: string

record work_attachment =
  wa_id :: string
  wa_name :: string
  wa_mime_type :: string
  wa_size_bytes :: u64
  wa_availability :: string
  wa_relative_path :: "string option"
  wa_source_id :: "string option"
  wa_sha256 :: "string option"

record work_queue =
  q_held :: bool
  q_order :: u32

record goal_report =
  gr_status :: string
  gr_text :: string
  gr_run_id :: string
  gr_created_at :: string

record outcome_goal =
  g_objective :: string
  g_success_criteria :: string
  g_status :: string
  g_report :: "goal_report option"

record outcome_goal_input =
  gi_objective :: string
  gi_success_criteria :: string
  gi_max_turns :: u32
  gi_max_tokens :: u64

record live_work_steering =
  ls_id :: string
  ls_text :: string
  ls_run_id :: string
  ls_delivery :: string
  ls_created_at :: string

record work_steering =
  ws_id :: string
  ws_text :: string
  ws_created_at :: string

record task_message =
  ms_id :: string
  ms_from_work_id :: string
  ms_from_agent_id :: string
  ms_to_work_id :: string
  ms_text :: string
  ms_question :: bool
  ms_created_at :: string

record reset_continuation =
  rc_connection_revision :: "string option"
  rc_opportunity_id :: string
  rc_resets_at :: string
  rc_provider_id :: string
  rc_identity :: string
  rc_generation :: u32
  rc_run_id :: string
  rc_state :: string
  rc_reason :: "string option"

record object_reference =
  or_workspace_id :: string
  or_kind :: string
  or_id :: string

record captured_context =
  cc_mode :: string
  cc_source :: object_reference
  cc_source_revision :: string
  cc_version :: u32
  cc_captured_at :: string
  cc_text :: string

text \<open>The event origin of a scheduled Work: the engine reads its expiry only.\<close>

text \<open>The provenance of an event-triggered occurrence (\<open>events/models.rs\<close>).\<close>

datatype event_source = Signed_Json string | Github_Issues string | Github_Workflow_Run string

record event_work_origin =
  eo_delivery_id :: string
  eo_source :: event_source
  eo_received_at :: string
  eo_expires_at :: string
  eo_selected_fields :: "(string, json) table"

record scheduled_context =
  sc_event :: "event_work_origin option"
  sc_occurrence_id :: string
  sc_reasoning_effort :: "string option"

record external_context =
  ec_grant_id :: string
  ec_client_name :: string

text \<open>
  The cloud execution of a Work: the engine reads the phase, the saved review and the status of
  the last snapshot; the remaining fields of \<open>Execution\<close> belong to the hosted transport.
\<close>

record hosted_execution =
  ht_phase :: string
  ht_review_id :: "string option"
  ht_snapshot_status :: "string option"

record repository_binding =
  rb_version :: u8
  rb_repository_id :: string
  rb_branch :: string
  rb_base_commit :: string
  rb_captured_at :: string

record historical_message =
  hm_message_id :: string
  hm_revision_id :: string
  hm_sequence :: int
  hm_role :: string
  hm_kind :: string
  hm_state :: string
  hm_text :: string

record continuation =
  k_version :: u32
  k_strategy :: string
  k_fingerprint :: string
  k_conversation_id :: string
  k_model_option_id :: string
  k_source_model_option_id :: "string option"
  k_through_sequence :: int
  k_source_history_digest :: string
  k_context_window :: u64
  k_capacity_source :: string
  k_budget_bytes :: nat
  k_history_bytes :: nat
  k_omitted_count :: nat
  k_attachment_count :: nat
  k_messages :: "historical_message list"
  k_reference :: string

record work =
  w_hosted_task :: "hosted_execution option"
  w_repository_binding :: "repository_binding option"
  w_queue :: "work_queue option"
  w_outcome_goal :: "outcome_goal option"
  w_live_steering :: "live_work_steering list"
  w_execution_owner :: "string option"
  w_reset_continuation :: "reset_continuation option"
  w_continuation :: "continuation option"
  w_external_client :: "external_context option"
  w_schedule :: "scheduled_context option"
  w_captured_context :: "captured_context option"
  w_steering :: "work_steering list"
  w_messages :: "task_message list"
  w_delivered_message_count :: u32
  w_delivered_steering_count :: u32
  w_permission_mode :: string
  w_attachments :: "work_attachment list"
  w_origin :: "string option"
  w_id :: string
  w_workspace_id :: string
  w_conversation_id :: string
  w_parent_message_id :: "string option"
  w_project_id :: "string option"
  w_root_id :: string
  w_parent_id :: "string option"
  w_agent_id :: string
  w_agent_name :: string
  w_workspace_recipient :: bool
  w_resource_claims :: "string list"
  w_recipient_ids :: "string list"
  w_prompt :: string
  w_user_request :: string
  w_status :: work_status
  w_reason :: "string option"
  w_dependencies :: "string list"
  w_waiting_for :: "string list"
  w_prerequisites :: "string list"
  w_awaiting_user :: bool
  w_generation :: u32
  w_conversation_generation :: u32
  w_context_revision :: u32
  w_depth :: u32
  w_turn_count :: u32
  w_token_usage :: u64
  w_max_turns :: u32
  w_max_tokens :: u64
  w_run_ids :: "string list"
  w_current_run_id :: "string option"
  w_model_option_id :: string
  w_outputs :: "work_output list"
  w_created_at :: string
  w_updated_at :: string

record fact =
  f_id :: string
  f_project_id :: string
  f_kind :: string
  f_text :: string
  f_confidence :: string
  f_status :: string
  f_conversation_id :: string
  f_run_id :: "string option"
  f_branch_id :: "string option"
  f_message_id :: "string option"
  f_source_revision_id :: "string option"
  f_pinned :: bool
  f_source :: string
  f_supersedes_id :: "string option"
  f_created_at :: string

record learned_task =
  lt_id :: string
  lt_title :: string
  lt_instruction :: string
  lt_created_at :: string
  lt_updated_at :: string

text \<open>
  \<open>MivletAgentProfile\<close>: the presentation fields (icon, colour, avatar, notifications, fast mode)
  are left out; no operation of the engine reads them.
\<close>

record agent_profile =
  p_id :: string
  p_name :: string
  p_instructions :: string
  p_model_id :: string
  p_reasoning_effort :: "string option"
  p_connector_ids :: "string list"
  p_knowledge_source_ids :: "string list"
  p_permission_label :: string
  p_thread_id :: "string option"
  p_thread_ids :: "string list"
  p_learned_tasks :: "learned_task list"

section \<open>Commands\<close>

datatype agent_command =
    GoalReport string string
  | Delegate string string string "string list" bool
    \<comment> \<open>agent id, prompt, title, dependencies, focused\<close>
  | Message string string bool
    \<comment> \<open>assignment id, message, question\<close>
  | ClaimResource string
  | RecordFact string string string string "string option"
    \<comment> \<open>text, fact kind, source, confidence, supersedes id\<close>
  | AwaitUser string

section \<open>Rows of the neighbouring tables\<close>

text \<open>\<open>store/repos/thread.rs\<close>: a conversation thread and its owner member.\<close>

record thread_row =
  th_title :: string
  th_lifecycle :: string
  th_last_sequence :: int
  th_last_message_id :: "string option"
  th_selected_head_id :: "string option"
  th_owner_member_id :: "string option"
  th_created_at :: string
  th_updated_at :: string

text \<open>
  \<open>store/repos/message.rs\<close>: a message with its place in the log (\<open>seq\<close>, the append predecessor),
  its place in the branch tree (the parent) and its current revision, and the immutable revisions.
  \<open>content\<close> is the decrypted payload.
\<close>

record message_row =
  m_id :: string
  m_thread_id :: string
  m_sequence :: int
  m_parent_id :: "string option"
  m_previous_id :: "string option"
  m_kind :: string
  m_run_id :: "string option"
  m_detail :: json
  m_idempotency :: string
  m_current_revision_id :: string
  m_current_revision_number :: int
  m_current_revision_state :: string
  m_created_at :: string

record revision_row =
  rv_id :: string
  rv_message_id :: string
  rv_number :: int
  rv_base :: int
  rv_previous_id :: "string option"
  rv_state :: string
  rv_reason :: string
  rv_idempotency :: string
  rv_run_id :: "string option"
  rv_content :: json
  rv_created_at :: string

text \<open>
  The decoded payload of a provider attempt (\<open>models.rs\<close>, \<open>ExecutionAttempt\<close>): what the engine
  reads of it. Of its exchanges, the role and the content are kept.
\<close>

record execution_attempt =
  at_id :: string
  at_provider_id :: string
  at_model :: string
  at_status :: string
  at_transcript :: string
  at_thread_id :: "string option"
  at_exchanges :: "(string \<times> string) list"
  at_turn :: int
  at_usage :: "(u64 \<times> u64) option"
  at_pending_approval_ids :: "string list"
  at_recoverable :: bool
  at_retry_count :: int
  at_error :: "string option"
  at_created_at :: string
  at_updated_at :: string

text \<open>The prompt of a scheduled attempt: the content of its first exchange.\<close>

definition at_prompt :: "execution_attempt \<Rightarrow> string option" where
  "at_prompt a = (case at_exchanges a of [] \<Rightarrow> None | (_, content) # _ \<Rightarrow> Some content)"

record attempt_row =
  ar_thread_id :: "string option"
  ar_provider_id :: string
  ar_model :: string
  ar_status :: string
  ar_turn :: int
  ar_recoverable :: bool
  ar_retry_count :: int
  ar_created_at :: string
  ar_updated_at :: string
  ar_payload :: "execution_attempt option"

record project_row =
  pj_lifecycle :: string
  pj_revision :: int
  pj_thread_id :: string
  pj_updated_at :: string
  pj_payload :: json

record run_author_row =
  ra_project_id :: string
  ra_agent_id :: string
  ra_thread_id :: string
  ra_created_at :: string
  ra_payload :: json

datatype grant_access = ReadOnly | RequestTasks

record grant =
  gt_id :: string
  gt_agent_ids :: "string list"
  gt_access :: grant_access
  gt_permission_mode :: string
  gt_expires_at :: int
  gt_revoked :: bool

record saved_access =
  sa_enabled :: bool
  sa_grants :: "grant list"

record occurrence_row =
  oc_schedule_id :: string
  oc_schedule_revision :: int
  oc_prompt_revision :: int
  oc_state :: string
  oc_slot_fingerprint :: string
  oc_claim_fingerprint :: string
  oc_lease_expires_at :: string
  oc_execution_attempt_id :: "string option"
  oc_scheduled_for :: string
  oc_claimed_at :: string
  oc_started_at :: "string option"
  oc_completed_at :: "string option"
  oc_updated_at :: string
  oc_payload :: json

record schedule_row =
  sr_agent_id :: string
  sr_status :: string
  sr_trigger_kind :: string
  sr_revision :: int
  sr_prompt_revision :: int
  sr_next_run_at :: "string option"
  sr_created_at :: string
  sr_updated_at :: string
  sr_payload :: json

text \<open>
  A row of the event outbox (\<open>store/repos/local_event.rs\<close>, \<open>DeliveryRow\<close>, with the column
  \<open>redacted_at\<close>); the outbox lists its rows by their rowid.
\<close>

record delivery_row =
  dv_id :: string
  dv_schedule_id :: string
  dv_schedule_revision :: int
  dv_fingerprint :: "string option"
  dv_body_fingerprint :: "string option"
  dv_state :: string
  dv_received_at :: string
  dv_expires_at :: string
  dv_dedup_until :: string
  dv_occurrence_id :: "string option"
  dv_redacted_at :: "string option"
  dv_payload :: json

text \<open>
  The allowance a provider reported (\<open>provider_usage.rs\<close>). Of a usage window the engine reads
  only whether \<open>used_percent < 100.0\<close>, the \<open>bool\<close> kept here.
\<close>

record opportunity =
  op_id :: string
  op_resets_at :: string

record allowance =
  al_identity :: string
  al_status :: string
  al_checked_at :: string
  al_observed_at :: "string option"
  al_windows :: "bool list"
  al_reason :: "string option"
  al_reset_opportunity :: "opportunity option"

text \<open>The reviewed input of a provider continuation (\<open>provider_continuation.rs\<close>, \<open>Input\<close>).\<close>

record continuation_input =
  ci_conversation_id :: string
  ci_agent_id :: string
  ci_model_option_id :: string
  ci_prompt :: string
  ci_context_window :: "u64 option"

text \<open>
  The saved settings of background execution (\<open>background_worker/persistence.rs\<close>) and of the
  workspace pause (\<open>execution_control.rs\<close>); \<open>revision\<close> is an \<open>i64\<close>.
\<close>

record worker_settings =
  wk_version :: u32
  wk_enabled :: bool
  wk_generation :: u64

record control_state =
  cs_paused :: bool
  cs_revision :: int
  cs_changed_at :: string

text \<open>
  The layout of the workspace window. \<open>ratio\<close> is an \<open>f64\<close>, kept as its 64 bits; indices are
  \<open>usize\<close>.
\<close>

record view =
  v_id :: string
  v_conversation_id :: string
  v_kind :: string
  v_agent_id :: "string option"
  v_output :: "string option"
  v_title :: "string option"

datatype layout_node =
    Pane nat
  | Split string u64 layout_node layout_node

record layout =
  l_version :: u32
  l_panes :: "string list list"
  l_views :: "view list"
  l_active :: "string option list"
  l_active_pane :: nat
  l_tree :: "layout_node option"
  l_closed :: "view list"

section \<open>The store and the calling context\<close>

text \<open>
  One account workspace of the encrypted store: the seven record kinds of
  \<open>store/repos/collaboration.rs\<close> and the neighbouring tables. Rows of a kind are ordered by id, as \<open>repo::list\<close> returns them.
  A receipt row carries its \<open>conversation_id\<close> column beside the command. A saved preference is
  \<open>None\<close> when it is absent and \<open>Some None\<close> when it does not decode; \<open>run_authors\<close> are the legacy attributions of local
  projects by run; \<open>connections\<close> pairs a provider with the time stamp of its
  connection; \<open>allowances\<close> holds the saved measurements by provider (\<open>None\<close> where the saved JSON
  does not decode) and \<open>limit_failures\<close> the saved usage-limit evidence by run.
\<close>

record store =
  conversations :: "(string, conversation) table"
  authors :: "(string, author) table"
  teams :: "(string, team) table"
  works :: "(string, work) table"
  facts :: "(string, fact) table"
  receipts :: "(string, string \<times> agent_command) table"
  threads :: "(string, thread_row) table"
  tombstones :: "string list"
  messages :: "message_row list"
  attempts :: "(string, attempt_row) table"
  projects :: "(string, project_row) table"
  access :: saved_access
  occurrences :: "(string, occurrence_row) table"
  schedules :: "(string, schedule_row) table"
  deliveries :: "delivery_row list"
  message_revisions :: "revision_row list"
  run_authors :: "(string, run_author_row) table"
  connections :: "(string \<times> string) list"
  allowances :: "(string, allowance option) table"
  limit_failures :: "(string, json) table"
  saved_layout :: "layout option"
  worker_pref :: "worker_settings option option"
  control_pref :: "control_state option option"

text \<open>
  The \<open>Context\<close> of a transaction: the agent profiles, the time stamp and the owner of the scope,
  with the native services the engine calls. \<open>sha256\<close> is the hexadecimal SHA-256 digest (crate
  \<open>sha2\<close>), \<open>parse_time\<close> is chrono's RFC 3339 parser (nanoseconds since the epoch, or \<open>None\<close>), \<open>json_parse\<close> and
  \<open>json_print\<close> are serde_json's; \<open>capture\<close> is \<open>context::capture_for_edit\<close>, \<open>capture_repository\<close>
  is \<open>coding::capture_work_repository\<close>; \<open>prepare\<close> is
  \<open>provider_continuation::prepare\<close>; \<open>user_id\<close> is the internal user id of the scope; \<open>now_again\<close> is the
  time stamp of a second \<open>now()\<close> inside the transaction, \<open>clock\<close> is \<open>Utc::now().timestamp()\<close> and \<open>is_worker\<close>
  says whether this process is the background worker; \<open>worker_ready\<close> and \<open>worker_locked\<close> are the
  state of the worker's operating-system lock, \<open>worker_generation\<close> the generation the worker process
  captured at its start. \<open>inline_redactors\<close> and \<open>surviving_patterns\<close> are the
  compiled secret vocabulary of \<open>secret_redaction.rs\<close>.
\<close>

record ctx =
  profiles :: "agent_profile list"
  time :: string
  workspace :: string
  owner_member :: "string option"
  owner_subject :: string
  sha256 :: "string \<Rightarrow> string"
  parse_time :: "string \<Rightarrow> int option"
  json_parse :: "string \<Rightarrow> json option"
  json_print :: "json \<Rightarrow> string"
  capture :: "store \<Rightarrow> conversation \<Rightarrow> agent_profile \<Rightarrow> string option \<Rightarrow> cerr + captured_context"
  capture_repository :: "string \<Rightarrow> string \<Rightarrow> string \<Rightarrow> cerr + repository_binding option"
  prepare :: "store \<Rightarrow> continuation_input \<Rightarrow> cerr + continuation \<times> captured_context"
  user_id :: string
  now_again :: string
  clock :: int
  is_worker :: bool
  worker_ready :: bool
  worker_locked :: bool
  worker_generation :: "u64 option"
  inline_redactors :: "redactor list"
  surviving_patterns :: "(string \<Rightarrow> bool) list"

section \<open>Facts about statuses\<close>

lemma executing_active: "executing st \<Longrightarrow> active st"
  by (cases st) (auto simp: active_def executing_def)

lemma active_simps [simp]:
  "active Queued" "active Running" "active Waiting" "active AwaitingApproval"
  "\<not> active Blocked" "\<not> active AwaitingUser" "\<not> active Completed" "\<not> active Failed"
  "\<not> active Cancelled"
  by (simp_all add: active_def)

lemma executing_simps [simp]:
  "executing Running" "executing AwaitingApproval" "\<not> executing Queued" "\<not> executing Waiting"
  "\<not> executing Blocked" "\<not> executing AwaitingUser" "\<not> executing Completed"
  "\<not> executing Failed" "\<not> executing Cancelled"
  by (simp_all add: executing_def)

end
