(* ===== verification/Collab_Store.thy ===== *)
theory Collab_Store
  imports Collab_Models
begin

text \<open>
  Admission checks on identifiers and text, agent lookup, the typed reads and writes of the record
  store (\<open>collaboration.rs\<close>, \<open>store/repos/collaboration.rs\<close>), conversation threads
  (\<open>store/repos/thread.rs\<close>), room creation, and the two authority checks that every current
  assignment passes: the external client's grant (\<open>mcp_server/repository.rs\<close>) and the schedule
  claim (\<open>collaboration/schedules.rs\<close>). A read is \<open>store \<Rightarrow> cerr + 'a\<close>, a write
  \<open>store \<Rightarrow> cerr + store\<close>.
\<close>

section \<open>Text and identifiers\<close>

definition bounded :: "string \<Rightarrow> nat \<Rightarrow> string \<Rightarrow> cerr + string" where
  "bounded value n label =
     (let v = trim value in
      if v = [] \<or> n < chars_count v \<or> CHR 0x00 \<in> set v then Inl (err_bounded label n)
      else Inr v)"

definition check_id :: "string \<Rightarrow> cerr + unit" where
  "check_id value =
     bindE (bounded value 128 ''ID'') (\<lambda>_.
       if list_all (\<lambda>c. ascii_alphanumeric c \<or> c \<in> set ''-_:.'') value then Inr ()
       else Inl err_invalid_id)"

lemma check_id_trim:
  assumes "check_id k = Inr u"
  shows "trim k = k"
proof (rule trim_plain)
  from assms have "list_all (\<lambda>c. ascii_alphanumeric c \<or> c \<in> set ''-_:.'') k"
    by (simp add: check_id_def result_simps)
  moreover have "no_space_byte c" if "ascii_alphanumeric c \<or> c \<in> set ''-_:.''" for c
    using that by (auto simp: no_space_byte_def ascii_alphanumeric_def ascii_digit_def byte_def)
  ultimately show "list_all no_space_byte k" by (simp add: list_all_iff)
qed

definition find_profile :: "agent_profile list \<Rightarrow> string \<Rightarrow> cerr + agent_profile" where
  "find_profile ps agent = ok_or err_agent_unavailable (find (\<lambda>p. p_id p = agent) ps)"

fun participants_loop ::
  "agent_profile list \<Rightarrow> string list \<Rightarrow> string list \<Rightarrow> cerr + participant list" where
  "participants_loop ps seen [] = Inr []"
| "participants_loop ps seen (agent # ids) =
     (if agent \<in> set seen then Inl err_duplicate_participant
      else bindE (find_profile ps agent) (\<lambda>p.
           bindE (participants_loop ps (agent # seen) ids) (\<lambda>rest.
           Inr (\<lparr>pt_agent_id = p_id p, pt_name = p_name p\<rparr> # rest))))"

definition participants ::
  "agent_profile list \<Rightarrow> string list \<Rightarrow> string option \<Rightarrow> cerr + participant list" where
  "participants ps ids facilitator =
     (if ids = [] \<or> 8 < length ids
         \<or> (case facilitator of None \<Rightarrow> False | Some lead \<Rightarrow> lead \<notin> set ids)
      then Inl err_participant_count
      else participants_loop ps [] ids)"

section \<open>Record store\<close>

definition put_check :: "ctx \<Rightarrow> string option \<Rightarrow> string option \<Rightarrow> store \<Rightarrow> cerr + unit" where
  "put_check ctx conversation project s =
     (if (case conversation of None \<Rightarrow> False
          | Some c \<Rightarrow> (case tget (threads s) c of None \<Rightarrow> True
                      | Some th \<Rightarrow> th_owner_member_id th \<noteq> owner_member ctx))
      then Inl err_conversation_not_owned
      else if (case project of None \<Rightarrow> False | Some p \<Rightarrow> tget (projects s) p = None)
      then Inl err_project_not_owned
      else Inr ())"

definition put_conversation :: "ctx \<Rightarrow> conversation \<Rightarrow> store \<Rightarrow> cerr + store" where
  "put_conversation ctx room s =
     bindE (put_check ctx (Some (c_id room)) (c_project_id room) s) (\<lambda>_.
       Inr (s\<lparr>conversations := tput (c_id room) room (conversations s)\<rparr>))"

definition put_work :: "ctx \<Rightarrow> work \<Rightarrow> store \<Rightarrow> cerr + store" where
  "put_work ctx w s =
     bindE (put_check ctx (Some (w_conversation_id w)) (w_project_id w) s) (\<lambda>_.
       Inr (s\<lparr>works := tput (w_id w) w (works s)\<rparr>))"

definition put_team :: "ctx \<Rightarrow> team \<Rightarrow> store \<Rightarrow> cerr + store" where
  "put_team ctx tm s =
     bindE (put_check ctx None (Some (tm_project_id tm)) s) (\<lambda>_.
       Inr (s\<lparr>teams := tput (tm_project_id tm) tm (teams s)\<rparr>))"

definition put_fact :: "ctx \<Rightarrow> fact \<Rightarrow> store \<Rightarrow> cerr + store" where
  "put_fact ctx f s =
     bindE (put_check ctx (Some (f_conversation_id f)) (Some (f_project_id f)) s) (\<lambda>_.
       Inr (s\<lparr>facts := tput (f_id f) f (facts s)\<rparr>))"

definition put_author :: "ctx \<Rightarrow> string \<Rightarrow> string option \<Rightarrow> author \<Rightarrow> store \<Rightarrow> cerr + store" where
  "put_author ctx key project a s =
     bindE (put_check ctx (Some (au_conversation_id a)) project s) (\<lambda>_.
       Inr (s\<lparr>authors := tput key a (authors s)\<rparr>))"

definition put_receipt ::
  "ctx \<Rightarrow> string \<Rightarrow> string \<Rightarrow> string option \<Rightarrow> agent_command \<Rightarrow> store \<Rightarrow> cerr + store" where
  "put_receipt ctx key conversation project c s =
     bindE (put_check ctx (Some conversation) project s) (\<lambda>_.
       Inr (s\<lparr>receipts := tput key (conversation, c) (receipts s)\<rparr>))"

definition room :: "store \<Rightarrow> string \<Rightarrow> cerr + conversation" where
  "room s key = ok_or err_conversation_unavailable (tget (conversations s) key)"

definition item :: "store \<Rightarrow> string \<Rightarrow> cerr + work" where
  "item s key = ok_or err_work_unavailable (tget (works s) key)"

definition project_team :: "store \<Rightarrow> string \<Rightarrow> cerr + team" where
  "project_team s key =
     bindE (ok_or err_project_unavailable (tget (projects s) key)) (\<lambda>project.
       if pj_lifecycle project \<noteq> ''active'' then Inl err_project_archived
       else ok_or err_reload_participants (tget (teams s) key))"

definition list_rows :: "(string, 'v) table \<Rightarrow> cerr + 'v list" where
  "list_rows t = (if 4096 < length t then Inl err_record_limit else Inr (trows t))"

definition all_work :: "store \<Rightarrow> cerr + work list" where
  "all_work s = list_rows (works s)"

section \<open>Threads\<close>

definition err_thread_id :: cerr where
  "err_thread_id = Invalid ''Thread id must be 1-128 URL-safe characters.''"

text \<open>The primary key of the thread table, reported by SQLite.\<close>

definition err_unique_thread :: cerr where
  "err_unique_thread = Invalid ''UNIQUE constraint failed: thread.id''"

definition normalize_thread_id :: "string \<Rightarrow> cerr + string" where
  "normalize_thread_id value =
     (let v = trim value in
      if v \<noteq> [] \<and> length v \<le> 128
         \<and> list_all (\<lambda>c. ascii_alphanumeric c \<or> c \<in> set ''._:-'') v
      then Inr v else Inl err_thread_id)"

definition thread_create ::
  "string \<Rightarrow> string \<Rightarrow> string \<Rightarrow> store \<Rightarrow> cerr + store" where
  "thread_create key title created_at s =
     bindE (normalize_thread_id key) (\<lambda>key'.
       if trim title = [] \<or> 256 < chars_count title then Inl err_thread_title_invalid
       else if key' \<in> set (tombstones s) then Inl err_thread_deleted
       else if tget (threads s) key' \<noteq> None then Inl err_unique_thread
       else Inr (s\<lparr>threads := tput key'
              \<lparr>th_title = trim title, th_lifecycle = ''active'', th_last_sequence = 0,
               th_last_message_id = None, th_selected_head_id = None,
               th_owner_member_id = None, th_created_at = created_at,
               th_updated_at = created_at\<rparr> (threads s)\<rparr>))"

definition thread_update ::
  "string \<Rightarrow> string option \<Rightarrow> string option \<Rightarrow> string \<Rightarrow> store \<Rightarrow> cerr + store" where
  "thread_update key title lifecycle updated_at s =
     bindE (ok_or err_thread_foreign (tget (threads s) key)) (\<lambda>old.
       let t = (case title of None \<Rightarrow> th_title old | Some t \<Rightarrow> t);
           l = (case lifecycle of None \<Rightarrow> th_lifecycle old | Some l \<Rightarrow> l)
       in if trim t = [] \<or> 256 < chars_count t then Inl err_thread_title_invalid
          else if l \<notin> {''active'', ''archived''} then Inl err_thread_lifecycle_invalid
          else Inr (s\<lparr>threads := tput key
                 (old\<lparr>th_title := trim t, th_lifecycle := l, th_updated_at := updated_at\<rparr>)
                 (threads s)\<rparr>))"

text \<open>
  Deleting a thread leaves a tombstone and cascades to its messages, its provider attempts and
  every collaboration record whose \<open>conversation_id\<close> column names it.
\<close>

definition thread_delete :: "string \<Rightarrow> store \<Rightarrow> cerr + store" where
  "thread_delete key s =
     bindE (normalize_thread_id key) (\<lambda>key'.
       if tget (threads s) key' = None then Inl err_conversation_not_found
       else if \<exists>a\<in>set (trows (attempts s)). ar_thread_id a = Some key' \<and>
                 ar_status a \<notin> {''completed'', ''failed'', ''cancelled'', ''interrupted''}
       then Inl err_thread_run_active
       else Inr (s\<lparr>
         tombstones := key' # tombstones s,
         threads := tdel (\<lambda>k _. k = key') (threads s),
         messages := filter (\<lambda>m. m_thread_id m \<noteq> key') (messages s),
         message_revisions := filter (\<lambda>r. \<exists>m\<in>set (messages s). m_id m = rv_message_id r
           \<and> m_thread_id m \<noteq> key') (message_revisions s),
         attempts := tdel (\<lambda>_ a. ar_thread_id a = Some key') (attempts s),
         conversations := tdel (\<lambda>k _. k = key') (conversations s),
         authors := tdel (\<lambda>_ a. au_conversation_id a = key') (authors s),
         works := tdel (\<lambda>_ w. w_conversation_id w = key') (works s),
         facts := tdel (\<lambda>_ f. f_conversation_id f = key') (facts s),
         receipts := tdel (\<lambda>_ r. fst r = key') (receipts s)\<rparr>))"

text \<open>\<open>message::list\<close>: the thread's messages in sequence order.\<close>

definition message_list :: "store \<Rightarrow> string \<Rightarrow> cerr + message_row list" where
  "message_list s key =
     (if tget (threads s) key = None then Inl err_thread_foreign
      else Inr (sort_key m_sequence (filter (\<lambda>m. m_thread_id m = key) (messages s))))"

text \<open>\<open>Iterator::max_by_key\<close>: the last of the elements with the greatest key.\<close>

definition max_by_key :: "('a \<Rightarrow> 'k::linorder) \<Rightarrow> 'a list \<Rightarrow> 'a option" where
  "max_by_key key xs =
     fold (\<lambda>x best. case best of None \<Rightarrow> Some x
                    | Some b \<Rightarrow> if key b \<le> key x then Some x else Some b) xs None"

section \<open>Rooms\<close>

definition create_room ::
  "ctx \<Rightarrow> string \<Rightarrow> string \<Rightarrow> string \<Rightarrow> participant list \<Rightarrow> string option \<Rightarrow> string option
   \<Rightarrow> store \<Rightarrow> cerr + (conversation \<times> store)" where
  "create_room ctx key title kind members facilitator project s =
     bindE (check_id key) (\<lambda>_.
     bindE (bounded title 120 ''Conversation title'') (\<lambda>title'.
     if kind \<notin> {''direct'', ''group''} \<or> kind = ''direct'' \<and> length members \<noteq> 1
     then Inl err_direct_needs_one
     else if kind = ''group'' \<and> project = None then Inl err_standalone_group_retired
     else
     bindE (case project of None \<Rightarrow> Inr ()
            | Some p \<Rightarrow> bindE (project_team s p) (\<lambda>tm.
                if \<exists>m\<in>set members. pt_agent_id m \<notin> set (tm_participant_ids tm)
                then Inl err_choose_from_team else Inr ())) (\<lambda>_.
     bindE (thread_create key title' (time ctx) s) (\<lambda>s1.
     let s2 = s1\<lparr>threads := map (\<lambda>(k, th).
                 if k = key \<and> th_owner_member_id th = None
                 then (k, th\<lparr>th_owner_member_id := owner_member ctx\<rparr>) else (k, th)) (threads s1)\<rparr>;
         r = \<lparr>c_chat = (case project of
                  Some p \<Rightarrow> Some \<lparr>cb_role = ''side'', cb_owner_kind = ''project'', cb_owner_id = p\<rparr>
                | None \<Rightarrow> (if kind = ''direct''
                    then Some \<lparr>cb_role = ''side'', cb_owner_kind = ''agent'',
                               cb_owner_id = pt_agent_id (hd members)\<rparr> else None)),
              c_archived = False, c_id = key, c_workspace_id = workspace ctx, c_kind = kind,
              c_title = title', c_project_id = project, c_facilitator_id = facilitator,
              c_participants = members, c_revision = 1, c_generation = 1,
              c_created_at = time ctx, c_updated_at = time ctx\<rparr>
     in bindE (put_conversation ctx r s2) (\<lambda>s3. Inr (r, s3))))))"

section \<open>Authority of a root assignment\<close>

definition permission_rank :: "string \<Rightarrow> nat" where
  "permission_rank mode =
     (if mode = ''full-access'' then 2 else if mode = ''trusted-scope'' then 1 else 0)"

text \<open>\<open>mcp_server::repository::check_work\<close>: the grant that admitted the root still covers the agent.\<close>

definition check_work :: "ctx \<Rightarrow> store \<Rightarrow> work \<Rightarrow> string \<Rightarrow> string \<Rightarrow> cerr + unit" where
  "check_work ctx s root agent mode =
     (case w_external_client root of
        None \<Rightarrow> Inr ()
      | Some external \<Rightarrow>
          bindE (ok_or err_external_access_revoked
                  (find (\<lambda>g. gt_id g = ec_grant_id external \<and> \<not> gt_revoked g
                             \<and> clock ctx < gt_expires_at g) (sa_grants (access s)))) (\<lambda>g.
            if \<not> sa_enabled (access s) \<or> gt_access g \<noteq> RequestTasks
               \<or> agent \<notin> set (gt_agent_ids g)
               \<or> permission_rank (gt_permission_mode g) < permission_rank mode
            then Inl err_external_access_exceeded else Inr ()))"

text \<open>\<open>schedules::check_schedule\<close>: the occurrence lease fences the automation's descendants.\<close>

definition check_event ::
  "ctx \<Rightarrow> string \<Rightarrow> scheduled_context \<Rightarrow> occurrence_row \<Rightarrow> schedule_row \<Rightarrow> cerr + unit" where
  "check_event ctx now context occurrence schedule =
     (if sr_trigger_kind schedule \<noteq> ''event'' then Inr () else
      bindE (ok_or err_event_expiry_unavailable
              (jstr (jindex (jindex (sr_payload schedule) ''trigger'') ''validUntil''))) (\<lambda>expiry.
      bindE (ok_or err_event_expiry_invalid (parse_time ctx expiry)) (\<lambda>expires.
      bindE (ok_or err_event_time_invalid (parse_time ctx now)) (\<lambda>current.
      if sr_revision schedule \<noteq> oc_schedule_revision occurrence \<or> expires \<le> current
      then Inl err_event_trigger_changed else
      bindE (ok_or err_event_receipt_expiry_unavailable
              (case sc_event context of None \<Rightarrow> None
               | Some e \<Rightarrow> parse_time ctx (eo_expires_at e))) (\<lambda>event_expiry.
      if event_expiry \<le> current then Inl err_event_receipt_expired else Inr ())))))"

definition check_schedule :: "ctx \<Rightarrow> store \<Rightarrow> work \<Rightarrow> string \<Rightarrow> bool \<Rightarrow> cerr + unit" where
  "check_schedule ctx s root now running =
     (case w_schedule root of
        None \<Rightarrow> Inr ()
      | Some context \<Rightarrow>
          bindE (ok_or err_occurrence_unavailable
                  (tget (occurrences s) (sc_occurrence_id context))) (\<lambda>occurrence.
          bindE (ok_or err_schedule_unavailable
                  (tget (schedules s) (oc_schedule_id occurrence))) (\<lambda>schedule.
          bindE (check_event ctx now context occurrence schedule) (\<lambda>_.
          if jstr (jindex (oc_payload occurrence) ''workId'') \<noteq> Some (w_id root)
             \<or> oc_lease_expires_at occurrence \<le> now
             \<or> sr_status schedule \<noteq> ''enabled''
             \<or> running \<and> oc_state occurrence \<noteq> ''running''
             \<or> oc_state occurrence \<notin> {''claimed'', ''running''}
          then Inl err_automation_stopped else Inr ()))))"

end
