(* ===== verification/Store_Laws.thy ===== *)
theory Store_Laws
  imports Collab_Store
begin

text \<open>
  How the record store may change. \<open>store_ok\<close> is the well-formedness of a store: every table is
  ordered by key and a record is filed under its own id. \<open>advances R N\<close> says that a well-formed
  store stays well-formed, that every Work of it is still there and related by \<open>R\<close>, that every
  added Work satisfies \<open>N\<close>, and that a saved authorship is never rewritten and is lost only with
  the deletion of its conversation, which leaves a tombstone. The locale
  \<open>work_law\<close> is the contract of such a pair \<open>R\<close>, \<open>N\<close>; it is interpreted for the four laws the
  engine keeps: \<open>work_extends\<close> (identity and history), \<open>work_idle\<close> (nothing starts executing),
  \<open>work_steady\<close> (attempts and turn budgets do not move) and their conjunction \<open>work_quiet\<close>.
\<close>

section \<open>Well-formed stores\<close>

definition keyed_by :: "('v \<Rightarrow> string) \<Rightarrow> (string, 'v) table \<Rightarrow> bool" where
  "keyed_by key t = list_all (\<lambda>(k, v). key v = k) t"

definition store_ok :: "store \<Rightarrow> bool" where
  "store_ok s =
     (tinv (conversations s) \<and> tinv (authors s) \<and> tinv (teams s) \<and> tinv (works s)
      \<and> tinv (facts s) \<and> tinv (receipts s) \<and> tinv (threads s) \<and> tinv (attempts s)
      \<and> keyed_by c_id (conversations s) \<and> keyed_by tm_project_id (teams s)
      \<and> keyed_by w_id (works s) \<and> keyed_by f_id (facts s))"

lemma keyed_by_get: "keyed_by key t \<Longrightarrow> tget t k = Some v \<Longrightarrow> key v = k"
  by (auto simp: keyed_by_def tget_def list_all_iff dest: map_of_SomeD)

lemma set_tput_subset: "set (tput k v t) \<subseteq> insert (k, v) (set t)"
  by (induction k v t rule: tput.induct) auto

lemma keyed_by_tput: "keyed_by key t \<Longrightarrow> key v = k \<Longrightarrow> keyed_by key (tput k v t)"
  using set_tput_subset [of k v t] by (fastforce simp: keyed_by_def list_all_iff)

lemma keyed_by_tdel: "keyed_by key t \<Longrightarrow> keyed_by key (tdel p t)"
  by (auto simp: keyed_by_def tdel_def list_all_iff)

lemma store_ok_works: "store_ok s \<Longrightarrow> tinv (works s)" "store_ok s \<Longrightarrow> keyed_by w_id (works s)"
  by (simp_all add: store_ok_def)

lemma item_Inr [simp]: "item s key = Inr w \<longleftrightarrow> tget (works s) key = Some w"
  by (simp add: item_def ok_or_Inr)

lemma work_id: "store_ok s \<Longrightarrow> tget (works s) key = Some w \<Longrightarrow> w_id w = key"
  by (rule keyed_by_get [OF store_ok_works(2)])

lemma all_work_Inr [simp]:
  "all_work s = Inr all \<longleftrightarrow> length (works s) \<le> 4096 \<and> all = trows (works s)"
  by (auto simp: all_work_def list_rows_def)

lemma works_rows: "store_ok s \<Longrightarrow> w \<in> set (trows (works s)) \<longleftrightarrow> tget (works s) (w_id w) = Some w"
  by (metis trows_iff work_id store_ok_works(1))

lemma rows_distinct: "store_ok s \<Longrightarrow> distinct (map w_id (trows (works s)))"
proof -
  assume ok: "store_ok s"
  then have "map w_id (trows (works s)) = map fst (works s)"
    using store_ok_works(2) [OF ok] by (auto simp: trows_def keyed_by_def list_all_iff)
  with ok show ?thesis
    by (metis store_ok_works(1) store_table.entries_distinct)
qed

section \<open>Writes\<close>

lemma put_work_Inr:
  "put_work ctx w s = Inr s' \<longleftrightarrow>
   is_ok (put_check ctx (Some (w_conversation_id w)) (w_project_id w) s)
   \<and> s' = s\<lparr>works := tput (w_id w) w (works s)\<rparr>"
  by (auto simp: put_work_def result_simps is_ok_iff)

lemma put_conversation_Inr:
  "put_conversation ctx r s = Inr s' \<Longrightarrow> s' = s\<lparr>conversations := tput (c_id r) r (conversations s)\<rparr>"
  by (auto simp: put_conversation_def result_simps)

lemma put_team_Inr:
  "put_team ctx tm s = Inr s' \<Longrightarrow> s' = s\<lparr>teams := tput (tm_project_id tm) tm (teams s)\<rparr>"
  by (auto simp: put_team_def result_simps)

lemma put_fact_Inr:
  "put_fact ctx f s = Inr s' \<Longrightarrow> s' = s\<lparr>facts := tput (f_id f) f (facts s)\<rparr>"
  by (auto simp: put_fact_def result_simps)

lemma put_author_Inr:
  "put_author ctx key p a s = Inr s' \<Longrightarrow> s' = s\<lparr>authors := tput key a (authors s)\<rparr>"
  by (auto simp: put_author_def result_simps)

lemma put_receipt_Inr:
  "put_receipt ctx key conv p c s = Inr s' \<Longrightarrow> s' = s\<lparr>receipts := tput key (conv, c) (receipts s)\<rparr>"
  by (auto simp: put_receipt_def result_simps)

lemma put_work_get:
  "put_work ctx w s = Inr s' \<Longrightarrow> tget (works s') k = (if k = w_id w then Some w else tget (works s) k)"
  by (simp add: put_work_Inr tget_tput)

lemma put_work_other_tables:
  assumes "put_work ctx w s = Inr s'"
  shows "authors s' = authors s" "conversations s' = conversations s" "teams s' = teams s"
    "facts s' = facts s" "receipts s' = receipts s" "threads s' = threads s"
    "attempts s' = attempts s" "projects s' = projects s" "messages s' = messages s"
    "tombstones s' = tombstones s" "access s' = access s" "occurrences s' = occurrences s" "schedules s' = schedules s"
  using assms by (simp_all add: put_work_Inr)

lemma store_ok_put_work: "store_ok s \<Longrightarrow> put_work ctx w s = Inr s' \<Longrightarrow> store_ok s'"
  by (auto simp: put_work_Inr store_ok_def intro: tinv_tput keyed_by_tput)

text \<open>A loop that rewrites a selection of the records, each under its own id.\<close>

lemma foldE_filter: "foldE (\<lambda>x t. if P x then f x t else Inr t) xs s = foldE f (filter P xs) s"
  by (induction xs arbitrary: s) (auto simp: bindE_def split: sum.splits)

lemma foldE_put_get:
  assumes "foldE (\<lambda>w. put_work ctx (F w)) ws s = Inr s'" and "\<And>w. w_id (F w) = w_id w"
    and "distinct (map w_id ws)"
  shows "tget (works s') k =
     (case find (\<lambda>w. w_id w = k) ws of Some w \<Rightarrow> Some (F w) | None \<Rightarrow> tget (works s) k)"
  using assms(1,3)
proof (induction ws arbitrary: s)
  case (Cons w ws)
  from Cons.prems obtain t where t: "put_work ctx (F w) s = Inr t"
      "foldE (\<lambda>w. put_work ctx (F w)) ws t = Inr s'"
    by (auto simp: bindE_Inr)
  have "find (\<lambda>v. w_id v = w_id w) ws = None"
    using Cons.prems(2) by (auto simp: find_None_iff image_iff)
  with Cons.IH [OF t(2)] Cons.prems(2) put_work_get [OF t(1), of k] assms(2) [of w] show ?case
    by (auto split: option.splits)
qed simp

lemma foldE_put_others:
  assumes "foldE (\<lambda>w. put_work ctx (F w)) ws s = Inr s'"
  shows "s'\<lparr>works := []\<rparr> = s\<lparr>works := []\<rparr>" and "store_ok s \<Longrightarrow> store_ok s'"
proof -
  show "s'\<lparr>works := []\<rparr> = s\<lparr>works := []\<rparr>"
    using assms
    by (induction ws arbitrary: s) (auto simp: bindE_Inr put_work_Inr)
  show "store_ok s \<Longrightarrow> store_ok s'"
    by (rule foldE_induct [of ws store_ok "\<lambda>w. put_work ctx (F w)" s s'])
      (use assms store_ok_put_work in auto)
qed

lemma find_row:
  assumes "store_ok s"
  shows "find (\<lambda>w. w_id w = k) (filter P (trows (works s)))
     = (case tget (works s) k of Some w \<Rightarrow> if P w then Some w else None | None \<Rightarrow> None)"
proof (cases "find (\<lambda>w. w_id w = k) (filter P (trows (works s)))")
  case None
  then have "\<not> P w" if "tget (works s) k = Some w" for w
    using that work_id [OF assms that] works_rows [OF assms, of w]
    by (auto simp: find_None_iff)
  with None show ?thesis by (auto split: option.splits)
next
  case (Some w)
  then have "w \<in> set (filter P (trows (works s)))" "w_id w = k"
    using nth_mem by (force simp: find_Some_iff)+
  with Some works_rows [OF assms, of w] show ?thesis by simp
qed

lemma rewrite_rows:
  assumes "store_ok s" and "foldE (\<lambda>w. put_work ctx (F w)) (filter P (trows (works s))) s = Inr s'"
    and "\<And>w. w_id (F w) = w_id w"
  shows "tget (works s') k = map_option (\<lambda>w. if P w then F w else w) (tget (works s) k)"
proof -
  have "distinct (map w_id (filter P (trows (works s))))"
    using rows_distinct [OF assms(1)] by (simp add: distinct_map_filter)
  from foldE_put_get [OF assms(2,3) this, of k] find_row [OF assms(1), of k P] show ?thesis
    by (auto split: option.splits)
qed

section \<open>Laws of change\<close>

definition advances ::
  "(work \<Rightarrow> work \<Rightarrow> bool) \<Rightarrow> (work \<Rightarrow> bool) \<Rightarrow> store \<Rightarrow> store \<Rightarrow> bool" where
  "advances R N s s' =
     (store_ok s \<longrightarrow>
        store_ok s'
        \<and> (\<forall>k w. tget (works s) k = Some w \<longrightarrow> (\<exists>w'. tget (works s') k = Some w' \<and> R w w'))
        \<and> (\<forall>k w'. tget (works s) k = None \<longrightarrow> tget (works s') k = Some w' \<longrightarrow> N w')
        \<and> (\<forall>k a. tget (authors s) k = Some a \<longrightarrow>
             tget (authors s') k = Some a \<or> au_conversation_id a \<in> set (tombstones s'))
        \<and> set (tombstones s) \<subseteq> set (tombstones s'))"

lemma advancesD:
  assumes "advances R N s s'" and "store_ok s"
  shows "store_ok s'"
    and "tget (works s) k = Some w \<Longrightarrow> \<exists>w'. tget (works s') k = Some w' \<and> R w w'"
    and "tget (works s) k = None \<Longrightarrow> tget (works s') k = Some w' \<Longrightarrow> N w'"
    and "tget (authors s) r = Some a \<Longrightarrow>
      tget (authors s') r = Some a \<or> au_conversation_id a \<in> set (tombstones s')"
  using assms by (auto simp: advances_def)

lemma advances_mono:
  "advances R N s s' \<Longrightarrow> (\<And>w w'. R w w' \<Longrightarrow> R' w w') \<Longrightarrow> (\<And>w. N w \<Longrightarrow> N' w) \<Longrightarrow> advances R' N' s s'"
  unfolding advances_def by blast

locale work_law =
  fixes R :: "work \<Rightarrow> work \<Rightarrow> bool" and N :: "work \<Rightarrow> bool"
  assumes law_refl: "R w w"
    and law_trans: "R u v \<Longrightarrow> R v w \<Longrightarrow> R u w"
    and law_id: "R w w' \<Longrightarrow> w_id w' = w_id w"
    and law_new: "N w \<Longrightarrow> R w w' \<Longrightarrow> N w'"
begin

lemma adv_refl [intro, simp]: "advances R N s s"
  by (auto simp: advances_def intro: law_refl)

lemma adv_trans: "advances R N s t \<Longrightarrow> advances R N t u \<Longrightarrow> advances R N s u"
proof (unfold advances_def, intro impI conjI allI, goal_cases)
  case 1
  then show ?case by simp
next
  case (2 k w)
  then obtain v where v: "tget (works t) k = Some v" "R w v" by metis
  with 2 obtain w' where "tget (works u) k = Some w'" "R v w'" by metis
  with v law_trans show ?case by metis
next
  case (3 k w')
  show ?case
  proof (cases "tget (works t) k")
    case None
    with 3 show ?thesis by metis
  next
    case (Some v)
    with 3 have "N v" by metis
    moreover from 3 Some have "R v w'" by (metis option.inject)
    ultimately show ?thesis by (rule law_new)
  qed
next
  case (4 k a)
  then show ?case by (metis subset_iff)
next
  case 5
  then show ?case by (metis subset_trans)
qed

lemma adv_same:
  assumes "store_ok s \<Longrightarrow> store_ok s'" and "works s' = works s"
    and "tombstones s' = tombstones s" and "\<And>k a. tget (authors s) k = Some a \<Longrightarrow> tget (authors s') k = Some a"
  shows "advances R N s s'"
  using assms by (auto simp: advances_def intro: law_refl)

lemma adv_put:
  assumes "tget (works s) key = Some w" and "store_ok s \<Longrightarrow> R w w'"
    and "put_work ctx w' s = Inr s'"
  shows "advances R N s s'"
proof (unfold advances_def, intro impI)
  assume ok: "store_ok s"
  with assms work_id law_id have k: "w_id w' = key" "R w w'" by auto
  have "tget (works s') k = (if k = key then Some w' else tget (works s) k)" for k
    using put_work_get [OF assms(3)] k(1) by simp
  with assms k ok store_ok_put_work put_work_other_tables [OF assms(3)] law_refl
  show "store_ok s'
        \<and> (\<forall>k w. tget (works s) k = Some w \<longrightarrow> (\<exists>w'. tget (works s') k = Some w' \<and> R w w'))
        \<and> (\<forall>k w'. tget (works s) k = None \<longrightarrow> tget (works s') k = Some w' \<longrightarrow> N w')
        \<and> (\<forall>k a. tget (authors s) k = Some a \<longrightarrow>
             tget (authors s') k = Some a \<or> au_conversation_id a \<in> set (tombstones s'))
        \<and> set (tombstones s) \<subseteq> set (tombstones s')"
    by auto
qed

lemmas put_adv = adv_put [rotated 2]

lemma adv_new:
  assumes "tget (works s) (w_id w') = None" and "store_ok s \<Longrightarrow> N w'"
    and "put_work ctx w' s = Inr s'"
  shows "advances R N s s'"
proof (unfold advances_def, intro impI)
  assume ok: "store_ok s"
  have "tget (works s') k = (if k = w_id w' then Some w' else tget (works s) k)" for k
    using put_work_get [OF assms(3)] by simp
  with assms ok store_ok_put_work put_work_other_tables [OF assms(3)] law_refl
  show "store_ok s'
        \<and> (\<forall>k w. tget (works s) k = Some w \<longrightarrow> (\<exists>w'. tget (works s') k = Some w' \<and> R w w'))
        \<and> (\<forall>k w'. tget (works s) k = None \<longrightarrow> tget (works s') k = Some w' \<longrightarrow> N w')
        \<and> (\<forall>k a. tget (authors s) k = Some a \<longrightarrow>
             tget (authors s') k = Some a \<or> au_conversation_id a \<in> set (tombstones s'))
        \<and> set (tombstones s) \<subseteq> set (tombstones s')"
    by auto
qed

lemma adv_foldE:
  assumes "\<And>x s s'. x \<in> set xs \<Longrightarrow> f x s = Inr s' \<Longrightarrow> advances R N s s'"
    and "foldE f xs s = Inr s'"
  shows "advances R N s s'"
  by (rule foldE_rel [of "advances R N" xs f]) (use assms adv_trans in auto)

text \<open>A loop over a snapshot of the records in which every iteration rewrites its own record.\<close>

lemma adv_rows_aux:
  assumes "\<And>w x x'. w \<in> set ws \<Longrightarrow> f w x = Inr x' \<Longrightarrow>
      proj x' = proj x \<or> (\<exists>w'. put_work ctx w' (proj x) = Inr (proj x') \<and> R w w')"
    and "foldE f ws x = Inr x'" and "distinct (map w_id ws)"
    and "\<And>w. w \<in> set ws \<Longrightarrow> tget (works (proj x)) (w_id w) = Some w"
  shows "advances R N (proj x) (proj x')"
  using assms
proof (induction ws arbitrary: x)
  case (Cons w ws)
  from Cons.prems(2) obtain y where y: "f w x = Inr y" "foldE f ws y = Inr x'"
    by (auto simp: bindE_Inr)
  have step: "proj y = proj x \<or> (\<exists>w'. put_work ctx w' (proj x) = Inr (proj y) \<and> R w w')"
    using Cons.prems(1) [OF _ y(1)] by simp
  then have adv: "advances R N (proj x) (proj y)"
  proof
    assume "\<exists>w'. put_work ctx w' (proj x) = Inr (proj y) \<and> R w w'"
    then show ?thesis using adv_put [OF Cons.prems(4) [of w]] by auto
  qed simp
  have "tget (works (proj y)) (w_id v) = Some v" if "v \<in> set ws" for v
  proof -
    have "w_id v \<noteq> w_id w" using Cons.prems(3) that by (auto simp: image_iff)
    then show ?thesis
      using step Cons.prems(4) [of v] that by (auto simp: put_work_get dest: law_id)
  qed
  with Cons.IH [OF Cons.prems(1) y(2)] Cons.prems(3) have "advances R N (proj y) (proj x')"
    by (simp only: list.map distinct.simps list.set_intros simp_thms)
  with adv show ?case by (rule adv_trans)
qed simp

lemma adv_rows:
  assumes "\<And>w x x'. w \<in> set (trows (works (proj x0))) \<Longrightarrow> f w x = Inr x' \<Longrightarrow>
      proj x' = proj x \<or> (\<exists>w'. put_work ctx w' (proj x) = Inr (proj x') \<and> R w w')"
    and "foldE f (trows (works (proj x0))) x0 = Inr x'"
  shows "advances R N (proj x0) (proj x')"
proof (cases "store_ok (proj x0)")
  case True
  show ?thesis
    by (rule adv_rows_aux [of "trows (works (proj x0))" f proj ctx x0 x'])
      (use assms rows_distinct [OF True] works_rows [OF True] in auto)
qed (simp add: advances_def)

text \<open>The same for a selection of the records.\<close>

lemma adv_selected_rows:
  assumes "\<And>w t t'. w \<in> set (trows (works s)) \<Longrightarrow> f w t = Inr t' \<Longrightarrow>
      t' = t \<or> (\<exists>w'. put_work ctx w' t = Inr t' \<and> R w w')"
    and "foldE f (filter P (trows (works s))) s = Inr s'"
  shows "advances R N s s'"
proof (cases "store_ok s")
  case True
  have "distinct (map w_id (filter P (trows (works s))))"
    using rows_distinct [OF True] by (simp add: distinct_map_filter)
  then show ?thesis
    by (intro adv_rows_aux [of "filter P (trows (works s))" f "\<lambda>t. t" ctx s s'])
      (use assms works_rows [OF True] in simp_all)
qed (simp add: advances_def)

lemma adv_rewrite:
  assumes "foldE (\<lambda>w. put_work ctx (F w)) (filter P (trows (works s))) s = Inr s'"
    and "\<And>w. P w \<Longrightarrow> R w (F w)"
  shows "advances R N s s'"
proof -
  have "foldE (\<lambda>w t. if P w then put_work ctx (F w) t else Inr t) (trows (works s)) s = Inr s'"
    using assms(1) by (simp add: foldE_filter)
  moreover have "t' = t \<or> (\<exists>w'. put_work ctx w' t = Inr t' \<and> R w w')"
    if "(if P w then put_work ctx (F w) t else Inr t) = Inr t'" for w t t'
    using that assms(2) [of w] by (cases "P w") auto
  ultimately show ?thesis
    using adv_selected_rows [of s "\<lambda>w t. if P w then put_work ctx (F w) t else Inr t" ctx "\<lambda>_. True" s']
    by simp
qed

end

section \<open>The laws of the engine\<close>

definition work_wf :: "work \<Rightarrow> bool" where
  "work_wf w =
     ((executing (w_status w) \<longrightarrow> w_current_run_id w \<noteq> None)
      \<and> (\<forall>run. w_current_run_id w = Some run \<longrightarrow> run \<in> set (w_run_ids w))
      \<and> (\<forall>out\<in>set (w_outputs w). o_run_id out \<in> set (w_run_ids w))
      \<and> w_depth w \<le> 2
      \<and> length (w_steering w) \<le> 16 \<and> length (w_messages w) \<le> 24
      \<and> length (w_resource_claims w) \<le> 16 \<and> length (w_live_steering w) \<le> 16
      \<and> (w_outcome_goal w \<noteq> None \<longrightarrow> w_parent_id w = None)
      \<and> (w_parent_id w = None \<longrightarrow> w_root_id w = w_id w))"

definition same_identity :: "work \<Rightarrow> work \<Rightarrow> bool" where
  "same_identity w w' =
     (w_id w' = w_id w \<and> w_workspace_id w' = w_workspace_id w
      \<and> w_conversation_id w' = w_conversation_id w \<and> w_project_id w' = w_project_id w
      \<and> w_root_id w' = w_root_id w \<and> w_parent_id w' = w_parent_id w
      \<and> w_parent_message_id w' = w_parent_message_id w
      \<and> w_agent_id w' = w_agent_id w \<and> w_agent_name w' = w_agent_name w
      \<and> w_workspace_recipient w' = w_workspace_recipient w
      \<and> w_recipient_ids w' = w_recipient_ids w \<and> w_prerequisites w' = w_prerequisites w
      \<and> w_depth w' = w_depth w \<and> w_created_at w' = w_created_at w)"

definition keeps_history :: "work \<Rightarrow> work \<Rightarrow> bool" where
  "keeps_history w w' =
     (prefix (w_run_ids w) (w_run_ids w') \<and> prefix (w_outputs w) (w_outputs w')
      \<and> prefix (w_steering w) (w_steering w') \<and> prefix (w_messages w) (w_messages w')
      \<and> prefix (w_dependencies w) (w_dependencies w')
      \<and> prefix (w_resource_claims w) (w_resource_claims w')
      \<and> w_token_usage w \<le> w_token_usage w')"

definition keeps_permission :: "work \<Rightarrow> work \<Rightarrow> bool" where
  "keeps_permission w w' =
     (permission_rank (w_permission_mode w') \<le> permission_rank (w_permission_mode w))"

definition work_extends :: "work \<Rightarrow> work \<Rightarrow> bool" where
  "work_extends w w' =
     (same_identity w w' \<and> keeps_history w w' \<and> keeps_permission w w'
      \<and> (work_wf w \<longrightarrow> work_wf w'))"

definition work_idle :: "work \<Rightarrow> work \<Rightarrow> bool" where
  "work_idle w w' =
     (w_id w' = w_id w \<and> w_agent_id w' = w_agent_id w
      \<and> (executing (w_status w') \<longrightarrow> executing (w_status w)))"

definition work_steady :: "work \<Rightarrow> work \<Rightarrow> bool" where
  "work_steady w w' =
     (w_id w' = w_id w \<and> w_root_id w' = w_root_id w \<and> w_run_ids w' = w_run_ids w
      \<and> w_turn_count w' = w_turn_count w \<and> w_max_turns w' = w_max_turns w)"

definition work_quiet :: "work \<Rightarrow> work \<Rightarrow> bool" where
  "work_quiet w w' = (work_extends w w' \<and> work_idle w w' \<and> work_steady w w')"

definition idle_new :: "work \<Rightarrow> bool" where
  "idle_new w = (\<not> executing (w_status w))"

definition unused :: "work \<Rightarrow> bool" where
  "unused w = (w_run_ids w = [] \<and> w_turn_count w = 0)"

definition quiet_new :: "work \<Rightarrow> bool" where
  "quiet_new w = (work_wf w \<and> idle_new w \<and> unused w)"

lemmas work_law_defs = work_extends_def same_identity_def keeps_history_def keeps_permission_def
  work_idle_def work_steady_def work_quiet_def idle_new_def unused_def quiet_new_def

interpretation extends: work_law work_extends work_wf
  by unfold_locales (auto simp: work_law_defs intro: prefix_order.trans)

interpretation idle: work_law work_idle idle_new
  by unfold_locales (auto simp: work_law_defs)

interpretation steady: work_law work_steady unused
  by unfold_locales (auto simp: work_law_defs)

interpretation quiet: work_law work_quiet quiet_new
  by unfold_locales
    (auto simp: work_quiet_def quiet_new_def intro: extends.law_refl idle.law_refl steady.law_refl
      extends.law_trans idle.law_trans steady.law_trans dest: idle.law_new steady.law_new
      extends.law_new idle.law_id)

lemma quiet_extends: "advances work_quiet quiet_new s s' \<Longrightarrow> advances work_extends work_wf s s'"
  by (erule advances_mono) (auto simp: work_quiet_def quiet_new_def)

lemma quiet_idle: "advances work_quiet quiet_new s s' \<Longrightarrow> advances work_idle idle_new s s'"
  by (erule advances_mono) (auto simp: work_quiet_def quiet_new_def)

lemma quiet_steady: "advances work_quiet quiet_new s s' \<Longrightarrow> advances work_steady unused s s'"
  by (erule advances_mono) (auto simp: work_quiet_def quiet_new_def)

section \<open>Rooms and threads\<close>

lemma put_conversation_law:
  "put_conversation ctx r s = Inr s' \<Longrightarrow> advances work_quiet quiet_new s s'"
  by (rule quiet.adv_same)
    (auto dest!: put_conversation_Inr simp: store_ok_def intro: tinv_tput keyed_by_tput)

lemma put_receipt_law:
  "put_receipt ctx key c p a s = Inr s' \<Longrightarrow> advances work_quiet quiet_new s s'"
  by (rule quiet.adv_same) (auto dest!: put_receipt_Inr simp: store_ok_def intro: tinv_tput)

lemma threads_law:
  assumes "tinv (threads s) \<Longrightarrow> tinv t"
  shows "advances work_quiet quiet_new s (s\<lparr>threads := t\<rparr>)"
  by (rule quiet.adv_same) (auto simp: store_ok_def intro: assms)

lemma thread_create_law:
  "thread_create key title at s = Inr s' \<Longrightarrow> advances work_quiet quiet_new s s'"
  unfolding thread_create_def by (elim result_elims) (auto intro!: threads_law tinv_tput)

lemma thread_update_law:
  "thread_update key title life at s = Inr s' \<Longrightarrow> advances work_quiet quiet_new s s'"
  unfolding thread_update_def Let_def by (elim result_elims) (auto intro!: threads_law tinv_tput)

lemma tinv_map: "tinv (map (\<lambda>(k, v). if P k v then (k, f v) else (k, v)) t) = tinv t"
proof -
  have "map fst (map (\<lambda>(k, v). if P k v then (k, f v) else (k, v)) t) = map fst t"
    by (induction t) auto
  then show ?thesis by (simp only: tinv_def)
qed

lemma create_room_elim:
  assumes "create_room ctx key title kind members lead project s = Inr (r, s')"
  obtains s1 th where "thread_create key (c_title r) (time ctx) s = Inr s1" "c_id r = key"
    "c_project_id r = project" "c_participants r = members"
    "th = map (\<lambda>(k, th). if k = key \<and> th_owner_member_id th = None
             then (k, th\<lparr>th_owner_member_id := owner_member ctx\<rparr>) else (k, th)) (threads s1)"
    "put_conversation ctx r (s1\<lparr>threads := th\<rparr>) = Inr s'"
  using assms unfolding create_room_def Let_def
proof (elim result_elims, goal_cases)
  case (1 u ti v s1 s3)
  then have "r = \<lparr>c_chat = (case project of
                  Some p \<Rightarrow> Some \<lparr>cb_role = ''side'', cb_owner_kind = ''project'', cb_owner_id = p\<rparr>
                | None \<Rightarrow> (if kind = ''direct''
                    then Some \<lparr>cb_role = ''side'', cb_owner_kind = ''agent'',
                               cb_owner_id = pt_agent_id (hd members)\<rparr> else None)),
              c_archived = False, c_id = key, c_workspace_id = workspace ctx, c_kind = kind,
              c_title = ti, c_project_id = project, c_facilitator_id = lead,
              c_participants = members, c_revision = 1, c_generation = 1,
              c_created_at = time ctx, c_updated_at = time ctx\<rparr>" "s3 = s'" by simp_all
  with 1 show ?case by (intro 1(1) [of s1]) simp_all
qed

lemma create_room_law:
  assumes "create_room ctx key title kind members lead project s = Inr (r, s')"
  shows "advances work_quiet quiet_new s s'"
  using assms
proof (rule create_room_elim)
  fix s1 th
  assume a: "thread_create key (c_title r) (time ctx) s = Inr s1"
    and th: "th = map (\<lambda>(k, th). if k = key \<and> th_owner_member_id th = None
             then (k, th\<lparr>th_owner_member_id := owner_member ctx\<rparr>) else (k, th)) (threads s1)"
    and c: "put_conversation ctx r (s1\<lparr>threads := th\<rparr>) = Inr s'"
  have "advances work_quiet quiet_new s1 (s1\<lparr>threads := th\<rparr>)"
    by (rule threads_law) (simp add: th tinv_map)
  then show ?thesis
    using thread_create_law [OF a] put_conversation_law [OF c] by (blast intro: quiet.adv_trans)
qed

text \<open>What a law of change says of a whole sequence: records are kept and stay well-formed.\<close>

definition works_wf :: "store \<Rightarrow> bool" where
  "works_wf s = list_all work_wf (trows (works s))"

lemma works_wf_iff: "store_ok s \<Longrightarrow> works_wf s \<longleftrightarrow> (\<forall>k w. tget (works s) k = Some w \<longrightarrow> work_wf w)"
  using trows_iff [OF store_ok_works(1), of s] by (auto simp: works_wf_def list_all_iff)

lemma works_wf_advances:
  assumes "advances work_extends work_wf s s'" and "store_ok s" and "works_wf s"
  shows "works_wf s'"
proof -
  have ok': "store_ok s'" by (rule advancesD(1) [OF assms(1,2)])
  have "work_wf w'" if w': "tget (works s') k = Some w'" for k w'
  proof (cases "tget (works s) k")
    case None
    with advancesD(3) [OF assms(1,2)] w' show ?thesis by simp
  next
    case (Some w)
    then obtain v where "tget (works s') k = Some v" "work_extends w v"
      using advancesD(2) [OF assms(1,2)] by metis
    moreover have "work_wf w" using Some assms(2,3) works_wf_iff by metis
    ultimately show ?thesis using w' by (simp add: work_extends_def)
  qed
  with ok' show ?thesis by (simp add: works_wf_iff)
qed

end
