(* ===== verification/Work_Start.thy ===== *)
theory Work_Start
  imports Work_Context Store_Laws
begin

text \<open>
  Admission of Work (\<open>collaboration/work.rs\<close>): the permission mode of an agent, the validation of
  attachments, the initial record of an assignment, and the start of one effort for one to eight
  workspace recipients, idempotent in its submission id.
\<close>

section \<open>Permissions and attachments\<close>

definition permission_mode :: "agent_profile \<Rightarrow> string" where
  "permission_mode agent =
     (if p_permission_label agent = ''Work Freely'' then ''full-access''
      else if p_permission_label agent = ''Ask Me'' then ''trusted-scope''
      else ''read-only'')"

definition attachment_for_child :: "work_attachment \<Rightarrow> work_attachment" where
  "attachment_for_child a =
     (if wa_availability a = ''workspace-file''
      then a\<lparr>wa_availability := ''transient'', wa_relative_path := None, wa_sha256 := None\<rparr>
      else a)"

definition attachments_for_child :: "work_attachment list \<Rightarrow> work_attachment list" where
  "attachments_for_child as = map attachment_for_child as"

definition sha256_is_well_formed :: "string \<Rightarrow> bool" where
  "sha256_is_well_formed v =
     (length v = 64 \<and> list_all (\<lambda>c. ascii_digit c \<or> 97 \<le> byte c \<and> byte c \<le> 102) v)"

definition path_is_safe :: "work_attachment \<Rightarrow> bool" where
  "path_is_safe a =
     (case wa_relative_path a of None \<Rightarrow> False
      | Some path \<Rightarrow>
          chars_count path \<le> 512 \<and> starts_with path ''Attachments/'' \<and> CHR 0x5C \<notin> set path
          \<and> list_all (\<lambda>part. part \<noteq> [] \<and> part \<noteq> ''.'' \<and> part \<noteq> ''..'') (split_char (CHR ''/'') path)
          \<and> \<not> list_ex is_control (scalars path))"

definition source_is_safe :: "work_attachment \<Rightarrow> bool" where
  "source_is_safe a =
     (case wa_source_id a of None \<Rightarrow> False
      | Some key \<Rightarrow> key \<noteq> [] \<and> chars_count key \<le> 200 \<and> CHR 0x00 \<notin> set key)"

definition hash_is_safe :: "work_attachment \<Rightarrow> bool" where
  "hash_is_safe a = (case wa_sha256 a of None \<Rightarrow> False | Some h \<Rightarrow> sha256_is_well_formed h)"

definition validate_reference :: "work_attachment \<Rightarrow> cerr + unit" where
  "validate_reference a =
     (if wa_availability a = ''workspace-file'' then
        (if \<not> path_is_safe a \<or> wa_source_id a \<noteq> None \<or> \<not> hash_is_safe a
         then Inl err_staged_reference else Inr ())
      else if wa_availability a = ''knowledge-context'' then
        (if \<not> source_is_safe a \<or> wa_relative_path a \<noteq> None \<or> wa_sha256 a \<noteq> None
         then Inl err_knowledge_reference else Inr ())
      else if wa_availability a = ''image-input'' \<or> wa_availability a = ''transient'' then
        (if wa_relative_path a \<noteq> None \<or> wa_source_id a \<noteq> None \<or> wa_sha256 a \<noteq> None
         then Inl err_in_memory_reference else Inr ())
      else Inl err_unknown_reference)"

definition validate_attachment :: "string list \<Rightarrow> work_attachment \<Rightarrow> cerr + unit" where
  "validate_attachment ids a =
     (if wa_id a = [] \<or> 160 < chars_count (wa_id a) \<or> wa_id a \<in> set ids
      then Inl err_attachment_identity else
      let name = trim (wa_name a); mime = trim (wa_mime_type a) in
      if name = [] \<or> 256 < chars_count name \<or> CHR ''/'' \<in> set name \<or> CHR 0x5C \<in> set name
         \<or> list_ex is_control (scalars name)
      then Inl err_attachment_name else
      if mime = [] \<or> 120 < chars_count mime \<or> list_ex is_control (scalars mime)
      then Inl err_attachment_mime else
      if wa_size_bytes a = 0 \<or> 2 * 1024 * 1024 < wa_size_bytes a
      then Inl err_attachment_size else
      validate_reference a)"

fun validate_each :: "string list \<Rightarrow> work_attachment list \<Rightarrow> cerr + unit" where
  "validate_each ids [] = Inr ()"
| "validate_each ids (a # as) =
     bindE (validate_attachment ids a) (\<lambda>_. validate_each (wa_id a # ids) as)"

definition validate_attachments :: "work_attachment list \<Rightarrow> cerr + unit" where
  "validate_attachments as =
     (if 12 < length as then Inl err_too_many_attachments else validate_each [] as)"

section \<open>New Work\<close>

definition next_order :: "work list \<Rightarrow> u32" where
  "next_order all =
     sat_add (fold max (List.map_filter (\<lambda>w. map_option q_order (w_queue w)) all) 0) 1"

definition initial_work ::
  "ctx \<Rightarrow> string \<Rightarrow> conversation \<Rightarrow> string \<Rightarrow> string \<Rightarrow> string \<Rightarrow> string option
   \<Rightarrow> work_attachment list option \<Rightarrow> bool \<Rightarrow> string option \<Rightarrow> agent_profile \<Rightarrow> u32
   \<Rightarrow> captured_context \<Rightarrow> repository_binding option \<Rightarrow> work list \<Rightarrow> work" where
  "initial_work ctx key r agent_id prompt user_request origin attachments workspace_recipient
       parent_message_id agent revision captured binding all =
     \<lparr>w_hosted_task = None, w_repository_binding = binding,
     w_queue = Some \<lparr>q_held = False, q_order = next_order all\<rparr>,
     w_outcome_goal = None, w_live_steering = [], w_execution_owner = None,
     w_reset_continuation = None, w_continuation = None, w_external_client = None,
     w_schedule = None, w_captured_context = Some captured, w_steering = [],
     w_messages = [], w_delivered_message_count = 0, w_delivered_steering_count = 0,
     w_permission_mode = permission_mode agent,
     w_attachments = (case attachments of None \<Rightarrow> [] | Some as \<Rightarrow> as),
     w_origin = origin, w_id = key, w_workspace_id = workspace ctx,
     w_conversation_id = c_id r, w_parent_message_id = parent_message_id,
     w_project_id = c_project_id r, w_root_id = key, w_parent_id = None,
     w_agent_id = agent_id, w_agent_name = p_name agent,
     w_workspace_recipient = workspace_recipient, w_resource_claims = [],
     w_recipient_ids = [], w_prompt = prompt, w_user_request = user_request,
     w_status = Queued, w_reason = None, w_dependencies = [], w_waiting_for = [],
     w_prerequisites = [], w_awaiting_user = False, w_generation = 1,
     w_conversation_generation = c_generation r, w_context_revision = revision,
     w_depth = 0, w_turn_count = 0, w_token_usage = 0, w_max_turns = 12,
     w_max_tokens = 128000, w_run_ids = [], w_current_run_id = None,
     w_model_option_id = p_model_id agent, w_outputs = [],
     w_created_at = time ctx, w_updated_at = time ctx\<rparr>"

definition new_work_with_parent ::
  "ctx \<Rightarrow> string \<Rightarrow> conversation \<Rightarrow> string \<Rightarrow> string \<Rightarrow> string \<Rightarrow> string option
   \<Rightarrow> work_attachment list option \<Rightarrow> bool \<Rightarrow> string option \<Rightarrow> store \<Rightarrow> cerr + work" where
  "new_work_with_parent ctx key r agent_id prompt user_request origin attachments
       workspace_recipient parent_message_id s =
     (if \<not> workspace_recipient \<and> \<not> (\<exists>p\<in>set (c_participants r). pt_agent_id p = agent_id)
      then Inl err_not_participant else
      bindE (find_profile (profiles ctx) agent_id) (\<lambda>agent.
      bindE (case c_project_id r of
               None \<Rightarrow> Inr False
             | Some project \<Rightarrow>
                 bindE (project_team s project) (\<lambda>tm.
                 let outside = agent_id \<notin> set (tm_participant_ids tm) in
                 if \<not> workspace_recipient \<and> outside then Inl err_not_project_participant
                 else Inr outside)) (\<lambda>outside.
      bindE (case c_project_id r of
               None \<Rightarrow> Inr 0
             | Some project \<Rightarrow> bindE (project_team s project) (\<lambda>tm. Inr (tm_revision tm))) (\<lambda>revision.
      bindE (capture ctx s r agent parent_message_id) (\<lambda>captured0.
      bindE (if workspace_recipient \<and> outside then narrow_workspace_context ctx captured0
             else Inr captured0) (\<lambda>captured.
      bindE (capture_repository ctx (workspace ctx) agent_id (time ctx)) (\<lambda>binding.
      bindE (all_work s) (\<lambda>all.
      Inr (initial_work ctx key r agent_id prompt user_request origin attachments
             workspace_recipient parent_message_id agent revision captured binding all)))))))))"

definition new_work ::
  "ctx \<Rightarrow> string \<Rightarrow> conversation \<Rightarrow> string \<Rightarrow> string \<Rightarrow> string \<Rightarrow> string option
   \<Rightarrow> work_attachment list option \<Rightarrow> bool \<Rightarrow> store \<Rightarrow> cerr + work" where
  "new_work ctx key r agent_id prompt user_request origin attachments workspace_recipient s =
     new_work_with_parent ctx key r agent_id prompt user_request origin attachments
       workspace_recipient None s"

text \<open>Whether the child's agent belongs to the team of its project; true without a project.\<close>

definition in_project_team :: "store \<Rightarrow> work \<Rightarrow> cerr + bool" where
  "in_project_team s child =
     (case w_project_id child of
        None \<Rightarrow> Inr True
      | Some project \<Rightarrow> bindE (project_team s project) (\<lambda>tm.
          Inr (w_agent_id child \<in> set (tm_participant_ids tm))))"

section \<open>Start\<close>

definition discussion_suffix :: string where
  "discussion_suffix = [CHR 0x0A, CHR 0x0A] @ ''The user requested a wider discussion. Ask relevant participants for distinct contributions, compare their answers, and report agreement or remaining disagreement. Do not make everyone reply without a reason.''"

definition recipient_work_id :: "ctx \<Rightarrow> string \<Rightarrow> string \<Rightarrow> string" where
  "recipient_work_id ctx key agent = ''work-'' @ sha256 ctx (key @ '':'' @ agent)"

definition check_branch_source :: "store \<Rightarrow> string \<Rightarrow> string option \<Rightarrow> cerr + unit" where
  "check_branch_source s room_id parent_message =
     (case parent_message of
        None \<Rightarrow> Inr ()
      | Some pm \<Rightarrow>
          bindE (check_id pm) (\<lambda>_.
          bindE (message_list s room_id) (\<lambda>ms.
          bindE (ok_or err_edited_message_unavailable (find (\<lambda>m. m_id m = pm) ms)) (\<lambda>parent.
          if m_kind parent \<noteq> ''user'' \<or> m_current_revision_state parent = ''redacted''
          then Inl err_branch_needs_user_message else Inr ()))))"

fun check_recipients :: "agent_profile list \<Rightarrow> string list \<Rightarrow> string list \<Rightarrow> cerr + unit" where
  "check_recipients ps seen [] = Inr ()"
| "check_recipients ps seen (agent # ids) =
     bindE (check_id agent) (\<lambda>_.
     if agent \<in> set seen then Inl err_duplicate_recipient else
     bindE (find_profile ps agent) (\<lambda>_. check_recipients ps (agent # seen) ids))"

text \<open>A retry of the same submission: accepted only if it names the same work.\<close>

definition start_retry ::
  "ctx \<Rightarrow> string \<Rightarrow> string \<Rightarrow> string list \<Rightarrow> bool \<Rightarrow> string \<Rightarrow> string option \<Rightarrow> work \<Rightarrow> store
   \<Rightarrow> cerr + store" where
  "start_retry ctx key room_id recipients explicit prompt parent_message existing s =
     (if w_parent_id existing = None \<and> w_conversation_id existing = room_id
         \<and> w_agent_id existing = hd recipients \<and> w_user_request existing = prompt
         \<and> w_parent_message_id existing = parent_message
         \<and> (if explicit then w_recipient_ids existing = recipients
            else w_recipient_ids existing = [] \<or> w_recipient_ids existing = [hd recipients])
         \<and> list_all (\<lambda>agent. case tget (works s) (recipient_work_id ctx key agent) of
                       None \<Rightarrow> False
                     | Some child \<Rightarrow> w_agent_id child = agent \<and> w_user_request child = prompt)
             (tl recipients)
      then Inr s else Inl err_submission_id_taken)"

text \<open>One further recipient: a queued child of the root that shares the originating context.\<close>

definition start_child ::
  "ctx \<Rightarrow> string \<Rightarrow> conversation \<Rightarrow> string option \<Rightarrow> string \<Rightarrow> work \<times> store
   \<Rightarrow> cerr + (work \<times> store)" where
  "start_child ctx key r origin agent = (\<lambda>(root, s).
     let child_id = recipient_work_id ctx key agent in
     if tget (works s) child_id \<noteq> None then Inr (root, s) else
     bindE (new_work ctx child_id r agent (w_prompt root) (w_user_request root) origin
              (Some (attachments_for_child (w_attachments root))) True s) (\<lambda>child0.
     let child1 = child0\<lparr>w_root_id := w_root_id root, w_parent_id := Some (w_id root),
                         w_depth := 1, w_workspace_recipient := True\<rparr> in
     bindE (in_project_team s child1) (\<lambda>inside.
     bindE (inherit_shared_context ctx (w_captured_context root) (w_captured_context child1)
              inside) (\<lambda>context.
     let child = child1\<lparr>w_captured_context := context\<rparr> in
     bindE (put_work ctx child s) (\<lambda>s'.
     Inr (root\<lparr>w_dependencies := w_dependencies root @ [w_id child],
               w_waiting_for := w_waiting_for root @ [w_id child]\<rparr>, s'))))))"

definition branch_blocked :: "work list \<Rightarrow> string \<Rightarrow> bool" where
  "branch_blocked all room_id =
     (\<exists>w\<in>set all. w_conversation_id w = room_id
        \<and> (active (w_status w)
           \<or> w_run_ids w \<noteq> [] \<and> w_status w \<in> {Blocked, Failed, Cancelled}))"

definition start_for_recipients_with_parent ::
  "ctx \<Rightarrow> string \<Rightarrow> string \<Rightarrow> string list \<Rightarrow> bool \<Rightarrow> string \<Rightarrow> bool \<Rightarrow> string option
   \<Rightarrow> string option \<Rightarrow> work_attachment list option \<Rightarrow> store \<Rightarrow> cerr + store" where
  "start_for_recipients_with_parent ctx key room_id recipients explicit prompt0 discussion
       origin parent_message attachments s =
     bindE (check_id key) (\<lambda>_.
     bindE (bounded prompt0 32000 ''Message'') (\<lambda>prompt.
     if recipients = [] \<or> 8 < length recipients then Inl err_recipient_count else
     bindE (check_branch_source s room_id parent_message) (\<lambda>_.
     bindE (check_recipients (profiles ctx) [] recipients) (\<lambda>_.
     case tget (works s) key of
       Some existing \<Rightarrow>
         start_retry ctx key room_id recipients explicit prompt parent_message existing s
     | None \<Rightarrow>
         bindE (all_work s) (\<lambda>all.
         if 2048 < length all + length recipients then Inl err_too_much_work else
         bindE (room s room_id) (\<lambda>r.
         if parent_message \<noteq> None \<and> branch_blocked all room_id
         then Inl err_reconcile_before_branch else
         bindE (new_work_with_parent ctx key r (hd recipients) prompt prompt origin attachments
                  explicit parent_message s) (\<lambda>w0.
         let w1 = (if discussion then w0\<lparr>w_prompt := w_prompt w0 @ discussion_suffix\<rparr> else w0);
             w2 = (if explicit then w1\<lparr>w_recipient_ids := recipients\<rparr> else w1) in
         bindE (put_work ctx w2 s) (\<lambda>s1.
         bindE (foldE (start_child ctx key r origin) (tl recipients) (w2, s1)) (\<lambda>(root, s2).
         if 1 < length recipients
         then put_work ctx (root\<lparr>w_updated_at := time ctx\<rparr>) s2
         else Inr s2)))))))))"

definition start_with_parent ::
  "ctx \<Rightarrow> string \<Rightarrow> string \<Rightarrow> string \<Rightarrow> string \<Rightarrow> bool \<Rightarrow> string option
   \<Rightarrow> string option \<Rightarrow> work_attachment list option \<Rightarrow> store \<Rightarrow> cerr + store" where
  "start_with_parent ctx key room_id agent prompt discussion origin parent_message attachments =
     start_for_recipients_with_parent ctx key room_id [agent] False prompt discussion origin
       parent_message attachments"

definition start ::
  "ctx \<Rightarrow> string \<Rightarrow> string \<Rightarrow> string \<Rightarrow> string \<Rightarrow> bool \<Rightarrow> string option
   \<Rightarrow> work_attachment list option \<Rightarrow> store \<Rightarrow> cerr + store" where
  "start ctx key room_id agent prompt discussion origin attachments =
     start_with_parent ctx key room_id agent prompt discussion origin None attachments"

section \<open>New records\<close>

lemma new_work_elim:
  assumes "new_work_with_parent ctx key r agent prompt req origin atts recip pm s = Inr w"
  obtains p revision captured binding all where
    "find_profile (profiles ctx) agent = Inr p"
    "w = initial_work ctx key r agent prompt req origin atts recip pm p revision captured binding all"
    "recip \<or> (\<exists>m\<in>set (c_participants r). pt_agent_id m = agent)"
  using assms unfolding new_work_with_parent_def
proof (elim result_elims, goal_cases)
  case (1 p outside revision captured0 captured binding all)
  then show ?case by (intro 1(1) [of p revision captured binding all]) simp_all
qed

lemma initial_work_fields:
  "w_id (initial_work ctx key r agent pr rq og at rc pm p rv ca bi al) = key"
  "w_root_id (initial_work ctx key r agent pr rq og at rc pm p rv ca bi al) = key"
  "w_parent_id (initial_work ctx key r agent pr rq og at rc pm p rv ca bi al) = None"
  "w_agent_id (initial_work ctx key r agent pr rq og at rc pm p rv ca bi al) = agent"
  "w_permission_mode (initial_work ctx key r agent pr rq og at rc pm p rv ca bi al) = permission_mode p"
  "w_project_id (initial_work ctx key r agent pr rq og at rc pm p rv ca bi al) = c_project_id r"
  "w_conversation_id (initial_work ctx key r agent pr rq og at rc pm p rv ca bi al) = c_id r"
  by (simp_all add: initial_work_def)

lemma initial_quiet_new: "quiet_new (initial_work ctx key r agent pr rq og at rc pm p rv ca bi al)"
  by (simp add: initial_work_def work_law_defs work_wf_def)

end
