(* ===== verification/Collab_Samples.thy ===== *)
theory Collab_Samples
  imports Collab_Store
begin

text \<open>
  A concrete workspace for the witnesses: one teammate \<open>ada\<close>, one conversation \<open>room\<close> owned by
  the member, one queued request \<open>job\<close> of it and the queued provider attempt \<open>run-1\<close>. The native
  services of the calling context are instantiated by simple functions.
\<close>

definition sample_profile :: agent_profile where
  "sample_profile = \<lparr>p_id = ''ada'', p_name = ''Ada'', p_instructions = [], p_model_id = ''m'',
     p_reasoning_effort = None, p_connector_ids = [], p_knowledge_source_ids = [],
     p_permission_label = ''Ask Me'', p_thread_id = None, p_thread_ids = [],
     p_learned_tasks = []\<rparr>"

definition sample_peer :: agent_profile where
  "sample_peer = sample_profile\<lparr>p_id := ''bob'', p_name := ''Bob'',
     p_permission_label := ''Work Freely''\<rparr>"

definition sample_captured :: captured_context where
  "sample_captured = \<lparr>cc_mode = ''m'', cc_source = \<lparr>or_workspace_id = ''ws'', or_kind = ''chat'',
     or_id = ''room''\<rparr>, cc_source_revision = ''1'', cc_version = 1, cc_captured_at = ''t'',
     cc_text = []\<rparr>"

definition sample_ctx :: ctx where
  "sample_ctx = \<lparr>profiles = [sample_profile, sample_peer], time = ''t'', workspace = ''ws'',
     owner_member = Some ''me'', owner_subject = ''me'', sha256 = (\<lambda>x. x),
     parse_time = (\<lambda>_. Some 0), json_parse = (\<lambda>_. Some JNull), json_print = (\<lambda>_. []),
     capture = (\<lambda>_ _ _ _. Inr sample_captured), capture_repository = (\<lambda>_ _ _. Inr None),
     prepare = (\<lambda>_ _. Inl Panicked), user_id = ''me'', now_again = ''t'', clock = 0, is_worker = False,
     worker_ready = False, worker_locked = False, worker_generation = None, inline_redactors = [Pem_Redactor redacted_marker],
     surviving_patterns = [\<lambda>s. contains_sub s ''ghp_'']\<rparr>"

definition sample_work :: work where
  "sample_work = \<lparr>w_hosted_task = None, w_repository_binding = None,
     w_queue = Some \<lparr>q_held = False, q_order = 1\<rparr>, w_outcome_goal = None, w_live_steering = [],
     w_execution_owner = None, w_reset_continuation = None, w_continuation = None,
     w_external_client = None, w_schedule = None, w_captured_context = None, w_steering = [],
     w_messages = [], w_delivered_message_count = 0, w_delivered_steering_count = 0,
     w_permission_mode = ''trusted-scope'', w_attachments = [], w_origin = None, w_id = ''job'',
     w_workspace_id = ''ws'', w_conversation_id = ''room'', w_parent_message_id = None,
     w_project_id = None, w_root_id = ''job'', w_parent_id = None, w_agent_id = ''ada'',
     w_agent_name = ''Ada'', w_workspace_recipient = False, w_resource_claims = [],
     w_recipient_ids = [], w_prompt = ''p'', w_user_request = ''p'', w_status = Queued,
     w_reason = None, w_dependencies = [], w_waiting_for = [], w_prerequisites = [],
     w_awaiting_user = False, w_generation = 1, w_conversation_generation = 1,
     w_context_revision = 0, w_depth = 0, w_turn_count = 0, w_token_usage = 0,
     w_max_turns = 12, w_max_tokens = 128000, w_run_ids = [], w_current_run_id = None,
     w_model_option_id = ''m'', w_outputs = [], w_created_at = ''t'', w_updated_at = ''t''\<rparr>"

definition sample_room :: conversation where
  "sample_room = \<lparr>c_chat = None, c_archived = False, c_id = ''room'', c_workspace_id = ''ws'',
     c_kind = ''direct'', c_title = ''Room'', c_project_id = None, c_facilitator_id = None,
     c_participants = [\<lparr>pt_agent_id = ''ada'', pt_name = ''Ada''\<rparr>], c_revision = 1,
     c_generation = 1, c_created_at = ''t'', c_updated_at = ''t''\<rparr>"

definition sample_thread :: thread_row where
  "sample_thread = \<lparr>th_title = ''Room'', th_lifecycle = ''active'', th_last_sequence = 0,
     th_last_message_id = None, th_selected_head_id = None, th_owner_member_id = Some ''me'',
     th_created_at = ''t'', th_updated_at = ''t''\<rparr>"

definition sample_attempt :: attempt_row where
  "sample_attempt = \<lparr>ar_thread_id = Some ''room'', ar_provider_id = ''x'', ar_model = ''m'',
     ar_status = ''queued'', ar_turn = 1, ar_recoverable = False, ar_retry_count = 0,
     ar_created_at = ''t'', ar_updated_at = ''t'',
     ar_payload = Some \<lparr>at_id = ''run-1'', at_provider_id = ''x'', at_model = ''m'',
       at_status = ''completed'', at_transcript = ''done'', at_thread_id = Some ''room'',
       at_exchanges = [(''user'', ''p'')], at_turn = 1, at_usage = Some (1, 2), at_pending_approval_ids = [],
       at_recoverable = False, at_retry_count = 0, at_error = None, at_created_at = ''t'',
       at_updated_at = ''t''\<rparr>\<rparr>"

definition sample_message :: message_row where
  "sample_message = \<lparr>m_id = ''msg'', m_thread_id = ''room'', m_sequence = 1, m_parent_id = None,
     m_previous_id = None, m_kind = ''assistant'', m_run_id = Some ''run-1'', m_detail = JNull,
     m_idempotency = ''msg'', m_current_revision_id = ''rev'', m_current_revision_number = 1,
     m_current_revision_state = ''terminal'', m_created_at = ''t''\<rparr>"

definition sample_store :: "work list \<Rightarrow> store" where
  "sample_store ws = \<lparr>conversations = [(''room'', sample_room)], authors = [], teams = [],
     works = map (\<lambda>w. (w_id w, w)) ws, facts = [], receipts = [],
     threads = [(''room'', sample_thread)], tombstones = [], messages = [sample_message],
     attempts = [(''run-1'', sample_attempt)], projects = [],
     access = \<lparr>sa_enabled = False, sa_grants = []\<rparr>, occurrences = [], schedules = [], deliveries = [],
     message_revisions = [], run_authors = [], connections = [], allowances = [],
     limit_failures = [], saved_layout = None, worker_pref = None,
     control_pref = None\<rparr>"

lemmas sample_defs = sample_profile_def sample_peer_def sample_captured_def sample_ctx_def
  sample_work_def sample_room_def sample_thread_def sample_attempt_def sample_message_def
  sample_store_def

end
