(* ===== verification/Work_Goals.thy ===== *)
theory Work_Goals
  imports Store_Laws Collab_Samples
begin

text \<open>
  Outcome goals (\<open>collaboration/goals.rs\<close>): a goal is set on an unstarted request, paused and
  resumed by the user, reported on by its owning agent, and closed when a turn finishes or the
  turn and token budget runs out.
\<close>

section \<open>Operations\<close>

definition goal_set ::
  "ctx \<Rightarrow> string \<Rightarrow> u32 \<Rightarrow> string \<Rightarrow> string \<Rightarrow> u32 \<Rightarrow> u64 \<Rightarrow> store \<Rightarrow> cerr + store" where
  "goal_set ctx key generation objective criteria max_turns max_tokens s =
     bindE (item s key) (\<lambda>it.
     if w_parent_id it \<noteq> None \<or> w_generation it \<noteq> generation \<or> w_status it \<noteq> Queued
        \<or> w_run_ids it \<noteq> [] \<or> w_schedule it \<noteq> None \<or> w_external_client it \<noteq> None
     then Inl err_goal_unstarted_only else
     bindE (all_work s) (\<lambda>all.
     if (\<exists>w\<in>set all. w_root_id w = w_id it \<and> w_run_ids w \<noteq> [])
        \<or> \<not> (1 \<le> max_turns \<and> max_turns \<le> 24) \<or> \<not> (1000 \<le> max_tokens \<and> max_tokens \<le> 512000)
     then Inl err_goal_unstarted_only else
     bindE (bounded objective 2000 ''Goal'') (\<lambda>obj.
     bindE (bounded criteria 4000 ''Success criteria'') (\<lambda>crit.
     put_work ctx (it\<lparr>
         w_outcome_goal := Some \<lparr>g_objective = obj, g_success_criteria = crit,
                                 g_status = ''active'', g_report = None\<rparr>,
         w_max_turns := max_turns, w_max_tokens := max_tokens,
         w_execution_owner := None, w_hosted_task := None,
         w_generation := w_generation it + 1, w_updated_at := time ctx\<rparr>) s))))"

definition goal_pause :: "ctx \<Rightarrow> string \<Rightarrow> u32 \<Rightarrow> bool \<Rightarrow> store \<Rightarrow> cerr + store" where
  "goal_pause ctx key generation paused s =
     bindE (item s key) (\<lambda>it.
     if w_parent_id it \<noteq> None \<or> w_generation it \<noteq> generation \<or> \<not> active (w_status it)
     then Inl err_goal_refresh else
     bindE (ok_or err_no_goal (w_outcome_goal it)) (\<lambda>goal.
     if g_status goal \<notin> {''active'', ''paused''} then Inl err_goal_ended else
     put_work ctx (it\<lparr>
         w_outcome_goal := Some (goal\<lparr>g_status := (if paused then ''paused'' else ''active'')\<rparr>),
         w_generation := (if w_status it = Queued then w_generation it + 1 else w_generation it),
         w_updated_at := time ctx\<rparr>) s))"

definition goal_report_op ::
  "ctx \<Rightarrow> work \<Rightarrow> string \<Rightarrow> string \<Rightarrow> string \<Rightarrow> store \<Rightarrow> cerr + store" where
  "goal_report_op ctx it run status text s =
     (if w_parent_id it \<noteq> None \<or> status \<notin> {''completed'', ''continue'', ''blocked''}
      then Inl err_goal_owner_only else
      bindE (ok_or err_no_goal (w_outcome_goal it)) (\<lambda>goal.
      if g_status goal \<notin> {''active'', ''paused''} then Inl err_goal_inactive else
      bindE (bounded text 4000 ''Goal evidence'') (\<lambda>txt.
      put_work ctx (it\<lparr>
          w_outcome_goal := Some (goal\<lparr>g_report :=
             Some \<lparr>gr_status = status, gr_text = txt, gr_run_id = run, gr_created_at = time ctx\<rparr>\<rparr>),
          w_updated_at := time ctx\<rparr>) s)))"

text \<open>Called after \<open>finish\<close> saved a completed result: the report of this very run decides.\<close>

definition goal_finished :: "work \<Rightarrow> string \<Rightarrow> work" where
  "goal_finished it run =
     (case w_outcome_goal it of
        None \<Rightarrow> it
      | Some goal \<Rightarrow>
          if w_status it \<noteq> Completed then it else
          (let report = (case g_report goal of None \<Rightarrow> None
                         | Some r \<Rightarrow> if gr_run_id r = run then Some (gr_status r) else None)
           in if report = Some ''completed'' then
                it\<lparr>w_outcome_goal := Some (goal\<lparr>g_status := ''completed''\<rparr>)\<rparr>
              else if report = Some ''blocked'' then
                it\<lparr>w_outcome_goal := Some (goal\<lparr>g_status := ''blocked''\<rparr>),
                   w_status := AwaitingUser, w_awaiting_user := True,
                   w_reason := Some msg_goal_blocker\<rparr>
              else if report = Some ''continue'' then
                it\<lparr>w_status := Queued,
                   w_reason := Some (if g_status goal = ''paused'' then msg_goal_paused
                                     else msg_goal_continues)\<rparr>
              else
                it\<lparr>w_outcome_goal := Some (goal\<lparr>g_status := ''blocked''\<rparr>),
                   w_status := AwaitingUser, w_awaiting_user := False,
                   w_reason := Some msg_goal_no_report\<rparr>))"

definition enforce_budget :: "work \<Rightarrow> work" where
  "enforce_budget it =
     (case w_outcome_goal it of
        None \<Rightarrow> it
      | Some goal \<Rightarrow>
          if g_status goal \<in> {''active'', ''paused''} \<and> w_status it = Queued
             \<and> (w_max_turns it \<le> w_turn_count it \<or> w_max_tokens it \<le> w_token_usage it)
          then it\<lparr>w_outcome_goal := Some (goal\<lparr>g_status := ''budget-exhausted''\<rparr>),
                  w_status := AwaitingUser, w_awaiting_user := False,
                  w_reason := Some msg_goal_budget\<rparr>
          else it)"

section \<open>Laws of change\<close>

lemma goal_set_law:
  assumes "goal_set ctx key g obj crit mt mk s = Inr s'"
  shows "advances work_extends work_wf s s'" and "advances work_idle idle_new s s'"
proof -
  from assms obtain it all o' c where it: "tget (works s) key = Some it" "w_parent_id it = None"
      "w_status it = Queued"
    and put: "put_work ctx (it\<lparr>
         w_outcome_goal := Some \<lparr>g_objective = o', g_success_criteria = c,
                                 g_status = ''active'', g_report = None\<rparr>,
         w_max_turns := mt, w_max_tokens := mk,
         w_execution_owner := None, w_hosted_task := None,
         w_generation := w_generation it + 1, w_updated_at := time ctx\<rparr>) s = Inr s'"
    unfolding goal_set_def by (auto simp: result_simps simp del: all_work_Inr)
  show "advances work_extends work_wf s s'"
    using it by (intro extends.adv_put [OF it(1) _ put]) (simp add: work_law_defs work_wf_def)
  show "advances work_idle idle_new s s'"
    using it by (intro idle.adv_put [OF it(1) _ put]) (simp add: work_law_defs)
qed

lemma goal_pause_law:
  assumes "goal_pause ctx key g p s = Inr s'"
  shows "advances work_quiet quiet_new s s'"
  using assms unfolding goal_pause_def
  by (auto simp: result_simps work_law_defs work_wf_def simp del: all_work_Inr
      intro: quiet.adv_put [rotated -1])

lemma goal_report_law:
  assumes "goal_report_op ctx it run st txt s = Inr s'" and "tget (works s) key = Some it"
  shows "advances work_quiet quiet_new s s'"
  using assms unfolding goal_report_op_def
  by (auto simp: result_simps work_law_defs work_wf_def intro: quiet.adv_put [rotated -1])

lemma goal_finished_quiet: "\<not> executing (w_status w) \<Longrightarrow> work_quiet w (goal_finished w run)"
  by (auto simp: goal_finished_def Let_def work_law_defs work_wf_def split: option.splits)

lemma enforce_budget_quiet: "work_quiet w (enforce_budget w)"
  by (auto simp: enforce_budget_def work_law_defs work_wf_def split: option.splits)

section \<open>What closes a goal\<close>

text \<open>A finished turn of a Work with an outcome goal leaves the Work completed exactly when the
  agent reported completion from this very run; the goal is then completed, and after every other
  report (none, one of an earlier run, continue, blocked) the Work is queued again or waits for
  the user.\<close>

theorem goal_completes_on_fresh_report:
  assumes "w_outcome_goal it = Some goal" and "w_status it = Completed"
  shows "(w_status (goal_finished it run) = Completed \<longleftrightarrow>
            (\<exists>r. g_report goal = Some r \<and> gr_run_id r = run \<and> gr_status r = ''completed''))
    \<and> (w_status (goal_finished it run) = Completed \<longrightarrow>
         map_option g_status (w_outcome_goal (goal_finished it run)) = Some ''completed'')
    \<and> (w_status (goal_finished it run) \<noteq> Completed \<longrightarrow>
         w_status (goal_finished it run) \<in> {Queued, AwaitingUser})"
  using assms by (auto simp: goal_finished_def Let_def split: option.splits)

theorem goal_completes_on_fresh_report_witness:
  "\<exists>it goal. w_outcome_goal it = Some goal \<and> w_status it = Completed
     \<and> w_status (goal_finished it ''run-1'') = Queued \<and> w_status (goal_finished it ''run-0'') = AwaitingUser"
proof -
  let ?g = "\<lparr>g_objective = ''o'', g_success_criteria = ''c'', g_status = ''active'',
     g_report = Some \<lparr>gr_status = ''continue'', gr_text = ''e'', gr_run_id = ''run-1'',
                       gr_created_at = ''t''\<rparr>\<rparr>"
  let ?w = "sample_work\<lparr>w_outcome_goal := Some ?g, w_status := Completed\<rparr>"
  have "w_status (goal_finished ?w ''run-1'') \<noteq> Completed"
    using goal_completes_on_fresh_report [of ?w ?g "''run-1''"] by simp
  then have "w_status (goal_finished ?w ''run-1'') = Queued"
    by (simp add: goal_finished_def sample_work_def)
  moreover have "w_status (goal_finished ?w ''run-0'') = AwaitingUser"
    by (simp add: goal_finished_def sample_work_def)
  ultimately show ?thesis by (intro exI [of _ ?w] exI [of _ ?g]) simp
qed

text \<open>Budget enforcement: a queued Work whose goal is still open has turns and tokens left; a
  Work that ran out is parked for the user with its goal closed as exhausted, and enforcing the
  budget again changes nothing.\<close>

theorem budget_enforced:
  "(\<forall>goal. w_outcome_goal (enforce_budget it) = Some goal \<and> g_status goal \<in> {''active'', ''paused''}
        \<and> w_status (enforce_budget it) = Queued
      \<longrightarrow> w_turn_count it < w_max_turns it \<and> w_token_usage it < w_max_tokens it)
   \<and> (w_status (enforce_budget it) \<noteq> w_status it \<longrightarrow>
        w_status it = Queued \<and> w_status (enforce_budget it) = AwaitingUser
        \<and> map_option g_status (w_outcome_goal (enforce_budget it)) = Some ''budget-exhausted'')
   \<and> enforce_budget (enforce_budget it) = enforce_budget it"
  by (auto simp: enforce_budget_def not_le split: option.splits)

theorem budget_enforced_witness:
  "w_status (enforce_budget (sample_work\<lparr>w_outcome_goal := Some \<lparr>g_objective = ''o'',
       g_success_criteria = ''c'', g_status = ''active'', g_report = None\<rparr>, w_turn_count := 12\<rparr>))
     = AwaitingUser
   \<and> w_turn_count (sample_work\<lparr>w_outcome_goal := Some \<lparr>g_objective = ''o'',
       g_success_criteria = ''c'', g_status = ''active'', g_report = None\<rparr>\<rparr>) < 12"
  (is "w_status (enforce_budget ?a) = _ \<and> w_turn_count ?b < 12")
proof
  have "w_outcome_goal (enforce_budget ?a) \<noteq> w_outcome_goal ?a"
    by (simp add: enforce_budget_def sample_work_def)
  then show "w_status (enforce_budget ?a) = AwaitingUser"
    by (simp add: enforce_budget_def sample_work_def)
  show "w_turn_count ?b < 12"
    using budget_enforced [of ?b] by (simp add: enforce_budget_def sample_work_def)
qed

end
