(* ===== verification/Work_Queue.thy ===== *)
theory Work_Queue
  imports Store_Laws
begin

text \<open>
  The conversation queue (\<open>collaboration/queue.rs\<close>): scheduling metadata on the canonical Work
  records. Edits, holds and moves apply to unstarted requests only and advance the generation of
  every Work of the effort, so that a session prepared on the old order cannot bind.
\<close>

section \<open>Operations\<close>

definition queue_order :: "work \<Rightarrow> u32" where
  "queue_order w = (case w_queue w of None \<Rightarrow> 0 | Some q \<Rightarrow> q_order q)"

text \<open>\<open>compare\<close> is lexicographic on order, creation time and id.\<close>

definition queue_key :: "work \<Rightarrow> u32 \<times> string \<times> string" where
  "queue_key w = (queue_order w, w_created_at w, w_id w)"

definition queue_before :: "work \<Rightarrow> work \<Rightarrow> bool" where
  "queue_before a b = (queue_key a < queue_key b)"

definition unstarted :: "store \<Rightarrow> string \<Rightarrow> u32 \<Rightarrow> cerr + work" where
  "unstarted s key generation =
     bindE (item s key) (\<lambda>it.
     if w_generation it \<noteq> generation \<or> w_parent_id it \<noteq> None \<or> w_status it \<noteq> Queued
        \<or> (case w_origin it of None \<Rightarrow> False | Some origin \<Rightarrow> origin \<noteq> ''chat'')
        \<or> w_schedule it \<noteq> None \<or> w_parent_message_id it \<noteq> None
     then Inl err_unstarted_only else
     bindE (all_work s) (\<lambda>all.
     if \<exists>w\<in>set all. w_root_id w = w_id it
          \<and> (w_run_ids w \<noteq> [] \<or> w_current_run_id w \<noteq> None \<or> w_status w \<noteq> Queued)
     then Inl err_unstarted_only else Inr it))"

definition recoverable_unstarted :: "store \<Rightarrow> work \<Rightarrow> cerr + bool" where
  "recoverable_unstarted s it =
     bindE (item s (w_root_id it)) (\<lambda>root.
     Inr (w_queue root \<noteq> None \<and> is_ok (unstarted s (w_id root) (w_generation root))))"

definition update_effort :: "ctx \<Rightarrow> work \<Rightarrow> (work \<Rightarrow> work) \<Rightarrow> store \<Rightarrow> cerr + store" where
  "update_effort ctx root update s =
     bindE (all_work s) (\<lambda>all.
     foldE (\<lambda>w t. let w1 = update w in
              put_work ctx (w1\<lparr>w_generation := sat_add (w_generation w1) 1,
                               w_updated_at := time ctx\<rparr>) t)
           (filter (\<lambda>w. w_root_id w = w_id root) all) s)"

definition edit_prompt :: "string \<Rightarrow> work \<Rightarrow> work" where
  "edit_prompt prompt w =
     (let suffix = (case strip_prefix (w_prompt w) (w_user_request w) of None \<Rightarrow> [] | Some r \<Rightarrow> r)
      in w\<lparr>w_prompt := prompt @ suffix, w_user_request := prompt,
           w_reason := Some msg_queue_edited\<rparr>)"

definition queue_edit :: "ctx \<Rightarrow> string \<Rightarrow> u32 \<Rightarrow> string \<Rightarrow> store \<Rightarrow> cerr + store" where
  "queue_edit ctx key generation prompt s =
     bindE (unstarted s key generation) (\<lambda>root.
     bindE (bounded prompt 32000 ''Queued message'') (\<lambda>p.
     update_effort ctx root (edit_prompt p) s))"

definition set_held :: "bool \<Rightarrow> work \<Rightarrow> work" where
  "set_held held w =
     (let q = (case w_queue w of None \<Rightarrow> \<lparr>q_held = False, q_order = 0\<rparr> | Some q \<Rightarrow> q)
      in w\<lparr>w_queue := Some (q\<lparr>q_held := held\<rparr>)\<rparr>)"

definition queue_hold :: "ctx \<Rightarrow> string \<Rightarrow> u32 \<Rightarrow> bool \<Rightarrow> store \<Rightarrow> cerr + store" where
  "queue_hold ctx key generation held s =
     bindE (unstarted s key generation) (\<lambda>root. update_effort ctx root (set_held held) s)"

definition set_order :: "u32 \<Rightarrow> work \<Rightarrow> work" where
  "set_order order w =
     (let q = (case w_queue w of None \<Rightarrow> \<lparr>q_held = False, q_order = order\<rparr> | Some q \<Rightarrow> q)
      in w\<lparr>w_queue := Some (q\<lparr>q_order := order\<rparr>)\<rparr>)"

fun position :: "('a \<Rightarrow> bool) \<Rightarrow> 'a list \<Rightarrow> nat option" where
  "position p [] = None"
| "position p (x # xs) = (if p x then Some 0 else map_option Suc (position p xs))"

definition rposition :: "('a \<Rightarrow> bool) \<Rightarrow> 'a list \<Rightarrow> nat option" where
  "rposition p xs = map_option (\<lambda>i. length xs - 1 - i) (position p (rev xs))"

definition insert_at :: "nat \<Rightarrow> 'a \<Rightarrow> 'a list \<Rightarrow> 'a list" where
  "insert_at i x xs = take i xs @ x # drop i xs"

text \<open>The order of the unstarted roots after a move, before it is written back.\<close>

definition moved_roots :: "store \<Rightarrow> work \<Rightarrow> string option \<Rightarrow> cerr + work list" where
  "moved_roots s root before =
     bindE (all_work s) (\<lambda>all.
     let roots = sort_key queue_key
                   (filter (\<lambda>w. is_ok (unstarted s (w_id w) (w_generation w))) all) in
     bindE (optE (\<lambda>key. bindE (item s key) (\<lambda>w. unstarted s key (w_generation w))) before) (\<lambda>target.
     if (case target of None \<Rightarrow> False
         | Some t \<Rightarrow> w_conversation_id t \<noteq> w_conversation_id root \<or> w_id t = w_id root)
     then Inl err_move_within_conversation else
     let rest = filter (\<lambda>w. w_id w \<noteq> w_id root) roots in
     bindE (case target of
              Some t \<Rightarrow> ok_or err_queue_changed (position (\<lambda>w. w_id w = w_id t) rest)
            | None \<Rightarrow> Inr (case rposition (\<lambda>w. w_conversation_id w = w_conversation_id root) rest of
                            None \<Rightarrow> length rest | Some i \<Rightarrow> i + 1)) (\<lambda>pos.
     Inr (insert_at pos root rest))))"

definition renumber :: "ctx \<Rightarrow> work list \<Rightarrow> store \<Rightarrow> cerr + store" where
  "renumber ctx roots s =
     foldE (\<lambda>(i, root) t. update_effort ctx root (set_order (of_nat i + 1)) t)
       (enumerate 0 roots) s"

definition queue_move :: "ctx \<Rightarrow> string \<Rightarrow> u32 \<Rightarrow> string option \<Rightarrow> store \<Rightarrow> cerr + store" where
  "queue_move ctx key generation before s =
     bindE (unstarted s key generation) (\<lambda>root.
     bindE (moved_roots s root before) (\<lambda>roots. renumber ctx roots s))"

definition held :: "work \<Rightarrow> bool" where
  "held w = (case w_queue w of None \<Rightarrow> False | Some q \<Rightarrow> q_held q)"

definition goal_ready :: "work \<Rightarrow> bool" where
  "goal_ready w = (case w_outcome_goal w of None \<Rightarrow> True | Some g \<Rightarrow> g_status g = ''active'')"

definition effort_root :: "work list \<Rightarrow> work \<Rightarrow> work" where
  "effort_root all w = (case find (\<lambda>r. w_id r = w_root_id w) all of None \<Rightarrow> w | Some r \<Rightarrow> r)"

definition dispatchable :: "work \<Rightarrow> work list \<Rightarrow> bool" where
  "dispatchable it all =
     (let root = effort_root all it in
      if w_execution_owner root = Some ''hosted'' \<or> held root \<or> \<not> goal_ready root then False
      else \<not> (\<exists>other\<in>set all.
        \<not> (w_id other = w_id it \<or> w_root_id other = w_root_id it
           \<or> w_agent_id other \<noteq> w_agent_id it \<or> w_status other \<noteq> Queued)
        \<and> (let earlier = effort_root all other in
            \<not> held earlier \<and> goal_ready earlier \<and> queue_before earlier root)))"

definition ensure_dispatchable :: "store \<Rightarrow> work \<Rightarrow> cerr + unit" where
  "ensure_dispatchable s it =
     bindE (all_work s) (\<lambda>all. if dispatchable it all then Inr () else Inl err_not_dispatchable)"

section \<open>Laws of change\<close>

definition renewed :: "ctx \<Rightarrow> (work \<Rightarrow> work) \<Rightarrow> work \<Rightarrow> work" where
  "renewed ctx update w =
     (update w)\<lparr>w_generation := sat_add (w_generation (update w)) 1, w_updated_at := time ctx\<rparr>"

lemma update_effort_Inr:
  "update_effort ctx root update s = Inr s' \<longleftrightarrow>
     length (works s) \<le> 4096
     \<and> foldE (\<lambda>w. put_work ctx (renewed ctx update w))
         (filter (\<lambda>w. w_root_id w = w_id root) (trows (works s))) s = Inr s'"
  by (simp add: update_effort_def result_simps renewed_def Let_def)

lemma update_effort_get:
  assumes "update_effort ctx root update s = Inr s'" and "store_ok s"
    and "\<And>w. w_id (update w) = w_id w"
  shows "tget (works s') k = map_option
     (\<lambda>w. if w_root_id w = w_id root then renewed ctx update w else w) (tget (works s) k)"
  using assms by (intro rewrite_rows) (auto simp: update_effort_Inr renewed_def)

lemma update_effort_law:
  assumes "update_effort ctx root update s = Inr s'"
    and "\<And>w. work_quiet w (renewed ctx update w)"
  shows "advances work_quiet quiet_new s s'"
  using assms(1) unfolding update_effort_Inr by (elim conjE quiet.adv_rewrite) (rule assms(2))

lemma queue_updates_quiet:
  "work_quiet w (renewed ctx (edit_prompt p) w)" "work_quiet w (renewed ctx (set_held h) w)"
  "work_quiet w (renewed ctx (set_order n) w)"
  by (simp_all add: renewed_def edit_prompt_def set_held_def set_order_def Let_def
      work_law_defs work_wf_def)

lemma queue_edit_law: "queue_edit ctx key g p s = Inr s' \<Longrightarrow> advances work_quiet quiet_new s s'"
  by (auto simp: queue_edit_def result_simps intro: update_effort_law queue_updates_quiet)

lemma queue_hold_law: "queue_hold ctx key g h s = Inr s' \<Longrightarrow> advances work_quiet quiet_new s s'"
  by (auto simp: queue_hold_def result_simps intro: update_effort_law queue_updates_quiet)

lemma renumber_law: "renumber ctx roots s = Inr s' \<Longrightarrow> advances work_quiet quiet_new s s'"
  unfolding renumber_def
  by (erule quiet.adv_foldE [rotated]) (auto intro: update_effort_law queue_updates_quiet)

lemma queue_move_law: "queue_move ctx key g b s = Inr s' \<Longrightarrow> advances work_quiet quiet_new s s'"
  by (auto simp: queue_move_def result_simps intro: renumber_law)

end
