(* ===== verification/Work_Run.thy ===== *)
theory Work_Run
  imports Work_Start Work_Goals Work_Queue
begin

text \<open>
  The life of an assignment (\<open>collaboration/work.rs\<close>): the authority check every provider
  operation passes (\<open>current\<close>), the binding of one provider attempt (\<open>bind\<close>), its result
  (\<open>finish\<close>), the invalidation of an assignment with its descendants, and the wake-up of
  assignments whose delegated results are in.
\<close>

section \<open>Current assignments\<close>

text \<open>
  \<open>hosted::mark_stop\<close> marks the cloud execution for cancellation; the in-memory signal to a
  running transport that it also sends is not part of the store.
\<close>

definition mark_stop :: "work \<Rightarrow> work" where
  "mark_stop w =
     (case w_hosted_task w of
        None \<Rightarrow> w
      | Some cloud \<Rightarrow>
          if w_execution_owner w = Some ''hosted'' \<and> ht_phase cloud \<noteq> ''reconciled''
          then w\<lparr>w_hosted_task := Some (cloud\<lparr>ht_phase := ''stop-pending''\<rparr>)\<rparr>
          else w)"

definition independent_recipient :: "work \<Rightarrow> work \<Rightarrow> bool" where
  "independent_recipient root it =
     (w_workspace_recipient it \<and> w_parent_id it = Some (w_id root)
      \<and> w_agent_id it \<in> set (w_recipient_ids root) \<and> w_id it \<in> set (w_dependencies root))"

definition check_project_context :: "store \<Rightarrow> work \<Rightarrow> cerr + unit" where
  "check_project_context s it =
     (case w_project_id it of
        None \<Rightarrow> Inr ()
      | Some project \<Rightarrow>
          bindE (project_team s project) (\<lambda>tm.
          if tm_revision tm \<noteq> w_context_revision it
             \<or> \<not> w_workspace_recipient it \<and> w_agent_id it \<notin> set (tm_participant_ids tm)
          then Inl err_project_context_changed else Inr ()))"

definition current_in ::
  "ctx \<Rightarrow> string \<Rightarrow> u32 \<Rightarrow> string option \<Rightarrow> bool \<Rightarrow> store \<Rightarrow> cerr + work" where
  "current_in ctx key generation run user_review s =
     bindE (item s key) (\<lambda>it.
     if w_generation it \<noteq> generation
        \<or> \<not> (active (w_status it) \<or> user_review \<and> w_status it = AwaitingUser)
        \<or> (run \<noteq> None \<and> w_current_run_id it \<noteq> run)
     then Inl err_assignment_changed else
     bindE (room s (w_conversation_id it)) (\<lambda>r.
     if c_generation r \<noteq> w_conversation_generation it
        \<or> \<not> w_workspace_recipient it
          \<and> \<not> (\<exists>p\<in>set (c_participants r). pt_agent_id p = w_agent_id it)
     then Inl err_membership_changed else
     bindE (find_profile (profiles ctx) (w_agent_id it)) (\<lambda>agent.
     if w_schedule it = None \<and> p_model_id agent \<noteq> w_model_option_id it
     then Inl err_model_changed else
     if permission_rank (permission_mode agent) < permission_rank (w_permission_mode it)
     then Inl err_permissions_reduced else
     bindE (check_project_context s it) (\<lambda>_.
     bindE (item s (w_root_id it)) (\<lambda>root.
     bindE (check_work ctx s root (w_agent_id it) (w_permission_mode it)) (\<lambda>_.
     bindE (check_schedule ctx s root (time ctx) (run \<noteq> None)) (\<lambda>_.
     if w_status root \<in> {Cancelled, Failed, AwaitingUser, Blocked} \<and> w_id root \<noteq> w_id it
        \<and> \<not> independent_recipient root it
     then Inl err_parent_inactive else Inr it)))))))"

definition current :: "ctx \<Rightarrow> string \<Rightarrow> u32 \<Rightarrow> string option \<Rightarrow> store \<Rightarrow> cerr + work" where
  "current ctx key generation run s = current_in ctx key generation run False s"

definition current_for_user_review ::
  "ctx \<Rightarrow> string \<Rightarrow> u32 \<Rightarrow> string option \<Rightarrow> store \<Rightarrow> cerr + work" where
  "current_for_user_review ctx key generation run s = current_in ctx key generation run True s"

definition current_for_failure :: "string \<Rightarrow> u32 \<Rightarrow> store \<Rightarrow> cerr + work" where
  "current_for_failure key generation s =
     bindE (item s key) (\<lambda>it.
     if w_generation it \<noteq> generation \<or> \<not> active (w_status it)
     then Inl err_late_failure_rejected else
     bindE (room s (w_conversation_id it)) (\<lambda>_. Inr it))"

section \<open>Invalidation of an assignment and its descendants\<close>

text \<open>One pass over the records: the ids whose parent is already affected join the set.\<close>

definition grow :: "work list \<Rightarrow> string list \<Rightarrow> string list" where
  "grow all affected =
     fold (\<lambda>w acc. case w_parent_id w of None \<Rightarrow> acc
                   | Some p \<Rightarrow> if p \<in> set acc then List.insert (w_id w) acc else acc) all affected"

lemma grow_mono: "set affected \<subseteq> set (grow all affected)"
  unfolding grow_def
proof (induction all arbitrary: affected)
  case (Cons w all)
  show ?case
    using Cons.IH [of affected] Cons.IH [of "List.insert (w_id w) affected"]
    by (auto split: option.splits)
qed simp

lemma grow_ids: "set (grow all affected) \<subseteq> set affected \<union> w_id ` set all"
  unfolding grow_def
proof (induction all arbitrary: affected)
  case (Cons w all)
  show ?case
    using Cons.IH [of affected] Cons.IH [of "List.insert (w_id w) affected"]
    by (auto split: option.splits if_splits)
qed simp

lemma grow_length: "length affected \<le> length (grow all affected)"
  unfolding grow_def
proof (induction all arbitrary: affected)
  case (Cons w all)
  have "length affected \<le> length (List.insert (w_id w) affected)" by (simp add: List.insert_def)
  with Cons.IH [of affected] Cons.IH [of "List.insert (w_id w) affected"] show ?case
    by (auto split: option.splits)
qed simp

lemma grow_same: "set (grow all affected) \<subseteq> set affected \<Longrightarrow> grow all affected = affected"
  unfolding grow_def
proof (induction all arbitrary: affected)
  case (Cons w all)
  let ?f = "\<lambda>w acc. case w_parent_id w of None \<Rightarrow> acc
              | Some p \<Rightarrow> if p \<in> set acc then List.insert (w_id w) acc else acc"
  have "set (?f w affected) \<subseteq> set (fold ?f all (?f w affected))"
    using grow_mono [of "?f w affected" all] by (simp add: grow_def)
  with Cons.prems have "set (?f w affected) \<subseteq> set affected" by auto
  then have "?f w affected = affected" by (auto split: option.splits if_splits)
  with Cons show ?case by simp
qed simp

function affected_loop :: "work list \<Rightarrow> string list \<Rightarrow> string list" where
  "affected_loop all affected =
     (let next = grow all affected in
      if length next = length affected then next else affected_loop all next)"
  by pat_completeness auto
termination
proof (relation "measure (\<lambda>(all, affected). card (w_id ` set all - set affected))", simp, clarify)
  fix all affected
  assume "length (grow all affected) \<noteq> length affected"
  then have "\<not> set (grow all affected) \<subseteq> set affected" using grow_same by metis
  then obtain k where k: "k \<in> set (grow all affected)" "k \<notin> set affected" by blast
  then have "k \<in> w_id ` set all" using grow_ids by blast
  then have "w_id ` set all - set (grow all affected) \<subset> w_id ` set all - set affected"
    using k grow_mono [of affected all] by blast
  then show "((all, grow all affected), all, affected)
      \<in> measure (\<lambda>(all, affected). card (w_id ` set all - set affected))"
    by (simp add: psubset_card_mono)
qed

declare affected_loop.simps [simp del]

definition invalidated :: "ctx \<Rightarrow> string \<Rightarrow> work_status \<Rightarrow> work \<Rightarrow> work" where
  "invalidated ctx reason status w =
     (let w1 = mark_stop (w\<lparr>w_generation := w_generation w + 1\<rparr>) in
      w1\<lparr>w_reset_continuation :=
           (case w_reset_continuation w1 of
              None \<Rightarrow> None
            | Some reset \<Rightarrow> Some (if rc_state reset = ''armed''
                then reset\<lparr>rc_state := ''review-required'', rc_reason := Some reason\<rparr> else reset)),
         w_status := status, w_reason := Some reason, w_updated_at := time ctx\<rparr>)"

definition invalidate_descendants ::
  "ctx \<Rightarrow> string \<Rightarrow> string \<Rightarrow> work_status \<Rightarrow> store \<Rightarrow> cerr + store" where
  "invalidate_descendants ctx key reason status s =
     bindE (all_work s) (\<lambda>all.
     let affected = affected_loop all [key] in
     foldE (\<lambda>w t. if w_id w \<in> set affected \<and> w_status w \<noteq> Completed \<and> w_status w \<noteq> Cancelled
                  then put_work ctx (invalidated ctx reason status w) t else Inr t) all s)"

section \<open>Waking the waiting\<close>

definition unresolved :: "work_status \<Rightarrow> bool" where
  "unresolved st = (st \<in> {Failed, Cancelled, Blocked, AwaitingUser})"

definition wake_one :: "ctx \<Rightarrow> work \<Rightarrow> store \<Rightarrow> cerr + work option" where
  "wake_one ctx it s =
     bindE (mapE (item s) (w_waiting_for it)) (\<lambda>deps.
     if \<exists>d\<in>set deps. unresolved (w_status d) then
       (if w_prerequisites it = [] then
          (if \<exists>d\<in>set deps. active (w_status d) then Inr None
           else Inr (Some (it\<lparr>w_status := Queued, w_awaiting_user := True,
                              w_reason := Some msg_report_unresolved\<rparr>)))
        else Inr (Some (it\<lparr>w_status := Blocked, w_reason := Some msg_delegate_unresolved\<rparr>)))
     else if \<forall>d\<in>set deps. w_status d = Completed then
       bindE (item s (w_root_id it)) (\<lambda>root.
       if w_max_turns root \<le> w_turn_count root \<or> w_max_tokens root \<le> w_token_usage root
       then Inr (Some (it\<lparr>w_status := AwaitingUser, w_reason := Some msg_limit_reached\<rparr>))
       else Inr (Some (it\<lparr>w_status := Queued, w_reason := Some msg_results_ready\<rparr>)))
     else Inr None)"

definition wake_step :: "ctx \<Rightarrow> work \<Rightarrow> bool \<times> store \<Rightarrow> cerr + (bool \<times> store)" where
  "wake_step ctx it = (\<lambda>(changed, s).
     if w_status it \<noteq> Waiting then Inr (changed, s) else
     bindE (wake_one ctx it s) (\<lambda>r.
     case r of
       None \<Rightarrow> Inr (changed, s)
     | Some it' \<Rightarrow>
         bindE (put_work ctx (it'\<lparr>w_updated_at := time ctx\<rparr>) s) (\<lambda>s'. Inr (True, s'))))"

definition wake_scan :: "ctx \<Rightarrow> store \<Rightarrow> cerr + (bool \<times> store)" where
  "wake_scan ctx s = bindE (all_work s) (\<lambda>all. foldE (wake_step ctx) all (False, s))"

fun wake_rounds :: "nat \<Rightarrow> ctx \<Rightarrow> store \<Rightarrow> cerr + store" where
  "wake_rounds 0 ctx s = Inl Diverges"
| "wake_rounds (Suc n) ctx s =
     bindE (wake_scan ctx s) (\<lambda>(changed, s').
     if changed then wake_rounds n ctx s' else Inr s')"

text \<open>Every change leaves \<open>Waiting\<close>, so one round more than there are records is enough.\<close>

definition wake_waiters :: "ctx \<Rightarrow> store \<Rightarrow> cerr + store" where
  "wake_waiters ctx s = wake_rounds (Suc (length (works s))) ctx s"

section \<open>Binding a provider attempt\<close>

definition owns_work :: "work \<Rightarrow> bool" where
  "owns_work w = (w_execution_owner w = Some ''native-background'')"

definition check_prerequisites :: "store \<Rightarrow> work \<Rightarrow> cerr + unit" where
  "check_prerequisites s it =
     bindE (mapE (\<lambda>dep. bindE (item s dep) (\<lambda>d.
              if w_status d \<noteq> Completed then Inl err_dependency_unresolved else Inr ()))
            (w_prerequisites it)) (\<lambda>_. Inr ())"

definition limit_reached :: "work \<Rightarrow> bool" where
  "limit_reached root =
     (w_max_turns root \<le> w_turn_count root \<or> w_max_tokens root \<le> w_token_usage root)"

definition check_attempt :: "store \<Rightarrow> string \<Rightarrow> work \<Rightarrow> cerr + unit" where
  "check_attempt s run it =
     bindE (ok_or err_attempt_missing (tget (attempts s) run)) (\<lambda>attempt.
     if ar_status attempt \<noteq> ''queued'' \<or> ar_thread_id attempt \<noteq> Some (w_conversation_id it)
     then Inl err_attempt_mismatch else
     if w_model_option_id it \<noteq> ar_provider_id attempt @ ''::'' @ ar_model attempt
        \<and> w_model_option_id it \<noteq> ar_model attempt
     then Inl err_model_mismatch else Inr ())"

definition not_completed :: "store \<Rightarrow> string \<Rightarrow> bool" where
  "not_completed s dep = (case item s dep of Inl _ \<Rightarrow> True | Inr d \<Rightarrow> w_status d \<noteq> Completed)"

definition bound :: "ctx \<Rightarrow> string \<Rightarrow> store \<Rightarrow> work \<Rightarrow> work" where
  "bound ctx run s it =
     it\<lparr>w_status := Running, w_reason := None, w_current_run_id := Some run,
        w_delivered_message_count := of_nat (length (w_messages it)),
        w_delivered_steering_count := of_nat (length (w_steering it)),
        w_run_ids := w_run_ids it @ [run], w_turn_count := w_turn_count it + 1,
        w_waiting_for := (if w_run_ids it \<noteq> [] \<or> 1 < length (w_recipient_ids it)
                          then filter (not_completed s) (w_waiting_for it) else []),
        w_updated_at := time ctx\<rparr>"

definition save_author :: "ctx \<Rightarrow> string \<Rightarrow> author \<Rightarrow> string option \<Rightarrow> store \<Rightarrow> cerr + store" where
  "save_author ctx run a project s =
     (if tget (authors s) run \<noteq> None then Inl err_authorship_immutable
      else put_author ctx run project a s)"

text \<open>\<open>bind\<close> of a queued assignment: its inputs are captured, its admission is checked, and the
  run, the turn count of the root and the authorship are saved.\<close>

definition bind_inputs ::
  "ctx \<Rightarrow> work_attachment list option \<Rightarrow> work \<Rightarrow> store \<Rightarrow> cerr + (work \<times> store)" where
  "bind_inputs ctx attachments it s =
     (case attachments of
        None \<Rightarrow> Inr (it, s)
      | Some refs \<Rightarrow>
          bindE (validate_attachments refs) (\<lambda>_.
          let it1 = it\<lparr>w_attachments := refs, w_updated_at := time ctx\<rparr> in
          bindE (put_work ctx it1 s) (\<lambda>s1. Inr (it1, s1))))"

definition bind_admit :: "string \<Rightarrow> work \<Rightarrow> store \<Rightarrow> cerr + work" where
  "bind_admit run it s =
     bindE (all_work s) (\<lambda>all.
     if \<exists>w\<in>set all. w_agent_id w = w_agent_id it \<and> w_id w \<noteq> w_id it \<and> executing (w_status w)
     then Inl (if w_workspace_recipient it then err_recipient_busy else err_teammate_busy) else
     bindE (check_prerequisites s it) (\<lambda>_.
     bindE (item s (w_root_id it)) (\<lambda>root.
     if limit_reached root then Inl err_exchange_limit else
     bindE (check_attempt s run it) (\<lambda>_. Inr root))))"

definition bind_commit ::
  "ctx \<Rightarrow> string \<Rightarrow> u32 \<Rightarrow> string \<Rightarrow> work \<Rightarrow> work \<Rightarrow> store \<Rightarrow> cerr + store" where
  "bind_commit ctx key generation run it root s =
     (let it' = bound ctx run s it in
      bindE (if w_id root \<noteq> w_id it
             then put_work ctx (root\<lparr>w_turn_count := w_turn_count root + 1\<rparr>) s else Inr s) (\<lambda>s2.
      bindE (put_work ctx it' s2) (\<lambda>s3.
      save_author ctx run
        \<lparr>au_run_id = run, au_conversation_id = w_conversation_id it',
         au_agent_id = w_agent_id it', au_name = w_agent_name it', au_work_id = Some key,
         au_generation = generation\<rparr>
        (w_project_id it') s3)))"

definition bind_queued ::
  "ctx \<Rightarrow> string \<Rightarrow> u32 \<Rightarrow> string \<Rightarrow> work_attachment list option \<Rightarrow> work \<Rightarrow> store
   \<Rightarrow> cerr + store" where
  "bind_queued ctx key generation run attachments it0 s0 =
     bindE (ensure_dispatchable s0 it0) (\<lambda>_.
     bindE (bind_inputs ctx attachments it0 s0) (\<lambda>(it, s).
     bindE (bind_admit run it s) (\<lambda>root.
     bind_commit ctx key generation run it root s)))"

definition bind_work ::
  "ctx \<Rightarrow> string \<Rightarrow> u32 \<Rightarrow> string \<Rightarrow> work_attachment list option \<Rightarrow> store \<Rightarrow> cerr + store" where
  "bind_work ctx key generation run attachments s =
     bindE (check_id run) (\<lambda>_.
     bindE (current ctx key generation None s) (\<lambda>it.
     if w_execution_owner it = Some ''hosted'' then Inl err_cloud_work_cannot_bind else
     if owns_work it \<and> \<not> is_worker ctx then Inl err_background_owned else
     if w_current_run_id it = Some run \<and> executing (w_status it) then
       bindE (case attachments of None \<Rightarrow> Inr () | Some refs \<Rightarrow> validate_attachments refs) (\<lambda>_.
       Inr s)
     else if w_status it \<noteq> Queued then Inl err_not_queued
     else bind_queued ctx key generation run attachments it s))"

section \<open>Finishing a provider attempt\<close>

definition saved_result :: "string \<Rightarrow> message_row \<Rightarrow> bool" where
  "saved_result run m =
     (m_run_id m = Some run \<and> m_kind m = ''assistant'' \<and> m_current_revision_state m \<noteq> ''redacted'')"

text \<open>The evidence of a completed turn.\<close>

definition output_of ::
  "ctx \<Rightarrow> string \<Rightarrow> execution_attempt \<Rightarrow> message_row \<Rightarrow> work \<Rightarrow> store \<Rightarrow> work_output" where
  "output_of ctx run attempt source it s =
     \<lparr>o_run_id = run, o_conversation_id = w_conversation_id it,
      o_branch_id = (case tget (threads s) (w_conversation_id it) of
                       None \<Rightarrow> None
                     | Some th \<Rightarrow> (case th_selected_head_id th of
                                    None \<Rightarrow> th_last_message_id th | Some h \<Rightarrow> Some h)),
      o_message_id = Some (m_id source),
      o_source_revision_id = Some (m_current_revision_id source),
      o_text = concat (take 6000 (scalars (at_transcript attempt))),
      o_evidence = ''agent-report'', o_created_at = time ctx\<rparr>"

text \<open>What a completed turn leaves to do: a question to the user, a follow-up or a message that
  arrived during the turn, delegated work still out, or nothing.\<close>

definition after_turn :: "work \<Rightarrow> work" where
  "after_turn it =
     (if w_awaiting_user it then it\<lparr>w_status := AwaitingUser\<rparr>
      else if w_delivered_steering_count it < of_nat (length (w_steering it))
      then it\<lparr>w_status := Queued, w_reason := Some msg_follow_up_queued_turn\<rparr>
      else if w_delivered_message_count it < of_nat (length (w_messages it))
      then it\<lparr>w_status := Queued, w_reason := Some msg_message_queued_turn\<rparr>
      else if w_waiting_for it \<noteq> [] then it\<lparr>w_status := Waiting\<rparr>
      else it)"

definition complete_output ::
  "ctx \<Rightarrow> string \<Rightarrow> execution_attempt \<Rightarrow> work \<Rightarrow> store \<Rightarrow> cerr + work" where
  "complete_output ctx run attempt it s =
     bindE (message_list s (w_conversation_id it)) (\<lambda>actual.
     if at_status attempt \<noteq> ''completed'' \<or> trim (at_transcript attempt) = []
        \<or> \<not> (\<exists>m\<in>set actual. saved_result run m)
     then Inl err_completion_needs_evidence else
     bindE (ok_or err_no_assistant_source
              (max_by_key m_sequence (filter (saved_result run) actual))) (\<lambda>source.
     Inr (after_turn (it\<lparr>w_outputs := w_outputs it @ [output_of ctx run attempt source it s]\<rparr>))))"

definition attempt_usage :: "execution_attempt \<Rightarrow> u64" where
  "attempt_usage attempt = (case at_usage attempt of None \<Rightarrow> 8000 | Some (i, out) \<Rightarrow> i + out)"

definition live_unconfirmed :: "string \<Rightarrow> work \<Rightarrow> bool" where
  "live_unconfirmed run it =
     (\<exists>e\<in>set (w_live_steering it). ls_run_id e = run \<and> ls_delivery e \<in> {''pending'', ''uncertain''})"

definition park_unconfirmed :: "string \<Rightarrow> work \<Rightarrow> work" where
  "park_unconfirmed run it =
     (if live_unconfirmed run it
      then it\<lparr>w_status := AwaitingUser, w_awaiting_user := False,
              w_reason := Some msg_unconfirmed,
              w_outcome_goal := map_option (\<lambda>g. g\<lparr>g_status := ''paused''\<rparr>) (w_outcome_goal it)\<rparr>
      else it)"

text \<open>The children of a stopped or parked assignment end with it, explicit recipients excepted.\<close>

definition stop_children :: "ctx \<Rightarrow> string \<Rightarrow> work \<Rightarrow> store \<Rightarrow> cerr + store" where
  "stop_children ctx key it s =
     bindE (all_work s) (\<lambda>all.
     foldE (\<lambda>child t.
       if w_parent_id child = Some key \<and> active (w_status child)
          \<and> \<not> (w_parent_id it = None \<and> w_agent_id child \<in> set (w_recipient_ids it))
       then invalidate_descendants ctx (w_id child) msg_requester_stopped Cancelled t
       else Inr t) all s)"

definition finish_saved ::
  "ctx \<Rightarrow> string \<Rightarrow> string \<Rightarrow> execution_attempt \<Rightarrow> work \<Rightarrow> store \<Rightarrow> cerr + store" where
  "finish_saved ctx key run attempt it2 s =
     bindE (item s (w_root_id it2)) (\<lambda>root.
     let usage = attempt_usage attempt;
         it3 = it2\<lparr>w_token_usage := sat_add (w_token_usage it2) usage\<rparr>;
         it4 = park_unconfirmed run (enforce_budget (goal_finished it3 run));
         it5 = it4\<lparr>w_updated_at := time ctx\<rparr> in
     bindE (if w_id root \<noteq> w_id it5
            then put_work ctx (enforce_budget
                   (root\<lparr>w_token_usage := sat_add (w_token_usage root) usage\<rparr>)) s
            else Inr s) (\<lambda>s1.
     bindE (put_work ctx it5 s1) (\<lambda>s2.
     bindE (if w_status it5 \<notin> {Completed, Waiting, Queued} then stop_children ctx key it5 s2
            else Inr s2) (\<lambda>s3.
     wake_waiters ctx s3))))"

definition finish ::
  "ctx \<Rightarrow> string \<Rightarrow> u32 \<Rightarrow> string \<Rightarrow> work_status \<Rightarrow> string option \<Rightarrow> store \<Rightarrow> cerr + store" where
  "finish ctx key generation run status reason s =
     bindE (item s key) (\<lambda>saved.
     if (\<exists>out\<in>set (w_outputs saved). o_run_id out = run) \<and> w_current_run_id saved = Some run
        \<and> \<not> executing (w_status saved)
     then Inr s else
     bindE (current ctx key generation (Some run) s) (\<lambda>it.
     if status \<notin> {Completed, Failed, Cancelled, AwaitingUser}
     then Inl err_invalid_terminal_status else
     bindE (ok_or err_attempt_unavailable (tget (attempts s) run)) (\<lambda>row.
     bindE (ok_or err_attempt_evidence_invalid (ar_payload row)) (\<lambda>attempt.
     if at_status attempt \<in> {''queued'', ''streaming'', ''awaiting-approval'', ''retrying''}
     then Inl err_still_executing else
     bindE (optE (\<lambda>r. bounded r 2000 ''Work status'') reason) (\<lambda>reason'.
     let it1 = it\<lparr>w_status := status,
                  w_reason := (case reason' of None \<Rightarrow> w_reason it | Some r \<Rightarrow> Some r)\<rparr> in
     bindE (if status = Completed then complete_output ctx run attempt it1 s else Inr it1) (\<lambda>it2.
     finish_saved ctx key run attempt it2 s))))))"

section \<open>Profiles\<close>

definition profile_lost :: "ctx \<Rightarrow> work \<Rightarrow> bool" where
  "profile_lost ctx it =
     (case find_profile (profiles ctx) (w_agent_id it) of
        Inl _ \<Rightarrow> True
      | Inr p \<Rightarrow> w_schedule it = None \<and> p_model_id p \<noteq> w_model_option_id it)"

definition reconcile_profiles :: "ctx \<Rightarrow> store \<Rightarrow> cerr + store" where
  "reconcile_profiles ctx s =
     bindE (all_work s) (\<lambda>all.
     bindE (foldE (\<lambda>w t. if active (w_status w) \<and> profile_lost ctx w
                         then invalidate_descendants ctx (w_id w) msg_agent_removed AwaitingUser t
                         else Inr t) all s) (\<lambda>s'.
     wake_waiters ctx s'))"

end
