(* ===== verification/Work_Run_Laws.thy ===== *)
theory Work_Run_Laws
  imports Work_Run
begin

text \<open>
  The laws of \<open>Work_Run\<close>: the affected set of an invalidation is the reflexive-transitive closure
  of the parent relation, the wake-up loop ends in a fixed point, and every operation of an
  assignment's life advances the store by one of the laws of \<open>Store_Laws\<close>.
\<close>

section \<open>Descendants\<close>

definition child_of :: "store \<Rightarrow> (string \<times> string) set" where
  "child_of s = {(p, k). \<exists>w. tget (works s) k = Some w \<and> w_parent_id w = Some p}"

definition descendants :: "store \<Rightarrow> string \<Rightarrow> string set" where
  "descendants s key = {k. (key, k) \<in> (child_of s)\<^sup>*}"

lemma grow_Cons:
  "grow (w # all) acc =
     grow all (case w_parent_id w of None \<Rightarrow> acc
               | Some p \<Rightarrow> if p \<in> set acc then List.insert (w_id w) acc else acc)"
  by (simp add: grow_def)

lemma grow_same_length: "length (grow all acc) = length acc \<Longrightarrow> grow all acc = acc"
proof (induction all arbitrary: acc)
  case (Cons w all)
  let ?a = "case w_parent_id w of None \<Rightarrow> acc
            | Some p \<Rightarrow> if p \<in> set acc then List.insert (w_id w) acc else acc"
  have "length acc \<le> length ?a" by (simp add: List.insert_def split: option.splits)
  moreover have "length ?a \<le> length acc"
    using grow_length [of ?a all] Cons.prems by (simp add: grow_Cons)
  ultimately have "?a = acc" by (auto simp: List.insert_def split: option.splits if_splits)
  with Cons show ?case by (simp add: grow_Cons)
qed (simp add: grow_def)

lemma grow_closed:
  "w \<in> set all \<Longrightarrow> w_parent_id w = Some p \<Longrightarrow> p \<in> set acc \<Longrightarrow> w_id w \<in> set (grow all acc)"
proof (induction all arbitrary: acc)
  case (Cons v all)
  let ?a = "case w_parent_id v of None \<Rightarrow> acc
            | Some p \<Rightarrow> if p \<in> set acc then List.insert (w_id v) acc else acc"
  have p: "p \<in> set ?a" using Cons.prems(3) by (auto split: option.splits)
  show ?case
  proof (cases "w = v")
    case True
    then have "w_id w \<in> set ?a" using Cons.prems by simp
    then show ?thesis using grow_mono [of ?a all] by (auto simp: grow_Cons)
  next
    case False
    then show ?thesis using Cons.IH [OF _ _ p] Cons.prems by (simp add: grow_Cons)
  qed
qed simp

lemma grow_sound:
  assumes "\<And>w p. w \<in> set all \<Longrightarrow> w_parent_id w = Some p \<Longrightarrow> p \<in> D \<Longrightarrow> w_id w \<in> D"
    and "set acc \<subseteq> D"
  shows "set (grow all acc) \<subseteq> D"
  using assms
proof (induction all arbitrary: acc)
  case (Cons w all)
  then have "set (case w_parent_id w of None \<Rightarrow> acc
            | Some p \<Rightarrow> if p \<in> set acc then List.insert (w_id w) acc else acc) \<subseteq> D"
    by (auto split: option.splits)
  then show ?case using Cons.IH Cons.prems(1) by (simp add: grow_Cons)
qed (simp add: grow_def)

lemma affected_loop_sound:
  assumes "\<And>w p. w \<in> set all \<Longrightarrow> w_parent_id w = Some p \<Longrightarrow> p \<in> D \<Longrightarrow> w_id w \<in> D"
    and "set acc \<subseteq> D"
  shows "set (affected_loop all acc) \<subseteq> D"
  using assms
proof (induction all acc rule: affected_loop.induct)
  case (1 all acc)
  have "set (grow all acc) \<subseteq> D" using 1(2,3) by (rule grow_sound)
  with 1(1,2) show ?case by (simp add: affected_loop.simps [of all acc] Let_def)
qed

lemma affected_loop_closed:
  "set acc \<subseteq> set (affected_loop all acc)
   \<and> (\<forall>w p. w \<in> set all \<longrightarrow> w_parent_id w = Some p \<longrightarrow> p \<in> set (affected_loop all acc)
        \<longrightarrow> w_id w \<in> set (affected_loop all acc))"
proof (induction all acc rule: affected_loop.induct)
  case (1 all acc)
  show ?case
  proof (cases "length (grow all acc) = length acc")
    case True
    then have "affected_loop all acc = acc" "grow all acc = acc"
      using grow_same_length by (auto simp: affected_loop.simps [of all acc])
    then show ?thesis using grow_closed [of _ all _ acc] by (metis order_refl)
  next
    case False
    then have "affected_loop all acc = affected_loop all (grow all acc)"
      by (simp add: affected_loop.simps [of all acc] Let_def)
    with 1 [OF refl] False grow_mono [of acc all] show ?thesis by (metis subset_trans)
  qed
qed

lemma affected_loop_eq:
  assumes ok: "store_ok s"
  shows "set (affected_loop (trows (works s)) [key]) = descendants s key"
proof
  show "set (affected_loop (trows (works s)) [key]) \<subseteq> descendants s key"
  proof (rule affected_loop_sound)
    fix w p assume "w \<in> set (trows (works s))" "w_parent_id w = Some p" "p \<in> descendants s key"
    then have "(p, w_id w) \<in> child_of s" "(key, p) \<in> (child_of s)\<^sup>*"
      using works_rows [OF ok, of w] by (auto simp: child_of_def descendants_def)
    then show "w_id w \<in> descendants s key" by (simp add: descendants_def)
  qed (simp add: descendants_def)
next
  let ?A = "set (affected_loop (trows (works s)) [key])"
  note closed = affected_loop_closed [of "[key]" "trows (works s)"]
  have "k \<in> ?A" if "(key, k) \<in> (child_of s)\<^sup>*" for k
    using that
  proof induction
    case base
    from closed show ?case by simp
  next
    case (step p k)
    then obtain w where w: "tget (works s) k = Some w" "w_parent_id w = Some p"
      by (auto simp: child_of_def)
    then have "w_id w = k" using work_id [OF ok] by simp
    moreover have "w \<in> set (trows (works s))" using w works_rows [OF ok, of w] work_id [OF ok] by simp
    ultimately show ?case using closed w step.IH by metis
  qed
  then show "descendants s key \<subseteq> ?A" by (auto simp: descendants_def)
qed

section \<open>Invalidation\<close>

lemma invalidated_fields [simp]:
  "w_id (invalidated ctx reason st w) = w_id w" "w_status (invalidated ctx reason st w) = st"
  "w_generation (invalidated ctx reason st w) = w_generation w + 1"
  "w_reason (invalidated ctx reason st w) = Some reason"
  "w_parent_id (invalidated ctx reason st w) = w_parent_id w"
  by (simp_all add: invalidated_def mark_stop_def Let_def split: option.splits)

lemma invalidated_quiet: "\<not> executing st \<Longrightarrow> work_quiet w (invalidated ctx reason st w)"
  by (simp add: invalidated_def mark_stop_def Let_def work_law_defs work_wf_def
      split: option.splits)

lemma invalidate_fold:
  assumes "invalidate_descendants ctx key reason st s = Inr s'"
  shows "foldE (\<lambda>w. put_work ctx (invalidated ctx reason st w))
     (filter (\<lambda>w. w_id w \<in> set (affected_loop (trows (works s)) [key])
                  \<and> w_status w \<noteq> Completed \<and> w_status w \<noteq> Cancelled) (trows (works s))) s = Inr s'"
  using assms by (simp add: invalidate_descendants_def result_simps foldE_filter Let_def)

lemma invalidate_get:
  assumes "invalidate_descendants ctx key reason st s = Inr s'" and "store_ok s"
  shows "tget (works s') k = map_option (\<lambda>w.
      if k \<in> descendants s key \<and> w_status w \<noteq> Completed \<and> w_status w \<noteq> Cancelled
      then invalidated ctx reason st w else w) (tget (works s) k)"
  using rewrite_rows [OF assms(2) invalidate_fold [OF assms(1)], of k] work_id [OF assms(2)]
  by (cases "tget (works s) k") (auto simp: affected_loop_eq [OF assms(2)])

lemma invalidate_law:
  assumes "invalidate_descendants ctx key reason st s = Inr s'" and "\<not> executing st"
  shows "advances work_quiet quiet_new s s'"
  by (rule quiet.adv_rewrite [OF invalidate_fold [OF assms(1)]])
    (rule invalidated_quiet [OF assms(2)])

section \<open>Waking\<close>

definition stirred :: "ctx \<Rightarrow> work_status \<Rightarrow> bool \<Rightarrow> string option \<Rightarrow> work \<Rightarrow> work" where
  "stirred ctx st aw r w =
     w\<lparr>w_status := st, w_awaiting_user := aw, w_reason := r, w_updated_at := time ctx\<rparr>"

definition woken :: "ctx \<Rightarrow> work \<Rightarrow> work \<Rightarrow> bool" where
  "woken ctx w w' =
     (w' = w \<or> w_status w = Waiting
        \<and> (\<exists>st\<in>{Queued, Blocked, AwaitingUser}. \<exists>aw r. w' = stirred ctx st aw r w))"

lemma stirred_simps [simp]:
  "w_id (stirred ctx st aw r w) = w_id w" "w_status (stirred ctx st aw r w) = st"
  by (simp_all add: stirred_def)

lemma stirred_quiet: "st \<in> {Queued, Blocked, AwaitingUser} \<Longrightarrow> work_quiet w (stirred ctx st aw r w)"
  by (auto simp: stirred_def work_law_defs work_wf_def)

lemma woken_id: "woken ctx w w' \<Longrightarrow> w_id w' = w_id w"
  unfolding woken_def by (elim disjE conjE bexE exE) simp_all

lemma woken_status: "woken ctx w w' \<Longrightarrow> w' = w \<or> w_status w = Waiting \<and> w_status w' \<noteq> Waiting"
  unfolding woken_def by (elim disjE conjE bexE exE) auto

lemma woken_trans:
  assumes "woken ctx u v" and "woken ctx v w"
  shows "woken ctx u w"
proof (cases "v = u")
  case False
  then have "w_status v \<noteq> Waiting" using woken_status [OF assms(1)] by simp
  then have "w = v" using woken_status [OF assms(2)] by simp
  with assms show ?thesis by simp
qed (use assms in simp)

interpretation wake: work_law "woken ctx" "\<lambda>_. False" for ctx
  by unfold_locales (simp add: woken_def, rule woken_trans, assumption+, erule woken_id, simp)

lemma woken_quiet: "woken ctx w w' \<Longrightarrow> work_quiet w w'"
  unfolding woken_def
  by (elim disjE conjE bexE exE) (simp_all only: quiet.law_refl stirred_quiet)

lemma wake_one_elim:
  assumes "wake_one ctx it s = Inr (Some it')"
    and "P (it\<lparr>w_status := Queued, w_awaiting_user := True, w_reason := Some msg_report_unresolved\<rparr>)"
    and "P (it\<lparr>w_status := Blocked, w_reason := Some msg_delegate_unresolved\<rparr>)"
    and "P (it\<lparr>w_status := AwaitingUser, w_reason := Some msg_limit_reached\<rparr>)"
    and "P (it\<lparr>w_status := Queued, w_reason := Some msg_results_ready\<rparr>)"
  shows "P it'"
proof -
  obtain deps where "mapE (item s) (w_waiting_for it) = Inr deps"
    using assms(1) unfolding wake_one_def bindE_Inr by metis
  note body = assms(1) [unfolded wake_one_def this bindE_simps]
  show ?thesis
  proof (cases "\<exists>d\<in>set deps. unresolved (w_status d)")
    case True
    note body [unfolded if_P [OF True]]
    with assms(2,3) show ?thesis
      by (simp only: sum.inject option.inject option.distinct split: if_splits)
  next
    case False
    then have all: "\<forall>d\<in>set deps. w_status d = Completed"
      using body unfolding if_not_P [OF False] by (metis option.distinct(1) sum.inject(2))
    obtain root where "item s (w_root_id it) = Inr root"
      using body unfolding if_not_P [OF False] if_P [OF all] bindE_Inr by metis
    note body [unfolded if_not_P [OF False] if_P [OF all] this bindE_simps]
    with assms(4,5) show ?thesis
      by (simp only: sum.inject option.inject split: if_splits)
  qed
qed

lemma wake_one_stirred:
  assumes "wake_one ctx it s = Inr (Some it')"
  shows "\<exists>st\<in>{Queued, Blocked, AwaitingUser}. \<exists>aw r.
     it'\<lparr>w_updated_at := time ctx\<rparr> = stirred ctx st aw r it"
proof -
  have "it\<lparr>w_status := st, w_reason := r, w_updated_at := u\<rparr>
      = it\<lparr>w_status := st, w_awaiting_user := w_awaiting_user it, w_reason := r, w_updated_at := u\<rparr>"
    for st r u by (cases it) simp
  then have eq1: "it\<lparr>w_status := st, w_reason := r, w_updated_at := time ctx\<rparr>
      = stirred ctx st (w_awaiting_user it) r it" for st r
    by (simp add: stirred_def)
  have eq2: "it\<lparr>w_status := st, w_awaiting_user := aw, w_reason := r, w_updated_at := time ctx\<rparr>
      = stirred ctx st aw r it" for st aw r
    by (simp add: stirred_def)
  show ?thesis
    by (rule wake_one_elim [OF assms, where P = "\<lambda>x. \<exists>st\<in>{Queued, Blocked, AwaitingUser}. \<exists>aw r.
          x\<lparr>w_updated_at := time ctx\<rparr> = stirred ctx st aw r it"];
        (rule bexI, rule exI, rule exI, rule eq1 eq2, simp))
qed

lemma wake_one_woken:
  assumes "wake_one ctx it s = Inr (Some it')" and "w_status it = Waiting"
  shows "woken ctx it (it'\<lparr>w_updated_at := time ctx\<rparr>)"
    and "w_status (it'\<lparr>w_updated_at := time ctx\<rparr>) \<noteq> Waiting"
proof -
  obtain st aw r where st: "st \<in> {Queued, Blocked, AwaitingUser}"
    and eq: "it'\<lparr>w_updated_at := time ctx\<rparr> = stirred ctx st aw r it"
    using wake_one_stirred [OF assms(1)] by metis
  show "woken ctx it (it'\<lparr>w_updated_at := time ctx\<rparr>)"
    unfolding woken_def eq using assms(2) st by metis
  show "w_status (it'\<lparr>w_updated_at := time ctx\<rparr>) \<noteq> Waiting"
    unfolding eq using st by auto
qed

lemma wake_step_cases:
  assumes "wake_step ctx it (c, s) = Inr (c', s')"
  shows "c' = c \<and> s' = s \<or>
    c' \<and> w_status it = Waiting \<and> (\<exists>it'. put_work ctx it' s = Inr s' \<and> woken ctx it it'
      \<and> w_status it' \<noteq> Waiting)"
proof (cases "w_status it = Waiting")
  case True
  with assms obtain r where r: "wake_one ctx it s = Inr r"
    by (auto simp: wake_step_def bindE_Inr)
  show ?thesis
  proof (cases r)
    case None
    with assms True r show ?thesis by (simp add: wake_step_def)
  next
    case (Some it')
    with assms True r have "put_work ctx (it'\<lparr>w_updated_at := time ctx\<rparr>) s = Inr s' \<and> c'"
      by (simp add: wake_step_def bindE_Inr)
    with wake_one_woken [of ctx it s it'] r Some True show ?thesis by auto
  qed
qed (use assms in \<open>simp add: wake_step_def\<close>)

lemma wake_fold_law:
  assumes "foldE (wake_step ctx) (trows (works s)) (c, s) = Inr (c', s')"
  shows "advances (woken ctx) (\<lambda>_. False) s s'"
  using wake.adv_rows [of snd "(c, s)" "wake_step ctx" ctx ctx "(c', s')"] assms
    wake_step_cases [of ctx] by (metis prod.exhaust_sel snd_conv)

lemma wake_fold_unchanged:
  "foldE (wake_step ctx) ws (c, s) = Inr (False, s') \<Longrightarrow>
    \<not> c \<and> s' = s \<and> (\<forall>w\<in>set ws. w_status w = Waiting \<longrightarrow> wake_one ctx w s = Inr None)"
proof (induction ws arbitrary: c s)
  case (Cons w ws)
  then obtain c1 s1 where step: "wake_step ctx w (c, s) = Inr (c1, s1)"
      "foldE (wake_step ctx) ws (c1, s1) = Inr (False, s')"
    by (auto simp: bindE_Inr)
  with Cons.IH have "\<not> c1" "s' = s1"
    "\<forall>w\<in>set ws. w_status w = Waiting \<longrightarrow> wake_one ctx w s1 = Inr None" by auto
  moreover have "\<not> c \<and> s1 = s" using wake_step_cases [OF step(1)] \<open>\<not> c1\<close> by auto
  moreover have "wake_one ctx w s = Inr None" if "w_status w = Waiting"
    using step(1) that \<open>\<not> c1\<close> by (auto simp: wake_step_def bindE_Inr split: option.splits)
  ultimately show ?case by auto
qed simp

definition waiting_ids :: "store \<Rightarrow> string set" where
  "waiting_ids s = {k. \<exists>w. tget (works s) k = Some w \<and> w_status w = Waiting}"

lemma waiting_ids_finite: "finite (waiting_ids s)" "card (waiting_ids s) \<le> length (works s)"
proof -
  have sub: "waiting_ids s \<subseteq> fst ` set (works s)"
    by (auto simp: waiting_ids_def) (metis option.distinct(1) tget_None_iff)
  then show "finite (waiting_ids s)" by (rule finite_subset) simp
  have "card (waiting_ids s) \<le> card (fst ` set (works s))" using sub by (simp add: card_mono)
  also have "\<dots> \<le> card (set (works s))" by (rule card_image_le) simp
  also have "\<dots> \<le> length (works s)" by (rule card_length)
  finally show "card (waiting_ids s) \<le> length (works s)" .
qed

lemma wake_waiting_mono:
  assumes "advances (woken ctx) (\<lambda>_. False) s s'" and "store_ok s"
  shows "waiting_ids s' \<subseteq> waiting_ids s"
proof
  fix k assume "k \<in> waiting_ids s'"
  then obtain w' where w': "tget (works s') k = Some w'" "w_status w' = Waiting"
    by (auto simp: waiting_ids_def)
  with advancesD(3) [OF assms] obtain w where w: "tget (works s) k = Some w"
    by (metis not_None_eq)
  with advancesD(2) [OF assms] w' have "woken ctx w w'" by (metis option.inject)
  with w w' show "k \<in> waiting_ids s" by (auto simp: waiting_ids_def woken_def)
qed

lemma wake_fold_progress:
  assumes "foldE (wake_step ctx) ws (False, s) = Inr (True, s')" and "store_ok s"
    and "distinct (map w_id ws)" and "\<And>w. w \<in> set ws \<Longrightarrow> tget (works s) (w_id w) = Some w"
  shows "\<exists>k\<in>waiting_ids s. k \<notin> waiting_ids s'"
  using assms
proof (induction ws)
  case (Cons w ws)
  then obtain c1 s1 where step: "wake_step ctx w (False, s) = Inr (c1, s1)"
      "foldE (wake_step ctx) ws (c1, s1) = Inr (True, s')"
    by (auto simp: bindE_Inr)
  from wake_step_cases [OF step(1)] show ?case
  proof
    assume "c1 = False \<and> s1 = s"
    with step Cons show ?thesis by auto
  next
    assume "c1 \<and> w_status w = Waiting \<and> (\<exists>it'. put_work ctx it' s = Inr s1 \<and> woken ctx w it'
      \<and> w_status it' \<noteq> Waiting)"
    then obtain it' where it': "w_status w = Waiting" "put_work ctx it' s = Inr s1"
      "woken ctx w it'" "w_status it' \<noteq> Waiting" by auto
    have w: "tget (works s) (w_id w) = Some w" using Cons.prems(4) by simp
    have id': "w_id it' = w_id w" by (rule woken_id [OF it'(3)])
    have ok1: "store_ok s1" using store_ok_put_work [OF Cons.prems(2) it'(2)] .
    have rest: "tget (works s1) (w_id v) = Some v" if "v \<in> set ws" for v
    proof -
      have "w_id v \<noteq> w_id w" using Cons.prems(3) that by (auto simp: image_iff)
      with Cons.prems(4) [of v] that id' show ?thesis by (simp add: put_work_get [OF it'(2)])
    qed
    have "advances (woken ctx) (\<lambda>_. False) (snd (c1, s1)) (snd (True, s'))"
    proof (rule wake.adv_rows_aux [OF _ step(2)])
      show "distinct (map w_id ws)" using Cons.prems(3) by simp
      show "snd x' = snd x \<or> (\<exists>w'. put_work ctx w' (snd x) = Inr (snd x') \<and> woken ctx v w')"
        if "v \<in> set ws" "wake_step ctx v x = Inr x'" for v x x'
        using that wake_step_cases [of ctx v "fst x" "snd x" "fst x'" "snd x'"] by auto
    qed (use rest in simp)
    then have "waiting_ids s' \<subseteq> waiting_ids s1" using wake_waiting_mono ok1 by simp
    moreover have "w_id w \<notin> waiting_ids s1"
      using put_work_get [OF it'(2), of "w_id w"] id' it'(4) by (simp add: waiting_ids_def)
    moreover have "w_id w \<in> waiting_ids s" using w it'(1) by (simp add: waiting_ids_def)
    ultimately show ?thesis by blast
  qed
qed simp

lemma wake_scan_law:
  assumes "wake_scan ctx s = Inr (c, s')"
  shows "advances (woken ctx) (\<lambda>_. False) s s'"
  using assms by (auto simp: wake_scan_def result_simps intro: wake_fold_law)

lemma wake_scan_progress:
  assumes "wake_scan ctx s = Inr (True, s')" and "store_ok s"
  shows "card (waiting_ids s') < card (waiting_ids s)"
proof -
  have "\<exists>k\<in>waiting_ids s. k \<notin> waiting_ids s'"
    by (rule wake_fold_progress [of ctx "trows (works s)"])
      (use assms rows_distinct works_rows in \<open>auto simp: wake_scan_def result_simps\<close>)
  moreover have "waiting_ids s' \<subseteq> waiting_ids s"
    using wake_waiting_mono wake_scan_law assms by blast
  ultimately have "waiting_ids s' \<subset> waiting_ids s" by blast
  then show ?thesis by (rule psubset_card_mono [OF waiting_ids_finite(1)])
qed

lemma wake_rounds_law:
  "wake_rounds n ctx s = Inr s' \<Longrightarrow> advances (woken ctx) (\<lambda>_. False) s s'"
proof (induction n arbitrary: s)
  case (Suc n)
  then obtain c t where t: "wake_scan ctx s = Inr (c, t)"
      "(if c then wake_rounds n ctx t else Inr t) = Inr s'"
    by (auto simp: bindE_Inr)
  with Suc.IH have "advances (woken ctx) (\<lambda>_. False) t s'" by (cases c) auto
  with wake_scan_law [OF t(1)] show ?case by (rule wake.adv_trans)
qed simp

lemma wake_waiters_law:
  assumes "wake_waiters ctx s = Inr s'"
  shows "advances work_quiet quiet_new s s'"
  using wake_rounds_law [OF assms [unfolded wake_waiters_def]]
  by (rule advances_mono) (auto intro: woken_quiet)

text \<open>None of the reads and writes of a scan is a diverging loop.\<close>

lemma no_diverge [simp]:
  "item s k \<noteq> Inl Diverges" "all_work s \<noteq> Inl Diverges" "put_work ctx w s \<noteq> Inl Diverges"
  by (auto simp: item_def result_simps all_work_def list_rows_def put_work_def put_check_def
      err_work_unavailable_def err_record_limit_def err_conversation_not_owned_def
      err_project_not_owned_def split: if_splits)

lemma mapE_no_diverge: "(\<And>x. f x \<noteq> Inl e) \<Longrightarrow> mapE f xs \<noteq> Inl e"
  by (induction xs) (auto simp: bindE_Inl)

lemma foldE_no_diverge: "(\<And>x s. f x s \<noteq> Inl e) \<Longrightarrow> foldE f xs s \<noteq> Inl e"
  by (induction xs arbitrary: s) (auto simp: bindE_Inl)

lemma wake_one_no_diverge: "wake_one ctx it s \<noteq> Inl Diverges"
  using mapE_no_diverge [of "item s"] by (auto simp: wake_one_def bindE_Inl)

lemma wake_step_no_diverge: "wake_step ctx it (c, s) \<noteq> Inl Diverges"
  by (auto simp: wake_step_def bindE_Inl wake_one_no_diverge split: option.splits)

lemma wake_scan_no_diverge: "wake_scan ctx s \<noteq> Inl Diverges"
proof -
  have "foldE (wake_step ctx) xs (c, s) \<noteq> Inl Diverges" for xs c
    using foldE_no_diverge [of "wake_step ctx" Diverges xs "(c, s)"] wake_step_no_diverge by auto
  then show ?thesis by (simp add: wake_scan_def bindE_Inl)
qed

lemma wake_rounds_ends:
  "store_ok s \<Longrightarrow> card (waiting_ids s) < n \<Longrightarrow> wake_rounds n ctx s \<noteq> Inl Diverges"
proof (induction n arbitrary: s)
  case (Suc n)
  have "wake_rounds n ctx t \<noteq> Inl Diverges" if "wake_scan ctx s = Inr (True, t)" for t
  proof (rule Suc.IH)
    show "store_ok t" using advancesD(1) [OF wake_scan_law [OF that] Suc.prems(1)] .
    show "card (waiting_ids t) < n"
      using wake_scan_progress [OF that Suc.prems(1)] Suc.prems(2) by linarith
  qed
  with wake_scan_no_diverge [of ctx s] show ?case by (auto simp: bindE_Inl)
qed simp

lemma wake_rounds_fixpoint:
  assumes "wake_rounds n ctx s = Inr s'" and "store_ok s" and "tget (works s') k = Some w"
    and "w_status w = Waiting"
  shows "wake_one ctx w s' = Inr None"
  using assms(1,2)
proof (induction n arbitrary: s)
  case (Suc n)
  from Suc.prems(1) obtain c t where t: "wake_scan ctx s = Inr (c, t)"
      "(if c then wake_rounds n ctx t else Inr t) = Inr s'"
    by (auto simp: bindE_Inr)
  show ?case
  proof (cases c)
    case True
    with Suc.IH t advancesD(1) [OF wake_scan_law [OF t(1)] Suc.prems(2)] show ?thesis by simp
  next
    case False
    with t have "foldE (wake_step ctx) (trows (works s)) (False, s) = Inr (False, s')"
      by (simp add: wake_scan_def bindE_Inr)
    from wake_fold_unchanged [OF this]
    have s: "s' = s" "\<forall>w\<in>set (trows (works s)). w_status w = Waiting \<longrightarrow> wake_one ctx w s = Inr None"
      by auto
    with assms(3) work_id [OF Suc.prems(2)] works_rows [OF Suc.prems(2), of w]
    have "w \<in> set (trows (works s))" by simp
    with s assms(4) show ?thesis by simp
  qed
qed simp

lemma wake_one_None:
  assumes "wake_one ctx it s = Inr None"
  shows "\<exists>d\<in>set (w_waiting_for it). \<exists>v. tget (works s) d = Some v \<and> active (w_status v)"
proof -
  obtain deps where deps: "mapE (item s) (w_waiting_for it) = Inr deps"
    using assms unfolding wake_one_def bindE_Inr by metis
  have "\<exists>v\<in>set deps. active (w_status v)"
  proof (cases "\<exists>d\<in>set deps. unresolved (w_status d)")
    case True
    then show ?thesis
      using assms [unfolded wake_one_def deps bindE_simps if_P [OF True]] by (simp split: if_splits)
  next
    case False
    have "\<not> (\<forall>d\<in>set deps. w_status d = Completed)"
    proof
      assume all: "\<forall>d\<in>set deps. w_status d = Completed"
      show False
        using assms [unfolded wake_one_def deps bindE_simps if_not_P [OF False] if_P [OF all]]
        by (auto simp: bindE_Inr split: if_splits)
    qed
    then obtain v where v: "v \<in> set deps" "w_status v \<noteq> Completed" by auto
    with False have "\<not> unresolved (w_status v)" by auto
    with v show ?thesis
      by (intro bexI [of _ v]) (cases "w_status v"; simp add: unresolved_def)
  qed
  then obtain v where v: "v \<in> set deps" "active (w_status v)" by auto
  from mapE_member [OF deps v(1)] v(2) show ?thesis by (metis item_Inr)
qed

section \<open>Current assignments\<close>

lemma current_in_elim:
  assumes "current_in ctx key g run rv s = Inr it"
  obtains r agent root where
    "tget (works s) key = Some it" "w_generation it = g"
    "active (w_status it) \<or> rv \<and> w_status it = AwaitingUser"
    "run \<noteq> None \<longrightarrow> w_current_run_id it = run"
    "tget (conversations s) (w_conversation_id it) = Some r"
    "c_generation r = w_conversation_generation it"
    "w_workspace_recipient it \<or> (\<exists>p\<in>set (c_participants r). pt_agent_id p = w_agent_id it)"
    "find_profile (profiles ctx) (w_agent_id it) = Inr agent"
    "w_schedule it = None \<longrightarrow> p_model_id agent = w_model_option_id it"
    "permission_rank (w_permission_mode it) \<le> permission_rank (permission_mode agent)"
    "check_project_context s it = Inr ()"
    "tget (works s) (w_root_id it) = Some root"
    "check_work ctx s root (w_agent_id it) (w_permission_mode it) = Inr ()"
    "check_schedule ctx s root (time ctx) (run \<noteq> None) = Inr ()"
    "w_id root = w_id it \<or> w_status root \<notin> {Cancelled, Failed, AwaitingUser, Blocked}
       \<or> independent_recipient root it"
  using assms unfolding current_in_def bindE_Inr if_Inr item_Inr room_def ok_or_Inr
proof (elim exE conjE, goal_cases)
  case (1 it0 r agent u root v x)
  moreover from 1 have "it0 = it" by simp
  ultimately show ?case by (intro 1(1) [of r agent root]) (auto simp: not_less)
qed

lemma current_item:
  assumes "current ctx key g run s = Inr it"
  shows "tget (works s) key = Some it" "w_generation it = g" "active (w_status it)"
    "run \<noteq> None \<Longrightarrow> w_current_run_id it = run"
  by (rule current_in_elim [OF assms [unfolded current_def]], simp)+

section \<open>Binding\<close>

lemma bound_extends:
  "work_extends it (bound ctx run s it)"
  by (simp add: bound_def work_law_defs work_wf_def)

lemma save_author_law:
  assumes "save_author ctx run a p s = Inr s'"
  shows "advances work_extends work_wf s s'"
proof (rule extends.adv_same)
  from assms have new: "tget (authors s) run = None" and s': "s' = s\<lparr>authors := tput run a (authors s)\<rparr>"
    by (auto simp: save_author_def result_simps dest: put_author_Inr)
  show "store_ok s \<Longrightarrow> store_ok s'" using s' by (auto simp: store_ok_def tinv_tput)
  show "works s' = works s" "tombstones s' = tombstones s" using s' by simp_all
  show "tget (authors s) k = Some b \<Longrightarrow> tget (authors s') k = Some b" for k b
    using new s' by (auto simp: tget_tput)
qed

lemma bind_inputs_Inr:
  assumes "bind_inputs ctx as it0 s0 = Inr (it, s)"
  shows "it = it0 \<and> s = s0 \<or>
     (\<exists>refs. validate_attachments refs = Inr () \<and> as = Some refs
        \<and> it = it0\<lparr>w_attachments := refs, w_updated_at := time ctx\<rparr> \<and> put_work ctx it s0 = Inr s)"
proof (cases as)
  case None
  with assms show ?thesis by (simp add: bind_inputs_def)
next
  case (Some refs)
  let ?it = "it0\<lparr>w_attachments := refs, w_updated_at := time ctx\<rparr>"
  from assms [unfolded bind_inputs_def Some option.case Let_def]
  obtain u s1 where "validate_attachments refs = Inr u" and put: "put_work ctx ?it s0 = Inr s1"
    and eq: "Inr (?it, s1) = (Inr (it, s) :: cerr + work \<times> store)"
    by (elim bindE_elim)
  moreover from eq have "?it = it" "s1 = s" by (simp_all only: sum.inject prod.inject)
  ultimately show ?thesis using Some by simp
qed

lemma bind_admit_Inr:
  assumes "bind_admit run it s = Inr root"
  shows "\<forall>w\<in>set (trows (works s)). w_agent_id w = w_agent_id it \<longrightarrow> w_id w \<noteq> w_id it
        \<longrightarrow> \<not> executing (w_status w)"
    and "check_prerequisites s it = Inr ()" and "tget (works s) (w_root_id it) = Some root"
    and "\<not> limit_reached root" and "check_attempt s run it = Inr ()"
  using assms unfolding bind_admit_def bindE_Inr if_Inr item_Inr all_work_Inr
  by (elim exE conjE, simp; metis)+

lemma bind_inputs_law:
  assumes "bind_inputs ctx as it0 s0 = Inr (it, s)" and "tget (works s0) key = Some it0"
  shows "advances work_quiet quiet_new s0 s" and "store_ok s0 \<Longrightarrow> tget (works s) key = Some it"
proof -
  consider "it = it0" "s = s0"
    | refs where "it = it0\<lparr>w_attachments := refs, w_updated_at := time ctx\<rparr>" "put_work ctx it s0 = Inr s"
    using bind_inputs_Inr [OF assms(1)] by metis
  then have "advances work_quiet quiet_new s0 s \<and> (store_ok s0 \<longrightarrow> tget (works s) key = Some it)"
  proof cases
    case 2
    then have "work_quiet it0 it" by (simp add: work_law_defs work_wf_def)
    with 2 assms(2) have "advances work_quiet quiet_new s0 s" by (metis quiet.adv_put)
    moreover have "w_id it = w_id it0" using 2(1) by simp
    ultimately show ?thesis
      using put_work_get [OF 2(2), of key] work_id [of s0 key it0] assms(2) by simp
  qed (use assms in simp)
  then show "advances work_quiet quiet_new s0 s" "store_ok s0 \<Longrightarrow> tget (works s) key = Some it"
    by auto
qed

lemma bind_commit_Inr:
  assumes "bind_commit ctx key g run it root s = Inr s'"
  obtains s2 s3 a p where
    "w_id root = w_id it \<and> s2 = s \<or> w_id root \<noteq> w_id it
        \<and> put_work ctx (root\<lparr>w_turn_count := w_turn_count root + 1\<rparr>) s = Inr s2"
    "put_work ctx (bound ctx run s it) s2 = Inr s3" "save_author ctx run a p s3 = Inr s'"
    "a = \<lparr>au_run_id = run, au_conversation_id = w_conversation_id it, au_agent_id = w_agent_id it,
        au_name = w_agent_name it, au_work_id = Some key, au_generation = g\<rparr>"
proof -
  have same: "w_conversation_id (bound ctx run s it) = w_conversation_id it"
    "w_agent_id (bound ctx run s it) = w_agent_id it" "w_agent_name (bound ctx run s it) = w_agent_name it"
    by (simp_all add: bound_def)
  from assms [unfolded bind_commit_def Let_def bindE_Inr same]
  show thesis using that by (metis sum.inject(2))
qed

lemma bind_commit_law:
  assumes "bind_commit ctx key g run it root s = Inr s'"
    and "tget (works s) key = Some it" and "tget (works s) rk = Some root"
  shows "advances work_extends work_wf s s'"
proof (cases "store_ok s")
  case ok: True
  from assms(1) obtain s2 s3 a p where s2: "w_id root = w_id it \<and> s2 = s \<or> w_id root \<noteq> w_id it
        \<and> put_work ctx (root\<lparr>w_turn_count := w_turn_count root + 1\<rparr>) s = Inr s2"
    and s3: "put_work ctx (bound ctx run s it) s2 = Inr s3"
    and a: "save_author ctx run a p s3 = Inr s'"
    by (rule bind_commit_Inr)
  have ex: "work_extends root (root\<lparr>w_turn_count := w_turn_count root + 1\<rparr>)"
    by (simp add: work_law_defs work_wf_def)
  have "advances work_extends work_wf s s2 \<and> tget (works s2) key = Some it"
  proof (cases "w_id root = w_id it")
    case True
    with s2 assms(2) show ?thesis by simp
  next
    case False
    with s2 have put: "put_work ctx (root\<lparr>w_turn_count := w_turn_count root + 1\<rparr>) s = Inr s2" by simp
    have "key \<noteq> w_id root" using work_id [OF ok assms(2)] False by simp
    then show ?thesis
      using extends.adv_put [OF assms(3) ex put] put_work_get [OF put, of key] assms(2) by simp
  qed
  then show ?thesis
    using extends.adv_put [OF _ bound_extends s3] save_author_law [OF a] extends.adv_trans by metis
qed (simp add: advances_def)

lemma bind_work_cases:
  assumes "bind_work ctx key g run as s = Inr s'"
  obtains it where "tget (works s) key = Some it" "s' = s" "w_current_run_id it = Some run"
      "executing (w_status it)"
  | it it1 s1 root where "current ctx key g None s = Inr it" "w_status it = Queued"
      "ensure_dispatchable s it = Inr ()" "bind_inputs ctx as it s = Inr (it1, s1)"
      "bind_admit run it1 s1 = Inr root" "bind_commit ctx key g run it1 root s1 = Inr s'"
      "w_execution_owner it \<noteq> Some ''hosted''"
proof -
  obtain it where cur: "current ctx key g None s = Inr it" and
    body: "(if w_execution_owner it = Some ''hosted'' then Inl err_cloud_work_cannot_bind else
     if owns_work it \<and> \<not> is_worker ctx then Inl err_background_owned else
     if w_current_run_id it = Some run \<and> executing (w_status it) then
       bindE (case as of None \<Rightarrow> Inr () | Some refs \<Rightarrow> validate_attachments refs) (\<lambda>_. Inr s)
     else if w_status it \<noteq> Queued then Inl err_not_queued
     else bind_queued ctx key g run as it s) = Inr s'"
    using assms unfolding bind_work_def by (elim bindE_elim) simp
  show thesis
  proof (cases "w_current_run_id it = Some run \<and> executing (w_status it)")
    case True
    with body have "s' = s" by (simp add: result_simps split: if_splits)
    with True current_item(1) [OF cur] show thesis by (intro that(1) [of it]) simp_all
  next
    case False
    with body have q: "w_status it = Queued" "bind_queued ctx key g run as it s = Inr s'"
      "w_execution_owner it \<noteq> Some ''hosted''"
      by (simp_all split: if_splits)
    from q(2) [unfolded bind_queued_def]
    obtain u p where 1: "ensure_dispatchable s it = Inr u" "bind_inputs ctx as it s = Inr p"
      "(case p of (it1, s1) \<Rightarrow> bindE (bind_admit run it1 s1) (\<lambda>root.
         bind_commit ctx key g run it1 root s1)) = Inr s'"
      by (elim bindE_elim)
    obtain it1 s1 where p: "p = (it1, s1)" by fastforce
    from 1(3) [unfolded p case_prod_conv]
    obtain root where "bind_admit run it1 s1 = Inr root"
      "bind_commit ctx key g run it1 root s1 = Inr s'"
      by (elim bindE_elim)
    with cur q 1 p show thesis by (intro that(2) [of it it1 s1 root]) simp_all
  qed
qed

lemma bind_work_law:
  assumes "bind_work ctx key g run as s = Inr s'"
  shows "advances work_extends work_wf s s'"
  using assms
proof (cases rule: bind_work_cases)
  case (2 it it1 s1 root)
  note inputs = bind_inputs_law [OF 2(4) current_item(1) [OF 2(1)]]
  show ?thesis
  proof (cases "store_ok s")
    case True
    have "advances work_extends work_wf s1 s'"
      by (rule bind_commit_law [OF 2(6) inputs(2) [OF True] bind_admit_Inr(3) [OF 2(5)]])
    with quiet_extends [OF inputs(1)] show ?thesis by (rule extends.adv_trans)
  qed (simp add: advances_def)
qed simp

section \<open>Finishing\<close>

lemma after_turn_quiet: "work_quiet w (after_turn w)"
  by (simp add: after_turn_def work_law_defs work_wf_def)

lemma after_turn_status: "w_status (after_turn w) \<in> {AwaitingUser, Queued, Waiting, w_status w}"
  by (simp add: after_turn_def)

lemma complete_output_elim:
  assumes "complete_output ctx run attempt it s = Inr it2"
  obtains actual source where
    "message_list s (w_conversation_id it) = Inr actual"
    "at_status attempt = ''completed''" "trim (at_transcript attempt) \<noteq> []"
    "\<exists>m\<in>set actual. saved_result run m"
    "max_by_key m_sequence (filter (saved_result run) actual) = Some source"
    "it2 = after_turn (it\<lparr>w_outputs := w_outputs it @ [output_of ctx run attempt source it s]\<rparr>)"
  using assms unfolding complete_output_def
proof (elim result_elims)
  fix actual source
  assume "message_list s (w_conversation_id it) = Inr actual"
    "\<not> (at_status attempt \<noteq> ''completed'' \<or> trim (at_transcript attempt) = []
        \<or> \<not> (\<exists>m\<in>set actual. saved_result run m))"
    "max_by_key m_sequence (filter (saved_result run) actual) = Some source"
    "Inr (after_turn (it\<lparr>w_outputs := w_outputs it @ [output_of ctx run attempt source it s]\<rparr>))
      = (Inr it2 :: cerr + work)"
  then show thesis by (intro that [of actual source]) simp_all
qed

lemma complete_output_quiet:
  assumes "complete_output ctx run attempt it s = Inr it2" and "w_current_run_id it = Some run"
  shows "work_quiet it it2" and "w_status it2 \<in> {AwaitingUser, Queued, Waiting, w_status it}"
proof -
  from assms(1) obtain source where eq:
    "it2 = after_turn (it\<lparr>w_outputs := w_outputs it @ [output_of ctx run attempt source it s]\<rparr>)"
    by (rule complete_output_elim)
  have "o_run_id (output_of ctx run attempt source it s) = run" by (simp add: output_of_def)
  with assms(2) have
    "work_quiet it (it\<lparr>w_outputs := w_outputs it @ [output_of ctx run attempt source it s]\<rparr>)"
    by (simp add: work_law_defs work_wf_def)
  then show "work_quiet it it2" unfolding eq by (rule quiet.law_trans [OF _ after_turn_quiet])
  show "w_status it2 \<in> {AwaitingUser, Queued, Waiting, w_status it}"
    unfolding eq using after_turn_status [of "it\<lparr>w_outputs := w_outputs it @ [output_of ctx run attempt source it s]\<rparr>"]
    by simp
qed

lemma park_unconfirmed_quiet: "work_quiet w (park_unconfirmed run w)"
  by (simp add: park_unconfirmed_def work_law_defs work_wf_def)

lemma spend_quiet: "work_quiet w (w\<lparr>w_token_usage := sat_add (w_token_usage w) u\<rparr>)"
  by (simp add: work_law_defs work_wf_def sat_add_ge)

lemma touch_quiet: "work_quiet w (w\<lparr>w_updated_at := t\<rparr>)"
  by (simp add: work_law_defs work_wf_def)

lemma stop_children_law:
  assumes "stop_children ctx key it s = Inr s'"
  shows "advances work_quiet quiet_new s s'"
  using assms unfolding stop_children_def
  by (elim bindE_elim quiet.adv_foldE [rotated]) (auto intro: invalidate_law split: if_splits)

definition settled :: "ctx \<Rightarrow> string \<Rightarrow> execution_attempt \<Rightarrow> work \<Rightarrow> work" where
  "settled ctx run attempt it =
     (park_unconfirmed run (enforce_budget (goal_finished
        (it\<lparr>w_token_usage := sat_add (w_token_usage it) (attempt_usage attempt)\<rparr>) run)))
     \<lparr>w_updated_at := time ctx\<rparr>"

lemma settled_quiet:
  assumes "\<not> executing (w_status it)"
  shows "work_quiet it (settled ctx run attempt it)"
proof -
  let ?it = "it\<lparr>w_token_usage := sat_add (w_token_usage it) (attempt_usage attempt)\<rparr>"
  have "\<not> executing (w_status ?it)" using assms by simp
  note goal_finished_quiet [OF this, of run]
  with spend_quiet have "work_quiet it (goal_finished ?it run)" by (rule quiet.law_trans)
  then show ?thesis
    unfolding settled_def
    by (intro quiet.law_trans [OF _ touch_quiet] quiet.law_trans [OF _ park_unconfirmed_quiet]
        quiet.law_trans [OF _ enforce_budget_quiet])
qed

lemma finish_saved_elim:
  assumes "finish_saved ctx key run attempt it s = Inr s'"
  obtains root s1 s2 s3 where
    "tget (works s) (w_root_id it) = Some root"
    "w_id root = w_id (settled ctx run attempt it) \<and> s1 = s
     \<or> w_id root \<noteq> w_id (settled ctx run attempt it) \<and> put_work ctx (enforce_budget
         (root\<lparr>w_token_usage := sat_add (w_token_usage root) (attempt_usage attempt)\<rparr>)) s = Inr s1"
    "put_work ctx (settled ctx run attempt it) s1 = Inr s2"
    "w_status (settled ctx run attempt it) \<in> {Completed, Waiting, Queued} \<and> s3 = s2
     \<or> w_status (settled ctx run attempt it) \<notin> {Completed, Waiting, Queued}
        \<and> stop_children ctx key (settled ctx run attempt it) s2 = Inr s3"
    "wake_waiters ctx s3 = Inr s'"
  using assms [unfolded finish_saved_def Let_def, folded settled_def]
proof (elim result_elims)
  fix root s1 s2 s3
  assume "item s (w_root_id it) = Inr root"
   "(if w_id root \<noteq> w_id (settled ctx run attempt it) then put_work ctx (enforce_budget
       (root\<lparr>w_token_usage := sat_add (w_token_usage root) (attempt_usage attempt)\<rparr>)) s
     else Inr s) = Inr s1"
   "put_work ctx (settled ctx run attempt it) s1 = Inr s2"
   "(if w_status (settled ctx run attempt it) \<notin> {Completed, Waiting, Queued}
     then stop_children ctx key (settled ctx run attempt it) s2 else Inr s2) = Inr s3"
   "wake_waiters ctx s3 = Inr s'"
  then show thesis by (intro that [of root s1 s2 s3]) (simp_all split: if_splits)
qed

lemma finish_saved_law:
  assumes "finish_saved ctx key run attempt it2 s = Inr s'" and "tget (works s) key = Some it"
    and "store_ok s \<Longrightarrow> work_quiet it it2" and "\<not> executing (w_status it2)"
  shows "advances work_quiet quiet_new s s'"
proof (cases "store_ok s")
  case ok: True
  let ?it = "settled ctx run attempt it2"
  from assms(1) obtain root s1 s2 s3 where
    root: "tget (works s) (w_root_id it2) = Some root" and
    s1: "w_id root = w_id ?it \<and> s1 = s \<or> w_id root \<noteq> w_id ?it \<and> put_work ctx (enforce_budget
         (root\<lparr>w_token_usage := sat_add (w_token_usage root) (attempt_usage attempt)\<rparr>)) s = Inr s1" and
    s2: "put_work ctx ?it s1 = Inr s2" and
    s3: "w_status ?it \<in> {Completed, Waiting, Queued} \<and> s3 = s2
     \<or> w_status ?it \<notin> {Completed, Waiting, Queued} \<and> stop_children ctx key ?it s2 = Inr s3" and
    s': "wake_waiters ctx s3 = Inr s'"
    by (rule finish_saved_elim)
  have it: "work_quiet it ?it"
    using assms(3) [OF ok] settled_quiet [OF assms(4)] by (rule quiet.law_trans)
  then have id: "w_id ?it = key" using quiet.law_id work_id [OF ok assms(2)] by simp
  let ?root = "enforce_budget (root\<lparr>w_token_usage := sat_add (w_token_usage root) (attempt_usage attempt)\<rparr>)"
  have rq: "work_quiet root ?root" using spend_quiet enforce_budget_quiet by (rule quiet.law_trans)
  have 1: "advances work_quiet quiet_new s s1 \<and> tget (works s1) key = Some it"
  proof (cases "w_id root = w_id ?it")
    case True
    with s1 assms(2) show ?thesis by simp
  next
    case False
    with s1 have put: "put_work ctx ?root s = Inr s1" by simp
    have "key \<noteq> w_id ?root" using id False quiet.law_id [OF rq] by simp
    then show ?thesis
      using quiet.adv_put [OF root rq put] put_work_get [OF put, of key] assms(2) by simp
  qed
  have 2: "advances work_quiet quiet_new s1 s2"
    using quiet.adv_put [of s1 key it] 1 it s2 by simp
  have 3: "advances work_quiet quiet_new s2 s3" using s3 stop_children_law by auto
  from 1 2 3 wake_waiters_law [OF s'] show ?thesis by (meson quiet.adv_trans)
qed (simp add: advances_def)

lemma finish_cases:
  assumes "finish ctx key g run st reason s = Inr s'"
  obtains saved where "tget (works s) key = Some saved"
      "\<exists>out\<in>set (w_outputs saved). o_run_id out = run" "w_current_run_id saved = Some run"
      "\<not> executing (w_status saved)" "s' = s"
  | it row attempt r' it2 where "current ctx key g (Some run) s = Inr it"
      "st \<in> {Completed, Failed, Cancelled, AwaitingUser}"
      "tget (attempts s) run = Some row" "ar_payload row = Some attempt"
      "at_status attempt \<notin> {''queued'', ''streaming'', ''awaiting-approval'', ''retrying''}"
      "(if st = Completed then complete_output ctx run attempt (it\<lparr>w_status := st, w_reason := r'\<rparr>) s
        else Inr (it\<lparr>w_status := st, w_reason := r'\<rparr>)) = Inr it2"
      "finish_saved ctx key run attempt it2 s = Inr s'"
proof -
  from assms [unfolded finish_def] obtain saved where saved: "item s key = Inr saved" and
    body: "(if (\<exists>out\<in>set (w_outputs saved). o_run_id out = run) \<and> w_current_run_id saved = Some run
        \<and> \<not> executing (w_status saved)
     then Inr s else
     bindE (current ctx key g (Some run) s) (\<lambda>it.
     if st \<notin> {Completed, Failed, Cancelled, AwaitingUser}
     then Inl err_invalid_terminal_status else
     bindE (ok_or err_attempt_unavailable (tget (attempts s) run)) (\<lambda>row.
     bindE (ok_or err_attempt_evidence_invalid (ar_payload row)) (\<lambda>attempt.
     if at_status attempt \<in> {''queued'', ''streaming'', ''awaiting-approval'', ''retrying''}
     then Inl err_still_executing else
     bindE (optE (\<lambda>r. bounded r 2000 ''Work status'') reason) (\<lambda>reason'.
     let it1 = it\<lparr>w_status := st,
                  w_reason := (case reason' of None \<Rightarrow> w_reason it | Some r \<Rightarrow> Some r)\<rparr> in
     bindE (if st = Completed then complete_output ctx run attempt it1 s else Inr it1) (\<lambda>it2.
     finish_saved ctx key run attempt it2 s)))))) = Inr s'"
    by (elim bindE_elim)
  show thesis
  proof (cases "(\<exists>out\<in>set (w_outputs saved). o_run_id out = run) \<and> w_current_run_id saved = Some run
        \<and> \<not> executing (w_status saved)")
    case True
    with body saved show thesis by (intro that(1) [of saved]) simp_all
  next
    case False
    from body [unfolded if_not_P [OF False] Let_def] show thesis
    proof (elim result_elims, goal_cases)
      case (1 it row attempt r' it2)
      then show thesis
        by (intro that(2) [of it row attempt _ it2]) (simp_all, metis?)
    qed
  qed
qed

lemma finish_law:
  assumes "finish ctx key g run st reason s = Inr s'"
  shows "advances work_quiet quiet_new s s'"
  using assms
proof (cases rule: finish_cases)
  case (2 it row attempt r' it2)
  note it = current_item [OF 2(1)]
  let ?it1 = "it\<lparr>w_status := st, w_reason := r'\<rparr>"
  have st: "\<not> executing st" using 2(2) by auto
  then have q1: "work_quiet it ?it1" by (simp add: work_law_defs work_wf_def)
  have run: "w_current_run_id ?it1 = Some run" using it(4) by simp
  have q2: "work_quiet ?it1 it2 \<and> \<not> executing (w_status it2)"
  proof (cases "st = Completed")
    case True
    with 2(6) have "complete_output ctx run attempt ?it1 s = Inr it2" by simp
    from complete_output_quiet [OF this run] st show ?thesis by auto
  next
    case False
    with 2(6) have "it2 = ?it1" by simp
    with st quiet.law_refl show ?thesis by simp
  qed
  show ?thesis
    by (rule finish_saved_law [OF 2(7) it(1)]) (use q1 q2 quiet.law_trans in auto)
qed simp

lemma reconcile_profiles_law:
  assumes "reconcile_profiles ctx s = Inr s'"
  shows "advances work_quiet quiet_new s s'"
  using assms unfolding reconcile_profiles_def
proof (elim bindE_elim)
  fix all t
  assume "foldE (\<lambda>w t. if active (w_status w) \<and> profile_lost ctx w
      then invalidate_descendants ctx (w_id w) msg_agent_removed AwaitingUser t else Inr t) all s = Inr t"
  then have "advances work_quiet quiet_new s t"
    by (rule quiet.adv_foldE [rotated]) (auto intro: invalidate_law split: if_splits)
  moreover assume "wake_waiters ctx t = Inr s'"
  ultimately show ?thesis using wake_waiters_law quiet.adv_trans by metis
qed

end
