(* ===== verification/Work_Exchange.thy ===== *)
theory Work_Exchange
  imports Work_Run_Laws
begin

text \<open>
  Exchanges around a running assignment (\<open>collaboration/exchanges.rs\<close>, \<open>steering.rs\<close>): user
  follow-ups, task messages between the assignments of one effort with the check against waiting
  cycles, durable resource claims, and live guidance of a running turn with its delivery receipt.
\<close>

section \<open>User follow-ups\<close>

definition cloud_frozen :: "work \<Rightarrow> bool" where
  "cloud_frozen it =
     (w_execution_owner it = Some ''hosted''
      \<or> (case w_hosted_task it of None \<Rightarrow> False | Some h \<Rightarrow> ht_phase h = ''review''))"

definition parent_active :: "store \<Rightarrow> work \<Rightarrow> bool" where
  "parent_active s it =
     (case w_parent_id it of None \<Rightarrow> False
      | Some p \<Rightarrow> (case item s p of Inl _ \<Rightarrow> False | Inr parent \<Rightarrow> active (w_status parent)))"

definition requeue :: "string \<Rightarrow> work \<Rightarrow> work" where
  "requeue reason it =
     it\<lparr>w_generation := w_generation it + 1, w_current_run_id := None, w_status := Queued,
        w_reason := Some reason\<rparr>"

definition reopen_goal :: "work \<Rightarrow> work" where
  "reopen_goal it =
     it\<lparr>w_outcome_goal := map_option (\<lambda>g.
          if g_status g \<in> {''completed'', ''blocked''}
          then g\<lparr>g_status := ''active'', g_report := None\<rparr> else g) (w_outcome_goal it)\<rparr>"

definition replied :: "work \<Rightarrow> work" where
  "replied it =
     (if w_status it = AwaitingUser then (requeue msg_reply_queued it)\<lparr>w_awaiting_user := False\<rparr>
      else if w_status it = Completed then requeue msg_reply_fresh it
      else if w_status it = Waiting then requeue msg_reply_waiting it
      else it)"

definition reply_user ::
  "ctx \<Rightarrow> string \<Rightarrow> u32 \<Rightarrow> string \<Rightarrow> string \<Rightarrow> store \<Rightarrow> cerr + store" where
  "reply_user ctx key expected event_id text0 s =
     bindE (check_id key) (\<lambda>_.
     bindE (check_id event_id) (\<lambda>_.
     bindE (bounded text0 32000 ''Follow-up'') (\<lambda>text.
     bindE (item s key) (\<lambda>it.
     if cloud_frozen it then Inl err_frozen_cloud_reply else
     case find (\<lambda>e. ws_id e = event_id) (w_steering it) of
       Some existing \<Rightarrow> if ws_text existing = text then Inr s else Inl err_follow_up_id_used
     | None \<Rightarrow>
         if w_generation it \<noteq> expected then Inl err_reload_before_reply else
         if 16 \<le> length (w_steering it) then Inl err_follow_up_limit else
         if w_status it = Cancelled \<or> w_status it = Failed then Inl err_assignment_ended else
         if w_status it = Completed \<and> w_parent_id it \<noteq> None \<and> \<not> w_workspace_recipient it
            \<and> \<not> parent_active s it
         then Inl err_effort_ended else
         if w_status it = AwaitingUser \<and> \<not> w_awaiting_user it
         then Inl err_reconcile_prerequisite else
         let it1 = it\<lparr>w_steering := w_steering it @
               [\<lparr>ws_id = event_id, ws_text = text, ws_created_at = time ctx\<rparr>]\<rparr>;
             it2 = enforce_budget (reopen_goal (replied it1)) in
         put_work ctx (it2\<lparr>w_updated_at := time ctx\<rparr>) s))))"

section \<open>Task messages\<close>

text \<open>
  The search for a waiting path from the target back to the sender: a stack of pending ids and
  the set of visited ones, as the code keeps them.
\<close>

definition waits_of :: "store \<Rightarrow> string \<Rightarrow> string list" where
  "waits_of s key = (case item s key of Inl _ \<Rightarrow> [] | Inr w \<Rightarrow> w_waiting_for w)"

function reaches :: "store \<Rightarrow> string \<Rightarrow> string list \<Rightarrow> string list \<Rightarrow> bool" where
  "reaches s goal pending visited =
     (if pending = [] then False
      else let k = last pending; rest = butlast pending in
        if k = goal then True
        else if k \<in> set visited then reaches s goal rest visited
        else reaches s goal (rest @ waits_of s k) (k # visited))"
  by pat_completeness auto
termination
proof (relation "measures [\<lambda>(s, goal, pending, visited). card (fst ` set (works s) - set visited),
    \<lambda>(s, goal, pending, visited). length pending]", goal_cases)
  case 1
  then show ?case by simp
next
  case (2 s goal pending visited k rest)
  then show ?case by simp
next
  case (3 s goal pending visited k rest)
  show ?case
  proof (cases "k \<in> fst ` set (works s)")
    case True
    with 3 have "fst ` set (works s) - set (k # visited) \<subset> fst ` set (works s) - set visited" by auto
    then have "card (fst ` set (works s) - set (k # visited)) < card (fst ` set (works s) - set visited)"
      by (intro psubset_card_mono) auto
    then show ?thesis by simp
  next
    case False
    then have "tget (works s) k = None" by (simp add: tget_None_iff)
    then have w: "waits_of s k = []" by (simp add: waits_of_def item_def)
    from False have "fst ` set (works s) - set (k # visited) = fst ` set (works s) - set visited" by auto
    with 3 w show ?thesis by (cases pending) auto
  qed
qed

declare reaches.simps [simp del]

definition wait_cycle :: "store \<Rightarrow> work \<Rightarrow> work \<Rightarrow> bool" where
  "wait_cycle s it target =
     (w_parent_id it = Some (w_id target) \<or> reaches s (w_id it) (w_waiting_for target) [])"

definition related :: "work \<Rightarrow> work \<Rightarrow> bool" where
  "related it target =
     (w_parent_id target = Some (w_id it) \<or> w_parent_id it = Some (w_id target)
      \<or> w_parent_id target \<noteq> None \<and> w_parent_id target = w_parent_id it
      \<or> w_parent_id target = None \<and> w_workspace_recipient it)"

definition check_message :: "work \<Rightarrow> work \<Rightarrow> cerr + unit" where
  "check_message it target =
     (if w_id target = w_id it then Inl err_self_message else
      if w_root_id target \<noteq> w_root_id it then Inl err_outside_effort else
      if \<not> related it target then Inl err_not_task_scoped else
      if w_status target = Cancelled \<or> w_status target = Failed then Inl err_assignment_ended else
      if w_status target = AwaitingUser then Inl err_waiting_for_user else
      if 24 \<le> length (w_messages target) then Inl err_message_limit else Inr ())"

definition delivered :: "ctx \<Rightarrow> work \<Rightarrow> string \<Rightarrow> string \<Rightarrow> bool \<Rightarrow> work \<Rightarrow> work" where
  "delivered ctx it receipt text question target =
     (let t1 = target\<lparr>w_messages := w_messages target @
            [\<lparr>ms_id = receipt, ms_from_work_id = w_id it, ms_from_agent_id = w_agent_id it,
              ms_to_work_id = w_id target, ms_text = text, ms_question = question,
              ms_created_at = time ctx\<rparr>]\<rparr>;
          t2 = (if executing (w_status target) then t1 else requeue msg_message_queued t1)
      in t2\<lparr>w_updated_at := time ctx\<rparr>)"

definition task_message_op ::
  "ctx \<Rightarrow> work \<Rightarrow> string \<Rightarrow> string \<Rightarrow> string \<Rightarrow> bool \<Rightarrow> store \<Rightarrow> cerr + store" where
  "task_message_op ctx it receipt assignment text0 question s =
     bindE (check_id assignment) (\<lambda>_.
     bindE (bounded text0 6000 ''Task message'') (\<lambda>text.
     bindE (item s assignment) (\<lambda>target.
     bindE (check_message it target) (\<lambda>_.
     bindE (if question \<and> w_id target \<notin> set (w_waiting_for it) \<and> \<not> wait_cycle s it target
            then put_work ctx (it\<lparr>w_waiting_for := w_waiting_for it @ [w_id target]\<rparr>) s
            else Inr s) (\<lambda>s1.
     put_work ctx (delivered ctx it receipt text question target) s1)))))"

section \<open>Resource claims\<close>

definition claim_key :: "string \<Rightarrow> string" where
  "claim_key resource = to_ascii_lowercase (replace_char (CHR 0x5C) (CHR ''/'') resource)"

definition effort_is_live :: "work list \<Rightarrow> work \<Rightarrow> bool" where
  "effort_is_live all other =
     (\<exists>c\<in>set all. w_root_id c = w_root_id other \<and> w_status c \<noteq> Completed \<and> w_status c \<noteq> Cancelled)"

definition explicit_transfer :: "work \<Rightarrow> work \<Rightarrow> bool" where
  "explicit_transfer it other =
     (w_root_id other = w_root_id it \<and> w_status other = Completed
      \<and> (w_id other \<in> set (w_prerequisites it) \<or> w_id other \<in> set (w_dependencies it)))"

definition claim_conflict :: "work list \<Rightarrow> work \<Rightarrow> string \<Rightarrow> work \<Rightarrow> bool" where
  "claim_conflict all it resource other =
     (w_id other \<noteq> w_id it \<and> w_status other \<noteq> Cancelled \<and> effort_is_live all other
      \<and> resource \<in> set (w_resource_claims other) \<and> \<not> explicit_transfer it other)"

definition claim_resource :: "ctx \<Rightarrow> work \<Rightarrow> string \<Rightarrow> store \<Rightarrow> cerr + store" where
  "claim_resource ctx it resource0 s =
     bindE (bounded resource0 512 ''Resource claim'') (\<lambda>bounded_resource.
     let resource = claim_key bounded_resource;
         already = resource \<in> set (w_resource_claims it) in
     if \<not> already \<and> 16 \<le> length (w_resource_claims it) then Inl err_claim_limit else
     bindE (all_work s) (\<lambda>all.
     if \<exists>other\<in>set all. claim_conflict all it resource other then Inl err_resource_claimed else
     put_work ctx (it\<lparr>w_resource_claims :=
          (if already then w_resource_claims it else w_resource_claims it @ [resource]),
        w_updated_at := time ctx\<rparr>) s))"

section \<open>Live guidance\<close>

definition ensure_run_current :: "ctx \<Rightarrow> string option \<Rightarrow> store \<Rightarrow> cerr + unit" where
  "ensure_run_current ctx run s =
     (case run of None \<Rightarrow> Inr () | Some r \<Rightarrow>
      (case tget (authors s) r of None \<Rightarrow> Inr () | Some a \<Rightarrow>
       (case au_work_id a of None \<Rightarrow> Inr () | Some key \<Rightarrow>
          bindE (ok_or err_run_unavailable (tget (works s) key)) (\<lambda>it.
          if w_execution_owner it = Some ''hosted'' then Inl err_cloud_attempt_receipt else
          if w_generation it \<noteq> au_generation a \<or> \<not> executing (w_status it)
             \<or> w_current_run_id it \<noteq> Some r
          then Inl err_late_result else
          bindE (ok_or err_parent_unavailable (tget (works s) (w_root_id it))) (\<lambda>root.
          bindE (check_work ctx s root (w_agent_id it) (w_permission_mode it)) (\<lambda>_.
          check_schedule ctx s root (now_again ctx) True))))))"

definition check_live_author :: "u32 \<Rightarrow> work \<Rightarrow> author \<Rightarrow> cerr + unit" where
  "check_live_author generation it a =
     (if au_work_id a \<noteq> Some (w_id it) \<or> au_generation a \<noteq> generation
         \<or> au_agent_id a \<noteq> w_agent_id it \<or> au_conversation_id a \<noteq> w_conversation_id it
      then Inl err_live_foreign else Inr ())"

text \<open>\<open>steering::admit\<close>: the run that must receive the text, or none for a repeated event.\<close>

definition live_admit ::
  "ctx \<Rightarrow> string \<Rightarrow> u32 \<Rightarrow> string \<Rightarrow> string \<Rightarrow> store \<Rightarrow> cerr + (string option \<times> store)" where
  "live_admit ctx key generation event text0 s =
     bindE (check_id event) (\<lambda>_.
     bindE (bounded text0 2000 ''Live guidance'') (\<lambda>text.
     bindE (current ctx key generation None s) (\<lambda>it.
     case find (\<lambda>e. ls_id e = event) (w_live_steering it) of
       Some old \<Rightarrow> if ls_text old = text then Inr (None, s) else Inl err_live_id_used
     | None \<Rightarrow>
         if w_status it \<noteq> Running \<or> w_execution_owner it \<noteq> None
            \<or> \<not> starts_with (w_model_option_id it) ''codex::'' \<or> 16 \<le> length (w_live_steering it)
         then Inl err_live_unavailable else
         bindE (ok_or err_live_wait (w_current_run_id it)) (\<lambda>run.
         bindE (ok_or err_live_no_binding (tget (authors s) run)) (\<lambda>a.
         bindE (check_live_author generation it a) (\<lambda>_.
         bindE (ensure_run_current ctx (Some run) s) (\<lambda>_.
         if live_unconfirmed run it then Inl err_live_unconfirmed else
         bindE (put_work ctx (it\<lparr>w_live_steering := w_live_steering it @
                  [\<lparr>ls_id = event, ls_text = text, ls_run_id = run, ls_delivery = ''pending'',
                    ls_created_at = time ctx\<rparr>], w_updated_at := time ctx\<rparr>) s) (\<lambda>s'.
         Inr (Some run, s')))))))))"

datatype steering_delivery = Accepted | Rejected | Uncertain

definition delivery_text :: "steering_delivery \<Rightarrow> string" where
  "delivery_text d =
     (case d of Accepted \<Rightarrow> ''accepted'' | Rejected \<Rightarrow> ''rejected'' | Uncertain \<Rightarrow> ''uncertain'')"

text \<open>The first event with the id gets the delivery (\<open>iter_mut().find\<close>).\<close>

fun set_delivery :: "string \<Rightarrow> string \<Rightarrow> live_work_steering list \<Rightarrow> live_work_steering list option" where
  "set_delivery event d [] = None"
| "set_delivery event d (e # es) =
     (if ls_id e = event then Some (e\<lparr>ls_delivery := d\<rparr> # es)
      else map_option ((#) e) (set_delivery event d es))"

text \<open>The second transaction of \<open>steering::live\<close>, after the provider was called.\<close>

definition live_receipt ::
  "ctx \<Rightarrow> string \<Rightarrow> u32 \<Rightarrow> string \<Rightarrow> steering_delivery \<Rightarrow> store \<Rightarrow> cerr + store" where
  "live_receipt ctx key generation event d s =
     bindE (item s key) (\<lambda>it.
     if w_generation it \<noteq> generation then Inr s else
     bindE (ok_or err_live_receipt_unavailable
              (set_delivery event (delivery_text d) (w_live_steering it))) (\<lambda>events.
     let it1 = it\<lparr>w_live_steering := events\<rparr>;
         it2 = (if d = Uncertain \<and> active (w_status it1)
                then it1\<lparr>w_status := AwaitingUser, w_awaiting_user := False,
                         w_generation := w_generation it1 + 1, w_current_run_id := None,
                         w_reason := Some msg_live_uncertain,
                         w_outcome_goal :=
                           map_option (\<lambda>g. g\<lparr>g_status := ''paused''\<rparr>) (w_outcome_goal it1)\<rparr>
                else it1) in
     put_work ctx (it2\<lparr>w_updated_at := time ctx\<rparr>) s))"

section \<open>Laws of change\<close>

lemma requeue_quiet: "\<not> executing (w_status w) \<Longrightarrow> work_quiet w (requeue r w)"
  by (simp add: requeue_def work_law_defs work_wf_def)

lemma replied_quiet: "work_quiet w (replied w)"
proof -
  have "work_quiet w ((requeue msg_reply_queued w)\<lparr>w_awaiting_user := False\<rparr>)"
    if "w_status w = AwaitingUser"
    using that by (simp add: requeue_def work_law_defs work_wf_def)
  then show ?thesis by (simp add: replied_def requeue_quiet quiet.law_refl)
qed

lemma reopen_goal_quiet: "work_quiet w (reopen_goal w)"
  by (simp add: reopen_goal_def work_law_defs work_wf_def)

lemma steering_append_quiet:
  "length (w_steering w) < 16 \<Longrightarrow> work_quiet w (w\<lparr>w_steering := w_steering w @ [e]\<rparr>)"
  by (simp add: work_law_defs work_wf_def)

lemma reply_user_cases:
  assumes "reply_user ctx key g ev txt s = Inr s'"
  obtains it where "tget (works s) key = Some it" "\<exists>e\<in>set (w_steering it). ws_id e = ev" "s' = s"
  | it tx where "tget (works s) key = Some it" "w_generation it = g"
      "length (w_steering it) < 16" "\<not> cloud_frozen it"
      "w_status it \<noteq> Cancelled" "w_status it \<noteq> Failed"
      "w_status it = AwaitingUser \<Longrightarrow> w_awaiting_user it"
      "find (\<lambda>e. ws_id e = ev) (w_steering it) = None"
      "put_work ctx ((enforce_budget (reopen_goal (replied (it\<lparr>w_steering := w_steering it @
               [\<lparr>ws_id = ev, ws_text = tx, ws_created_at = time ctx\<rparr>]\<rparr>))))
          \<lparr>w_updated_at := time ctx\<rparr>) s = Inr s'"
  using assms unfolding reply_user_def
proof (elim result_elims, goal_cases)
  case (1 u1 u2 tx it)
  then show ?case
  proof (cases "find (\<lambda>e. ws_id e = ev) (w_steering it)")
    case None
    note body = 1(8) [unfolded None option.case Let_def]
    show ?thesis
      using body by (elim guard_elim) (use 1(2) [of it tx] 1(6,7) None in \<open>simp add: not_le\<close>)
  next
    case (Some e)
    then have "e \<in> set (w_steering it)" "ws_id e = ev"
      using nth_mem by (force simp: find_Some_iff)+
    with 1(1) [of it] 1(6,8) Some show ?thesis by (simp split: if_splits) blast
  qed
qed

lemma reply_user_law:
  assumes "reply_user ctx key g ev txt s = Inr s'"
  shows "advances work_quiet quiet_new s s'"
  using assms
proof (cases rule: reply_user_cases)
  case (2 it tx)
  note q = steering_append_quiet [OF 2(3), of "\<lparr>ws_id = ev, ws_text = tx, ws_created_at = time ctx\<rparr>"]
  show ?thesis
    by (rule quiet.adv_put [OF 2(1) _ 2(9)])
      (intro quiet.law_trans [OF _ touch_quiet] quiet.law_trans [OF _ enforce_budget_quiet]
        quiet.law_trans [OF _ reopen_goal_quiet] quiet.law_trans [OF q replied_quiet])
qed simp

lemma delivered_quiet:
  assumes "length (w_messages target) < 24"
  shows "work_quiet target (delivered ctx it r txt q target)"
  using assms by (simp add: delivered_def Let_def requeue_def work_law_defs work_wf_def)

lemma check_message_Inr:
  assumes "check_message it target = Inr u"
  shows "w_id target \<noteq> w_id it" "w_root_id target = w_root_id it" "related it target"
    "length (w_messages target) < 24"
    "w_status target \<noteq> Cancelled" "w_status target \<noteq> Failed" "w_status target \<noteq> AwaitingUser"
  using assms by (simp_all add: check_message_def result_simps)

lemma task_message_elim:
  assumes "task_message_op ctx it rc tg txt q s = Inr s'"
  obtains tx target s1 where "tget (works s) tg = Some target" "check_message it target = Inr ()"
    "q \<and> w_id target \<notin> set (w_waiting_for it) \<and> \<not> wait_cycle s it target
       \<and> put_work ctx (it\<lparr>w_waiting_for := w_waiting_for it @ [w_id target]\<rparr>) s = Inr s1
     \<or> \<not> (q \<and> w_id target \<notin> set (w_waiting_for it) \<and> \<not> wait_cycle s it target) \<and> s1 = s"
    "put_work ctx (delivered ctx it rc tx q target) s1 = Inr s'"
  using assms unfolding task_message_op_def
proof (elim result_elims, goal_cases)
  case (1 u tx target v s1)
  then show ?case by (intro 1(1) [of target s1 tx]) (simp_all split: if_splits)
qed

lemma task_message_law:
  assumes "task_message_op ctx it rc tg txt q s = Inr s'" and "tget (works s) key = Some it"
  shows "advances work_quiet quiet_new s s'"
proof (cases "store_ok s")
  case ok: True
  from assms(1) obtain tx target s1 where target: "tget (works s) tg = Some target"
    and check: "check_message it target = Inr ()"
    and s1: "q \<and> w_id target \<notin> set (w_waiting_for it) \<and> \<not> wait_cycle s it target
       \<and> put_work ctx (it\<lparr>w_waiting_for := w_waiting_for it @ [w_id target]\<rparr>) s = Inr s1
     \<or> \<not> (q \<and> w_id target \<notin> set (w_waiting_for it) \<and> \<not> wait_cycle s it target) \<and> s1 = s"
    and s': "put_work ctx (delivered ctx it rc tx q target) s1 = Inr s'"
    by (rule task_message_elim)
  have iq: "work_quiet it (it\<lparr>w_waiting_for := ws\<rparr>)" for ws by (simp add: work_law_defs work_wf_def)
  have "advances work_quiet quiet_new s s1 \<and> tget (works s1) tg = Some target"
    using s1
  proof
    assume *: "q \<and> w_id target \<notin> set (w_waiting_for it) \<and> \<not> wait_cycle s it target
       \<and> put_work ctx (it\<lparr>w_waiting_for := w_waiting_for it @ [w_id target]\<rparr>) s = Inr s1"
    then have put: "put_work ctx (it\<lparr>w_waiting_for := w_waiting_for it @ [w_id target]\<rparr>) s = Inr s1"
      by simp
    have "tg \<noteq> w_id it" using check_message_Inr(1) [OF check] work_id [OF ok target] by simp
    with put_work_get [OF put, of tg] target quiet.adv_put [OF assms(2) iq put] show ?thesis by simp
  qed (use target in simp)
  then show ?thesis
    using quiet.adv_put [OF _ delivered_quiet [OF check_message_Inr(4) [OF check]] s']
      quiet.adv_trans by metis
qed (simp add: advances_def)

lemma claim_resource_elim:
  assumes "claim_resource ctx it res s = Inr s'"
  obtains b where "bounded res 512 ''Resource claim'' = Inr b"
    "claim_key b \<in> set (w_resource_claims it) \<or> length (w_resource_claims it) < 16"
    "\<forall>other\<in>set (trows (works s)). \<not> claim_conflict (trows (works s)) it (claim_key b) other"
    "put_work ctx (it\<lparr>w_resource_claims :=
        (if claim_key b \<in> set (w_resource_claims it) then w_resource_claims it
         else w_resource_claims it @ [claim_key b]), w_updated_at := time ctx\<rparr>) s = Inr s'"
  using assms unfolding claim_resource_def Let_def
proof (elim result_elims, goal_cases)
  case (1 b all)
  then show ?case by (intro 1(1) [of b]) (simp_all add: not_le, metis?)
qed

lemma claim_resource_law:
  assumes "claim_resource ctx it res s = Inr s'" and "tget (works s) key = Some it"
  shows "advances work_quiet quiet_new s s'"
  using assms(1)
proof (rule claim_resource_elim)
  fix b
  assume *: "claim_key b \<in> set (w_resource_claims it) \<or> length (w_resource_claims it) < 16"
  assume "put_work ctx (it\<lparr>w_resource_claims :=
        (if claim_key b \<in> set (w_resource_claims it) then w_resource_claims it
         else w_resource_claims it @ [claim_key b]), w_updated_at := time ctx\<rparr>) s = Inr s'"
  then show ?thesis
    by (rule quiet.adv_put [rotated 2, OF _ assms(2)]) (use * in
      \<open>cases "claim_key b \<in> set (w_resource_claims it)"; simp add: work_law_defs work_wf_def\<close>)
qed

lemma live_admit_law:
  assumes "live_admit ctx key g ev txt s = Inr (r, s')"
  shows "advances work_quiet quiet_new s s'"
  using assms unfolding live_admit_def
proof (elim bindE_elim, goal_cases)
  case (1 u tx it)
  note it = current_item(1) [OF 1(3)]
  show ?case
  proof (cases "find (\<lambda>e. ls_id e = ev) (w_live_steering it)")
    case None
    from 1(4) [unfolded None option.case] show ?thesis
    proof (elim result_elims, goal_cases)
      case (1 run a v x s1)
      then have len: "length (w_live_steering it) < 16" and s': "s' = s1" by simp_all
      from 1 have "put_work ctx (it\<lparr>w_live_steering := w_live_steering it @
                  [\<lparr>ls_id = ev, ls_text = tx, ls_run_id = run, ls_delivery = ''pending'',
                    ls_created_at = time ctx\<rparr>], w_updated_at := time ctx\<rparr>) s = Inr s1" by simp
      then show ?thesis unfolding s'
        by (rule quiet.adv_put [rotated 2, OF _ it]) (use len in \<open>simp add: work_law_defs work_wf_def\<close>)
    qed
  next
    case (Some e)
    with 1 show ?thesis by (simp split: if_splits)
  qed
qed

lemma set_delivery_length: "set_delivery ev d es = Some es' \<Longrightarrow> length es' = length es"
  by (induction es arbitrary: es') (auto split: if_splits)

lemma live_receipt_law:
  assumes "live_receipt ctx key g ev d s = Inr s'"
  shows "advances work_quiet quiet_new s s'"
  using assms unfolding live_receipt_def
proof (elim bindE_elim, goal_cases)
  case (1 it)
  show ?case
  proof (cases "w_generation it = g")
    case False
    with 1 show ?thesis by simp
  next
    case True
    with 1(2) obtain events where ev: "set_delivery ev (delivery_text d) (w_live_steering it) = Some events"
      and put: "put_work ctx ((if d = Uncertain \<and> active (w_status (it\<lparr>w_live_steering := events\<rparr>))
                then it\<lparr>w_live_steering := events, w_status := AwaitingUser, w_awaiting_user := False,
                         w_generation := w_generation (it\<lparr>w_live_steering := events\<rparr>) + 1,
                         w_current_run_id := None, w_reason := Some msg_live_uncertain,
                         w_outcome_goal := map_option (\<lambda>g. g\<lparr>g_status := ''paused''\<rparr>)
                           (w_outcome_goal (it\<lparr>w_live_steering := events\<rparr>))\<rparr>
                else it\<lparr>w_live_steering := events\<rparr>)\<lparr>w_updated_at := time ctx\<rparr>) s = Inr s'"
      by (simp add: Let_def) (elim result_elims, simp)
    have len: "length events = length (w_live_steering it)" by (rule set_delivery_length [OF ev])
    show ?thesis
    proof (rule quiet.adv_put [OF _ _ put])
      show "tget (works s) key = Some it" using 1(1) by simp
    qed (cases "d = Uncertain \<and> active (w_status it)"; simp add: work_law_defs work_wf_def len)
  qed
qed

section \<open>Waiting cycles\<close>

definition waits_on :: "store \<Rightarrow> (string \<times> string) set" where
  "waits_on s = {(a, b). b \<in> set (waits_of s a)}"

lemma reaches_sound: "reaches s g ps vs \<Longrightarrow> \<exists>p\<in>set ps. (p, g) \<in> (waits_on s)\<^sup>*"
proof (induction s g ps vs rule: reaches.induct)
  case (1 s g ps vs)
  from "1.prems" have ne: "ps \<noteq> []" by (auto simp: reaches.simps [of s g ps])
  then have l: "last ps \<in> set ps" "set (butlast ps) \<subseteq> set ps" by (auto dest: in_set_butlastD)
  consider "last ps = g" | "last ps \<noteq> g" "last ps \<in> set vs" "reaches s g (butlast ps) vs"
    | "last ps \<noteq> g" "last ps \<notin> set vs"
      "reaches s g (butlast ps @ waits_of s (last ps)) (last ps # vs)"
    using "1.prems" ne by (auto simp: reaches.simps [of s g ps] Let_def split: if_splits)
  then show ?case
  proof cases
    case 1
    with l show ?thesis by blast
  next
    case 2
    with "1.IH"(1) ne l show ?thesis by blast
  next
    case 3
    with "1.IH"(2) ne obtain p where p: "p \<in> set (butlast ps @ waits_of s (last ps))"
        "(p, g) \<in> (waits_on s)\<^sup>*" by blast
    show ?thesis
    proof (cases "p \<in> set (butlast ps)")
      case False
      with p have "(last ps, p) \<in> waits_on s" by (simp add: waits_on_def)
      with p l show ?thesis by (blast intro: converse_rtrancl_into_rtrancl)
    qed (use p l in blast)
  qed
qed

lemma reaches_complete:
  "\<not> reaches s g ps vs \<Longrightarrow> (\<And>v. v \<in> set vs \<Longrightarrow> v \<noteq> g \<and> set (waits_of s v) \<subseteq> set vs \<union> set ps) \<Longrightarrow>
   \<exists>C. set ps \<union> set vs \<subseteq> C \<and> g \<notin> C \<and> (\<forall>c\<in>C. set (waits_of s c) \<subseteq> C)"
proof (induction s g ps vs rule: reaches.induct)
  case (1 s g ps vs)
  show ?case
  proof (cases "ps = []")
    case True
    with "1.prems" show ?thesis by (intro exI [of _ "set vs"]) auto
  next
    case ne: False
    then have ps: "set ps = insert (last ps) (set (butlast ps))"
      by (metis append_butlast_last_id list.simps(15) rotate1.simps(2) set_rotate1)
    have g: "last ps \<noteq> g" using "1.prems"(1) ne by (auto simp: reaches.simps [of s g ps])
    show ?thesis
    proof (cases "last ps \<in> set vs")
      case True
      with "1.prems"(1) ne g have no: "\<not> reaches s g (butlast ps) vs"
        by (simp add: reaches.simps [of s g ps] Let_def)
      have "\<exists>C. set (butlast ps) \<union> set vs \<subseteq> C \<and> g \<notin> C \<and> (\<forall>c\<in>C. set (waits_of s c) \<subseteq> C)"
      proof (rule "1.IH"(1) [OF ne refl refl g True no])
        fix v assume "v \<in> set vs"
        with "1.prems"(2) [of v] show "v \<noteq> g \<and> set (waits_of s v) \<subseteq> set vs \<union> set (butlast ps)"
          using True by (auto simp: ps)
      qed
      moreover have "set ps \<union> set vs = set (butlast ps) \<union> set vs" using True by (auto simp: ps)
      ultimately show ?thesis by (simp only:)
    next
      case False
      with "1.prems"(1) ne g
      have no: "\<not> reaches s g (butlast ps @ waits_of s (last ps)) (last ps # vs)"
        by (simp add: reaches.simps [of s g ps] Let_def)
      have "\<exists>C. set (butlast ps @ waits_of s (last ps)) \<union> set (last ps # vs) \<subseteq> C \<and> g \<notin> C
          \<and> (\<forall>c\<in>C. set (waits_of s c) \<subseteq> C)"
      proof (rule "1.IH"(2) [OF ne refl refl g False no])
        fix v assume "v \<in> set (last ps # vs)"
        then show "v \<noteq> g \<and> set (waits_of s v)
            \<subseteq> set (last ps # vs) \<union> set (butlast ps @ waits_of s (last ps))"
          using g "1.prems"(2) [of v] by (auto simp: ps)
      qed
      then obtain C where C: "set (butlast ps) \<union> set (waits_of s (last ps)) \<union> insert (last ps) (set vs) \<subseteq> C"
        "g \<notin> C" "\<forall>c\<in>C. set (waits_of s c) \<subseteq> C"
        by (metis set_append list.simps(15))
      have "set ps \<union> set vs \<subseteq> C" using C(1) by (auto simp: ps)
      with C show ?thesis by blast
    qed
  qed
qed

lemma reaches_iff: "reaches s g ps [] \<longleftrightarrow> (\<exists>p\<in>set ps. (p, g) \<in> (waits_on s)\<^sup>*)"
proof
  assume path: "\<exists>p\<in>set ps. (p, g) \<in> (waits_on s)\<^sup>*"
  show "reaches s g ps []"
  proof (rule ccontr)
    assume "\<not> reaches s g ps []"
    from reaches_complete [OF this] obtain C where C: "set ps \<subseteq> C" "g \<notin> C"
        "\<forall>c\<in>C. set (waits_of s c) \<subseteq> C" by auto
    from path obtain p where "p \<in> set ps" "(p, g) \<in> (waits_on s)\<^sup>*" by blast
    from this(2) \<open>p \<in> set ps\<close> have "g \<in> C"
      by induction (use C in \<open>auto simp: waits_on_def\<close>)
    with C show False by simp
  qed
qed (rule reaches_sound)

lemma waits_of_get: "waits_of s k = (case tget (works s) k of None \<Rightarrow> [] | Some w \<Rightarrow> w_waiting_for w)"
  by (simp add: waits_of_def item_def ok_or_def split: option.splits)

lemma waits_on_put:
  assumes "put_work ctx w s = Inr s'"
  shows "waits_on s' = {(a, b). if a = w_id w then b \<in> set (w_waiting_for w) else b \<in> set (waits_of s a)}"
  by (auto simp: waits_on_def waits_of_get put_work_get [OF assms] split: if_splits)

lemma waits_on_same:
  assumes "put_work ctx w' s = Inr s'" and "tget (works s) (w_id w') = Some w"
    and "w_waiting_for w' = w_waiting_for w"
  shows "waits_on s' = waits_on s"
  using waits_on_put [OF assms(1)] assms(2,3) by (auto simp: waits_on_def waits_of_get)

text \<open>C24. Asking a question never closes a waiting cycle: if no assignment waits for itself through
  other assignments, none does after a task message of an assignment to another one of its
  effort, whether or not the message is a question.\<close>

theorem questions_keep_waits_acyclic:
  assumes "store_ok s" and "tget (works s) key = Some it" and "acyclic (waits_on s)"
    and "task_message_op ctx it receipt assignment txt question s = Inr s'"
  shows "acyclic (waits_on s')"
proof -
  from assms(4) obtain tx target s1 where target: "tget (works s) assignment = Some target"
    and check: "check_message it target = Inr ()"
    and s1: "question \<and> w_id target \<notin> set (w_waiting_for it) \<and> \<not> wait_cycle s it target
       \<and> put_work ctx (it\<lparr>w_waiting_for := w_waiting_for it @ [w_id target]\<rparr>) s = Inr s1
     \<or> \<not> (question \<and> w_id target \<notin> set (w_waiting_for it) \<and> \<not> wait_cycle s it target) \<and> s1 = s"
    and s': "put_work ctx (delivered ctx it receipt tx question target) s1 = Inr s'"
    by (rule task_message_elim)
  have ids: "w_id it = key" "w_id target = assignment" "assignment \<noteq> key"
    using work_id [OF assms(1)] assms(2) target check_message_Inr(1) [OF check] by auto
  have d: "w_id (delivered ctx it receipt tx question target) = assignment"
    "w_waiting_for (delivered ctx it receipt tx question target) = w_waiting_for target"
    by (simp_all add: delivered_def requeue_def Let_def ids)
  from s1 have "acyclic (waits_on s1) \<and> tget (works s1) assignment = Some target"
  proof
    assume *: "question \<and> w_id target \<notin> set (w_waiting_for it) \<and> \<not> wait_cycle s it target
       \<and> put_work ctx (it\<lparr>w_waiting_for := w_waiting_for it @ [w_id target]\<rparr>) s = Inr s1"
    then have put: "put_work ctx (it\<lparr>w_waiting_for := w_waiting_for it @ [w_id target]\<rparr>) s = Inr s1"
      by simp
    have "waits_on s1 = insert (key, assignment) (waits_on s)"
      using waits_on_put [OF put] assms(2) ids by (auto simp: waits_on_def waits_of_get)
    moreover have "(assignment, key) \<notin> (waits_on s)\<^sup>*"
    proof
      assume "(assignment, key) \<in> (waits_on s)\<^sup>*"
      with ids(3) obtain b where "(assignment, b) \<in> waits_on s" "(b, key) \<in> (waits_on s)\<^sup>*"
        by (metis converse_rtranclE)
      then have "b \<in> set (w_waiting_for target)" "(b, key) \<in> (waits_on s)\<^sup>*"
        using target by (auto simp: waits_on_def waits_of_get)
      then have "wait_cycle s it target" using ids reaches_iff by (auto simp: wait_cycle_def)
      with * show False by simp
    qed
    moreover have "tget (works s1) assignment = Some target"
      using put_work_get [OF put, of assignment] ids target by simp
    ultimately show ?thesis using assms(3) by (simp add: acyclic_insert)
  qed (use assms(3) target in simp)
  moreover have "waits_on s' = waits_on s1"
    using waits_on_same [OF s'] calculation d by simp
  ultimately show ?thesis by simp
qed

text \<open>C25. A granted resource claim is exclusive: the claimant holds it, and every other assignment
  that holds it is cancelled, belongs to an effort that is over, or is a completed assignment of
  the same effort that the claimant depends on.\<close>

theorem claim_is_exclusive:
  assumes "store_ok s" and "tget (works s) key = Some it"
    and "claim_resource ctx it resource s = Inr s'"
  shows "\<exists>b. bounded resource 512 ''Resource claim'' = Inr b
    \<and> (\<exists>it'. tget (works s') key = Some it' \<and> claim_key b \<in> set (w_resource_claims it'))
    \<and> (\<forall>other. tget (works s') (w_id other) = Some other \<and> w_id other \<noteq> key
          \<and> claim_key b \<in> set (w_resource_claims other) \<longrightarrow>
        w_status other = Cancelled \<or> \<not> effort_is_live (trows (works s')) other
        \<or> w_root_id other = w_root_id it \<and> w_status other = Completed
          \<and> (w_id other \<in> set (w_prerequisites it) \<or> w_id other \<in> set (w_dependencies it)))"
  using assms(3)
proof (rule claim_resource_elim)
  fix b
  let ?it = "it\<lparr>w_resource_claims := (if claim_key b \<in> set (w_resource_claims it)
       then w_resource_claims it else w_resource_claims it @ [claim_key b]), w_updated_at := time ctx\<rparr>"
  assume b: "bounded resource 512 ''Resource claim'' = Inr b"
    and no: "\<forall>other\<in>set (trows (works s)). \<not> claim_conflict (trows (works s)) it (claim_key b) other"
    and put: "put_work ctx ?it s = Inr s'"
  have id: "w_id it = key" using work_id [OF assms(1,2)] .
  have get: "tget (works s') k = (if k = key then Some ?it else tget (works s) k)" for k
    using put_work_get [OF put, of k] id by simp
  have ok': "store_ok s'" by (rule store_ok_put_work [OF assms(1) put])
  have live: "effort_is_live (trows (works s)) other" if "effort_is_live (trows (works s')) other" for other
  proof -
    from that obtain c where c: "c \<in> set (trows (works s'))" "w_root_id c = w_root_id other"
        "w_status c \<noteq> Completed" "w_status c \<noteq> Cancelled"
      unfolding effort_is_live_def by metis
    show ?thesis
    proof (cases "w_id c = key")
      case True
      with c(1) have "c = ?it" using works_rows [OF ok', of c] get [of key] by simp
      with c have "w_root_id it = w_root_id other" "w_status it \<noteq> Completed" "w_status it \<noteq> Cancelled"
        by simp_all
      moreover have "it \<in> set (trows (works s))" using works_rows [OF assms(1), of it] assms(2) id by simp
      ultimately show ?thesis unfolding effort_is_live_def by metis
    next
      case False
      with c(1) have "c \<in> set (trows (works s))"
        using works_rows [OF ok', of c] works_rows [OF assms(1), of c] get by simp
      with c show ?thesis unfolding effort_is_live_def by metis
    qed
  qed
  have "w_status other = Cancelled \<or> \<not> effort_is_live (trows (works s')) other
        \<or> w_root_id other = w_root_id it \<and> w_status other = Completed
          \<and> (w_id other \<in> set (w_prerequisites it) \<or> w_id other \<in> set (w_dependencies it))"
    if "tget (works s') (w_id other) = Some other" "w_id other \<noteq> key"
      "claim_key b \<in> set (w_resource_claims other)" for other
  proof -
    have "other \<in> set (trows (works s))" using that get works_rows [OF assms(1), of other] by simp
    with no have "\<not> claim_conflict (trows (works s)) it (claim_key b) other" by metis
    with that id live [of other] show ?thesis
      unfolding claim_conflict_def explicit_transfer_def by metis
  qed
  moreover have "claim_key b \<in> set (w_resource_claims ?it)" by simp
  ultimately show ?thesis using b get [of key] by metis
qed

definition sample_asked :: store where
  "sample_asked = sample_store [sample_work\<lparr>w_status := Running\<rparr>,
     sample_work\<lparr>w_id := ''part'', w_parent_id := Some ''job'', w_resource_claims := [''notes.md'']\<rparr>]"

definition sample_asking :: work where
  "sample_asking = sample_work\<lparr>w_status := Running\<rparr>"

lemma sample_asked_ok: "store_ok sample_asked" "tget (works sample_asked) ''job'' = Some sample_asking"
  "is_ok (task_message_op sample_ctx sample_asking ''call'' ''part'' ''where?'' True sample_asked)"
  "is_ok (claim_resource sample_ctx sample_asking ''src/a.txt'' sample_asked)"
  by code_simp+

lemma sample_asked_waits: "waits_on sample_asked = {}"
proof -
  have "waits_of sample_asked k = []" for k
    by (simp add: waits_of_get tget_def sample_asked_def sample_store_def sample_work_def)
  then show ?thesis by (simp add: waits_on_def)
qed

theorem questions_keep_waits_acyclic_witness:
  "\<exists>s'. task_message_op sample_ctx sample_asking ''call'' ''part'' ''where?'' True sample_asked = Inr s'
     \<and> acyclic (waits_on s')"
proof -
  obtain s' where s': "task_message_op sample_ctx sample_asking ''call'' ''part'' ''where?'' True sample_asked = Inr s'"
    using sample_asked_ok(3) unfolding is_ok_iff by auto
  have "acyclic (waits_on sample_asked)" by (simp add: sample_asked_waits acyclic_def)
  from questions_keep_waits_acyclic [OF sample_asked_ok(1,2) this s'] s' show ?thesis by metis
qed

theorem claim_is_exclusive_witness:
  "\<exists>s' b it'. claim_resource sample_ctx sample_asking ''src/a.txt'' sample_asked = Inr s'
     \<and> bounded ''src/a.txt'' 512 ''Resource claim'' = Inr b
     \<and> tget (works s') ''job'' = Some it' \<and> claim_key b \<in> set (w_resource_claims it')"
proof -
  obtain s' where s': "claim_resource sample_ctx sample_asking ''src/a.txt'' sample_asked = Inr s'"
    using sample_asked_ok(4) unfolding is_ok_iff by auto
  from claim_is_exclusive [OF sample_asked_ok(1,2) s'] s' show ?thesis by metis
qed

end
