(* ===== verification/Work_Facts.thy ===== *)
theory Work_Facts
  imports Work_Run_Laws
begin

text \<open>
  Shared project facts and decisions (\<open>collaboration/commands.rs\<close>): provenance from the canonical
  conversation rows, saving, superseding, changing and pinning a fact, and the context revision
  that every such change advances so that work on the old record is reviewed.
\<close>

section \<open>Errors\<close>

definition err_source_conversation :: cerr where
  "err_source_conversation = Invalid ''The source conversation is unavailable.''"

definition err_source_message :: cerr where
  "err_source_message = Invalid ''The fact source message is unavailable.''"

definition err_redacted_source :: cerr where
  "err_redacted_source = Invalid ''A redacted message cannot be used as fact provenance.''"

definition err_source_revision :: cerr where
  "err_source_revision = Invalid ''The fact source revision is unavailable.''"

definition err_source_foreign :: cerr where
  "err_source_foreign = Invalid ''The fact source does not belong to its conversation.''"

definition err_revision_foreign :: cerr where
  "err_revision_foreign = Invalid ''The fact source revision does not belong to its message.''"

definition err_fact_origin :: cerr where
  "err_fact_origin = Invalid ''A shared fact must originate in a conversation in this project.''"

definition err_fact_kind :: cerr where
  "err_fact_kind = Invalid ''Choose a fact or a decision.''"

definition err_fact_id_taken :: cerr where
  "err_fact_id_taken = Invalid ''This fact ID already belongs to another record.''"

definition err_superseded_missing :: cerr where
  "err_superseded_missing = Invalid ''The superseded fact is unavailable.''"

definition err_supersede_forbidden :: cerr where
  "err_supersede_forbidden = Invalid ''This fact cannot supersede a forgotten or cross-project record.''"

definition err_supersede_confirmed :: cerr where
  "err_supersede_confirmed = Invalid ''An agent cannot supersede a user-confirmed fact. Ask the user to correct it.''"

definition err_fact_status :: cerr where
  "err_fact_status = Invalid ''Invalid fact status.''"

definition err_fact_unavailable :: cerr where
  "err_fact_unavailable = Invalid ''This fact is unavailable.''"

definition err_fact_other_project :: cerr where
  "err_fact_other_project = Invalid ''This fact belongs to another project.''"

definition err_fact_pin :: cerr where
  "err_fact_pin = Invalid ''This fact cannot be pinned in this project.''"

section \<open>Provenance\<close>

definition redacted :: "message_row \<Rightarrow> bool" where
  "redacted m = (m_current_revision_state m = ''redacted'')"

definition fact_source_row :: "message_row list \<Rightarrow> fact \<Rightarrow> cerr + message_row option" where
  "fact_source_row rows f =
     (case f_message_id f of
        Some key \<Rightarrow> bindE (ok_or err_source_message (find (\<lambda>m. m_id m = key) rows)) (\<lambda>m. Inr (Some m))
      | None \<Rightarrow>
          (case f_run_id f of
             None \<Rightarrow> Inr None
           | Some run \<Rightarrow> Inr (max_by_key m_sequence (filter (saved_result run) rows))))"

definition or_else :: "'a option \<Rightarrow> 'a option \<Rightarrow> 'a option" where
  "or_else a b = (case a of None \<Rightarrow> b | Some x \<Rightarrow> Some x)"

definition with_source :: "message_row option \<Rightarrow> fact \<Rightarrow> cerr + fact" where
  "with_source source f =
     (case source of
        None \<Rightarrow> Inr f
      | Some row \<Rightarrow>
          if redacted row then Inl err_redacted_source else
          Inr (f\<lparr>f_message_id := Some (m_id row),
                 f_source_revision_id :=
                   or_else (f_source_revision_id f) (Some (m_current_revision_id row)),
                 f_branch_id := or_else (f_branch_id f) (Some (m_id row))\<rparr>))"

definition with_head :: "thread_row \<Rightarrow> message_row list \<Rightarrow> fact \<Rightarrow> fact" where
  "with_head th rows f =
     (let f1 = (if f_branch_id f = None
                then f\<lparr>f_branch_id := or_else (th_selected_head_id th) (th_last_message_id th)\<rparr>
                else f) in
      if f_message_id f1 = None \<and> f_run_id f1 = None then
        (case f_branch_id f1 of
           None \<Rightarrow> f1
         | Some branch \<Rightarrow>
             (case find (\<lambda>m. m_id m = branch) rows of
                None \<Rightarrow> f1
              | Some row \<Rightarrow>
                  if redacted row then f1 else
                  f1\<lparr>f_message_id := Some (m_id row),
                     f_source_revision_id := Some (m_current_revision_id row)\<rparr>))
      else f1)"

text \<open>The message of a revision, within the thread.\<close>

definition revision_message :: "store \<Rightarrow> string \<Rightarrow> string \<Rightarrow> string option" where
  "revision_message s thread revision =
     map_option rv_message_id (find (\<lambda>r. rv_id r = revision
        \<and> (\<exists>row\<in>set (messages s). m_id row = rv_message_id r \<and> m_thread_id row = thread))
        (message_revisions s))"

definition revision_belongs :: "store \<Rightarrow> string \<Rightarrow> string \<Rightarrow> string option \<Rightarrow> bool" where
  "revision_belongs s thread revision message =
     (\<exists>r\<in>set (message_revisions s). rv_id r = revision
        \<and> (\<exists>row\<in>set (messages s). m_id row = rv_message_id r \<and> m_thread_id row = thread)
        \<and> (message = None \<or> message = Some (rv_message_id r)))"

definition with_revision :: "store \<Rightarrow> fact \<Rightarrow> cerr + fact" where
  "with_revision s f =
     (if f_message_id f \<noteq> None then Inr f else
      case f_source_revision_id f of
        None \<Rightarrow> Inr f
      | Some revision \<Rightarrow>
          bindE (ok_or err_source_revision (revision_message s (f_conversation_id f) revision)) (\<lambda>m.
          Inr (f\<lparr>f_message_id := Some m\<rparr>)))"

definition check_source_ids :: "message_row list \<Rightarrow> fact \<Rightarrow> cerr + unit" where
  "check_source_ids rows f =
     bindE (mapE (\<lambda>key. bindE (check_id key) (\<lambda>_.
              if \<exists>m\<in>set rows. m_id m = key then Inr () else Inl err_source_foreign))
            (List.map_filter id [f_branch_id f, f_message_id f])) (\<lambda>_. Inr ())"

definition check_source_revision :: "store \<Rightarrow> fact \<Rightarrow> cerr + unit" where
  "check_source_revision s f =
     (case f_source_revision_id f of
        None \<Rightarrow> Inr ()
      | Some revision \<Rightarrow>
          bindE (check_id revision) (\<lambda>_.
          if revision_belongs s (f_conversation_id f) revision (f_message_id f) then Inr ()
          else Inl err_revision_foreign))"

definition hydrate_fact_source :: "bool \<Rightarrow> fact \<Rightarrow> store \<Rightarrow> cerr + fact" where
  "hydrate_fact_source capture_current_head f s =
     bindE (ok_or err_source_conversation (tget (threads s) (f_conversation_id f))) (\<lambda>th.
     bindE (message_list s (f_conversation_id f)) (\<lambda>rows.
     bindE (fact_source_row rows f) (\<lambda>source.
     bindE (with_source source f) (\<lambda>f1.
     let f2 = (if capture_current_head then with_head th rows f1 else f1) in
     bindE (with_revision s f2) (\<lambda>f3.
     bindE (check_source_ids rows f3) (\<lambda>_.
     bindE (check_source_revision s f3) (\<lambda>_. Inr f3)))))))"

section \<open>Context revisions\<close>

definition unsettled :: "ctx \<Rightarrow> string \<Rightarrow> work \<Rightarrow> work" where
  "unsettled ctx reason w =
     w\<lparr>w_generation := w_generation w + 1, w_status := AwaitingUser, w_reason := Some reason,
       w_updated_at := time ctx\<rparr>"

definition invalidate_project ::
  "ctx \<Rightarrow> string \<Rightarrow> string option \<Rightarrow> string \<Rightarrow> store \<Rightarrow> cerr + store" where
  "invalidate_project ctx project except reason s =
     bindE (all_work s) (\<lambda>all.
     foldE (\<lambda>w t. if w_project_id w = Some project \<and> active (w_status w) \<and> except \<noteq> Some (w_id w)
                  then put_work ctx (unsettled ctx reason w) t else Inr t) all s)"

definition invalidate_room :: "ctx \<Rightarrow> string \<Rightarrow> string \<Rightarrow> store \<Rightarrow> cerr + store" where
  "invalidate_room ctx room_id reason s =
     bindE (all_work s) (\<lambda>all.
     foldE (\<lambda>w t. if w_conversation_id w = room_id \<and> active (w_status w)
                  then invalidate_descendants ctx (w_id w) reason AwaitingUser t else Inr t) all s)"

definition bump_context :: "ctx \<Rightarrow> string \<Rightarrow> string option \<Rightarrow> store \<Rightarrow> cerr + store" where
  "bump_context ctx project except s =
     bindE (project_team s project) (\<lambda>tm.
     let tm' = tm\<lparr>tm_revision := tm_revision tm + 1\<rparr> in
     bindE (put_team ctx tm' s) (\<lambda>s1.
     bindE (invalidate_project ctx project except msg_facts_changed s1) (\<lambda>s2.
     case except of
       None \<Rightarrow> Inr s2
     | Some key \<Rightarrow>
         bindE (item s2 key) (\<lambda>it.
         put_work ctx (it\<lparr>w_context_revision := tm_revision tm'\<rparr>) s2))))"

section \<open>Facts\<close>

text \<open>The record a new fact replaces: an agent never supersedes what the user confirmed.\<close>

definition supersede :: "ctx \<Rightarrow> fact \<Rightarrow> string option \<Rightarrow> store \<Rightarrow> cerr + store" where
  "supersede ctx f sender s =
     (case f_supersedes_id f of
        None \<Rightarrow> Inr s
      | Some old_id \<Rightarrow>
          bindE (ok_or err_superseded_missing (tget (facts s) old_id)) (\<lambda>old.
          if f_project_id old \<noteq> f_project_id f \<or> f_status old = ''forgotten''
          then Inl err_supersede_forbidden else
          if sender \<noteq> None \<and> f_confidence old = ''confirmed'' then Inl err_supersede_confirmed else
          put_fact ctx (old\<lparr>f_status := ''superseded''\<rparr>) s))"

definition save_fact :: "ctx \<Rightarrow> fact \<Rightarrow> string option \<Rightarrow> store \<Rightarrow> cerr + store" where
  "save_fact ctx f0 sender s =
     bindE (check_id (f_id f0)) (\<lambda>_.
     bindE (project_team s (f_project_id f0)) (\<lambda>_.
     bindE (room s (f_conversation_id f0)) (\<lambda>r.
     if c_project_id r \<noteq> Some (f_project_id f0) then Inl err_fact_origin else
     bindE (hydrate_fact_source True f0 s) (\<lambda>f1.
     if f_kind f1 \<notin> {''fact'', ''decision''} then Inl err_fact_kind else
     bindE (bounded (f_text f1) 2000 ''Fact or decision'') (\<lambda>body.
     bindE (bounded (f_source f1) 1000 ''Provenance'') (\<lambda>src.
     let f = f1\<lparr>f_text := body, f_source := src\<rparr> in
     case tget (facts s) (f_id f) of
       Some existing \<Rightarrow>
         if f_text existing = f_text f \<and> f_project_id existing = f_project_id f
            \<and> f_confidence existing = f_confidence f
         then Inr s else Inl err_fact_id_taken
     | None \<Rightarrow>
         bindE (supersede ctx f sender s) (\<lambda>s1.
         bindE (put_fact ctx f s1) (\<lambda>s2.
         if sender = None \<or> f_supersedes_id f \<noteq> None
         then bump_context ctx (f_project_id f) sender s2 else Inr s2))))))))"

definition change_fact :: "ctx \<Rightarrow> string \<Rightarrow> string \<Rightarrow> string \<Rightarrow> store \<Rightarrow> cerr + store" where
  "change_fact ctx key project status s =
     bindE (project_team s project) (\<lambda>_.
     if status \<notin> {''stale'', ''forgotten''} then Inl err_fact_status else
     bindE (ok_or err_fact_unavailable (tget (facts s) key)) (\<lambda>f.
     if f_project_id f \<noteq> project then Inl err_fact_other_project else
     let f' = (if status = ''forgotten'' then f\<lparr>f_status := status, f_text := [], f_source := []\<rparr>
               else f\<lparr>f_status := status\<rparr>) in
     bindE (put_fact ctx f' s) (\<lambda>s1. bump_context ctx project None s1)))"

definition pin_fact :: "ctx \<Rightarrow> string \<Rightarrow> string \<Rightarrow> bool \<Rightarrow> store \<Rightarrow> cerr + store" where
  "pin_fact ctx key project pinned s =
     bindE (project_team s project) (\<lambda>_.
     bindE (ok_or err_fact_unavailable (tget (facts s) key)) (\<lambda>f.
     if f_project_id f \<noteq> project \<or> f_status f = ''forgotten'' then Inl err_fact_pin else
     put_fact ctx (f\<lparr>f_pinned := pinned\<rparr>) s))"

section \<open>Laws of change\<close>

lemma put_team_law: "put_team ctx tm s = Inr s' \<Longrightarrow> advances work_quiet quiet_new s s'"
  by (rule quiet.adv_same) (auto dest!: put_team_Inr simp: store_ok_def intro: tinv_tput keyed_by_tput)

lemma put_fact_law: "put_fact ctx f s = Inr s' \<Longrightarrow> advances work_quiet quiet_new s s'"
  by (rule quiet.adv_same) (auto dest!: put_fact_Inr simp: store_ok_def intro: tinv_tput keyed_by_tput)

lemma unsettled_quiet: "work_quiet w (unsettled ctx r w)"
  by (simp add: unsettled_def work_law_defs work_wf_def)

lemma invalidate_project_law:
  assumes "invalidate_project ctx p e r s = Inr s'"
  shows "advances work_quiet quiet_new s s'"
proof -
  from assms have "foldE (\<lambda>w. put_work ctx (unsettled ctx r w))
     (filter (\<lambda>w. w_project_id w = Some p \<and> active (w_status w) \<and> e \<noteq> Some (w_id w))
       (trows (works s))) s = Inr s'"
    by (simp add: invalidate_project_def result_simps foldE_filter)
  then show ?thesis by (rule quiet.adv_rewrite) (rule unsettled_quiet)
qed

lemma invalidate_room_law:
  "invalidate_room ctx k r s = Inr s' \<Longrightarrow> advances work_quiet quiet_new s s'"
  unfolding invalidate_room_def
  by (elim bindE_elim quiet.adv_foldE [rotated]) (auto intro: invalidate_law split: if_splits)

lemma bump_context_law:
  assumes "bump_context ctx p e s = Inr s'"
  shows "advances work_quiet quiet_new s s'"
  using assms unfolding bump_context_def Let_def
proof (elim bindE_elim, goal_cases)
  case (1 tm s1 s2)
  note a = quiet.adv_trans [OF put_team_law [OF 1(2)] invalidate_project_law [OF 1(3)]]
  show ?case
  proof (cases e)
    case None
    with 1 a show ?thesis by simp
  next
    case (Some key)
    with 1(4) have "bindE (item s2 key) (\<lambda>it. put_work ctx (it\<lparr>w_context_revision :=
        tm_revision (tm\<lparr>tm_revision := tm_revision tm + 1\<rparr>)\<rparr>) s2) = Inr s'" by simp
    then obtain it where it: "tget (works s2) key = Some it"
      and put: "put_work ctx (it\<lparr>w_context_revision := tm_revision (tm\<lparr>tm_revision := tm_revision tm + 1\<rparr>)\<rparr>) s2 = Inr s'"
      by (elim bindE_elim) simp
    have "advances work_quiet quiet_new s2 s'"
      by (rule quiet.put_adv [OF put it]) (simp add: work_law_defs work_wf_def)
    with a show ?thesis by (rule quiet.adv_trans)
  qed
qed

lemma supersede_law:
  assumes "supersede ctx f sender s = Inr s'"
  shows "advances work_quiet quiet_new s s'"
proof (cases "f_supersedes_id f")
  case None
  with assms show ?thesis by (simp add: supersede_def)
next
  case (Some old)
  with assms show ?thesis
    unfolding supersede_def by simp (elim result_elims, rule put_fact_law)
qed

lemma save_fact_law:
  assumes "save_fact ctx f0 sender s = Inr s'"
  shows "advances work_quiet quiet_new s s'"
  using assms unfolding save_fact_def Let_def
proof (elim result_elims, goal_cases)
  case (1 u tm r f1 body src)
  let ?f = "f1\<lparr>f_text := body, f_source := src\<rparr>"
  show ?case
  proof (cases "tget (facts s) (f_id ?f)")
    case None
    from 1(9) [unfolded None option.case]
    obtain s1 s2 where "supersede ctx ?f sender s = Inr s1" "put_fact ctx ?f s1 = Inr s2"
      "(if sender = None \<or> f_supersedes_id ?f \<noteq> None
        then bump_context ctx (f_project_id ?f) sender s2 else Inr s2) = Inr s'"
      by (elim bindE_elim)
    then show ?thesis
      using quiet.adv_trans [OF quiet.adv_trans [OF supersede_law put_fact_law] bump_context_law]
        quiet.adv_trans [OF supersede_law put_fact_law]
      by (auto split: if_splits)
  next
    case (Some e)
    with 1 show ?thesis by (simp split: if_splits)
  qed
qed

lemma change_fact_law:
  "change_fact ctx key p st s = Inr s' \<Longrightarrow> advances work_quiet quiet_new s s'"
  unfolding change_fact_def Let_def
  by (elim result_elims) (rule quiet.adv_trans [OF put_fact_law bump_context_law])

lemma pin_fact_law: "pin_fact ctx key p b s = Inr s' \<Longrightarrow> advances work_quiet quiet_new s s'"
  unfolding pin_fact_def by (elim result_elims) (rule put_fact_law)

end
