(* ===== verification/Work_Agent.thy ===== *)
theory Work_Agent
  imports Work_Exchange Work_Facts
begin

text \<open>
  Tool calls of a running assignment (\<open>work.rs\<close>, \<open>agent_command\<close>): goal reports, delegation, task
  messages, resource claims, shared facts and questions to the user. Every call is admitted once
  under its receipt; a repeated call is accepted only with the same instructions.
\<close>

section \<open>Delegation\<close>

text \<open>The walk up the parent chain. It is cut after as many steps as there are records: a chain
  without repetition is no longer than that.\<close>

fun no_circular_handoff :: "nat \<Rightarrow> store \<Rightarrow> string \<Rightarrow> work \<Rightarrow> cerr + unit" where
  "no_circular_handoff 0 s agent parent = Inl Diverges"
| "no_circular_handoff (Suc n) s agent parent =
     (if w_agent_id parent = agent then Inl err_circular_handoff else
      case w_parent_id parent of
        None \<Rightarrow> Inr ()
      | Some p \<Rightarrow> bindE (item s p) (no_circular_handoff n s agent))"

definition delegation_budget :: "work list \<Rightarrow> work \<Rightarrow> work \<Rightarrow> string \<Rightarrow> bool" where
  "delegation_budget all root it key =
     (\<not> limit_reached root
      \<and> length (filter (\<lambda>w. w_root_id w = w_root_id it) all) < 12
      \<and> length (filter (\<lambda>w. w_parent_id w = Some key) all) < 4)"

definition check_dependency :: "store \<Rightarrow> work \<Rightarrow> string \<Rightarrow> string \<Rightarrow> cerr + unit" where
  "check_dependency s it key dep =
     bindE (item s dep) (\<lambda>prior.
     if w_root_id prior \<noteq> w_root_id it \<or> w_id prior = w_id it
        \<or> w_parent_id prior \<noteq> w_parent_id it \<and> w_parent_id prior \<noteq> Some key
     then Inl err_dependency_not_peer else Inr ())"

definition delegated_id :: "ctx \<Rightarrow> string \<Rightarrow> string \<Rightarrow> string \<Rightarrow> string" where
  "delegated_id ctx run call agent = ''work-'' @ sha256 ctx (run @ '':'' @ call @ '':'' @ agent)"

definition delegate_admit ::
  "ctx \<Rightarrow> string \<Rightarrow> work \<Rightarrow> string \<Rightarrow> string \<Rightarrow> string \<Rightarrow> string list \<Rightarrow> store
   \<Rightarrow> cerr + (conversation \<times> string \<times> string)" where
  "delegate_admit ctx key it agent prompt0 title0 dependencies s =
     (if 2 \<le> w_depth it \<or> agent = w_agent_id it then Inl err_delegation_depth else
      bindE (room s (w_conversation_id it)) (\<lambda>r.
      bindE (all_work s) (\<lambda>all.
      bindE (item s (w_root_id it)) (\<lambda>root.
      if \<not> delegation_budget all root it key then Inl err_delegation_budget else
      bindE (no_circular_handoff (Suc (length (works s))) s agent it) (\<lambda>_.
      bindE (bounded prompt0 6000 ''Assignment'') (\<lambda>prompt.
      bindE (bounded title0 120 ''Assignment title'') (\<lambda>title.
      if \<exists>w\<in>set all. w_root_id w = w_root_id it \<and> w_agent_id w = agent \<and> w_prompt w = prompt
      then Inl err_already_dispatched else
      if 4 < length dependencies then Inl err_too_many_dependencies else
      bindE (mapE (check_dependency s it key) dependencies) (\<lambda>_.
      bindE (check_work ctx s root agent (w_permission_mode it)) (\<lambda>_.
      Inr (r, prompt, title))))))))))"

definition delegate_room ::
  "ctx \<Rightarrow> conversation \<Rightarrow> string \<Rightarrow> string \<Rightarrow> string \<Rightarrow> bool \<Rightarrow> store
   \<Rightarrow> cerr + (conversation \<times> store)" where
  "delegate_room ctx r child_id agent title focused s =
     (if focused \<and> c_project_id r \<noteq> None
      then create_room ctx (''thread-'' @ child_id) title ''group'' (c_participants r) (Some agent)
             (c_project_id r) s
      else Inr (r, s))"

definition delegated_work ::
  "work \<Rightarrow> captured_context option \<Rightarrow> string list \<Rightarrow> work \<Rightarrow> work" where
  "delegated_work it context dependencies child =
     (let c1 = child\<lparr>w_workspace_recipient := True, w_captured_context := context,
                     w_parent_id := Some (w_id it), w_root_id := w_root_id it,
                     w_depth := w_depth it + 1,
                     w_permission_mode :=
                       (if permission_rank (w_permission_mode it)
                             < permission_rank (w_permission_mode child)
                        then w_permission_mode it else w_permission_mode child),
                     w_dependencies := dependencies, w_prerequisites := dependencies,
                     w_max_tokens := w_max_tokens it, w_max_turns := w_max_turns it\<rparr>
      in if dependencies \<noteq> [] then c1\<lparr>w_status := Waiting, w_waiting_for := dependencies\<rparr> else c1)"

definition delegate ::
  "ctx \<Rightarrow> string \<Rightarrow> string \<Rightarrow> string \<Rightarrow> work \<Rightarrow> string \<Rightarrow> string \<Rightarrow> string \<Rightarrow> string list \<Rightarrow> bool
   \<Rightarrow> store \<Rightarrow> cerr + store" where
  "delegate ctx key run call it agent prompt0 title0 dependencies focused s =
     bindE (delegate_admit ctx key it agent prompt0 title0 dependencies s) (\<lambda>(r, prompt, title).
     let child_id = delegated_id ctx run call agent in
     bindE (delegate_room ctx r child_id agent title focused s) (\<lambda>(child_room, s1).
     bindE (new_work ctx child_id child_room agent prompt (w_user_request it) (w_origin it)
              (Some (attachments_for_child (w_attachments it))) True s1) (\<lambda>child0.
     bindE (in_project_team s1 child0) (\<lambda>inside.
     bindE (inherit_shared_context ctx (w_captured_context it) (w_captured_context child0) inside)
       (\<lambda>context.
     bindE (put_work ctx (delegated_work it context dependencies child0) s1) (\<lambda>s2.
     put_work ctx (it\<lparr>w_dependencies := w_dependencies it @ [child_id],
                     w_waiting_for := w_waiting_for it @ [child_id]\<rparr>) s2))))))"

section \<open>Tool calls\<close>

definition record_fact ::
  "ctx \<Rightarrow> string \<Rightarrow> string \<Rightarrow> string \<Rightarrow> work \<Rightarrow> string \<Rightarrow> string \<Rightarrow> string \<Rightarrow> string
   \<Rightarrow> string option \<Rightarrow> store \<Rightarrow> cerr + store" where
  "record_fact ctx key run receipt it body kind source confidence supersedes s =
     (if confidence \<notin> {''inference'', ''external-observation''} then Inl err_fact_confidence else
      bindE (ok_or err_fact_needs_project (w_project_id it)) (\<lambda>project.
      bindE (project_team s project) (\<lambda>tm.
      if w_agent_id it \<notin> set (tm_participant_ids tm) then Inl err_fact_team_only else
      save_fact ctx
        \<lparr>f_id = receipt, f_project_id = project, f_kind = kind, f_text = body,
         f_confidence = confidence, f_status = ''current'',
         f_conversation_id = w_conversation_id it, f_run_id = Some run, f_branch_id = None,
         f_message_id = None, f_source_revision_id = None, f_pinned = False, f_source = source,
         f_supersedes_id = supersedes, f_created_at = time ctx\<rparr>
        (Some key) s)))"

definition perform_command ::
  "ctx \<Rightarrow> string \<Rightarrow> string \<Rightarrow> string \<Rightarrow> string \<Rightarrow> work \<Rightarrow> agent_command \<Rightarrow> store \<Rightarrow> cerr + store" where
  "perform_command ctx key run call receipt it c s =
     (case c of
        GoalReport status body \<Rightarrow> goal_report_op ctx it run status body s
      | Delegate agent prompt title dependencies focused \<Rightarrow>
          delegate ctx key run call it agent prompt title dependencies focused s
      | Message assignment message question \<Rightarrow>
          task_message_op ctx it receipt assignment message question s
      | ClaimResource resource \<Rightarrow> claim_resource ctx it resource s
      | RecordFact body kind source confidence supersedes \<Rightarrow>
          record_fact ctx key run receipt it body kind source confidence supersedes s
      | AwaitUser reason \<Rightarrow>
          bindE (bounded reason 2000 ''Question or blocker'') (\<lambda>r.
          put_work ctx (it\<lparr>w_awaiting_user := True, w_reason := Some r\<rparr>) s))"

definition call_receipt :: "ctx \<Rightarrow> string \<Rightarrow> string \<Rightarrow> string" where
  "call_receipt ctx run call = ''call-'' @ sha256 ctx (run @ '':'' @ call)"

definition agent_command_op ::
  "ctx \<Rightarrow> string \<Rightarrow> u32 \<Rightarrow> string \<Rightarrow> string \<Rightarrow> agent_command \<Rightarrow> store \<Rightarrow> cerr + store" where
  "agent_command_op ctx key generation run call c s =
     bindE (item s key) (\<lambda>it0.
     if w_execution_owner it0 = Some ''hosted'' then Inl err_cloud_has_no_tools else
     bindE (bounded call 256 ''Tool call ID'') (\<lambda>_.
     let receipt = call_receipt ctx run call in
     case tget (receipts s) receipt of
       Some (_, old) \<Rightarrow>
         if old = c then bindE (current ctx key generation (Some run) s) (\<lambda>_. Inr s)
         else Inl err_call_id_reused
     | None \<Rightarrow>
         bindE (current ctx key generation (Some run) s) (\<lambda>it.
         if \<not> executing (w_status it) then Inl err_not_executing else
         bindE (perform_command ctx key run call receipt it c s) (\<lambda>s1.
         put_receipt ctx receipt (w_conversation_id it) (w_project_id it) c s1))))"

section \<open>Laws of change\<close>

lemma word_succ_le_2: "\<not> 2 \<le> (d :: u32) \<Longrightarrow> d + 1 \<le> 2"
  by (simp add: not_le inc_le)

lemma delegated_quiet_new:
  assumes "\<not> 2 \<le> w_depth it"
  shows "quiet_new (delegated_work it c deps (initial_work ctx key r agent pr rq og at rc pm p rv ca bi al))"
  using word_succ_le_2 [OF assms]
  by (simp add: delegated_work_def initial_work_def Let_def work_law_defs work_wf_def)

lemma delegated_fields:
  "w_id (delegated_work it c deps w) = w_id w" "w_agent_id (delegated_work it c deps w) = w_agent_id w"
  "w_parent_id (delegated_work it c deps w) = Some (w_id it)"
  "w_root_id (delegated_work it c deps w) = w_root_id it"
  "w_depth (delegated_work it c deps w) = w_depth it + 1"
  "permission_rank (w_permission_mode (delegated_work it c deps w)) \<le> permission_rank (w_permission_mode it)"
  "permission_rank (w_permission_mode (delegated_work it c deps w)) \<le> permission_rank (w_permission_mode w)"
  by (simp_all add: delegated_work_def Let_def)

lemma delegate_admit_elim:
  assumes "delegate_admit ctx key it agent pr ti deps s = Inr (r, prompt, title)"
  obtains root ds where "\<not> 2 \<le> w_depth it" "agent \<noteq> w_agent_id it"
    "tget (conversations s) (w_conversation_id it) = Some r"
    "tget (works s) (w_root_id it) = Some root" "delegation_budget (trows (works s)) root it key"
    "no_circular_handoff (Suc (length (works s))) s agent it = Inr ()"
    "length deps \<le> 4" "mapE (check_dependency s it key) deps = Inr ds"
    "check_work ctx s root agent (w_permission_mode it) = Inr ()"
  using assms unfolding delegate_admit_def room_def
proof (elim result_elims, goal_cases)
  case (1 r' all root u pr' ti' ds v)
  then show ?case by (intro 1(1) [of root ds]) simp_all
qed

lemma delegate_room_law:
  assumes "delegate_room ctx r cid agent ti f s = Inr (r', s')"
  shows "advances work_quiet quiet_new s s'" and "works s' = works s"
proof -
  have "advances work_quiet quiet_new s s' \<and> works s' = works s"
  proof (cases "f \<and> c_project_id r \<noteq> None")
    case True
    with assms have *: "create_room ctx (''thread-'' @ cid) ti ''group'' (c_participants r) (Some agent)
        (c_project_id r) s = Inr (r', s')" by (simp add: delegate_room_def)
    then have "works s' = works s"
      by (rule create_room_elim)
        (auto simp: thread_create_def Let_def dest!: put_conversation_Inr elim!: result_elims)
    with create_room_law [OF *] show ?thesis by simp
  next
    case False
    with assms show ?thesis by (auto simp: delegate_room_def)
  qed
  then show "advances work_quiet quiet_new s s'" "works s' = works s" by auto
qed

text \<open>A successful delegation, read backwards: the child it files and the delegator it updates.\<close>

lemma delegate_elim:
  assumes "delegate ctx key run call it agent pr ti deps f s = Inr s'"
  obtains r prompt title r' s1 child0 c s2 where
    "delegate_admit ctx key it agent pr ti deps s = Inr (r, prompt, title)"
    "advances work_quiet quiet_new s s1" "works s1 = works s"
    "new_work ctx (delegated_id ctx run call agent) r' agent prompt (w_user_request it) (w_origin it)
       (Some (attachments_for_child (w_attachments it))) True s1 = Inr child0"
    "put_work ctx (delegated_work it c deps child0) s1 = Inr s2"
    "put_work ctx (it\<lparr>w_dependencies := w_dependencies it @ [delegated_id ctx run call agent],
        w_waiting_for := w_waiting_for it @ [delegated_id ctx run call agent]\<rparr>) s2 = Inr s'"
proof -
  from assms [unfolded delegate_def Let_def] obtain p where
    p: "delegate_admit ctx key it agent pr ti deps s = Inr p" and
    body: "(case p of (r, prompt, title) \<Rightarrow>
     bindE (delegate_room ctx r (delegated_id ctx run call agent) agent title f s) (\<lambda>(child_room, s1).
     bindE (new_work ctx (delegated_id ctx run call agent) child_room agent prompt (w_user_request it)
         (w_origin it) (Some (attachments_for_child (w_attachments it))) True s1) (\<lambda>child0.
     bindE (in_project_team s1 child0) (\<lambda>inside.
     bindE (inherit_shared_context ctx (w_captured_context it) (w_captured_context child0) inside)
       (\<lambda>context.
     bindE (put_work ctx (delegated_work it context deps child0) s1) (\<lambda>s2.
     put_work ctx (it\<lparr>w_dependencies := w_dependencies it @ [delegated_id ctx run call agent],
          w_waiting_for := w_waiting_for it @ [delegated_id ctx run call agent]\<rparr>) s2)))))) = Inr s'"
    by (elim bindE_elim)
  obtain r prompt title where pp: "p = (r, prompt, title)" by (cases p)
  from body [unfolded pp case_prod_conv] obtain q where
    q: "delegate_room ctx r (delegated_id ctx run call agent) agent title f s = Inr q" and
    body2: "(case q of (child_room, s1) \<Rightarrow>
     bindE (new_work ctx (delegated_id ctx run call agent) child_room agent prompt (w_user_request it)
         (w_origin it) (Some (attachments_for_child (w_attachments it))) True s1) (\<lambda>child0.
     bindE (in_project_team s1 child0) (\<lambda>inside.
     bindE (inherit_shared_context ctx (w_captured_context it) (w_captured_context child0) inside)
       (\<lambda>context.
     bindE (put_work ctx (delegated_work it context deps child0) s1) (\<lambda>s2.
     put_work ctx (it\<lparr>w_dependencies := w_dependencies it @ [delegated_id ctx run call agent],
          w_waiting_for := w_waiting_for it @ [delegated_id ctx run call agent]\<rparr>) s2))))) = Inr s'"
    by (elim bindE_elim)
  obtain r' s1 where qq: "q = (r', s1)" by (cases q)
  from body2 [unfolded qq case_prod_conv] show thesis
  proof (elim bindE_elim, goal_cases)
    case (1 child0 inside c s2)
    from that [OF p [unfolded pp] delegate_room_law [OF q [unfolded qq]] 1(1) 1(4) 1(5)] show thesis .
  qed
qed

lemma delegate_law:
  assumes "delegate ctx key run call it agent pr ti deps f s = Inr s'"
    and "tget (works s) key = Some it" and "tget (works s) (delegated_id ctx run call agent) = None"
  shows "advances work_quiet quiet_new s s'"
  using assms(1)
proof (rule delegate_elim)
  fix r prompt title r' s1 child0 c s2
  assume admit: "delegate_admit ctx key it agent pr ti deps s = Inr (r, prompt, title)"
    and a1: "advances work_quiet quiet_new s s1" and w1: "works s1 = works s"
    and new: "new_work ctx (delegated_id ctx run call agent) r' agent prompt (w_user_request it) (w_origin it)
       (Some (attachments_for_child (w_attachments it))) True s1 = Inr child0"
    and p2: "put_work ctx (delegated_work it c deps child0) s1 = Inr s2"
    and p3: "put_work ctx (it\<lparr>w_dependencies := w_dependencies it @ [delegated_id ctx run call agent],
        w_waiting_for := w_waiting_for it @ [delegated_id ctx run call agent]\<rparr>) s2 = Inr s'"
  have depth: "\<not> 2 \<le> w_depth it" using admit by (rule delegate_admit_elim)
  have child: "w_id (delegated_work it c deps child0) = delegated_id ctx run call agent
      \<and> quiet_new (delegated_work it c deps child0)"
    using new [unfolded new_work_def]
    by (rule new_work_elim) (simp add: delegated_quiet_new [OF depth] delegated_fields initial_work_fields)
  have a2: "advances work_quiet quiet_new s1 s2"
    by (rule quiet.adv_new [OF _ _ p2]) (use child w1 assms(3) in simp_all)
  have "tget (works s2) key = Some it"
    using put_work_get [OF p2, of key] child w1 assms(2,3) by auto
  then have "advances work_quiet quiet_new s2 s'"
    by (rule quiet.put_adv [OF p3]) (simp add: work_law_defs work_wf_def)
  with a1 a2 show ?thesis by (blast intro: quiet.adv_trans)
qed

lemma record_fact_law:
  "record_fact ctx key run rc it b k so co su s = Inr s' \<Longrightarrow> advances work_quiet quiet_new s s'"
  unfolding record_fact_def by (elim result_elims) (rule save_fact_law)

text \<open>A delegation files its child under a new id; the other tool calls need no such proviso.\<close>

definition fresh_call :: "ctx \<Rightarrow> string \<Rightarrow> string \<Rightarrow> agent_command \<Rightarrow> store \<Rightarrow> bool" where
  "fresh_call ctx run call c s =
     (case c of Delegate agent _ _ _ _ \<Rightarrow> tget (works s) (delegated_id ctx run call agent) = None
      | _ \<Rightarrow> True)"

lemma perform_command_law:
  assumes "perform_command ctx key run call rc it c s = Inr s'" and "tget (works s) key = Some it"
    and "fresh_call ctx run call c s"
  shows "advances work_quiet quiet_new s s'"
proof (cases c)
  case (GoalReport st b)
  with assms show ?thesis by (auto simp: perform_command_def intro: goal_report_law)
next
  case (Delegate agent pr ti deps f)
  with assms show ?thesis by (auto simp: perform_command_def fresh_call_def intro: delegate_law)
next
  case (Message a m q)
  with assms show ?thesis by (auto simp: perform_command_def intro: task_message_law)
next
  case (ClaimResource r)
  with assms show ?thesis by (auto simp: perform_command_def intro: claim_resource_law)
next
  case (RecordFact b k so co su)
  with assms show ?thesis by (auto simp: perform_command_def intro: record_fact_law)
next
  case (AwaitUser reason)
  with assms(1) have "bindE (bounded reason 2000 ''Question or blocker'') (\<lambda>r.
          put_work ctx (it\<lparr>w_awaiting_user := True, w_reason := Some r\<rparr>) s) = Inr s'"
    by (simp add: perform_command_def)
  then obtain r where "put_work ctx (it\<lparr>w_awaiting_user := True, w_reason := Some r\<rparr>) s = Inr s'"
    by (elim bindE_elim)
  then show ?thesis
    by (rule quiet.put_adv [OF _ assms(2)]) (simp add: work_law_defs work_wf_def)
qed

lemma agent_command_cases:
  assumes "agent_command_op ctx key g run call c s = Inr s'"
  obtains conv where "tget (receipts s) (call_receipt ctx run call) = Some (conv, c)" "s' = s"
      "is_ok (current ctx key g (Some run) s)"
  | it s1 where "tget (receipts s) (call_receipt ctx run call) = None"
      "current ctx key g (Some run) s = Inr it" "executing (w_status it)"
      "perform_command ctx key run call (call_receipt ctx run call) it c s = Inr s1"
      "put_receipt ctx (call_receipt ctx run call) (w_conversation_id it) (w_project_id it) c s1 = Inr s'"
  using assms unfolding agent_command_op_def Let_def
proof (elim result_elims, goal_cases)
  case (1 it0 u)
  note run_it = 1(2)
  show ?case
  proof (cases "tget (receipts s) (call_receipt ctx run call)")
    case None
    from 1(6) [unfolded None option.case] show ?thesis
    proof (elim result_elims, goal_cases)
      case (1 it s1)
      then show ?thesis by (intro run_it [of it s1]) (simp_all add: None)
    qed
  next
    case (Some p)
    obtain conv old where p: "p = (conv, old)" by (cases p)
    from 1(6) Some p have "old = c" "bindE (current ctx key g (Some run) s) (\<lambda>_. Inr s) = Inr s'"
      by (simp_all split: if_splits)
    then show ?thesis using 1(1) [of conv] Some p by (auto simp: is_ok_iff elim!: bindE_elim)
  qed
qed

lemma agent_command_law:
  assumes "agent_command_op ctx key g run call c s = Inr s'" and "fresh_call ctx run call c s"
  shows "advances work_quiet quiet_new s s'"
  using assms(1)
proof (cases rule: agent_command_cases)
  case (2 it s1)
  from perform_command_law [OF 2(4) current_item(1) [OF 2(2)] assms(2)] put_receipt_law [OF 2(5)]
  show ?thesis by (rule quiet.adv_trans)
qed simp

section \<open>What a delegation grants\<close>

lemma no_circular_ancestors:
  assumes "no_circular_handoff n s agent it = Inr ()" and "tget (works s) key = Some it"
    and "(a, key) \<in> (child_of s)\<^sup>*" and "tget (works s) a = Some w"
  shows "w_agent_id w \<noteq> agent"
  using assms(1,2,3)
proof (induction n arbitrary: it key)
  case (Suc n)
  from Suc.prems(1) have ag: "w_agent_id it \<noteq> agent" by (simp split: if_splits)
  from Suc.prems(3) show ?case
  proof (cases rule: rtranclE)
    case base
    with ag Suc.prems(2) assms(4) show ?thesis by simp
  next
    case (step p)
    then have p: "w_parent_id it = Some p" using Suc.prems(2) by (auto simp: child_of_def)
    with Suc.prems(1) ag have "bindE (item s p) (no_circular_handoff n s agent) = Inr ()" by simp
    then obtain parent where "tget (works s) p = Some parent"
        "no_circular_handoff n s agent parent = Inr ()"
      by (elim bindE_elim) simp
    with Suc.IH step show ?thesis by metis
  qed
qed simp



text \<open>A delegation can close a waiting cycle: the search that protects questions is not made
  for the dependencies of a delegation. If a dependency of the new child already waits for the
  delegator, then after the delegation the delegator waits for the child, the child for the
  dependency and the dependency for the delegator.\<close>

theorem delegation_can_tangle:
  assumes "store_ok s" and "tget (works s) key = Some it"
    and "tget (works s) (delegated_id ctx run call agent) = None"
    and "delegate ctx key run call it agent prompt title deps focused s = Inr s'"
    and "tget (works s) y = Some w" and "key \<in> set (w_waiting_for w)" and "y \<in> set deps" and "y \<noteq> key"
  shows "(key, key) \<in> (waits_on s')\<^sup>+"
  using assms(4)
proof (rule delegate_elim)
  fix r pr ti r' s1 child0 c s2
  assume w1: "works s1 = works s" and
    new: "new_work ctx (delegated_id ctx run call agent) r' agent pr (w_user_request it) (w_origin it)
       (Some (attachments_for_child (w_attachments it))) True s1 = Inr child0"
    and p2: "put_work ctx (delegated_work it c deps child0) s1 = Inr s2"
    and p3: "put_work ctx (it\<lparr>w_dependencies := w_dependencies it @ [delegated_id ctx run call agent],
        w_waiting_for := w_waiting_for it @ [delegated_id ctx run call agent]\<rparr>) s2 = Inr s'"
  let ?child = "delegated_work it c deps child0" and ?id = "delegated_id ctx run call agent"
  from new [unfolded new_work_def] have id0: "w_id child0 = ?id"
    by (rule new_work_elim) (simp add: initial_work_fields)
  have id: "w_id it = key" by (rule work_id [OF assms(1,2)])
  have ne: "key \<noteq> ?id" "y \<noteq> ?id" using assms(2,3,5) by auto
  have get: "tget (works s') k = (if k = key then Some (it\<lparr>w_dependencies := w_dependencies it @ [?id],
        w_waiting_for := w_waiting_for it @ [?id]\<rparr>) else if k = ?id then Some ?child
        else tget (works s) k)" for k
    using put_work_get [OF p3, of k] put_work_get [OF p2, of k] id id0 w1 by (simp add: delegated_fields)
  have "deps \<noteq> []" using assms(7) by auto
  then have wc: "w_waiting_for ?child = deps" by (simp add: delegated_work_def Let_def)
  have "(key, ?id) \<in> waits_on s'" by (simp add: waits_on_def waits_of_get get)
  moreover have "(?id, y) \<in> waits_on s'" using wc assms(7) ne by (simp add: waits_on_def waits_of_get get)
  moreover have "(y, key) \<in> waits_on s'" using ne assms(5,6,8) by (simp add: waits_on_def waits_of_get get)
  ultimately show ?thesis by (meson trancl.simps)
qed

section \<open>Witnesses\<close>

text \<open>An effort of three: a waiting lead, its running worker \<open>x\<close>, and the worker \<open>y\<close> that asked
  \<open>x\<close> a question and waits for it.\<close>

definition sample_lead :: work where
  "sample_lead = sample_work\<lparr>w_id := ''lead'', w_root_id := ''lead'', w_agent_id := ''eve'',
     w_status := Waiting, w_run_ids := [''run-0''], w_waiting_for := [''x'', ''y''],
     w_dependencies := [''x'', ''y'']\<rparr>"

definition sample_x :: work where
  "sample_x = sample_work\<lparr>w_id := ''x'', w_root_id := ''lead'', w_parent_id := Some ''lead'',
     w_depth := 1, w_status := Running, w_run_ids := [''run-1''], w_current_run_id := Some ''run-1''\<rparr>"

definition sample_y :: work where
  "sample_y = sample_work\<lparr>w_id := ''y'', w_root_id := ''lead'', w_parent_id := Some ''lead'',
     w_depth := 1, w_agent_id := ''cyd'', w_status := Waiting, w_run_ids := [''run-2''],
     w_waiting_for := [''x'']\<rparr>"

definition sample_effort :: store where
  "sample_effort = sample_store [sample_lead, sample_x, sample_y]"

definition sample_delegate :: "cerr + store" where
  "sample_delegate = delegate sample_ctx ''x'' ''run-1'' ''c1'' sample_x ''bob'' ''help'' ''Help'' [''y'']
     False sample_effort"

lemma sample_effort_facts:
  "store_ok sample_effort" "tget (works sample_effort) ''x'' = Some sample_x"
  "tget (works sample_effort) ''y'' = Some sample_y"
  "tget (works sample_effort) (delegated_id sample_ctx ''run-1'' ''c1'' ''bob'') = None"
  by code_simp+

lemma sample_delegate_ok: "\<exists>s'. sample_delegate = Inr s'"
proof -
  have "is_ok sample_delegate" by code_simp
  then show ?thesis by (simp add: is_ok_iff)
qed

theorem delegation_can_tangle_witness:
  "\<exists>s'. sample_delegate = Inr s' \<and> (''x'', ''x'') \<in> (waits_on s')\<^sup>+"
proof -
  obtain s' where s': "sample_delegate = Inr s'" using sample_delegate_ok by blast
  have "(''x'', ''x'') \<in> (waits_on s')\<^sup>+"
    by (rule delegation_can_tangle [OF sample_effort_facts(1,2,4) s' [unfolded sample_delegate_def]
          sample_effort_facts(3)]) (simp_all add: sample_y_def)
  with s' show ?thesis by blast
qed


definition sample_call :: "agent_command \<Rightarrow> store \<Rightarrow> cerr + store" where
  "sample_call c s = agent_command_op sample_ctx ''x'' 1 ''run-1'' ''c1'' c s"


end
