(* ===== verification/Work_Chats.thy ===== *)
theory Work_Chats
  imports Work_Facts
begin

text \<open>
  Conversations (\<open>collaboration/chats.rs\<close>, and the conversation and team commands of
  \<open>commands.rs\<close>): side chats are renamed, archived and deleted, the main chat of an agent is
  permanent, participants change with the generation of the room, a conversation moves into a
  project and a team changes with its revision.
\<close>

section \<open>Side and main chats\<close>

definition side_room :: "string \<Rightarrow> u32 \<Rightarrow> store \<Rightarrow> cerr + conversation" where
  "side_room key expected s =
     bindE (check_id key) (\<lambda>_.
     bindE (room s key) (\<lambda>r.
     if c_revision r \<noteq> expected then Inl err_conversation_changed else
     if (case c_chat r of None \<Rightarrow> False | Some chat \<Rightarrow> cb_role chat = ''main'')
     then Inl err_main_chat_permanent else Inr r))"

definition chat_rename :: "ctx \<Rightarrow> string \<Rightarrow> u32 \<Rightarrow> string \<Rightarrow> store \<Rightarrow> cerr + store" where
  "chat_rename ctx key expected title0 s =
     bindE (side_room key expected s) (\<lambda>r.
     bindE (bounded title0 120 ''Conversation title'') (\<lambda>title.
     bindE (thread_update (c_id r) (Some title) None (time ctx) s) (\<lambda>s1.
     put_conversation ctx (r\<lparr>c_title := title, c_revision := c_revision r + 1,
                             c_updated_at := time ctx\<rparr>) s1)))"

definition chat_set_archived :: "ctx \<Rightarrow> string \<Rightarrow> u32 \<Rightarrow> bool \<Rightarrow> store \<Rightarrow> cerr + store" where
  "chat_set_archived ctx key expected archived s =
     bindE (side_room key expected s) (\<lambda>r.
     bindE (if archived then
              bindE (all_work s) (\<lambda>all.
              if \<exists>w\<in>set all. w_conversation_id w = c_id r \<and> active (w_status w)
              then Inl err_stop_before_archive else Inr ())
            else Inr ()) (\<lambda>_.
     bindE (thread_update (c_id r) None (Some (if archived then ''archived'' else ''active''))
              (time ctx) s) (\<lambda>s1.
     put_conversation ctx (r\<lparr>c_archived := archived, c_revision := c_revision r + 1,
                             c_updated_at := time ctx\<rparr>) s1)))"

definition chat_delete :: "ctx \<Rightarrow> string \<Rightarrow> u32 \<Rightarrow> store \<Rightarrow> cerr + store" where
  "chat_delete ctx key expected s =
     bindE (side_room key expected s) (\<lambda>r.
     bindE (all_work s) (\<lambda>all.
     if \<exists>w\<in>set all. w_conversation_id w = c_id r then Inl err_has_saved_requests else
     bindE (list_rows (facts s)) (\<lambda>fs.
     if \<exists>f\<in>set fs. f_conversation_id f = c_id r \<and> f_status f \<noteq> ''forgotten''
     then Inl err_has_saved_records else
     thread_delete (c_id r)
       (s\<lparr>conversations := tdel (\<lambda>k _. k = c_id r) (conversations s),
          authors := tdel (\<lambda>_ a. au_conversation_id a = c_id r) (authors s)\<rparr>))))"

definition main_chat_id :: "ctx \<Rightarrow> string \<Rightarrow> string" where
  "main_chat_id ctx agent =
     ''main-'' @ sha256 ctx (''main-chat:v1:'' @ owner_subject ctx @ '':'' @ agent)"

definition main_binding :: "string \<Rightarrow> chat_binding" where
  "main_binding agent = \<lparr>cb_role = ''main'', cb_owner_kind = ''agent'', cb_owner_id = agent\<rparr>"

definition open_main :: "ctx \<Rightarrow> string \<Rightarrow> store \<Rightarrow> cerr + (conversation \<times> store)" where
  "open_main ctx agent_id s =
     bindE (find_profile (profiles ctx) agent_id) (\<lambda>agent.
     let key = main_chat_id ctx agent_id in
     case tget (conversations s) key of
       Some r \<Rightarrow> if c_chat r \<noteq> Some (main_binding agent_id) then Inl err_main_chat_conflict
                 else Inr (r, s)
     | None \<Rightarrow>
         bindE (create_room ctx key (''Chat with '' @ p_name agent) ''direct''
                  [\<lparr>pt_agent_id = agent_id, pt_name = p_name agent\<rparr>] (Some agent_id) None s)
           (\<lambda>(r0, s1).
         let r = r0\<lparr>c_chat := Some (main_binding agent_id)\<rparr> in
         bindE (put_conversation ctx r s1) (\<lambda>s2. Inr (r, s2))))"

section \<open>Participants\<close>

definition update_conversation ::
  "ctx \<Rightarrow> string \<Rightarrow> u32 \<Rightarrow> string \<Rightarrow> string list \<Rightarrow> string option \<Rightarrow> bool \<Rightarrow> store
   \<Rightarrow> cerr + store" where
  "update_conversation ctx key expected title0 ids lead share_history s =
     bindE (room s key) (\<lambda>r.
     if c_revision r \<noteq> expected then Inl err_conversation_changed else
     if (\<exists>i\<in>set ids. i \<notin> pt_agent_id ` set (c_participants r)) \<and> \<not> share_history
     then Inl err_confirm_sharing_history else
     bindE (participants (profiles ctx) ids lead) (\<lambda>members.
     if c_kind r = ''direct'' \<and> length members \<noteq> 1 then Inl err_needs_project_for_more else
     bindE (case c_project_id r of
              None \<Rightarrow> Inr ()
            | Some project \<Rightarrow> bindE (project_team s project) (\<lambda>tm.
                if \<exists>i\<in>set ids. i \<notin> set (tm_participant_ids tm) then Inl err_add_to_project_first
                else Inr ())) (\<lambda>_.
     bindE (bounded title0 120 ''Conversation title'') (\<lambda>title.
     let changed = (c_participants r \<noteq> members \<or> c_facilitator_id r \<noteq> lead) in
     bindE (if changed then invalidate_room ctx key msg_participants_changed s else Inr s) (\<lambda>s1.
     let r' = r\<lparr>c_title := title,
                c_generation := (if changed then c_generation r + 1 else c_generation r),
                c_participants := members, c_facilitator_id := lead,
                c_revision := c_revision r + 1, c_updated_at := time ctx\<rparr> in
     bindE (thread_update key (Some title) None (time ctx) s1) (\<lambda>s2.
     put_conversation ctx r' s2))))))"

section \<open>Projects\<close>

text \<open>
  \<open>local_projects::backfill_thread_authors\<close>: every run of the thread without an author gets one,
  from the legacy attribution, the only agent on the route, or the only agent there is.
\<close>

definition run_before :: "string \<times> attempt_row \<Rightarrow> string \<times> string" where
  "run_before r = (ar_created_at (snd r), fst r)"

definition attributed_author ::
  "agent_profile list \<Rightarrow> run_author_row option \<Rightarrow> attempt_row \<Rightarrow> string \<times> string" where
  "attributed_author ps saved attempt =
     (case saved of
        Some row \<Rightarrow>
          (case find (\<lambda>p. p_id p = ra_agent_id row) ps of
             Some p \<Rightarrow> (p_id p, p_name p)
           | None \<Rightarrow>
               (let name = (case ra_payload row of JObj ob \<Rightarrow>
                              (case tget ob ''agentName'' of Some (JStr n) \<Rightarrow> n | _ \<Rightarrow> []) | _ \<Rightarrow> [])
                in (ra_agent_id row, if name = [] then ''Historical teammate'' else name)))
      | None \<Rightarrow>
          (let route = ar_provider_id attempt @ ''::'' @ ar_model attempt;
               matches = filter (\<lambda>p. p_model_id p = route \<or> p_model_id p = ar_model attempt) ps
           in if length matches = 1 then (p_id (hd matches), p_name (hd matches))
              else if length ps = 1 then (p_id (hd ps), p_name (hd ps))
              else (''historical'', ''Historical teammate (attribution unavailable)'')))"

definition backfill_thread_authors ::
  "ctx \<Rightarrow> string \<Rightarrow> string \<Rightarrow> store \<Rightarrow> cerr + store" where
  "backfill_thread_authors ctx project room_id s =
     foldE (\<lambda>(run, attempt) t.
       if tget (authors t) run \<noteq> None then Inr t else
       let (agent, name) = attributed_author (profiles ctx) (tget (run_authors t) run) attempt in
       put_author ctx run (Some project)
         \<lparr>au_run_id = run, au_conversation_id = room_id, au_agent_id = agent, au_name = name,
          au_work_id = None, au_generation = 0\<rparr> t)
       (sort_key run_before (filter (\<lambda>(_, a). ar_thread_id a = Some room_id) (attempts s))) s"

definition place_conversation ::
  "ctx \<Rightarrow> string \<Rightarrow> u32 \<Rightarrow> string \<Rightarrow> bool \<Rightarrow> store \<Rightarrow> cerr + store" where
  "place_conversation ctx key expected project share_history s =
     bindE (room s key) (\<lambda>r.
     if \<not> share_history then Inl err_confirm_sharing_room else
     if c_revision r \<noteq> expected \<or> c_project_id r \<noteq> None then Inl err_placed_already else
     bindE (project_team s project) (\<lambda>tm.
     bindE (participants (profiles ctx) (tm_participant_ids tm) (tm_lead_agent_id tm)) (\<lambda>members.
     bindE (invalidate_room ctx key msg_room_shared s) (\<lambda>s1.
     bindE (put_conversation ctx
              (r\<lparr>c_project_id := Some project, c_kind := ''group'', c_participants := members,
                 c_facilitator_id := tm_lead_agent_id tm, c_revision := c_revision r + 1,
                 c_generation := c_generation r + 1, c_updated_at := time ctx\<rparr>) s1) (\<lambda>s2.
     backfill_thread_authors ctx project key s2)))))"

definition project_room ::
  "ctx \<Rightarrow> project_row \<Rightarrow> participant list \<Rightarrow> string option \<Rightarrow> string list \<Rightarrow> conversation
   \<Rightarrow> conversation" where
  "project_room ctx project members lead ids r =
     (let r1 =
        (if c_id r = pj_thread_id project
         then r\<lparr>c_participants := members, c_facilitator_id := lead\<rparr>
         else
           (let kept = filter (\<lambda>p. pt_agent_id p \<in> set ids) (c_participants r) in
            r\<lparr>c_participants := kept,
              c_facilitator_id :=
                (if \<exists>p\<in>set kept. Some (pt_agent_id p) = c_facilitator_id r then c_facilitator_id r
                 else (case kept of [] \<Rightarrow> None | p # _ \<Rightarrow> Some (pt_agent_id p)))\<rparr>))
      in r1\<lparr>c_revision := c_revision r1 + 1, c_generation := c_generation r1 + 1,
            c_updated_at := time ctx\<rparr>)"

definition update_team ::
  "ctx \<Rightarrow> string \<Rightarrow> u32 \<Rightarrow> string option \<Rightarrow> string list \<Rightarrow> bool \<Rightarrow> store \<Rightarrow> cerr + store" where
  "update_team ctx project expected lead ids share_history s =
     bindE (project_team s project) (\<lambda>tm.
     if tm_revision tm \<noteq> expected then Inl err_team_changed else
     if (\<exists>i\<in>set ids. i \<notin> set (tm_participant_ids tm)) \<and> \<not> share_history
     then Inl err_confirm_sharing_project else
     bindE (participants (profiles ctx) ids lead) (\<lambda>members.
     bindE (invalidate_project ctx project None msg_team_changed s) (\<lambda>s1.
     bindE (put_team ctx (tm\<lparr>tm_revision := tm_revision tm + 1, tm_participant_ids := ids,
                             tm_lead_agent_id := lead\<rparr>) s1) (\<lambda>s2.
     bindE (ok_or err_project_missing (tget (projects s2) project)) (\<lambda>row.
     bindE (list_rows (conversations s2)) (\<lambda>rooms.
     foldE (\<lambda>r t. if c_project_id r \<noteq> Some project then Inr t
                  else put_conversation ctx (project_room ctx row members lead ids r) t) rooms s2))))))"

section \<open>Laws of change\<close>

lemma chat_rename_law: "chat_rename ctx key e t s = Inr s' \<Longrightarrow> advances work_quiet quiet_new s s'"
  unfolding chat_rename_def
  by (elim bindE_elim) (rule quiet.adv_trans [OF thread_update_law put_conversation_law])

lemma chat_set_archived_law:
  "chat_set_archived ctx key e a s = Inr s' \<Longrightarrow> advances work_quiet quiet_new s s'"
  unfolding chat_set_archived_def
  by (elim bindE_elim) (rule quiet.adv_trans [OF thread_update_law put_conversation_law])

lemma tdel_none: "(\<And>k v. (k, v) \<in> set t \<Longrightarrow> \<not> p k v) \<Longrightarrow> tdel p t = t"
  unfolding tdel_def by (auto intro!: filter_True)

lemma side_room_Inr:
  assumes "side_room key e s = Inr r"
  shows "tget (conversations s) key = Some r" "check_id key = Inr ()" "c_revision r = e"
    "c_chat r = Some chat \<Longrightarrow> cb_role chat \<noteq> ''main''"
  using assms unfolding side_room_def room_def by (elim result_elims, auto split: option.splits)+

text \<open>What the deletion of a thread removes, and that its id can never be used again.\<close>

definition without_thread :: "string \<Rightarrow> store \<Rightarrow> store" where
  "without_thread key s = s\<lparr>
     tombstones := key # tombstones s,
     threads := tdel (\<lambda>k _. k = key) (threads s),
     messages := filter (\<lambda>m. m_thread_id m \<noteq> key) (messages s),
     message_revisions := filter (\<lambda>r. \<exists>m\<in>set (messages s). m_id m = rv_message_id r
       \<and> m_thread_id m \<noteq> key) (message_revisions s),
     attempts := tdel (\<lambda>_ a. ar_thread_id a = Some key) (attempts s),
     conversations := tdel (\<lambda>k _. k = key) (conversations s),
     authors := tdel (\<lambda>_ a. au_conversation_id a = key) (authors s),
     works := tdel (\<lambda>_ w. w_conversation_id w = key) (works s),
     facts := tdel (\<lambda>_ f. f_conversation_id f = key) (facts s),
     receipts := tdel (\<lambda>_ r. fst r = key) (receipts s)\<rparr>"

lemma thread_delete_Inr: "thread_delete key s = Inr s' \<Longrightarrow> s' = without_thread (trim key) s"
  unfolding thread_delete_def normalize_thread_id_def Let_def without_thread_def
  by (elim result_elims) (simp split: if_splits)

lemma without_thread_ok: "store_ok s \<Longrightarrow> store_ok (without_thread key s)"
  by (simp add: store_ok_def without_thread_def tinv_tdel keyed_by_tdel)

lemma without_thread_law:
  assumes "\<forall>w\<in>set (trows (works s)). w_conversation_id w \<noteq> key"
  shows "advances work_quiet quiet_new s (without_thread key s)"
proof -
  have w: "works (without_thread key s) = works s"
    using assms by (auto simp: without_thread_def trows_def intro!: tdel_none)
  have a: "tget (authors (without_thread key s)) k = Some a \<or> au_conversation_id a = key"
    if "store_ok s" "tget (authors s) k = Some a" for k a
    using that by (simp add: without_thread_def store_ok_def tdel_tget)
  show ?thesis
    unfolding advances_def w using a without_thread_ok quiet.law_refl
    by (auto simp: without_thread_def)
qed

lemma chat_delete_elim:
  assumes "chat_delete ctx key e s = Inr s'" and "store_ok s"
  obtains r where "side_room key e s = Inr r" "c_id r = key"
    "\<forall>w\<in>set (trows (works s)). w_conversation_id w \<noteq> key"
    "s' = without_thread key (s\<lparr>conversations := tdel (\<lambda>k _. k = key) (conversations s),
          authors := tdel (\<lambda>_ a. au_conversation_id a = key) (authors s)\<rparr>)"
  using assms(1) unfolding chat_delete_def
proof (elim result_elims, goal_cases)
  case (1 r all fs)
  have "c_id r = key"
    using side_room_Inr(1) [OF 1(2)] assms(2) keyed_by_get by (auto simp: store_ok_def)
  moreover have "trim key = key" by (rule check_id_trim [OF side_room_Inr(2) [OF 1(2)]])
  ultimately show ?case
    using 1 by (intro 1(1) [of r]) (auto dest!: thread_delete_Inr)
qed

lemma without_thread_twice:
  "without_thread key (s\<lparr>conversations := tdel (\<lambda>k _. k = key) (conversations s),
      authors := tdel (\<lambda>_ a. au_conversation_id a = key) (authors s)\<rparr>) = without_thread key s"
  by (simp add: without_thread_def tdel_def)

lemma chat_delete_law:
  assumes "chat_delete ctx key e s = Inr s'"
  shows "advances work_quiet quiet_new s s'"
proof (cases "store_ok s")
  case True
  from assms True show ?thesis
    by (rule chat_delete_elim) (simp add: without_thread_twice without_thread_law)
qed (simp add: advances_def)

lemma open_main_law:
  assumes "open_main ctx agent s = Inr (r, s')"
  shows "advances work_quiet quiet_new s s'"
  using assms unfolding open_main_def Let_def
proof (elim bindE_elim, goal_cases)
  case (1 p)
  show ?case
  proof (cases "tget (conversations s) (main_chat_id ctx agent)")
    case None
    from 1(2) [unfolded None option.case] obtain q where
      q: "create_room ctx (main_chat_id ctx agent) (''Chat with '' @ p_name p) ''direct''
          [\<lparr>pt_agent_id = agent, pt_name = p_name p\<rparr>] (Some agent) None s = Inr q"
      and b: "(case q of (r0, s1) \<Rightarrow> bindE (put_conversation ctx (r0\<lparr>c_chat := Some (main_binding agent)\<rparr>) s1)
          (\<lambda>s2. Inr (r0\<lparr>c_chat := Some (main_binding agent)\<rparr>, s2))) = Inr (r, s')"
      by (elim bindE_elim)
    obtain r0 s1 where qq: "q = (r0, s1)" by (cases q)
    from b [unfolded qq case_prod_conv]
    have "put_conversation ctx (r0\<lparr>c_chat := Some (main_binding agent)\<rparr>) s1 = Inr s'"
      by (elim bindE_elim) simp
    with create_room_law [OF q [unfolded qq]] show ?thesis
      by (blast intro: quiet.adv_trans put_conversation_law)
  next
    case (Some r1)
    with 1(2) show ?thesis by (simp split: if_splits)
  qed
qed

lemma update_conversation_law:
  assumes "update_conversation ctx key e t ids lead sh s = Inr s'"
  shows "advances work_quiet quiet_new s s'"
  using assms unfolding update_conversation_def Let_def
proof (elim result_elims, goal_cases)
  case (1 r members u title s1 s2)
  then have "advances work_quiet quiet_new s s1"
    by (auto intro: invalidate_room_law split: if_splits)
  with 1 show ?case by (blast intro: quiet.adv_trans thread_update_law put_conversation_law)
qed

lemma put_author_law:
  assumes "put_author ctx run p a s = Inr s'" and "tget (authors s) run = None"
  shows "advances work_quiet quiet_new s s'"
  using put_author_Inr [OF assms(1)] assms(2)
  by (intro quiet.adv_same) (auto simp: store_ok_def tget_tput intro: tinv_tput)

lemma backfill_law:
  assumes "backfill_thread_authors ctx p r s = Inr s'"
  shows "advances work_quiet quiet_new s s'"
  using assms unfolding backfill_thread_authors_def
  by (rule quiet.adv_foldE [rotated])
    (auto simp: Let_def intro: put_author_law split: prod.splits if_splits)

lemma place_conversation_law:
  assumes "place_conversation ctx key e p sh s = Inr s'"
  shows "advances work_quiet quiet_new s s'"
  using assms unfolding place_conversation_def
  by (elim result_elims)
    (blast intro: quiet.adv_trans invalidate_room_law put_conversation_law backfill_law)

lemma update_team_law:
  assumes "update_team ctx p e lead ids sh s = Inr s'"
  shows "advances work_quiet quiet_new s s'"
  using assms unfolding update_team_def
proof (elim result_elims, goal_cases)
  case (1 tm members s1 s2 row rooms)
  have "advances work_quiet quiet_new s2 s'"
    by (rule quiet.adv_foldE [OF _ 1(8)]) (auto intro: put_conversation_law split: if_splits)
  with 1 show ?case by (blast intro: quiet.adv_trans invalidate_project_law put_team_law)
qed

end
