(* ===== verification/Work_Start_Laws.thy ===== *)
theory Work_Start_Laws
  imports Work_Start Work_Run_Laws
begin

text \<open>
  The laws of starting Work (\<open>work.rs\<close>): a submission only adds records. The root and the queued
  child of every further recipient are new, well-formed and have run nothing, no existing record
  changes but the root that the submission has just written, and a retry changes nothing at all.
\<close>

section \<open>The children of a submission\<close>

definition admits_child :: "work \<times> store \<Rightarrow> work \<times> store \<Rightarrow> bool" where
  "admits_child a b =
     (advances work_quiet quiet_new (snd a) (snd b) \<and> work_quiet (fst a) (fst b)
      \<and> (\<forall>k w. tget (works (snd a)) k = Some w \<longrightarrow> tget (works (snd b)) k = Some w))"

lemma admits_child_refl [simp]: "admits_child a a"
  by (simp add: admits_child_def quiet.law_refl)

lemma admits_child_trans: "admits_child a b \<Longrightarrow> admits_child b c \<Longrightarrow> admits_child a c"
  unfolding admits_child_def by (meson quiet.adv_trans quiet.law_trans)

lemma start_child_elim:
  assumes "start_child ctx key r origin agent (root, s) = Inr (root', s')"
    and "tget (works s) (recipient_work_id ctx key agent) = None"
  obtains p revision captured binding all shared child where
    "child = (initial_work ctx (recipient_work_id ctx key agent) r agent (w_prompt root)
        (w_user_request root) origin (Some (attachments_for_child (w_attachments root))) True None
        p revision captured binding all)
        \<lparr>w_root_id := w_root_id root, w_parent_id := Some (w_id root), w_depth := 1,
         w_workspace_recipient := True, w_captured_context := shared\<rparr>"
    "put_work ctx child s = Inr s'"
    "root' = root\<lparr>w_dependencies := w_dependencies root @ [recipient_work_id ctx key agent],
                  w_waiting_for := w_waiting_for root @ [recipient_work_id ctx key agent]\<rparr>"
  using assms(1) unfolding start_child_def new_work_def Let_def prod.case assms(2) not_not if_not_P [OF not_not [THEN iffD2, OF refl]]
proof (elim result_elims, goal_cases)
  case (1 child0 inside shared t)
  note step = this
  from step(2) show ?case
  proof (rule new_work_elim, goal_cases)
    case (1 p revision captured binding all)
    have "w_id child0 = recipient_work_id ctx key agent"
      by (simp add: 1(2) initial_work_fields)
    with 1 step show ?case
      by (intro step(1) [of _ shared p revision captured binding all]) simp_all
  qed
qed

lemma start_child_law:
  assumes "start_child ctx key r origin agent (root, s) = Inr (root', s')"
  shows "admits_child (root, s) (root', s')"
proof (cases "tget (works s) (recipient_work_id ctx key agent)")
  case None
  with assms show ?thesis
  proof (rule start_child_elim, goal_cases)
    case (1 p revision captured binding all shared child)
    have id: "w_id child = recipient_work_id ctx key agent" by (simp add: 1(1) initial_work_fields)
    have "quiet_new child" by (simp add: 1(1) initial_work_def work_law_defs work_wf_def)
    moreover have "tget (works s') k = (if k = w_id child then Some child else tget (works s) k)" for k
      using put_work_get [OF 1(2), of k] by simp
    ultimately show ?case
      using quiet.adv_new [OF _ _ 1(2)] None id 1(3)
      by (simp add: admits_child_def) (simp add: work_law_defs work_wf_def)
  qed
next
  case (Some w)
  with assms show ?thesis by (simp add: start_child_def Let_def)
qed

lemma start_children_law:
  assumes "foldE (start_child ctx key r origin) agents a = Inr b"
  shows "admits_child a b"
  by (rule foldE_rel [of admits_child agents "start_child ctx key r origin"])
    (use assms admits_child_trans start_child_law in auto)

section \<open>A submission\<close>

lemma start_retry_same: "start_retry ctx key c rs e prompt pm w s = Inr s' \<Longrightarrow> s' = s"
  by (simp add: start_retry_def split: if_splits)

lemma start_for_recipients_elim:
  assumes "start_for_recipients_with_parent ctx key c rs explicit prompt0 disc origin pm atts s = Inr s'"
  obtains (retry) existing where "tget (works s) key = Some existing" "s' = s"
  | (started) prompt r w0 w2 s1 root s2 where "tget (works s) key = None"
      "bounded prompt0 32000 ''Message'' = Inr prompt" "room s c = Inr r"
      "new_work_with_parent ctx key r (hd rs) prompt prompt origin atts explicit pm s = Inr w0"
      "w2 = w0\<lparr>w_prompt := (if disc then w_prompt w0 @ discussion_suffix else w_prompt w0),
               w_recipient_ids := (if explicit then rs else w_recipient_ids w0)\<rparr>"
      "put_work ctx w2 s = Inr s1"
      "foldE (start_child ctx key r origin) (tl rs) (w2, s1) = Inr (root, s2)"
      "(if 1 < length rs then put_work ctx (root\<lparr>w_updated_at := time ctx\<rparr>) s2 else Inr s2) = Inr s'"
proof (cases "tget (works s) key")
  case (Some existing)
  with assms show ?thesis
    unfolding start_for_recipients_with_parent_def
    by (elim result_elims) (auto dest: start_retry_same intro: retry)
next
  case None
  show ?thesis
    using assms unfolding start_for_recipients_with_parent_def None option.case Let_def
  proof (elim result_elims, goal_cases)
    case (1 u prompt v x all r w0 s1 p)
    then show ?case
      by (cases p, intro started [of prompt r w0 _ s1 "fst p" "snd p"])
        (simp_all add: None split: if_splits)
  qed
qed

lemma start_for_recipients_law:
  assumes "start_for_recipients_with_parent ctx key c rs explicit prompt0 disc origin pm atts s = Inr s'"
  shows "advances work_quiet quiet_new s s'"
  using assms
proof (cases rule: start_for_recipients_elim)
  case (started prompt r w0 w2 s1 root s2)
  from started(4) have w0: "quiet_new w2" "w_id w2 = key"
    by (rule new_work_elim, simp add: started(5) initial_work_def work_law_defs work_wf_def)+
  have a1: "advances work_quiet quiet_new s s1"
    using quiet.adv_new [OF _ _ started(6)] w0 started(1) by simp
  have kids: "admits_child (w2, s1) (root, s2)" using started(7) by (rule start_children_law)
  have "tget (works s1) key = Some w2" using put_work_get [OF started(6)] w0(2) by simp
  with kids have "tget (works s2) key = Some w2" "work_quiet w2 root"
    by (simp_all add: admits_child_def)
  moreover from this(2) have "work_quiet w2 (root\<lparr>w_updated_at := time ctx\<rparr>)"
    by (rule quiet.law_trans) (rule touch_quiet)
  ultimately have "advances work_quiet quiet_new s2 s'"
    using started(8) quiet.adv_put [of s2 key w2 "root\<lparr>w_updated_at := time ctx\<rparr>" ctx s']
    by (cases "1 < length rs") simp_all
  with a1 kids show ?thesis by (simp add: admits_child_def) (metis quiet.adv_trans)
qed simp

lemma start_law:
  "start ctx key c agent prompt disc origin atts s = Inr s' \<Longrightarrow> advances work_quiet quiet_new s s'"
  unfolding start_def start_with_parent_def by (rule start_for_recipients_law)

end
