(* ===== verification/Work_Continue.thy ===== *)
theory Work_Continue
  imports Work_Facts Work_Exchange Work_Start_Laws
begin

text \<open>
  Continuations (\<open>collaboration/commands.rs\<close>, \<open>provider_resets.rs\<close>, \<open>provider_continuation.rs\<close>,
  \<open>provider_usage.rs\<close>): the reviewed continuation of a stopped assignment, the continuation that a
  provider reset admits once, the cached provider allowance it rests on, and the fresh-session
  continuation over a budgeted selection of the saved history.
\<close>

section \<open>Errors\<close>

definition err_reset_review :: cerr where
  "err_reset_review = Invalid ''The conversation, model or project changed. Review Work before requesting continuation.''"

definition err_reset_wait :: cerr where
  "err_reset_wait = Invalid ''Wait for the remaining effort to stop before scheduling a continuation.''"

definition err_reset_opportunity :: cerr where
  "err_reset_opportunity = Invalid ''Review the latest saved effects and choose a new provider reset opportunity.''"

definition err_reset_no_run :: cerr where
  "err_reset_no_run = Invalid ''Reset continuation needs a failed provider run.''"

definition err_reset_run_missing :: cerr where
  "err_reset_run_missing = Invalid ''The failed run is unavailable.''"

definition err_reset_no_limit :: cerr where
  "err_reset_no_limit = Invalid ''This run has no native provider-reported usage limit. Use ordinary reviewed continuation.''"

definition err_reset_refresh :: cerr where
  "err_reset_refresh = Invalid ''Refresh provider allowance and choose a current future reset.''"

definition err_reset_stale :: cerr where
  "err_reset_stale = Invalid ''Fresh provider measurements are required.''"

definition err_reset_changed :: cerr where
  "err_reset_changed = Invalid ''This Work changed. Refresh before cancelling its continuation.''"

definition err_measurements :: cerr where
  "err_measurements = Invalid ''Stored provider measurements are invalid.''"

definition err_continuation_room :: cerr where
  "err_continuation_room = Invalid ''Insufficient room for continuation references. Choose a larger-context model or reduce the new request. Your request has not been shortened.''"

definition err_continuation_review :: cerr where
  "err_continuation_review = Invalid ''Review saved results and reconcile prior effects before continuing.''"

definition err_continuation_id :: cerr where
  "err_continuation_id = Invalid ''This continuation ID already belongs to another request.''"

definition err_continuation_stale :: cerr where
  "err_continuation_stale = Invalid ''Saved context changed after preview. Review continuation again.''"

definition msg_reset_verified :: string where
  "msg_reset_verified = ''Reset verified; one fresh continuation admitted.''"

definition msg_reset_unverified :: string where
  "msg_reset_unverified = ''The reset could not be validated, or Work changed. Inspect saved results and refresh allowance before continuing.''"

definition msg_connect_provider :: string where
  "msg_connect_provider = ''Connect this provider in Mivlet to read its allowance.''"

definition msg_refresh_provider :: string where
  "msg_refresh_provider = ''Refresh to check supported provider measurements.''"

definition msg_connection_changed :: string where
  "msg_connection_changed = ''The provider connection changed. Refresh its allowance.''"

definition msg_stale_measurements :: string where
  "msg_stale_measurements = ''These measurements are stale. Refresh before relying on them.''"

section \<open>Reviewed continuation\<close>

definition continuation_context :: "ctx \<Rightarrow> work \<Rightarrow> store \<Rightarrow> cerr + conversation" where
  "continuation_context ctx it s =
     bindE (room s (w_conversation_id it)) (\<lambda>r.
     bindE (find_profile (profiles ctx) (w_agent_id it)) (\<lambda>_.
     if \<not> w_workspace_recipient it
        \<and> \<not> (\<exists>p\<in>set (c_participants r). pt_agent_id p = w_agent_id it)
     then Inl err_no_longer_participant else
     bindE (item s (w_root_id it)) (\<lambda>root.
     if w_id root \<noteq> w_id it \<and> (w_status root = Cancelled \<or> w_status root = Completed)
     then Inl err_parent_ended else Inr r)))"

definition require_review :: "string \<Rightarrow> work \<Rightarrow> work" where
  "require_review reason it =
     (case w_reset_continuation it of
        None \<Rightarrow> it
      | Some reset \<Rightarrow>
          if rc_state reset = ''armed''
          then it\<lparr>w_reset_continuation :=
                  Some (reset\<lparr>rc_state := ''review-required'', rc_reason := Some reason\<rparr>)\<rparr>
          else it)"

definition cloud_open :: "work \<Rightarrow> bool" where
  "cloud_open it =
     (case w_hosted_task it of
        None \<Rightarrow> False
      | Some h \<Rightarrow> ht_phase h \<noteq> ''review'' \<and> ht_phase h \<noteq> ''reconciled''
          \<and> (case ht_snapshot_status h of
               None \<Rightarrow> True | Some st \<Rightarrow> st = ''queued'' \<or> st = ''running''))"

definition continued ::
  "ctx \<Rightarrow> agent_profile \<Rightarrow> captured_context option \<Rightarrow> conversation \<Rightarrow> u32 \<Rightarrow> work \<Rightarrow> work" where
  "continued ctx agent captured r revision it =
     (let allowed = permission_mode agent;
          it1 = it\<lparr>w_captured_context := captured,
                   w_permission_mode :=
                     (if permission_rank allowed < permission_rank (w_permission_mode it)
                      then allowed else w_permission_mode it),
                   w_model_option_id := p_model_id agent, w_schedule := None,
                   w_execution_owner := None, w_hosted_task := None,
                   w_outcome_goal :=
                     map_option (\<lambda>g. g\<lparr>g_status := ''active'', g_report := None\<rparr>) (w_outcome_goal it)\<rparr>;
          it2 = (require_review msg_continue_reset it1)\<lparr>
                   w_conversation_generation := c_generation r, w_context_revision := revision,
                   w_generation := w_generation it + 1, w_awaiting_user := False,
                   w_status := Queued, w_current_run_id := None,
                   w_reason := Some msg_continuation, w_updated_at := time ctx\<rparr>
      in if w_root_id it = w_id it
         then it2\<lparr>w_max_turns := sat_add (w_turn_count it) 6,
                  w_max_tokens := sat_add (w_token_usage it) 128000\<rparr>
         else it2)"

definition continue_work :: "ctx \<Rightarrow> string \<Rightarrow> u32 \<Rightarrow> bool \<Rightarrow> store \<Rightarrow> cerr + store" where
  "continue_work ctx key expected reconcile s =
     bindE (item s key) (\<lambda>it.
     if cloud_open it then Inl err_cloud_terminal_needed else
     if \<not> reconcile \<or> expected \<noteq> w_generation it \<or> active (w_status it) \<or> w_status it = Completed
     then Inl err_reconcile_first else
     bindE (continuation_context ctx it s) (\<lambda>r.
     bindE (find_profile (profiles ctx) (w_agent_id it)) (\<lambda>agent.
     bindE (case w_captured_context it of
              Some c \<Rightarrow> Inr (Some c)
            | None \<Rightarrow> bindE (capture ctx s r agent None) (\<lambda>c. Inr (Some c))) (\<lambda>captured.
     bindE (case c_project_id r of
              None \<Rightarrow> Inr 0
            | Some p \<Rightarrow> bindE (project_team s p) (\<lambda>tm. Inr (tm_revision tm))) (\<lambda>revision.
     put_work ctx (continued ctx agent captured r revision it) s)))))"

section \<open>Provider allowance\<close>

definition fresh :: "ctx \<Rightarrow> allowance \<Rightarrow> string \<Rightarrow> bool" where
  "fresh ctx report at' =
     (case Option.bind (al_observed_at report) (parse_time ctx) of
        None \<Rightarrow> False
      | Some observed \<Rightarrow>
          (case parse_time ctx at' of
             None \<Rightarrow> False
           | Some now \<Rightarrow>
               al_status report = ''available'' \<and> 0 \<le> now - observed
               \<and> now - observed \<le> 300 * 1000000000))"

definition not_collected :: "ctx \<Rightarrow> string \<Rightarrow> string \<Rightarrow> allowance" where
  "not_collected ctx provider reason =
     \<lparr>al_identity = sha256 ctx (user_id ctx @ '':'' @ provider @ '':managed-custody''),
      al_status = ''unavailable'', al_checked_at = [], al_observed_at = None, al_windows = [],
      al_reason = Some reason, al_reset_opportunity = None\<rparr>"

definition cached :: "ctx \<Rightarrow> string \<Rightarrow> string \<Rightarrow> store \<Rightarrow> cerr + allowance" where
  "cached ctx provider at' s =
     (case find (\<lambda>(p, _). p = provider) (connections s) of
        None \<Rightarrow> Inr (not_collected ctx provider msg_connect_provider)
      | Some (_, updated) \<Rightarrow>
          (case tget (allowances s) provider of
             None \<Rightarrow> Inr (not_collected ctx provider msg_refresh_provider)
           | Some saved \<Rightarrow>
               bindE (ok_or err_measurements saved) (\<lambda>report.
               let observed = (case al_observed_at report of None \<Rightarrow> al_checked_at report | Some t \<Rightarrow> t) in
               if observed < updated then Inr (not_collected ctx provider msg_connection_changed)
               else if \<not> fresh ctx report at' \<and> al_windows report \<noteq> []
               then Inr (report\<lparr>al_status := ''stale'', al_reset_opportunity := None,
                       al_reason := (case al_reason report of None \<Rightarrow> Some msg_stale_measurements
                                     | Some r \<Rightarrow> Some r)\<rparr>)
               else Inr report)))"

definition has_limit_failure :: "string \<Rightarrow> string \<Rightarrow> store \<Rightarrow> bool" where
  "has_limit_failure provider run s =
     (case tget (limit_failures s) run of None \<Rightarrow> False
      | Some v \<Rightarrow> jstr (jindex v ''providerId'') = Some provider)"

section \<open>Reset continuation\<close>

definition unchanged :: "ctx \<Rightarrow> work \<Rightarrow> store \<Rightarrow> cerr + unit" where
  "unchanged ctx it s =
     bindE (continuation_context ctx it s) (\<lambda>r.
     bindE (find_profile (profiles ctx) (w_agent_id it)) (\<lambda>agent.
     bindE (if c_generation r \<noteq> w_conversation_generation it \<or> p_model_id agent \<noteq> w_model_option_id it
               \<or> w_captured_context it = None
            then Inr True
            else (case w_project_id it of
                    None \<Rightarrow> Inr False
                  | Some p \<Rightarrow> bindE (project_team s p) (\<lambda>tm.
                      Inr (tm_revision tm \<noteq> w_context_revision it)))) (\<lambda>moved.
     if moved then Inl err_reset_review else
     bindE (all_work s) (\<lambda>all.
     if \<exists>w\<in>set all. w_root_id w = w_root_id it \<and> active (w_status w) then Inl err_reset_wait
     else Inr ()))))"

text \<open>\<open>split("::").next()\<close>: the text before the first separator.\<close>

definition provider_of :: "string \<Rightarrow> string" where
  "provider_of route = (case find_sub ''::'' route of None \<Rightarrow> route | Some i \<Rightarrow> take i route)"

definition reset_arm ::
  "ctx \<Rightarrow> string \<Rightarrow> u32 \<Rightarrow> string \<Rightarrow> bool \<Rightarrow> store \<Rightarrow> cerr + store" where
  "reset_arm ctx key generation opportunity_id reconcile s =
     bindE (item s key) (\<lambda>it.
     if \<not> reconcile \<or> w_generation it \<noteq> generation
        \<or> \<not> (w_status it = Failed \<or> w_status it = AwaitingUser)
        \<or> (case w_reset_continuation it of None \<Rightarrow> False
           | Some r \<Rightarrow> rc_opportunity_id r = opportunity_id)
     then Inl err_reset_opportunity else
     bindE (unchanged ctx it s) (\<lambda>_.
     let provider = provider_of (w_model_option_id it) in
     bindE (ok_or err_reset_no_run
              (if w_run_ids it = [] then None else Some (last (w_run_ids it)))) (\<lambda>run.
     bindE (ok_or err_reset_run_missing (tget (attempts s) run)) (\<lambda>row.
     if ar_status row \<noteq> ''failed'' \<or> ar_provider_id row \<noteq> provider
        \<or> \<not> has_limit_failure provider run s
     then Inl err_reset_no_limit else
     bindE (cached ctx provider (time ctx) s) (\<lambda>report.
     bindE (ok_or err_reset_refresh
              (case al_reset_opportunity report of
                 None \<Rightarrow> None
               | Some o' \<Rightarrow> if op_id o' = opportunity_id \<and> time ctx < op_resets_at o' then Some o'
                           else None)) (\<lambda>reset.
     if \<not> fresh ctx report (time ctx) then Inl err_reset_stale else
     put_work ctx (it\<lparr>
        w_reset_continuation := Some
          \<lparr>rc_connection_revision =
             map_option snd (find (\<lambda>(p, _). p = provider) (connections s)),
           rc_opportunity_id = op_id reset, rc_resets_at = op_resets_at reset,
           rc_provider_id = provider, rc_identity = al_identity report, rc_generation = generation,
           rc_run_id = run, rc_state = ''armed'', rc_reason = None\<rparr>,
        w_updated_at := time ctx\<rparr>) s))))))"

definition reset_cancel :: "ctx \<Rightarrow> string \<Rightarrow> u32 \<Rightarrow> store \<Rightarrow> cerr + store" where
  "reset_cancel ctx key generation s =
     bindE (item s key) (\<lambda>it.
     if w_generation it \<noteq> generation then Inl err_reset_changed else
     case w_reset_continuation it of
       None \<Rightarrow> Inr s
     | Some reset \<Rightarrow>
         put_work ctx (it\<lparr>
            w_reset_continuation := Some (reset\<lparr>rc_state := ''review-required'',
              rc_reason := Some msg_reset_cancelled\<rparr>),
            w_updated_at := time ctx\<rparr>) s)"

definition reset_valid :: "ctx \<Rightarrow> work \<Rightarrow> reset_continuation \<Rightarrow> allowance \<Rightarrow> store \<Rightarrow> bool" where
  "reset_valid ctx it reset report s =
     (w_generation it = rc_generation reset
      \<and> (\<exists>(p, updated)\<in>set (connections s). p = rc_provider_id reset
            \<and> rc_connection_revision reset = Some updated)
      \<and> w_run_ids it \<noteq> [] \<and> last (w_run_ids it) = rc_run_id reset
      \<and> (w_status it = Failed \<or> w_status it = AwaitingUser)
      \<and> is_ok (unchanged ctx it s)
      \<and> fresh ctx report (time ctx) \<and> al_identity report = rc_identity reset
      \<and> (case al_observed_at report of None \<Rightarrow> False | Some at' \<Rightarrow> rc_resets_at reset \<le> at')
      \<and> al_windows report \<noteq> [] \<and> list_all (\<lambda>below. below) (al_windows report))"

definition dispatch_one :: "ctx \<Rightarrow> work \<Rightarrow> store \<Rightarrow> cerr + store" where
  "dispatch_one ctx it s =
     (case w_reset_continuation it of
        None \<Rightarrow> Inr s
      | Some reset \<Rightarrow>
          if \<not> (rc_state reset = ''armed'' \<and> rc_resets_at reset \<le> time ctx) then Inr s else
          bindE (cached ctx (rc_provider_id reset) (time ctx) s) (\<lambda>report.
          let valid = reset_valid ctx it reset report s;
              it1 = it\<lparr>w_reset_continuation := Some (reset\<lparr>
                         rc_state := (if valid then ''consumed'' else ''review-required''),
                         rc_reason := Some (if valid then msg_reset_verified
                                            else msg_reset_unverified)\<rparr>),
                       w_updated_at := time ctx\<rparr> in
          bindE (put_work ctx it1 s) (\<lambda>s1.
          if valid then continue_work ctx (w_id it1) (w_generation it1) True s1 else Inr s1)))"

definition reset_dispatch :: "ctx \<Rightarrow> store \<Rightarrow> cerr + store" where
  "reset_dispatch ctx s = bindE (all_work s) (\<lambda>all. foldE (dispatch_one ctx) all s)"

section \<open>Fresh-session continuation\<close>

text \<open>
  \<open>select\<close>: the history records that fit the budget, the first user message before the most recent
  ones, whole records only, in their order. \<open>cost\<close> is the size of the encoded records with their
  reference.
\<close>

definition insert_index :: "nat \<Rightarrow> nat list \<Rightarrow> nat list" where
  "insert_index i is = sort (is @ [i])"

definition select_step ::
  "(historical_message list \<Rightarrow> nat) \<Rightarrow> historical_message list \<Rightarrow> nat \<Rightarrow> nat \<Rightarrow> nat list \<Rightarrow> nat list" where
  "select_step cost ms budget i selected =
     (if i \<in> set selected then selected
      else let candidate = insert_index i selected in
        if cost (map ((!) ms) candidate) \<le> budget then candidate else selected)"

definition select_order :: "historical_message list \<Rightarrow> nat list" where
  "select_order ms =
     (case position (\<lambda>m. hm_role m = ''user'') ms of None \<Rightarrow> [] | Some i \<Rightarrow> [i]) @ rev [0..<length ms]"

definition select_messages ::
  "(historical_message list \<Rightarrow> nat) \<Rightarrow> historical_message list \<Rightarrow> nat
   \<Rightarrow> cerr + historical_message list" where
  "select_messages cost ms budget =
     (if budget < cost [] then Inl err_continuation_room
      else Inr (map ((!) ms) (fold (select_step cost ms budget) (select_order ms) [])))"

definition continuation_start ::
  "ctx \<Rightarrow> string \<Rightarrow> continuation_input \<Rightarrow> string \<Rightarrow> bool \<Rightarrow> store \<Rightarrow> cerr + store" where
  "continuation_start ctx key input fingerprint reconcile s =
     bindE (check_id key) (\<lambda>_.
     if \<not> reconcile then Inl err_continuation_review else
     case tget (works s) key of
       Some existing \<Rightarrow>
         if (case w_continuation existing of None \<Rightarrow> False | Some c \<Rightarrow> k_fingerprint c = fingerprint)
            \<and> w_user_request existing = ci_prompt input
            \<and> w_model_option_id existing = ci_model_option_id input
            \<and> w_agent_id existing = ci_agent_id input
            \<and> w_conversation_id existing = ci_conversation_id input
         then Inr s else Inl err_continuation_id
     | None \<Rightarrow>
         bindE (prepare ctx s input) (\<lambda>(k, captured).
         if k_fingerprint k \<noteq> fingerprint then Inl err_continuation_stale else
         bindE (start ctx key (ci_conversation_id input) (ci_agent_id input) (ci_prompt input)
                  False None None s) (\<lambda>s1.
         bindE (item s1 key) (\<lambda>it.
         put_work ctx (it\<lparr>w_prompt := ci_prompt input, w_user_request := ci_prompt input,
                          w_captured_context := Some captured, w_continuation := Some k\<rparr>) s1))))"

section \<open>Laws\<close>

lemma tput_twice: "tput k b (tput k a t) = tput k b t"
  by (induction k a t rule: tput.induct) auto

lemma put_check_works [simp]: "put_check ctx c p (s\<lparr>works := t\<rparr>) = put_check ctx c p s"
  by (simp add: put_check_def split: option.split)

text \<open>Two writes of one record are the second one.\<close>

lemma put_work_twice:
  assumes "put_work ctx a s = Inr t" and "put_work ctx b t = Inr u" and "w_id b = w_id a"
  shows "put_work ctx b s = Inr u"
  using assms by (simp add: put_work_Inr tput_twice)

definition work_calm :: "work \<Rightarrow> work \<Rightarrow> bool" where
  "work_calm w w' = (work_extends w w' \<and> work_idle w w')"

definition calm_new :: "work \<Rightarrow> bool" where
  "calm_new w = (work_wf w \<and> idle_new w)"

interpretation calm: work_law work_calm calm_new
  by unfold_locales
    (auto simp: work_calm_def calm_new_def intro: extends.law_refl idle.law_refl
      extends.law_trans idle.law_trans dest: idle.law_new extends.law_new idle.law_id)

lemma quiet_calm: "advances work_quiet quiet_new s s' \<Longrightarrow> advances work_calm calm_new s s'"
  by (erule advances_mono) (simp_all add: work_quiet_def quiet_new_def work_calm_def calm_new_def)

lemma calm_extends: "advances work_calm calm_new s s' \<Longrightarrow> advances work_extends work_wf s s'"
  by (erule advances_mono) (simp_all add: work_calm_def calm_new_def)

lemma calm_idle: "advances work_calm calm_new s s' \<Longrightarrow> advances work_idle idle_new s s'"
  by (erule advances_mono) (simp_all add: work_calm_def calm_new_def)

lemma require_review_fields:
  "require_review reason w = w\<lparr>w_reset_continuation := w_reset_continuation (require_review reason w)\<rparr>"
  by (simp add: require_review_def split: option.split)

lemma require_review_quiet: "work_quiet w (require_review reason w)"
  by (subst require_review_fields) (simp add: work_law_defs work_wf_def)

lemma continued_calm: "work_calm w (continued ctx agent captured r revision w)"
  unfolding continued_def Let_def
  by (subst (1 2) require_review_fields)
    (simp add: work_calm_def work_law_defs work_wf_def split: if_split)

lemma continue_elim:
  assumes "continue_work ctx key expected reconcile s = Inr s'"
  obtains it r agent captured revision where
    "tget (works s) key = Some it" "\<not> cloud_open it" "reconcile" "expected = w_generation it"
    "\<not> active (w_status it)" "w_status it \<noteq> Completed" "continuation_context ctx it s = Inr r"
    "find_profile (profiles ctx) (w_agent_id it) = Inr agent"
    "put_work ctx (continued ctx agent captured r revision it) s = Inr s'"
  using assms unfolding continue_work_def
proof (elim result_elims, goal_cases)
  case (1 it r agent captured revision)
  then show ?case by (intro 1(1) [of it r agent captured revision]) simp_all
qed

lemma continue_law:
  assumes "continue_work ctx key expected reconcile s = Inr s'"
  shows "advances work_calm calm_new s s'"
  using assms
proof (rule continue_elim, goal_cases)
  case (1 it r agent captured revision)
  show ?case by (rule calm.adv_put [OF 1(1) _ 1(9)]) (rule continued_calm)
qed

lemma reset_arm_law:
  "reset_arm ctx key generation opportunity reconcile s = Inr s' \<Longrightarrow> advances work_quiet quiet_new s s'"
  unfolding reset_arm_def Let_def
proof (elim result_elims, goal_cases)
  case (1 it u run row report reset)
  then show ?case by - (rule quiet.put_adv [of ctx _ s s' key it], assumption, simp_all add: work_law_defs work_wf_def)
qed

lemma reset_cancel_law:
  "reset_cancel ctx key generation s = Inr s' \<Longrightarrow> advances work_quiet quiet_new s s'"
  unfolding reset_cancel_def
proof (elim result_elims, goal_cases)
  case (1 it)
  then show ?case
    by (cases "w_reset_continuation it")
      (simp, rule quiet.adv_put [of s key it _ ctx], simp_all add: work_law_defs work_wf_def)
qed

lemma dispatch_one_elim:
  assumes "dispatch_one ctx it s = Inr s'"
  obtains "s' = s"
  | (review) it1 where "put_work ctx it1 s = Inr s'" "work_quiet it it1"
  | (admitted) reset report it1 s1 where "w_reset_continuation it = Some reset" "rc_state reset = ''armed''"
      "rc_resets_at reset \<le> time ctx" "reset_valid ctx it reset report s"
      "it1 = it\<lparr>w_reset_continuation := Some (reset\<lparr>rc_state := ''consumed'',
                   rc_reason := Some msg_reset_verified\<rparr>), w_updated_at := time ctx\<rparr>"
      "put_work ctx it1 s = Inr s1" "continue_work ctx (w_id it) (w_generation it) True s1 = Inr s'"
proof (cases "\<exists>reset. w_reset_continuation it = Some reset \<and> rc_state reset = ''armed''
                \<and> rc_resets_at reset \<le> time ctx")
  case False
  with assms that(1) show ?thesis by (auto simp: dispatch_one_def split: option.splits)
next
  case True
  then obtain reset where reset: "w_reset_continuation it = Some reset" "rc_state reset = ''armed''"
    "rc_resets_at reset \<le> time ctx" by blast
  show ?thesis
    using assms unfolding dispatch_one_def reset(1) option.case Let_def
    unfolding reset(2) eqTrueI [OF reset(3)] simp_thms if_False if_True
  proof (elim bindE_elim, goal_cases)
    case (1 report s1)
    show ?case
    proof (cases "reset_valid ctx it reset report s")
      case True
      with 1 show ?thesis by (intro admitted [OF reset True refl, of s1]) simp_all
    next
      case False
      with 1 show ?thesis
        by (intro review [of "it\<lparr>w_reset_continuation := Some (reset\<lparr>rc_state := ''review-required'',
              rc_reason := Some msg_reset_unverified\<rparr>), w_updated_at := time ctx\<rparr>"])
          (simp_all add: work_law_defs work_wf_def)
    qed
  qed
qed

lemma dispatch_one_put:
  assumes "dispatch_one ctx it s = Inr s'"
  shows "s' = s \<or> (\<exists>it'. put_work ctx it' s = Inr s' \<and> work_calm it it')"
  using assms
proof (cases rule: dispatch_one_elim)
  case (review it1)
  then show ?thesis by (auto simp: work_quiet_def work_calm_def)
next
  case (admitted reset report it1 s1)
  have q: "work_quiet it it1" by (simp add: admitted(5) work_law_defs work_wf_def)
  have id: "w_id it1 = w_id it" by (simp add: admitted(5))
  from admitted(7) show ?thesis
  proof (rule continue_elim, goal_cases)
    case (1 it2 r agent captured revision)
    from 1(1) put_work_get [OF admitted(6)] id have "it2 = it1" by simp
    moreover have "work_calm it1 (continued ctx agent captured r revision it1)"
      by (rule continued_calm)
    moreover have "work_calm it it1" using q by (simp add: work_quiet_def work_calm_def)
    ultimately show ?case
      using put_work_twice [OF admitted(6) 1(9)] calm.law_id [OF continued_calm, of ctx agent captured r revision it2]
        calm.law_trans by metis
  qed
qed simp

lemma reset_dispatch_law:
  "reset_dispatch ctx s = Inr s' \<Longrightarrow> advances work_calm calm_new s s'"
  using calm.adv_rows [of "\<lambda>t. t" s "dispatch_one ctx" ctx s'] dispatch_one_put
  by (simp add: reset_dispatch_def bindE_Inr)

lemma continuation_start_law:
  "continuation_start ctx key input fingerprint reconcile s = Inr s' \<Longrightarrow> advances work_quiet quiet_new s s'"
proof (cases "tget (works s) key")
  case None
  show "continuation_start ctx key input fingerprint reconcile s = Inr s' \<Longrightarrow> ?thesis"
    unfolding continuation_start_def None option.case
  proof (elim result_elims, goal_cases)
    case (1 u p)
    then show ?case
    proof (cases p, simp only: prod.case, elim result_elims, goal_cases)
      case (1 k captured s1 it)
      have "advances work_quiet quiet_new s1 s'"
        using 1 by - (rule quiet.put_adv [of ctx _ s1 s' key it], assumption, simp_all add: work_law_defs work_wf_def)
      with 1 show ?case using start_law quiet.adv_trans by metis
    qed
  qed
next
  case (Some existing)
  show "continuation_start ctx key input fingerprint reconcile s = Inr s' \<Longrightarrow> ?thesis"
    unfolding continuation_start_def Some option.case
    by (elim result_elims) (simp split: if_splits)
qed

end
