(* ===== verification/Work_Layout.thy ===== *)
theory Work_Layout
  imports Store_Laws Collab_Samples "HOL-Library.Multiset"
begin

text \<open>
  The saved window layout (\<open>validate_layout\<close> of \<open>collaboration/commands.rs\<close>): a binary grid of
  panes, the views of every pane and the recently closed views. The check threads one set of seen
  panes through the tree; it is proved equal to a specification of the tree, and an accepted layout
  is proved to place every pane once in the grid and every open view once in a pane.
\<close>

section \<open>Errors\<close>

definition err_layout :: cerr where
  "err_layout = Invalid ''This workspace layout is invalid.''"

definition err_layout_grid :: cerr where
  "err_layout_grid = Invalid ''Each pane must appear exactly once in the grid.''"

definition err_layout_view :: cerr where
  "err_layout_view = Invalid ''Unsupported workspace view.''"

definition err_layout_duplicate :: cerr where
  "err_layout_duplicate = Invalid ''Duplicate view ID.''"

definition err_layout_panes :: cerr where
  "err_layout_panes = Invalid ''Each open view must belong to exactly one pane.''"

definition err_layout_active :: cerr where
  "err_layout_active = Invalid ''The active tab is not in its pane.''"

section \<open>The grid\<close>

unbundle bit_operations_syntax

text \<open>
  \<open>f64::is_finite\<close> and \<open>(0.2..=0.8).contains\<close> on the bits of the number: the exponent is not all
  ones, and positive numbers are ordered as their bits are.
\<close>

definition f64_is_finite :: "u64 \<Rightarrow> bool" where
  "f64_is_finite b = ((drop_bit 52 b) AND 0x7FF \<noteq> 0x7FF)"

definition ratio_in_range :: "u64 \<Rightarrow> bool" where
  "ratio_in_range b = (0x3FC999999999999A \<le> b \<and> b \<le> 0x3FE999999999999A)"

fun validate_node :: "layout_node \<Rightarrow> nat \<Rightarrow> nat \<Rightarrow> nat list \<Rightarrow> bool \<times> nat list" where
  "validate_node (Pane pane) depth n leaves =
     (if 7 < depth then (False, leaves)
      else if pane < n then
        (if pane \<in> set leaves then (False, leaves) else (True, pane # leaves))
      else (False, leaves))"
| "validate_node (Split axis ratio a b) depth n leaves =
     (if 7 < depth then (False, leaves)
      else if (axis = ''row'' \<or> axis = ''column'') \<and> f64_is_finite ratio \<and> ratio_in_range ratio then
        (case validate_node a (depth + 1) n leaves of
           (ok, leaves') \<Rightarrow> if ok then validate_node b (depth + 1) n leaves' else (False, leaves'))
      else (False, leaves))"

definition check_view :: "store \<Rightarrow> view \<Rightarrow> cerr + unit" where
  "check_view s v =
     bindE (check_id (v_id v)) (\<lambda>_.
     bindE (room s (v_conversation_id v)) (\<lambda>_.
     if v_kind v \<noteq> ''conversation'' \<and> v_kind v \<noteq> ''artifact'' then Inl err_layout_view else
     if v_kind v = ''artifact'' then
       bindE (bounded (case v_output v of None \<Rightarrow> [] | Some x \<Rightarrow> x) 32000 ''Artifact reference'') (\<lambda>_.
       bindE (bounded (case v_title v of None \<Rightarrow> [] | Some x \<Rightarrow> x) 160 ''Artifact title'') (\<lambda>_.
       check_id (case v_agent_id v of None \<Rightarrow> [] | Some x \<Rightarrow> x)))
     else Inr ()))"

definition active_tab_ok :: "string list \<times> string option \<Rightarrow> bool" where
  "active_tab_ok = (\<lambda>(pane, active). (pane = []) = (active = None)
     \<and> (case active of None \<Rightarrow> True | Some v \<Rightarrow> v \<in> set pane))"

definition validate_layout :: "store \<Rightarrow> layout \<Rightarrow> cerr + unit" where
  "validate_layout s l =
     (if l_version l \<noteq> 2 \<or> l_panes l = [] \<or> 8 < length (l_panes l)
         \<or> length (l_panes l) \<le> l_active_pane l \<or> length (l_active l) \<noteq> length (l_panes l)
         \<or> 40 < length (l_views l) \<or> 20 < length (l_closed l)
      then Inl err_layout else
      let (ok, leaves) = (case l_tree l of None \<Rightarrow> (False, [])
                          | Some tr \<Rightarrow> validate_node tr 0 (length (l_panes l)) []) in
      if \<not> ok \<or> length leaves \<noteq> length (l_panes l) then Inl err_layout_grid else
      bindE (mapE (check_view s) (l_views l @ l_closed l)) (\<lambda>_.
      if \<not> distinct (map v_id (l_views l)) then Inl err_layout_duplicate else
      let pane_ids = concat (l_panes l); ids = map v_id (l_views l) in
      if length pane_ids \<noteq> card (set ids) \<or> card (set pane_ids) \<noteq> card (set ids)
         \<or> \<not> set pane_ids \<subseteq> set ids
      then Inl err_layout_panes else
      if \<not> list_all active_tab_ok (zip (l_panes l) (l_active l)) then Inl err_layout_active
      else Inr ()))"

definition save_layout :: "layout \<Rightarrow> store \<Rightarrow> cerr + store" where
  "save_layout l s = bindE (validate_layout s l) (\<lambda>_. Inr (s\<lparr>saved_layout := Some l\<rparr>))"

section \<open>The specification of a grid\<close>

fun leaves_of :: "layout_node \<Rightarrow> nat list" where
  "leaves_of (Pane p) = [p]"
| "leaves_of (Split _ _ a b) = leaves_of a @ leaves_of b"

fun grid_depth :: "layout_node \<Rightarrow> nat" where
  "grid_depth (Pane _) = 0"
| "grid_depth (Split _ _ a b) = 1 + max (grid_depth a) (grid_depth b)"

fun splits_ok :: "layout_node \<Rightarrow> bool" where
  "splits_ok (Pane _) = True"
| "splits_ok (Split axis ratio a b) =
     ((axis = ''row'' \<or> axis = ''column'') \<and> ratio_in_range ratio \<and> splits_ok a \<and> splits_ok b)"

lemma ratio_finite: "ratio_in_range b \<Longrightarrow> f64_is_finite b"
proof (rule ccontr)
  assume "ratio_in_range b" and "\<not> f64_is_finite b"
  then have hi: "unat b \<le> 0x3FE999999999999A" and bits: "drop_bit 52 b AND 0x7FF = (0x7FF :: u64)"
    by (simp_all add: ratio_in_range_def f64_is_finite_def word_le_nat_alt)
  have "(0x7FF :: u64) \<le> drop_bit 52 b"
    using word_and_le2 [of "drop_bit 52 b" "0x7FF"] bits by simp
  then have "0x7FF \<le> unat (drop_bit 52 b)" by (simp add: word_le_nat_alt)
  also have "\<dots> = unat b div 2 ^ 52" unfolding unat_drop_bit_eq by (rule drop_bit_eq_div)
  also have "\<dots> \<le> 0x3FE999999999999A div 2 ^ 52" using hi by (rule div_le_mono)
  finally show False by simp
qed

lemma validate_node_spec:
  "validate_node tr d n ls = (ok, ls') \<Longrightarrow>
     (ok \<longleftrightarrow> d + grid_depth tr \<le> 7 \<and> splits_ok tr \<and> distinct (leaves_of tr)
              \<and> set (leaves_of tr) \<subseteq> {..<n} - set ls)
     \<and> (ok \<longrightarrow> ls' = rev (leaves_of tr) @ ls)"
proof (induction tr arbitrary: d ls ok ls')
  case (Pane p)
  then show ?case by (auto split: if_splits)
next
  case (Split axis ratio a b)
  obtain oka la where a: "validate_node a (d + 1) n ls = (oka, la)" by fastforce
  obtain okb lb where b: "validate_node b (d + 1) n la = (okb, lb)" by fastforce
  note A = Split.IH(1) [OF a] and B = Split.IH(2) [OF b]
  show ?case
  proof (cases "d \<le> 7 \<and> (axis = ''row'' \<or> axis = ''column'') \<and> ratio_in_range ratio \<and> oka")
    case True
    then have "(ok, ls') = (okb, lb)"
      using Split.prems a b by (auto simp: ratio_finite)
    moreover have "oka" "la = rev (leaves_of a) @ ls" using True A by simp_all
    moreover have "d + 1 + grid_depth a \<le> 7" using A \<open>oka\<close> by simp
    moreover from this have "d + max (grid_depth a) (grid_depth b) \<le> 6 \<longleftrightarrow> d + grid_depth b \<le> 6"
      by (simp add: max_def)
    ultimately show ?thesis using A B True by (simp add: subset_iff disjoint_iff) blast
  next
    case False
    then have "\<not> ok" using Split.prems a by (auto split: if_splits)
    moreover have "\<not> (d + grid_depth (Split axis ratio a b) \<le> 7 \<and> splits_ok (Split axis ratio a b)
        \<and> distinct (leaves_of (Split axis ratio a b))
        \<and> set (leaves_of (Split axis ratio a b)) \<subseteq> {..<n} - set ls)"
      using False A by auto
    ultimately show ?thesis by simp
  qed
qed

text \<open>The check of the grid accepts a tree exactly when the tree meets its specification: at
  most seven levels of splits, every split a row or column with a ratio between 0.2 and 0.8, and
  every pane index in range and used once. The set of seen panes the check threads through the two
  subtrees, and its early exits, are not visible in the specification.\<close>

theorem grid_check_exact:
  "fst (validate_node tr 0 n []) \<longleftrightarrow>
     grid_depth tr \<le> 7 \<and> splits_ok tr \<and> distinct (leaves_of tr) \<and> set (leaves_of tr) \<subseteq> {..<n}"
  using validate_node_spec [of tr 0 n "[]"] by (cases "validate_node tr 0 n []") simp

lemma distinct_card_length: "length xs = card (set xs) \<Longrightarrow> distinct xs"
  by (rule card_distinct) simp

lemma validate_layout_elim:
  assumes "validate_layout s l = Inr u"
  obtains tr where "l_tree l = Some tr" "fst (validate_node tr 0 (length (l_panes l)) [])"
    "length (snd (validate_node tr 0 (length (l_panes l)) [])) = length (l_panes l)"
    "distinct (map v_id (l_views l))"
    "length (concat (l_panes l)) = card (set (map v_id (l_views l)))"
    "card (set (concat (l_panes l))) = card (set (map v_id (l_views l)))"
    "set (concat (l_panes l)) \<subseteq> set (map v_id (l_views l))"
    "list_all active_tab_ok (zip (l_panes l) (l_active l))"
    "l_active_pane l < length (l_panes l)" "length (l_active l) = length (l_panes l)"
    "\<exists>us. mapE (check_view s) (l_views l @ l_closed l) = Inr us"
proof (cases "l_tree l")
  case None
  with assms show ?thesis by (simp add: validate_layout_def split: if_splits)
next
  case (Some tr)
  with assms show ?thesis
    by (cases "validate_node tr 0 (length (l_panes l)) []")
      (intro that [of tr]; simp add: validate_layout_def Let_def bindE_Inr split: if_splits; blast)
qed

lemma saved_layout_facts:
  assumes "save_layout l s = Inr s'"
  shows "\<exists>tr. l_tree l = Some tr \<and> mset (leaves_of tr) = mset [0..<length (l_panes l)]"
    and "mset (concat (l_panes l)) = mset (map v_id (l_views l))"
    and "l_active_pane l < length (l_panes l)"
    and "\<forall>i<length (l_panes l). (l_panes l ! i = []) = (l_active l ! i = None)
           \<and> (\<forall>v. l_active l ! i = Some v \<longrightarrow> v \<in> set (l_panes l ! i))"
    and "s' = s\<lparr>saved_layout := Some l\<rparr>"
proof -
  from assms obtain u where v: "validate_layout s l = Inr u" and s': "s' = s\<lparr>saved_layout := Some l\<rparr>"
    by (auto simp: save_layout_def bindE_Inr)
  show "s' = s\<lparr>saved_layout := Some l\<rparr>" by (rule s')
  from v obtain tr where tr: "l_tree l = Some tr" "fst (validate_node tr 0 (length (l_panes l)) [])"
    "length (snd (validate_node tr 0 (length (l_panes l)) [])) = length (l_panes l)"
    and ids: "distinct (map v_id (l_views l))"
    "length (concat (l_panes l)) = card (set (map v_id (l_views l)))"
    "card (set (concat (l_panes l))) = card (set (map v_id (l_views l)))"
    "set (concat (l_panes l)) \<subseteq> set (map v_id (l_views l))"
    and act: "list_all active_tab_ok (zip (l_panes l) (l_active l))"
    and rest: "l_active_pane l < length (l_panes l)" "length (l_active l) = length (l_panes l)"
    by (rule validate_layout_elim)
  have grid: "distinct (leaves_of tr)" "set (leaves_of tr) \<subseteq> {..<length (l_panes l)}"
    "length (leaves_of tr) = length (l_panes l)"
    using validate_node_spec [of tr 0 "length (l_panes l)" "[]"] tr
    by (cases "validate_node tr 0 (length (l_panes l)) []"; simp)+
  then have "set (leaves_of tr) = {..<length (l_panes l)}"
    by (metis card_lessThan card_subset_eq distinct_card finite_lessThan)
  then have "mset (leaves_of tr) = mset [0..<length (l_panes l)]"
    using grid(1) by (metis atLeast0LessThan distinct_upt set_eq_iff_mset_eq_distinct set_upt)
  with tr(1) show "\<exists>tr. l_tree l = Some tr \<and> mset (leaves_of tr) = mset [0..<length (l_panes l)]"
    by simp
  have "set (concat (l_panes l)) = set (map v_id (l_views l))"
    using ids by (intro card_subset_eq) simp_all
  moreover have "distinct (concat (l_panes l))"
    using ids by (intro distinct_card_length) simp
  ultimately show "mset (concat (l_panes l)) = mset (map v_id (l_views l))"
    using ids(1) set_eq_iff_mset_eq_distinct by blast
  show "l_active_pane l < length (l_panes l)" by (rule rest)
  show "\<forall>i<length (l_panes l). (l_panes l ! i = []) = (l_active l ! i = None)
           \<and> (\<forall>v. l_active l ! i = Some v \<longrightarrow> v \<in> set (l_panes l ! i))"
    using act rest(2) by (auto simp: list_all_length active_tab_ok_def split: option.splits)
qed

text \<open>An accepted window layout is consistent: the grid shows every pane exactly once, every
  open view sits in exactly one pane and no pane names another view, the active pane exists, and a
  pane has an active tab, one of its own views, exactly when it is not empty.\<close>

theorem layout_places_views:
  assumes "save_layout l s = Inr s'"
  shows "saved_layout s' = Some l
    \<and> (\<exists>tr. l_tree l = Some tr \<and> mset (leaves_of tr) = mset [0..<length (l_panes l)])
    \<and> mset (concat (l_panes l)) = mset (map v_id (l_views l))
    \<and> l_active_pane l < length (l_panes l)
    \<and> (\<forall>i<length (l_panes l). (l_panes l ! i = []) = (l_active l ! i = None)
         \<and> (\<forall>v. l_active l ! i = Some v \<longrightarrow> v \<in> set (l_panes l ! i)))"
  using saved_layout_facts [OF assms] by simp

definition sample_layout :: layout where
  "sample_layout =
     \<lparr>l_version = 2, l_panes = [[''v1''], []],
      l_views = [\<lparr>v_id = ''v1'', v_conversation_id = ''room'', v_kind = ''conversation'',
                  v_agent_id = None, v_output = None, v_title = None\<rparr>],
      l_active = [Some ''v1'', None], l_active_pane = 1,
      l_tree = Some (Split ''row'' 0x3FE0000000000000 (Pane 1) (Pane 0)), l_closed = []\<rparr>"

lemma sample_layout_saved: "is_ok (save_layout sample_layout (sample_store []))"
  by code_simp

theorem layout_places_views_witness:
  "is_ok (save_layout sample_layout (sample_store []))
   \<and> mset (concat (l_panes sample_layout)) = mset (map v_id (l_views sample_layout))"
  using sample_layout_saved layout_places_views [of sample_layout "sample_store []"]
  by (auto simp: is_ok_iff)

lemma save_layout_law: "save_layout l s = Inr s' \<Longrightarrow> advances work_quiet quiet_new s s'"
  by (rule quiet.adv_same) (auto simp: save_layout_def bindE_Inr store_ok_def)

end
