(* ===== verification/Work_Commands.thy ===== *)
theory Work_Commands
  imports Work_Agent Work_Chats Work_Continue Work_Layout
begin

text \<open>
  The command boundary of the collaboration engine (\<open>collaboration/commands.rs\<close>, \<open>apply\<close>): one
  constructor of \<open>command\<close> per command of the interface and one branch of \<open>apply_command\<close> per
  branch of \<open>apply\<close>. Every accepted command keeps the store well-formed, keeps the identity, the
  history and the permission bound of every Work, and leaves saved authorship alone; only \<open>BindWork\<close>
  and \<open>WorkStatus\<close> can make a Work execute.
\<close>

section \<open>Commands\<close>

datatype command =
    LiveSteerWork string u32 string string
  | EditQueuedWork string u32 string
  | SetWorkHeld string u32 bool
  | MoveQueuedWork string u32 "string option"
  | SetOutcomeGoal string u32 string string u32 u64
    \<comment> \<open>id, generation, objective, success criteria, max turns, max tokens\<close>
  | SetGoalPaused string u32 bool
  | StartProviderContinuation string continuation_input string bool
  | SteerWork string u32 string string
    \<comment> \<open>id, generation, event id, text\<close>
  | ReplyWork string u32 string string
  | OpenMainChat string
  | CreateConversation string string string "string list" "string option" "string option"
    \<comment> \<open>id, title, kind, participants, facilitator, project\<close>
  | RenameConversation string u32 string
  | SetConversationArchived string u32 bool
  | DeleteConversation string u32
  | UpdateConversation string u32 string "string list" "string option" bool
  | PlaceConversation string u32 string bool
  | UpdateTeam string u32 "string option" "string list" bool
  | StartWork "outcome_goal_input option" string string string string bool "string option"
      "string list option" "work_attachment list option"
    \<comment> \<open>goal, id, conversation, agent, prompt, discussion, parent message, recipients, attachments\<close>
  | BindWork string u32 string "work_attachment list option"
  | CheckWork string u32 string
  | FinishWork string u32 string work_status "string option"
  | StopWork string "u32 option"
  | StopProject string
  | ContinueWork string u32 bool
  | ArmProviderReset string u32 string bool
  | CancelProviderReset string u32
  | DispatchProviderResets
  | WorkStatus string u32 work_status "string option"
  | AgentAction string u32 string string agent_command
    \<comment> \<open>id, generation, run, call, command\<close>
  | SaveFact string string string string string string "string option"
    \<comment> \<open>project, conversation, id, kind, text, source, supersedes\<close>
  | ChangeFact string string string
  | PinFact string string bool
  | SaveLayout layout

section \<open>The branches that \<open>apply\<close> holds itself\<close>

definition steered :: "ctx \<Rightarrow> string \<Rightarrow> string \<Rightarrow> work \<Rightarrow> work" where
  "steered ctx event_id body it =
     (let uncertain = w_run_ids it \<noteq> [] in
      (require_review msg_reset_steered it)\<lparr>
        w_generation := w_generation it + 1, w_current_run_id := None,
        w_steering := w_steering it @ [\<lparr>ws_id = event_id, ws_text = body, ws_created_at = time ctx\<rparr>],
        w_status := (if uncertain then AwaitingUser else Queued),
        w_reason := Some (if uncertain then msg_steered_after_run else msg_steered_before),
        w_updated_at := time ctx\<rparr>)"

text \<open>The active children of an assignment lose their authority.\<close>

definition invalidate_children ::
  "ctx \<Rightarrow> (work \<Rightarrow> bool) \<Rightarrow> string \<Rightarrow> work_status \<Rightarrow> store \<Rightarrow> cerr + store" where
  "invalidate_children ctx affected reason status s =
     bindE (all_work s) (\<lambda>all.
     foldE (\<lambda>child. if affected child
                    then invalidate_descendants ctx (w_id child) reason status else Inr) all s)"

definition steer_work :: "ctx \<Rightarrow> string \<Rightarrow> u32 \<Rightarrow> string \<Rightarrow> string \<Rightarrow> store \<Rightarrow> cerr + store" where
  "steer_work ctx key expected event_id text0 s =
     bindE (check_id event_id) (\<lambda>_.
     bindE (bounded text0 2000 ''Steering'') (\<lambda>body.
     bindE (item s key) (\<lambda>it.
     if cloud_frozen it then Inl err_frozen_cloud_input else
     case find (\<lambda>e. ws_id e = event_id) (w_steering it) of
       Some e \<Rightarrow> if ws_text e = body then Inr s else Inl err_steering_id_used
     | None \<Rightarrow>
         if w_generation it \<noteq> expected \<or> 16 \<le> length (w_steering it) \<or> w_status it = Completed
         then Inl err_refresh_before_steering else
         bindE (put_work ctx (steered ctx event_id body it) s) (\<lambda>s1.
         invalidate_children ctx
           (\<lambda>child. w_parent_id child = Some key \<and> active (w_status child))
           msg_requester_steered AwaitingUser s1))))"

definition check_start_attachments :: "work_attachment list option \<Rightarrow> cerr + unit" where
  "check_start_attachments attachments =
     (case attachments of
        None \<Rightarrow> Inr ()
      | Some refs \<Rightarrow>
          bindE (validate_attachments refs) (\<lambda>_.
          if \<exists>a\<in>set refs. wa_availability a = ''transient'' \<or> wa_availability a = ''image-input''
          then Inl err_prepare_originals else Inr ()))"

definition start_goal :: "ctx \<Rightarrow> string \<Rightarrow> outcome_goal_input option \<Rightarrow> store \<Rightarrow> cerr + store" where
  "start_goal ctx key outcome_goal s =
     (case outcome_goal of
        None \<Rightarrow> Inr s
      | Some goal \<Rightarrow>
          bindE (item s key) (\<lambda>it.
          if (case w_outcome_goal it of
                None \<Rightarrow> False
              | Some existing \<Rightarrow> g_objective existing = gi_objective goal
                  \<and> g_success_criteria existing = gi_success_criteria goal)
             \<and> w_max_turns it = gi_max_turns goal \<and> w_max_tokens it = gi_max_tokens goal
          then Inr s
          else goal_set ctx key (w_generation it) (gi_objective goal) (gi_success_criteria goal)
                 (gi_max_turns goal) (gi_max_tokens goal) s))"

definition start_work ::
  "ctx \<Rightarrow> outcome_goal_input option \<Rightarrow> string \<Rightarrow> string \<Rightarrow> string \<Rightarrow> string \<Rightarrow> bool \<Rightarrow> string option
   \<Rightarrow> string list option \<Rightarrow> work_attachment list option \<Rightarrow> store \<Rightarrow> cerr + store" where
  "start_work ctx goal key conversation_id agent prompt discussion parent_message recipients
       attachments s =
     bindE (check_start_attachments attachments) (\<lambda>_.
     bindE (case recipients of
              Some ids \<Rightarrow>
                if ids = [] \<or> hd ids \<noteq> agent then Inl err_primary_first
                else start_for_recipients_with_parent ctx key conversation_id ids True prompt
                       discussion None parent_message attachments s
            | None \<Rightarrow> start_with_parent ctx key conversation_id agent prompt discussion None
                       parent_message attachments s) (\<lambda>s1.
     start_goal ctx key goal s1))"

definition stop_work :: "ctx \<Rightarrow> string \<Rightarrow> u32 option \<Rightarrow> store \<Rightarrow> cerr + store" where
  "stop_work ctx key expected s =
     bindE (item s key) (\<lambda>it.
     if (case expected of
           None \<Rightarrow> False
         | Some g \<Rightarrow> w_generation it \<noteq> g \<or> \<not> executing (w_status it) \<and> w_status it \<noteq> Queued)
     then Inr s
     else bindE (invalidate_descendants ctx key msg_stopped_by_user Cancelled s) (wake_waiters ctx))"

definition stop_project :: "ctx \<Rightarrow> string \<Rightarrow> store \<Rightarrow> cerr + store" where
  "stop_project ctx project s =
     bindE (project_team s project) (\<lambda>_.
     invalidate_children ctx
       (\<lambda>w. w_project_id w = Some project \<and> w_status w \<noteq> Completed) msg_project_stopped Cancelled s)"

definition preserved_recipient :: "work \<Rightarrow> work \<Rightarrow> bool" where
  "preserved_recipient it child =
     (w_parent_id it = None \<and> w_agent_id child \<in> set (w_recipient_ids it))"

definition work_status_op ::
  "ctx \<Rightarrow> string \<Rightarrow> u32 \<Rightarrow> work_status \<Rightarrow> string option \<Rightarrow> store \<Rightarrow> cerr + store" where
  "work_status_op ctx key generation status reason0 s =
     bindE (if status = Failed then current_for_failure key generation s
            else current ctx key generation None s) (\<lambda>it.
     if status \<notin> {AwaitingApproval, Running, Failed}
        \<or> executing status \<and> w_current_run_id it = None
     then Inl err_invalid_status_transition else
     bindE (case reason0 of None \<Rightarrow> Inr None
            | Some r \<Rightarrow> bindE (bounded r 2000 ''Status'') (\<lambda>r'. Inr (Some r'))) (\<lambda>reason.
     let it1 = it\<lparr>w_status := status, w_reason := reason, w_updated_at := time ctx\<rparr> in
     bindE (put_work ctx it1 s) (\<lambda>s1.
     bindE (if status = Failed then
              invalidate_children ctx
                (\<lambda>child. w_parent_id child = Some (w_id it1) \<and> active (w_status child)
                   \<and> \<not> preserved_recipient it1 child) msg_requester_failed Cancelled s1
            else Inr s1) (wake_waiters ctx))))"

definition finish_work ::
  "ctx \<Rightarrow> string \<Rightarrow> u32 \<Rightarrow> string \<Rightarrow> work_status \<Rightarrow> string option \<Rightarrow> store \<Rightarrow> cerr + store" where
  "finish_work ctx key generation run status reason s =
     bindE (item s key) (\<lambda>it.
     if w_execution_owner it = Some ''hosted'' then Inl err_cloud_receipt_needed
     else finish ctx key generation run status reason s)"

definition user_fact ::
  "ctx \<Rightarrow> string \<Rightarrow> string \<Rightarrow> string \<Rightarrow> string \<Rightarrow> string \<Rightarrow> string \<Rightarrow> string option \<Rightarrow> fact" where
  "user_fact ctx project conversation_id key kind body source supersedes =
     \<lparr>f_id = key, f_project_id = project, f_kind = kind, f_text = body, f_confidence = ''confirmed'',
      f_status = ''current'', f_conversation_id = conversation_id, f_run_id = None,
      f_branch_id = None, f_message_id = None, f_source_revision_id = None, f_pinned = False,
      f_source = source, f_supersedes_id = supersedes, f_created_at = time ctx\<rparr>"

section \<open>Apply\<close>

fun apply_command :: "ctx \<Rightarrow> command \<Rightarrow> store \<Rightarrow> cerr + store" where
  "apply_command ctx (LiveSteerWork _ _ _ _) s = Inl err_live_delivery_boundary"
| "apply_command ctx (EditQueuedWork key g prompt) s = queue_edit ctx key g prompt s"
| "apply_command ctx (SetWorkHeld key g h) s = queue_hold ctx key g h s"
| "apply_command ctx (MoveQueuedWork key g before) s = queue_move ctx key g before s"
| "apply_command ctx (SetOutcomeGoal key g obj crit turns tokens) s =
     goal_set ctx key g obj crit turns tokens s"
| "apply_command ctx (SetGoalPaused key g p) s = goal_pause ctx key g p s"
| "apply_command ctx (StartProviderContinuation key input fingerprint reconcile) s =
     continuation_start ctx key input fingerprint reconcile s"
| "apply_command ctx (SteerWork key g event body) s = steer_work ctx key g event body s"
| "apply_command ctx (ReplyWork key g event body) s = reply_user ctx key g event body s"
| "apply_command ctx (OpenMainChat agent) s =
     bindE (open_main ctx agent s) (\<lambda>(_, s'). Inr s')"
| "apply_command ctx (CreateConversation key title kind ids lead project) s =
     bindE (participants (profiles ctx) ids lead) (\<lambda>members.
     bindE (create_room ctx key title kind members lead project s) (\<lambda>(_, s'). Inr s'))"
| "apply_command ctx (RenameConversation key g title) s = chat_rename ctx key g title s"
| "apply_command ctx (SetConversationArchived key g archived) s =
     chat_set_archived ctx key g archived s"
| "apply_command ctx (DeleteConversation key g) s = chat_delete ctx key g s"
| "apply_command ctx (UpdateConversation key g title ids lead share) s =
     update_conversation ctx key g title ids lead share s"
| "apply_command ctx (PlaceConversation key g project share) s =
     place_conversation ctx key g project share s"
| "apply_command ctx (UpdateTeam project g lead ids share) s =
     update_team ctx project g lead ids share s"
| "apply_command ctx (StartWork goal key room_id agent prompt discussion pm ids attachments) s =
     start_work ctx goal key room_id agent prompt discussion pm ids attachments s"
| "apply_command ctx (BindWork key g run attachments) s = bind_work ctx key g run attachments s"
| "apply_command ctx (CheckWork key g run) s =
     bindE (current ctx key g (Some run) s) (\<lambda>_. Inr s)"
| "apply_command ctx (FinishWork key g run status reason) s =
     finish_work ctx key g run status reason s"
| "apply_command ctx (StopWork key expected) s = stop_work ctx key expected s"
| "apply_command ctx (StopProject project) s = stop_project ctx project s"
| "apply_command ctx (ContinueWork key g reconcile) s = continue_work ctx key g reconcile s"
| "apply_command ctx (ArmProviderReset key g opportunity_id reconcile) s =
     reset_arm ctx key g opportunity_id reconcile s"
| "apply_command ctx (CancelProviderReset key g) s = reset_cancel ctx key g s"
| "apply_command ctx DispatchProviderResets s = reset_dispatch ctx s"
| "apply_command ctx (WorkStatus key g status reason) s = work_status_op ctx key g status reason s"
| "apply_command ctx (AgentAction key g run call c) s = agent_command_op ctx key g run call c s"
| "apply_command ctx (SaveFact project room_id key kind body source supersedes) s =
     save_fact ctx (user_fact ctx project room_id key kind body source supersedes) None s"
| "apply_command ctx (ChangeFact key project status) s = change_fact ctx key project status s"
| "apply_command ctx (PinFact key project pinned) s = pin_fact ctx key project pinned s"
| "apply_command ctx (SaveLayout l) s = save_layout l s"

section \<open>Laws of the branches\<close>

lemma invalidate_children_law:
  assumes "invalidate_children ctx P reason st s = Inr s'" and "\<not> executing st"
  shows "advances work_quiet quiet_new s s'"
  using assms(1) unfolding invalidate_children_def
  by (elim bindE_elim quiet.adv_foldE [rotated]) (auto intro: invalidate_law [OF _ assms(2)] split: if_splits)

lemma steered_quiet:
  assumes "length (w_steering w) < 16"
  shows "work_quiet w (steered ctx ev body w)"
  unfolding steered_def Let_def
  by (subst require_review_fields)
    (use assms in \<open>simp add: work_law_defs work_wf_def split: if_split\<close>)

lemma steer_elim:
  assumes "steer_work ctx key g ev text0 s = Inr s'"
  obtains "s' = s"
  | (steered) body it s1 where "bounded text0 2000 ''Steering'' = Inr body"
      "tget (works s) key = Some it" "length (w_steering it) < 16" "w_generation it = g"
      "w_status it \<noteq> Completed" "\<not> cloud_frozen it"
      "find (\<lambda>e. ws_id e = ev) (w_steering it) = None"
      "put_work ctx (steered ctx ev body it) s = Inr s1"
      "invalidate_children ctx
           (\<lambda>child. w_parent_id child = Some key \<and> active (w_status child))
           msg_requester_steered AwaitingUser s1 = Inr s'"
  using assms unfolding steer_work_def
proof (elim result_elims, goal_cases)
  case (1 u body it)
  then show ?case
    by (cases "find (\<lambda>e. ws_id e = ev) (w_steering it)")
      (auto simp: bindE_Inr not_le split: if_splits)
qed

lemma steer_law: "steer_work ctx key g ev text0 s = Inr s' \<Longrightarrow> advances work_quiet quiet_new s s'"
proof (erule steer_elim, goal_cases)
  case (2 body it s1)
  have "advances work_quiet quiet_new s s1"
    by (rule quiet.adv_put [OF 2(2) _ 2(8)]) (rule steered_quiet [OF 2(3)])
  with invalidate_children_law [OF 2(9)] show ?case by (auto intro: quiet.adv_trans)
qed simp

lemma advances_conj:
  assumes "advances work_extends work_wf s s'" and "advances work_idle idle_new s s'"
  shows "advances work_calm calm_new s s'"
proof (unfold advances_def [of work_calm], intro impI conjI allI, goal_cases)
  case (2 k w)
  from advancesD(2) [OF assms(1) 2] advancesD(2) [OF assms(2) 2] show ?case
    by (metis option.inject work_calm_def)
next
  case (3 k w')
  from advancesD(3) [OF assms(1) 3] advancesD(3) [OF assms(2) 3] show ?case
    by (simp add: calm_new_def)
qed (use assms in \<open>simp_all add: advances_def\<close>)

lemma goal_set_calm: "goal_set ctx key g obj crit mt mk s = Inr s' \<Longrightarrow> advances work_calm calm_new s s'"
  by (rule advances_conj) (fact goal_set_law)+

lemma start_work_law:
  assumes "start_work ctx goal key c agent prompt disc pm ids atts s = Inr s'"
  shows "advances work_calm calm_new s s'"
  using assms unfolding start_work_def
proof (elim bindE_elim, goal_cases)
  case (1 u s1)
  from 1(2) have a: "advances work_calm calm_new s s1"
    by (cases ids) (auto intro!: quiet_calm start_for_recipients_law simp: start_with_parent_def split: if_splits)
  from 1(3) have "advances work_calm calm_new s1 s'"
    by (cases goal) (auto simp: start_goal_def bindE_Inr intro: goal_set_calm split: if_splits)
  with a show ?case by (rule calm.adv_trans)
qed

lemma stop_work_law: "stop_work ctx key e s = Inr s' \<Longrightarrow> advances work_quiet quiet_new s s'"
  unfolding stop_work_def
  by (elim bindE_elim)
    (auto simp: bindE_Inr intro: quiet.adv_trans [OF invalidate_law wake_waiters_law] split: if_splits)

lemma stop_project_law: "stop_project ctx p s = Inr s' \<Longrightarrow> advances work_quiet quiet_new s s'"
  unfolding stop_project_def by (elim bindE_elim) (simp add: invalidate_children_law)

lemma work_status_elim:
  assumes "work_status_op ctx key g st reason0 s = Inr s'"
  obtains it reason s1 s2 where "tget (works s) key = Some it" "w_generation it = g"
    "active (w_status it)" "st \<in> {AwaitingApproval, Running, Failed}"
    "executing st \<Longrightarrow> w_current_run_id it \<noteq> None"
    "put_work ctx (it\<lparr>w_status := st, w_reason := reason, w_updated_at := time ctx\<rparr>) s = Inr s1"
    "s2 = s1 \<or> (\<exists>P. invalidate_children ctx P msg_requester_failed Cancelled s1 = Inr s2)"
    "wake_waiters ctx s2 = Inr s'"
  using assms unfolding work_status_op_def Let_def
proof (elim bindE_elim guard_elim, goal_cases)
  case (1 it reason s1 s2)
  have it: "tget (works s) key = Some it" "w_generation it = g" "active (w_status it)"
  proof -
    have "tget (works s) key = Some it \<and> w_generation it = g \<and> active (w_status it)"
    proof (cases "st = Failed")
      case True
      with 1(2) show ?thesis by (auto simp: current_for_failure_def bindE_Inr split: if_splits)
    next
      case False
      with 1(2) current_item show ?thesis by simp
    qed
    then show "tget (works s) key = Some it" "w_generation it = g" "active (w_status it)" by simp_all
  qed
  with 1 show ?case by (intro 1(1) [of it reason s1 s2]) (auto split: if_splits)
qed

lemma work_status_law:
  assumes "work_status_op ctx key g st reason0 s = Inr s'"
  shows "advances work_extends work_wf s s'"
  using assms
proof (rule work_status_elim, goal_cases)
  case (1 it reason s1 s2)
  have "advances work_extends work_wf s s1"
    by (rule extends.adv_put [OF 1(1) _ 1(6)]) (use 1(4,5) in \<open>auto simp: work_law_defs work_wf_def\<close>)
  moreover have "advances work_extends work_wf s1 s2"
    using 1(7) invalidate_children_law by (auto intro: quiet_extends)
  ultimately show ?case
    using quiet_extends [OF wake_waiters_law [OF 1(8)]] extends.adv_trans by metis
qed

lemma finish_work_law:
  "finish_work ctx key g run st reason s = Inr s' \<Longrightarrow> advances work_quiet quiet_new s s'"
  unfolding finish_work_def by (elim bindE_elim) (auto intro: finish_law split: if_splits)

section \<open>The law of every command\<close>

text \<open>
  A tool call that delegates derives the id of its child from a digest; the laws need that the
  digest does not meet an existing record.
\<close>

definition fresh_command :: "ctx \<Rightarrow> command \<Rightarrow> store \<Rightarrow> bool" where
  "fresh_command ctx c s =
     (case c of AgentAction key g run call a \<Rightarrow> fresh_call ctx run call a s | _ \<Rightarrow> True)"

definition grants_execution :: "command \<Rightarrow> bool" where
  "grants_execution c =
     (case c of BindWork _ _ _ _ \<Rightarrow> True | WorkStatus _ _ _ _ \<Rightarrow> True | _ \<Rightarrow> False)"

lemmas quiet_laws = queue_edit_law queue_hold_law queue_move_law goal_pause_law steer_law
  reply_user_law chat_rename_law chat_set_archived_law chat_delete_law update_conversation_law
  place_conversation_law update_team_law finish_work_law stop_work_law stop_project_law
  reset_arm_law reset_cancel_law save_fact_law change_fact_law pin_fact_law save_layout_law
  continuation_start_law agent_command_law

lemmas calm_laws = quiet_laws [THEN quiet_calm] continue_law reset_dispatch_law start_work_law
  goal_set_calm

lemma apply_calm:
  assumes "apply_command ctx c s = Inr s'" and "fresh_command ctx c s" and "\<not> grants_execution c"
  shows "advances work_calm calm_new s s'"
proof (cases c)
  case (OpenMainChat agent)
  with assms(1) show ?thesis by (auto simp: bindE_Inr intro: quiet_calm open_main_law)
next
  case (CreateConversation key title kind ids lead project)
  with assms(1) show ?thesis by (auto simp: bindE_Inr intro: quiet_calm create_room_law)
next
  case (CheckWork key g run)
  with assms(1) show ?thesis by (auto simp: bindE_Inr)
qed (use assms in \<open>auto simp: fresh_command_def grants_execution_def intro: calm_laws\<close>)

lemma apply_extends:
  assumes "apply_command ctx c s = Inr s'" and "fresh_command ctx c s"
  shows "advances work_extends work_wf s s'"
proof (cases "grants_execution c")
  case True
  with assms show ?thesis
    by (cases c) (auto simp: grants_execution_def intro: bind_work_law work_status_law)
next
  case False
  with assms apply_calm show ?thesis by (metis calm_extends)
qed

end
