(* ===== verification/Message_Log.thy ===== *)
theory Message_Log
  imports Store_Laws Collab_Samples
begin

text \<open>
  The conversation log (\<open>store/repos/message.rs\<close>, \<open>thread.rs\<close> \<open>select_head\<close>): an append-only
  sequence of messages per thread, guarded by the expected head and an idempotency key, whose
  content changes only by appended revisions; a parent link per message makes the log a tree of
  branches, and readers take a page of the log, the path to a branch head or the heads. Content is
  scrubbed of secrets before it is sealed. \<open>log_ok\<close> is the invariant of the log.
\<close>

section \<open>Scrubbing\<close>

fun redact_json_like_ts :: "ctx \<Rightarrow> json \<Rightarrow> json" where
  "redact_json_like_ts ctx (JStr s) = JStr (redact_secret_text (inline_redactors ctx) s)"
| "redact_json_like_ts ctx (JArr items) = JArr (map (redact_json_like_ts ctx) items)"
| "redact_json_like_ts ctx (JObj members) =
     JObj (map (\<lambda>(k, v). (k, if is_sensitive_key k then JStr redacted_marker
                             else redact_json_like_ts ctx v)) members)"
| "redact_json_like_ts ctx v = v"

fun omit_surviving_secret_leaves :: "ctx \<Rightarrow> json \<Rightarrow> json" where
  "omit_surviving_secret_leaves ctx (JStr s) =
     (if secret_marker_survives (surviving_patterns ctx) s then JStr omitted_marker else JStr s)"
| "omit_surviving_secret_leaves ctx (JArr items) =
     JArr (map (omit_surviving_secret_leaves ctx) items)"
| "omit_surviving_secret_leaves ctx (JObj members) =
     JObj (map (\<lambda>(k, v). (k, omit_surviving_secret_leaves ctx v)) members)"
| "omit_surviving_secret_leaves ctx v = v"

definition looks_like_json_document :: "string \<Rightarrow> bool" where
  "looks_like_json_document s =
     (s \<noteq> [] \<and> (hd s = CHR ''{'' \<and> last s = CHR ''}'' \<or> hd s = CHR ''['' \<and> last s = CHR '']''))"

definition scrub_persisted_text :: "ctx \<Rightarrow> string \<Rightarrow> string" where
  "scrub_persisted_text ctx value =
     (let trimmed = trim value in
      case (if looks_like_json_document trimmed then json_parse ctx trimmed else None) of
        Some parsed \<Rightarrow>
          (let serialized = json_print ctx (redact_json_like_ts ctx parsed) in
           if secret_marker_survives (surviving_patterns ctx) serialized then omitted_marker else serialized)
      | None \<Rightarrow> redact_secret_text_or_omit (inline_redactors ctx) (surviving_patterns ctx) value)"

definition scrub_before_seal :: "ctx \<Rightarrow> json \<Rightarrow> json" where
  "scrub_before_seal ctx value =
     (case value of
        JStr s \<Rightarrow> JStr (scrub_persisted_text ctx s)
      | v \<Rightarrow> omit_surviving_secret_leaves ctx (redact_json_like_ts ctx v))"

section \<open>Errors\<close>

definition err_message_id :: cerr where
  "err_message_id = Invalid ''Message id must be 1-128 URL-safe characters.''"

definition err_revision_id :: cerr where
  "err_revision_id = Invalid ''Message revision id must be 1-128 URL-safe characters.''"

definition err_vocabulary :: cerr where
  "err_vocabulary = Invalid ''Conversation message vocabulary is invalid.''"

definition err_replay_conflict :: cerr where
  "err_replay_conflict = Invalid ''Conflicting idempotent message replay.''"

definition err_sequence :: cerr where
  "err_sequence = Invalid ''Message sequence is stale or non-monotonic.''"

definition err_branch_parent :: cerr where
  "err_branch_parent = Invalid ''Message branch parent does not belong to this conversation.''"

definition err_message_foreign :: cerr where
  "err_message_foreign = Invalid ''Message does not belong to this workspace.''"

definition err_revision_conflict :: cerr where
  "err_revision_conflict = Invalid ''Conflicting idempotent revision replay.''"

definition err_revision_stale :: cerr where
  "err_revision_stale = Invalid ''Message revision is stale.''"

definition err_revision_state :: cerr where
  "err_revision_state = Invalid ''Message revision state is invalid.''"

definition err_edited_message :: cerr where
  "err_edited_message = Invalid ''The edited message is unavailable in this conversation.''"

definition err_alternative :: cerr where
  "err_alternative = Invalid ''Only a saved user message can start an alternative.''"

definition err_branch_head :: cerr where
  "err_branch_head = Invalid ''Selected branch head does not belong to this conversation.''"

definition err_unique_message :: cerr where
  "err_unique_message = Invalid ''UNIQUE constraint failed: message.id''"

definition err_unique_revision :: cerr where
  "err_unique_revision = Invalid ''UNIQUE constraint failed: message_revision.id''"

section \<open>Append and revise\<close>

definition normalize_id :: "cerr \<Rightarrow> string \<Rightarrow> cerr + string" where
  "normalize_id err value =
     (let v = trim value in
      if v \<noteq> [] \<and> length v \<le> 128 \<and> list_all (\<lambda>c. ascii_alphanumeric c \<or> c \<in> set ''._:-'') v
      then Inr v else Inl err)"

text \<open>The arguments of an append; \<open>parent\<close> is \<open>None\<close> when the caller leaves the branch to the log.\<close>

record append_input =
  ai_id :: string
  ai_kind :: string
  ai_detail :: json
  ai_run_id :: "string option"
  ai_sequence :: int
  ai_expected :: int
  ai_previous :: "string option"
  ai_parent :: "string option option"
  ai_idempotency :: string
  ai_revision_id :: string
  ai_state :: string
  ai_reason :: string
  ai_content :: json
  ai_at :: string

definition in_thread :: "store \<Rightarrow> string \<Rightarrow> string \<Rightarrow> bool" where
  "in_thread s thread key = (\<exists>m\<in>set (messages s). m_thread_id m = thread \<and> m_id m = key)"

definition appended_message ::
  "ctx \<Rightarrow> string \<Rightarrow> string \<Rightarrow> string \<Rightarrow> string option \<Rightarrow> append_input \<Rightarrow> message_row" where
  "appended_message ctx thread key revision parent a =
     \<lparr>m_id = key, m_thread_id = thread, m_sequence = ai_sequence a, m_parent_id = parent,
      m_previous_id = ai_previous a, m_kind = ai_kind a, m_run_id = ai_run_id a,
      m_detail = scrub_before_seal ctx (ai_detail a), m_idempotency = ai_idempotency a,
      m_current_revision_id = revision, m_current_revision_number = 1,
      m_current_revision_state = ai_state a, m_created_at = ai_at a\<rparr>"

definition first_revision :: "ctx \<Rightarrow> string \<Rightarrow> string \<Rightarrow> append_input \<Rightarrow> revision_row" where
  "first_revision ctx key revision a =
     \<lparr>rv_id = revision, rv_message_id = key, rv_number = 1, rv_base = 0, rv_previous_id = None,
      rv_state = ai_state a, rv_reason = ai_reason a, rv_idempotency = ai_idempotency a,
      rv_run_id = ai_run_id a, rv_content = scrub_before_seal ctx (ai_content a),
      rv_created_at = ai_at a\<rparr>"

definition append_with_parent ::
  "ctx \<Rightarrow> string \<Rightarrow> append_input \<Rightarrow> store \<Rightarrow> cerr + store" where
  "append_with_parent ctx thread a s =
     bindE (normalize_id err_message_id (ai_id a)) (\<lambda>key.
     bindE (normalize_id err_revision_id (ai_revision_id a)) (\<lambda>revision.
     if ai_kind a \<notin> {''user'', ''assistant'', ''tool'', ''approval'', ''interruption'', ''error''}
        \<or> ai_state a \<notin> {''streaming'', ''terminal'', ''redacted''}
     then Inl err_vocabulary else
     bindE (ok_or err_thread_foreign (tget (threads s) thread)) (\<lambda>th.
     case find (\<lambda>m. m_thread_id m = thread \<and> m_idempotency m = ai_idempotency a) (messages s) of
       Some existing \<Rightarrow> if m_id existing = key then Inr s else Inl err_replay_conflict
     | None \<Rightarrow>
         if th_last_sequence th \<noteq> ai_expected a \<or> ai_sequence a \<noteq> th_last_sequence th + 1
            \<or> ai_previous a \<noteq> th_last_message_id th
         then Inl err_sequence else
         let parent = (case ai_parent a of
                         Some p \<Rightarrow> p
                       | None \<Rightarrow> (case th_selected_head_id th of
                                   Some h \<Rightarrow> Some h | None \<Rightarrow> ai_previous a)) in
         if (case parent of None \<Rightarrow> False | Some p \<Rightarrow> \<not> in_thread s thread p)
         then Inl err_branch_parent
         else if \<exists>m\<in>set (messages s). m_id m = key then Inl err_unique_message
         else if \<exists>r\<in>set (message_revisions s). rv_id r = revision then Inl err_unique_revision
         else Inr (s\<lparr>
           messages := messages s @ [appended_message ctx thread key revision parent a],
           message_revisions := message_revisions s @ [first_revision ctx key revision a],
           threads := tput thread (th\<lparr>th_last_sequence := ai_sequence a,
             th_last_message_id := Some key, th_selected_head_id := Some key,
             th_updated_at := ai_at a\<rparr>) (threads s)\<rparr>))))"

definition append :: "ctx \<Rightarrow> string \<Rightarrow> append_input \<Rightarrow> store \<Rightarrow> cerr + store" where
  "append ctx thread a s = append_with_parent ctx thread (a\<lparr>ai_parent := None\<rparr>) s"

record revise_input =
  ri_message_id :: string
  ri_revision_id :: string
  ri_base :: int
  ri_previous :: "string option"
  ri_idempotency :: string
  ri_state :: string
  ri_reason :: string
  ri_content :: json
  ri_run_id :: "string option"
  ri_at :: string

definition revised_row :: "revise_input \<Rightarrow> message_row \<Rightarrow> message_row" where
  "revised_row r m =
     m\<lparr>m_current_revision_id := ri_revision_id r,
       m_current_revision_number := m_current_revision_number m + 1,
       m_current_revision_state := ri_state r\<rparr>"

definition revise :: "ctx \<Rightarrow> string \<Rightarrow> revise_input \<Rightarrow> store \<Rightarrow> cerr + store" where
  "revise ctx thread r s =
     bindE (ok_or err_message_foreign
       (find (\<lambda>m. m_thread_id m = thread \<and> m_id m = ri_message_id r) (messages s))) (\<lambda>cur.
     case find (\<lambda>v. rv_message_id v = ri_message_id r \<and> rv_idempotency v = ri_idempotency r)
            (message_revisions s) of
       Some existing \<Rightarrow> if rv_id existing = ri_revision_id r then Inr s else Inl err_revision_conflict
     | None \<Rightarrow>
         if ri_base r \<noteq> m_current_revision_number cur
            \<or> ri_previous r \<noteq> Some (m_current_revision_id cur)
         then Inl err_revision_stale else
         if ri_state r \<notin> {''streaming'', ''terminal'', ''redacted''} then Inl err_revision_state else
         if \<exists>v\<in>set (message_revisions s). rv_id v = ri_revision_id r then Inl err_unique_revision
         else Inr (s\<lparr>
           message_revisions := message_revisions s @
             [\<lparr>rv_id = ri_revision_id r, rv_message_id = ri_message_id r,
               rv_number = m_current_revision_number cur + 1, rv_base = ri_base r,
               rv_previous_id = ri_previous r, rv_state = ri_state r, rv_reason = ri_reason r,
               rv_idempotency = ri_idempotency r, rv_run_id = ri_run_id r,
               rv_content = scrub_before_seal ctx (ri_content r), rv_created_at = ri_at r\<rparr>],
           messages := map (\<lambda>m. if m_thread_id m = thread \<and> m_id m = ri_message_id r
                                 then revised_row r m else m) (messages s)\<rparr>))"

definition select_head :: "string \<Rightarrow> string option \<Rightarrow> string \<Rightarrow> store \<Rightarrow> cerr + store" where
  "select_head thread head at' s =
     bindE (ok_or err_thread_foreign (tget (threads s) thread)) (\<lambda>th.
     if (case head of None \<Rightarrow> False | Some h \<Rightarrow> \<not> in_thread s thread h) then Inl err_branch_head
     else Inr (s\<lparr>threads := tput thread
                 (th\<lparr>th_selected_head_id := head, th_updated_at := at'\<rparr>) (threads s)\<rparr>))"

section \<open>Reads\<close>

lemma find_SomeD: "find P xs = Some x \<Longrightarrow> x \<in> set xs \<and> P x"
  by (induction xs) (auto split: if_splits)

text \<open>\<open>LIMIT n OFFSET k\<close> on the log in sequence order.\<close>

definition list_page :: "store \<Rightarrow> string \<Rightarrow> int \<Rightarrow> int \<Rightarrow> cerr + message_row list" where
  "list_page s thread limit offset =
     bindE (message_list s thread) (\<lambda>ms. Inr (take (nat limit) (drop (nat offset) ms)))"

definition list_before :: "store \<Rightarrow> string \<Rightarrow> int \<Rightarrow> int option \<Rightarrow> cerr + message_row list" where
  "list_before s thread limit before =
     bindE (message_list s thread) (\<lambda>ms.
     let ms' = filter (\<lambda>m. case before of None \<Rightarrow> True | Some b \<Rightarrow> m_sequence m < b) ms in
     Inr (rev (take (nat (max limit 1)) (rev ms'))))"

text \<open>The parent chain from a head, with the source's guard against a repeated id.\<close>

function branch_walk :: "message_row list \<Rightarrow> string list \<Rightarrow> string \<Rightarrow> message_row list" where
  "branch_walk rows seen current =
     (if current \<in> set seen then []
      else case find (\<lambda>m. m_id m = current) rows of
        None \<Rightarrow> []
      | Some row \<Rightarrow> row # (case m_parent_id row of
                             None \<Rightarrow> []
                           | Some p \<Rightarrow> branch_walk rows (current # seen) p))"
  by pat_completeness auto
termination
proof (relation "measure (\<lambda>(rows, seen, current). card (m_id ` set rows - set seen))", goal_cases)
  case (2 rows seen current row p)
  from find_SomeD [OF 2(2)] have c: "m_id row = current" and "row \<in> set rows" by simp_all
  then have "m_id row \<in> m_id ` set rows" by (intro imageI)
  with c 2(1) have "card (m_id ` set rows - set seen - {current}) < card (m_id ` set rows - set seen)"
    by (intro card_Diff1_less) simp_all
  moreover have "m_id ` set rows - set (current # seen) = m_id ` set rows - set seen - {current}"
    by fastforce
  ultimately show ?case by simp
qed simp

declare branch_walk.simps [simp del]

definition list_branch :: "store \<Rightarrow> string \<Rightarrow> string option \<Rightarrow> cerr + message_row list" where
  "list_branch s thread head =
     bindE (message_list s thread) (\<lambda>rows.
     Inr (case head of None \<Rightarrow> [] | Some h \<Rightarrow> rev (branch_walk rows [] h)))"

definition list_selected :: "store \<Rightarrow> string \<Rightarrow> cerr + message_row list" where
  "list_selected s thread =
     list_branch s thread
       (case tget (threads s) thread of
          None \<Rightarrow> None
        | Some th \<Rightarrow> (case th_selected_head_id th of Some h \<Rightarrow> Some h | None \<Rightarrow> th_last_message_id th))"

definition edit_parent :: "store \<Rightarrow> string \<Rightarrow> string \<Rightarrow> cerr + string option" where
  "edit_parent s thread source =
     bindE (message_list s thread) (\<lambda>rows.
     bindE (ok_or err_edited_message (find (\<lambda>m. m_id m = source) rows)) (\<lambda>row.
     if m_kind row \<noteq> ''user'' \<or> m_current_revision_state row \<noteq> ''terminal'' then Inl err_alternative
     else Inr (m_parent_id row)))"

definition list_branch_heads :: "store \<Rightarrow> string \<Rightarrow> int \<Rightarrow> cerr + string list" where
  "list_branch_heads s thread limit =
     bindE (message_list s thread) (\<lambda>rows.
     let heads = filter (\<lambda>m. m_kind m \<in> {''user'', ''assistant''}
                   \<and> \<not> (\<exists>c\<in>set rows. m_parent_id c = Some (m_id m))) rows in
     Inr (rev (take (nat (max limit 1)) (rev (map m_id heads)))))"

section \<open>Scrubbed content\<close>

fun string_leaves :: "json \<Rightarrow> string list" where
  "string_leaves (JStr s) = [s]"
| "string_leaves (JArr items) = concat (map string_leaves items)"
| "string_leaves (JObj members) = concat (map (\<lambda>(k, v). string_leaves v) members)"
| "string_leaves v = []"

definition clean_leaf :: "ctx \<Rightarrow> string \<Rightarrow> bool" where
  "clean_leaf ctx x = (x = omitted_marker \<or> \<not> secret_marker_survives (surviving_patterns ctx) x)"

lemma omitted_leaves_clean: "list_all (clean_leaf ctx) (string_leaves (omit_surviving_secret_leaves ctx v))"
proof (induction ctx v rule: omit_surviving_secret_leaves.induct)
  case (2 ctx items)
  then show ?case by (simp add: list_all_iff)
next
  case (3 ctx members)
  then show ?case by (fastforce simp: list_all_iff)
qed (simp_all add: clean_leaf_def)

text \<open>No content is saved with a surviving secret marker: every string in a scrubbed value, at
  any depth, either matches none of the vocabulary's surviving patterns or is the marker that
  replaces the whole text.\<close>

theorem scrubbed_is_clean: "list_all (clean_leaf ctx) (string_leaves (scrub_before_seal ctx v))"
proof (cases v)
  case (JStr x)
  then show ?thesis
    by (simp add: scrub_before_seal_def scrub_persisted_text_def redact_secret_text_or_omit_def
        Let_def clean_leaf_def split: option.split)
qed (simp_all add: scrub_before_seal_def omitted_leaves_clean
      del: omit_surviving_secret_leaves.simps)

section \<open>The invariant of the log\<close>

definition log_of :: "store \<Rightarrow> string \<Rightarrow> message_row list" where
  "log_of s thread = filter (\<lambda>m. m_thread_id m = thread) (messages s)"

definition revisions_of :: "store \<Rightarrow> string \<Rightarrow> revision_row list" where
  "revisions_of s key = filter (\<lambda>r. rv_message_id r = key) (message_revisions s)"

definition thread_log_ok :: "store \<Rightarrow> string \<Rightarrow> thread_row \<Rightarrow> bool" where
  "thread_log_ok s key th =
     (map m_sequence (log_of s key) = [1..th_last_sequence th] \<and> 0 \<le> th_last_sequence th
      \<and> th_last_message_id th = (if log_of s key = [] then None else Some (m_id (last (log_of s key))))
      \<and> (\<forall>h. th_selected_head_id th = Some h \<longrightarrow> in_thread s key h))"

definition message_ok :: "store \<Rightarrow> message_row \<Rightarrow> bool" where
  "message_ok s m =
     (tget (threads s) (m_thread_id m) \<noteq> None
      \<and> (\<forall>p. m_parent_id m = Some p \<longrightarrow> (\<exists>q\<in>set (messages s). m_id q = p
            \<and> m_thread_id q = m_thread_id m \<and> m_sequence q < m_sequence m))
      \<and> map rv_number (revisions_of s (m_id m)) = [1..m_current_revision_number m]
      \<and> 1 \<le> m_current_revision_number m
      \<and> rv_id (last (revisions_of s (m_id m))) = m_current_revision_id m
      \<and> rv_state (last (revisions_of s (m_id m))) = m_current_revision_state m)"

definition log_ok :: "store \<Rightarrow> bool" where
  "log_ok s =
     (tinv (threads s) \<and> distinct (map m_id (messages s)) \<and> distinct (map rv_id (message_revisions s))
      \<and> (\<forall>r\<in>set (message_revisions s). rv_message_id r \<in> m_id ` set (messages s))
      \<and> (\<forall>m\<in>set (messages s). message_ok s m)
      \<and> (\<forall>key th. tget (threads s) key = Some th \<longrightarrow> thread_log_ok s key th))"

lemma append_elim:
  assumes "append_with_parent ctx thread a s = Inr s'"
  obtains (replay) m where "s' = s" "m \<in> set (messages s)" "m_thread_id m = thread"
      "find (\<lambda>m. m_thread_id m = thread \<and> m_idempotency m = ai_idempotency a) (messages s) = Some m"
      "m_idempotency m = ai_idempotency a" "normalize_id err_message_id (ai_id a) = Inr (m_id m)"
  | (appended) key revision th parent where
      "normalize_id err_message_id (ai_id a) = Inr key" "tget (threads s) thread = Some th"
      "find (\<lambda>m. m_thread_id m = thread \<and> m_idempotency m = ai_idempotency a) (messages s) = None"
      "ai_expected a = th_last_sequence th" "ai_sequence a = th_last_sequence th + 1"
      "ai_previous a = th_last_message_id th"
      "\<And>p. parent = Some p \<Longrightarrow> in_thread s thread p"
      "key \<notin> m_id ` set (messages s)" "revision \<notin> rv_id ` set (message_revisions s)"
      "s' = s\<lparr>messages := messages s @ [appended_message ctx thread key revision parent a],
           message_revisions := message_revisions s @ [first_revision ctx key revision a],
           threads := tput thread (th\<lparr>th_last_sequence := ai_sequence a,
             th_last_message_id := Some key, th_selected_head_id := Some key,
             th_updated_at := ai_at a\<rparr>) (threads s)\<rparr>"
proof (cases "find (\<lambda>m. m_thread_id m = thread \<and> m_idempotency m = ai_idempotency a) (messages s)")
  case (Some m)
  show ?thesis
    using assms unfolding append_with_parent_def Let_def Some option.case
  proof (elim result_elims, goal_cases)
    case (1 key revision th)
    with Some find_SomeD [OF Some] show ?case by (intro replay [of m]) (simp_all split: if_splits)
  qed
next
  case None
  show ?thesis
    using assms unfolding append_with_parent_def Let_def None option.case
  proof (elim result_elims, goal_cases)
    case (1 key revision th)
    let ?parent = "case ai_parent a of Some p \<Rightarrow> p
      | None \<Rightarrow> (case th_selected_head_id th of Some h \<Rightarrow> Some h | None \<Rightarrow> ai_previous a)"
    from 1 have "in_thread s thread p" if "?parent = Some p" for p using that by simp
    moreover have "\<forall>m\<in>set (messages s). key \<noteq> m_id m"
        "\<forall>r\<in>set (message_revisions s). revision \<noteq> rv_id r"
      using 1 by metis+
    ultimately show ?case
      using 1 None by (intro appended [of key th ?parent revision]) (simp_all add: image_iff)
  qed
qed

lemma log_okD:
  assumes "log_ok s"
  shows "tinv (threads s)" "distinct (map m_id (messages s))" "distinct (map rv_id (message_revisions s))"
    "r \<in> set (message_revisions s) \<Longrightarrow> rv_message_id r \<in> m_id ` set (messages s)"
    "m \<in> set (messages s) \<Longrightarrow> message_ok s m"
    "tget (threads s) key = Some th \<Longrightarrow> thread_log_ok s key th"
  using assms by (simp_all add: log_ok_def)

lemma sequence_bound:
  assumes "log_ok s" and "tget (threads s) key = Some th" and "m \<in> set (messages s)"
    and "m_thread_id m = key"
  shows "1 \<le> m_sequence m \<and> m_sequence m \<le> th_last_sequence th"
proof -
  have "m_sequence m \<in> set (map m_sequence (log_of s key))"
    using assms(3,4) by (simp add: log_of_def)
  also have "\<dots> = {1..th_last_sequence th}"
    using log_okD(6) [OF assms(1,2)] by (simp add: thread_log_ok_def del: set_map)
  finally show ?thesis by simp
qed

lemma in_thread_iff: "in_thread s thread key \<longleftrightarrow> (\<exists>m\<in>set (log_of s thread). m_id m = key)"
  by (simp add: in_thread_def log_of_def) metis

lemma no_revisions:
  assumes "log_ok s" and "key \<notin> m_id ` set (messages s)"
  shows "revisions_of s key = []"
  using log_okD(4) [OF assms(1)] assms(2) by (fastforce simp: revisions_of_def filter_empty_conv)

text \<open>A step of the log that only adds at its end.\<close>

lemma append_log_ok:
  assumes ok: "log_ok s" and th: "tget (threads s) thread = Some th"
    and m: "m_id m = key" "m_thread_id m = thread" "m_sequence m = th_last_sequence th + 1"
      "m_current_revision_number m = 1" "m_current_revision_id m = rv_id r"
      "m_current_revision_state m = rv_state r"
    and par: "\<And>p. m_parent_id m = Some p \<Longrightarrow> in_thread s thread p"
    and fresh: "key \<notin> m_id ` set (messages s)" "rv_id r \<notin> rv_id ` set (message_revisions s)"
    and r: "rv_message_id r = key" "rv_number r = 1"
    and s': "messages s' = messages s @ [m]" "message_revisions s' = message_revisions s @ [r]"
      "threads s' = tput thread th' (threads s)"
    and th': "th_last_sequence th' = m_sequence m" "th_last_message_id th' = Some key"
      "th_selected_head_id th' = Some key"
  shows "log_ok s'"
proof -
  have logs: "log_of s' k = (if k = thread then log_of s k @ [m] else log_of s k)" for k
    using s'(1) m(2) by (simp add: log_of_def)
  have revs: "revisions_of s' k = (if k = key then [r] else revisions_of s k)" for k
    using s'(2) r(1) no_revisions [OF ok fresh(1)] by (simp add: revisions_of_def)
  have thread_log: "thread_log_ok s' k v" if "tget (threads s') k = Some v" for k v
  proof (cases "k = thread")
    case True
    have old: "map m_sequence (log_of s thread) = [1..th_last_sequence th]" "0 \<le> th_last_sequence th"
      using log_okD(6) [OF ok th] by (simp_all add: thread_log_ok_def)
    moreover have "[1..th_last_sequence th + 1] = [1..th_last_sequence th] @ [th_last_sequence th + 1]"
      using old(2) upto_rec2 [of 1 "th_last_sequence th + 1"] by simp
    ultimately show ?thesis
      using that True s'(3) th' m by (simp add: thread_log_ok_def logs tget_tput in_thread_iff)
  next
    case False
    with that s'(3) have "tget (threads s) k = Some v" by (simp add: tget_tput)
    from log_okD(6) [OF ok this] False show ?thesis
      by (simp add: thread_log_ok_def logs in_thread_iff)
  qed
  have old_ok: "message_ok s' q" if q: "q \<in> set (messages s)" for q
  proof -
    have "m_id q \<noteq> key" using fresh(1) q by fastforce
    with log_okD(5) [OF ok q] show ?thesis
      unfolding message_ok_def revs s'(1,3) by (simp add: tget_tput)
  qed
  have new_ok: "message_ok s' m"
  proof -
    have "\<exists>q\<in>set (messages s'). m_id q = p \<and> m_thread_id q = m_thread_id m \<and> m_sequence q < m_sequence m"
      if "m_parent_id m = Some p" for p
    proof -
      from par [OF that] obtain q where q: "q \<in> set (messages s)" "m_thread_id q = thread" "m_id q = p"
        by (simp add: in_thread_def) metis
      with sequence_bound [OF ok th q(1,2)] m(2,3) s'(1) show ?thesis by (intro bexI [of _ q]) simp_all
    qed
    then show ?thesis
      using s'(3) m r by (simp add: message_ok_def revs tget_tput)
  qed
  show ?thesis
    unfolding log_ok_def
  proof (intro conjI ballI allI impI)
    show "tinv (threads s')" using log_okD(1) [OF ok] s'(3) by (simp add: tinv_tput)
    show "distinct (map m_id (messages s'))" using log_okD(2) [OF ok] s'(1) fresh(1) m(1) by simp
    show "distinct (map rv_id (message_revisions s'))" using log_okD(3) [OF ok] s'(2) fresh(2) by simp
    show "rv_message_id v \<in> m_id ` set (messages s')" if "v \<in> set (message_revisions s')" for v
      using that log_okD(4) [OF ok, of v] s'(1,2) r(1) m(1) by (simp only: set_append) fastforce
    show "message_ok s' q" if "q \<in> set (messages s')" for q
    proof (cases "q = m")
      case False
      with that s'(1) old_ok show ?thesis by simp
    qed (simp add: new_ok)
    show "thread_log_ok s' k v" if "tget (threads s') k = Some v" for k v
      using that by (rule thread_log)
  qed
qed

lemma append_keeps_log: "append_with_parent ctx thread a s = Inr s' \<Longrightarrow> log_ok s \<Longrightarrow> log_ok s'"
proof (erule append_elim, simp, goal_cases)
  case (1 key revision th parent)
  let ?m = "appended_message ctx thread key revision parent a"
  let ?th = "th\<lparr>th_last_sequence := ai_sequence a, th_last_message_id := Some key,
        th_selected_head_id := Some key, th_updated_at := ai_at a\<rparr>"
  show ?case
    by (rule append_log_ok [OF 1(1) 1(3), where m = ?m and r = "first_revision ctx key revision a" and th' = ?th])
      (use 1 in \<open>simp_all add: appended_message_def first_revision_def\<close>)
qed

definition revise_at :: "string \<Rightarrow> revise_input \<Rightarrow> message_row \<Rightarrow> message_row" where
  "revise_at thread r m =
     (if m_thread_id m = thread \<and> m_id m = ri_message_id r then revised_row r m else m)"

definition next_revision :: "ctx \<Rightarrow> revise_input \<Rightarrow> message_row \<Rightarrow> revision_row" where
  "next_revision ctx r cur =
     \<lparr>rv_id = ri_revision_id r, rv_message_id = ri_message_id r,
      rv_number = m_current_revision_number cur + 1, rv_base = ri_base r,
      rv_previous_id = ri_previous r, rv_state = ri_state r, rv_reason = ri_reason r,
      rv_idempotency = ri_idempotency r, rv_run_id = ri_run_id r,
      rv_content = scrub_before_seal ctx (ri_content r), rv_created_at = ri_at r\<rparr>"

lemma revise_at_fixed [simp]:
  "m_id (revise_at thread r m) = m_id m" "m_thread_id (revise_at thread r m) = m_thread_id m"
  "m_sequence (revise_at thread r m) = m_sequence m" "m_parent_id (revise_at thread r m) = m_parent_id m"
  "m_previous_id (revise_at thread r m) = m_previous_id m" "m_kind (revise_at thread r m) = m_kind m"
  "m_run_id (revise_at thread r m) = m_run_id m" "m_detail (revise_at thread r m) = m_detail m"
  "m_idempotency (revise_at thread r m) = m_idempotency m"
  "m_created_at (revise_at thread r m) = m_created_at m"
  by (simp_all add: revise_at_def revised_row_def)

lemma revise_elim:
  assumes "revise ctx thread r s = Inr s'"
  obtains (replay) v where "s' = s" "v \<in> set (message_revisions s)" "rv_id v = ri_revision_id r"
      "rv_message_id v = ri_message_id r"
  | (revised) cur where "cur \<in> set (messages s)" "m_thread_id cur = thread" "m_id cur = ri_message_id r"
      "ri_base r = m_current_revision_number cur" "ri_previous r = Some (m_current_revision_id cur)"
      "ri_revision_id r \<notin> rv_id ` set (message_revisions s)"
      "s' = s\<lparr>message_revisions := message_revisions s @ [next_revision ctx r cur],
              messages := map (revise_at thread r) (messages s)\<rparr>"
proof (cases "find (\<lambda>v. rv_message_id v = ri_message_id r \<and> rv_idempotency v = ri_idempotency r)
            (message_revisions s)")
  case (Some v)
  show ?thesis
    using assms unfolding revise_def Some option.case
  proof (elim result_elims, goal_cases)
    case (1 cur)
    with find_SomeD [OF Some] show ?case by (intro replay [of v]) (simp_all split: if_splits)
  qed
next
  case None
  show ?thesis
    using assms unfolding revise_def None option.case
  proof (elim result_elims, goal_cases)
    case (1 cur)
    have "\<forall>v\<in>set (message_revisions s). ri_revision_id r \<noteq> rv_id v" using 1 by metis
    with 1 find_SomeD [of "\<lambda>m. m_thread_id m = thread \<and> m_id m = ri_message_id r" "messages s" cur]
    show ?case
      by (intro revised [of cur]) (simp_all add: image_iff next_revision_def revise_at_def [abs_def])
  qed
qed

lemma revise_keeps_log:
  assumes "revise ctx thread r s = Inr s'" and ok: "log_ok s"
  shows "log_ok s'"
  using assms(1)
proof (cases rule: revise_elim)
  case (revised cur)
  let ?v = "next_revision ctx r cur"
  have s': "messages s' = map (revise_at thread r) (messages s)" "threads s' = threads s"
    "message_revisions s' = message_revisions s @ [?v]"
    using revised(7) by simp_all
  have v: "rv_message_id ?v = m_id cur" "rv_id ?v = ri_revision_id r" "rv_state ?v = ri_state r"
    "rv_number ?v = m_current_revision_number cur + 1"
    using revised(3) by (simp_all add: next_revision_def)
  have logs: "log_of s' k = map (revise_at thread r) (log_of s k)" for k
    by (simp add: log_of_def s'(1) filter_map comp_def)
  have revs: "revisions_of s' k = revisions_of s k @ (if k = m_id cur then [?v] else [])" for k
    by (simp add: revisions_of_def s'(3) v)
  have inth: "in_thread s' k h = in_thread s k h" for k h by (simp add: in_thread_iff logs)
  have only: "q = cur" if "q \<in> set (messages s)" "m_id q = m_id cur" for q
    using that revised(1) log_okD(2) [OF ok] by (simp add: distinct_map inj_on_def)
  have other: "revise_at thread r q = q" if "q \<in> set (messages s)" "q \<noteq> cur" for q
    using that only [of q] revised(3) by (simp add: revise_at_def) metis
  have par: "(\<exists>q\<in>set (messages s'). m_id q = p \<and> m_thread_id q = k \<and> m_sequence q < n)
      = (\<exists>q\<in>set (messages s). m_id q = p \<and> m_thread_id q = k \<and> m_sequence q < n)" for p k n
    by (simp add: s'(1))
  have cur: "m_current_revision_number (revise_at thread r cur) = m_current_revision_number cur + 1"
    "m_current_revision_id (revise_at thread r cur) = ri_revision_id r"
    "m_current_revision_state (revise_at thread r cur) = ri_state r"
    by (simp_all add: revise_at_def revised(2,3) revised_row_def)
  have ok_cur: "message_ok s' (revise_at thread r cur)"
    using log_okD(5) [OF ok revised(1)] upto_rec2 [of 1 "m_current_revision_number cur + 1"]
    unfolding message_ok_def par revs s'(2) cur by (simp add: v)
  have oks: "message_ok s' (revise_at thread r q)" if q: "q \<in> set (messages s)" for q
  proof (cases "q = cur")
    case False
    with only q have "m_id q \<noteq> m_id cur" by metis
    with other [OF q False] log_okD(5) [OF ok q] show ?thesis
      unfolding message_ok_def par revs s'(2) by simp
  qed (simp add: ok_cur)
  show ?thesis
    unfolding log_ok_def
  proof (intro conjI ballI allI impI)
    show "tinv (threads s')" using log_okD(1) [OF ok] s'(2) by simp
    show "distinct (map m_id (messages s'))" using log_okD(2) [OF ok] by (simp add: s'(1) comp_def)
    show "distinct (map rv_id (message_revisions s'))"
      using log_okD(3) [OF ok] revised(6) by (simp add: s'(3) v)
    show "rv_message_id w \<in> m_id ` set (messages s')" if "w \<in> set (message_revisions s')" for w
      using that log_okD(4) [OF ok, of w] s'(3) v(1) revised(1)
      by (simp only: set_append s'(1) set_map image_image revise_at_fixed) fastforce
    show "message_ok s' q" if "q \<in> set (messages s')" for q
      using that oks by (simp only: s'(1) set_map) fastforce
    show "thread_log_ok s' k th" if "tget (threads s') k = Some th" for k th
      using that log_okD(6) [OF ok, of k th]
      by (simp add: s'(2) thread_log_ok_def logs inth comp_def last_map)
  qed
qed (simp add: ok)

lemma select_head_keeps_log:
  assumes "select_head thread head at' s = Inr s'" and ok: "log_ok s"
  shows "log_ok s'"
  using assms(1) unfolding select_head_def
proof (elim result_elims, goal_cases)
  case (1 th)
  then have s': "messages s' = messages s" "message_revisions s' = message_revisions s"
    "threads s' = tput thread (th\<lparr>th_selected_head_id := head, th_updated_at := at'\<rparr>) (threads s)"
    by auto
  have eq: "log_of s' k = log_of s k" "revisions_of s' k = revisions_of s k"
    "in_thread s' k h = in_thread s k h" for k h
    by (simp_all add: log_of_def revisions_of_def in_thread_def s')
  have "thread_log_ok s' k v" if "tget (threads s') k = Some v" for k v
    using that log_okD(6) [OF ok, of k] 1 s'(3)
    by (cases "k = thread") (auto simp: thread_log_ok_def eq tget_tput)
  moreover have "message_ok s' q" if "q \<in> set (messages s)" for q
    using log_okD(5) [OF ok that] by (simp add: message_ok_def eq s' tget_tput)
  ultimately show ?case
    using log_okD(1-4) [OF ok] by (simp add: log_ok_def s' tinv_tput)
qed

section \<open>Steps of the log\<close>

inductive log_step :: "ctx \<Rightarrow> store \<Rightarrow> store \<Rightarrow> bool" for ctx where
  appends: "append_with_parent ctx thread a s = Inr s' \<Longrightarrow> log_step ctx s s'"
| revises: "revise ctx thread r s = Inr s' \<Longrightarrow> log_step ctx s s'"
| selects: "select_head thread head at' s = Inr s' \<Longrightarrow> log_step ctx s s'"

inductive_cases log_stepE: "log_step ctx s s'"

text \<open>What is fixed when a message is appended: everything but its current revision.\<close>

definition fixed_part :: "message_row \<Rightarrow> message_row" where
  "fixed_part m = m\<lparr>m_current_revision_id := [], m_current_revision_number := 0,
                     m_current_revision_state := []\<rparr>"

definition keeps_log :: "store \<Rightarrow> store \<Rightarrow> bool" where
  "keeps_log s s' =
     (prefix (message_revisions s) (message_revisions s')
      \<and> prefix (map fixed_part (messages s)) (map fixed_part (messages s')))"

lemma keeps_log_refl [simp]: "keeps_log s s"
  by (simp add: keeps_log_def)

lemma keeps_log_trans: "keeps_log s t \<Longrightarrow> keeps_log t u \<Longrightarrow> keeps_log s u"
  by (auto simp: keeps_log_def intro: prefix_order.trans)

lemma fixed_revise_at [simp]: "fixed_part (revise_at thread r m) = fixed_part m"
  by (simp add: fixed_part_def revise_at_def revised_row_def)

lemma log_step_keeps: "log_step ctx s s' \<Longrightarrow> keeps_log s s'"
proof (erule log_stepE, goal_cases)
  case (1 thread a)
  then show ?case by (cases rule: append_elim) (simp_all add: keeps_log_def)
next
  case (2 thread r)
  then show ?case by (cases rule: revise_elim) (simp_all add: keeps_log_def comp_def)
next
  case (3 thread head at')
  then show ?case unfolding select_head_def by (elim result_elims) (auto simp: keeps_log_def)
qed

lemma log_step_ok: "log_step ctx s s' \<Longrightarrow> log_ok s \<Longrightarrow> log_ok s'"
  by (erule log_stepE) (auto intro: append_keeps_log revise_keeps_log select_head_keeps_log)

text \<open>C28. The conversation log is append-only. Along any sequence of accepted appends, revisions
  and head selections the log stays consistent (sequences without gaps, parents earlier in the same
  thread, revisions numbered from one with the current one last), every saved revision stays as it
  was written, and every message keeps its place, author and idempotency key.\<close>

theorem log_is_append_only:
  assumes "(log_step ctx)\<^sup>*\<^sup>* s s'" and "log_ok s"
  shows "log_ok s' \<and> prefix (message_revisions s) (message_revisions s')
    \<and> prefix (map fixed_part (messages s)) (map fixed_part (messages s'))"
proof -
  have "log_ok s' \<and> keeps_log s s'"
    using assms
    by (induction rule: rtranclp_induct) (auto intro: log_step_ok keeps_log_trans log_step_keeps)
  then show ?thesis by (simp add: keeps_log_def)
qed

lemma append_guards:
  assumes "append_with_parent ctx thread a s = Inr s'"
  obtains key revision th where "normalize_id err_message_id (ai_id a) = Inr key"
    "normalize_id err_revision_id (ai_revision_id a) = Inr revision" "tget (threads s) thread = Some th"
    "\<not> (ai_kind a \<notin> {''user'', ''assistant'', ''tool'', ''approval'', ''interruption'', ''error''}
        \<or> ai_state a \<notin> {''streaming'', ''terminal'', ''redacted''})"
  using assms unfolding append_with_parent_def by (elim result_elims) (rule that)

lemma find_append_None: "find P xs = None \<Longrightarrow> find P (xs @ ys) = find P ys"
  by (induction xs) (auto split: if_splits)

text \<open>An append may be repeated: sending the same request again after it was accepted changes
  nothing, whatever its sequence and predecessor say.\<close>

theorem append_replay_is_safe:
  assumes "append_with_parent ctx thread a s = Inr s'" and "ai_id b = ai_id a"
    and "ai_idempotency b = ai_idempotency a" and "ai_kind b = ai_kind a" and "ai_state b = ai_state a"
    and "ai_revision_id b = ai_revision_id a"
  shows "append_with_parent ctx thread b s' = Inr s'"
proof -
  from assms(1) obtain key revision th where g: "normalize_id err_message_id (ai_id a) = Inr key"
    "normalize_id err_revision_id (ai_revision_id a) = Inr revision" "tget (threads s) thread = Some th"
    "\<not> (ai_kind a \<notin> {''user'', ''assistant'', ''tool'', ''approval'', ''interruption'', ''error''}
        \<or> ai_state a \<notin> {''streaming'', ''terminal'', ''redacted''})"
    by (rule append_guards)
  have "\<exists>m th'. find (\<lambda>m. m_thread_id m = thread \<and> m_idempotency m = ai_idempotency a) (messages s') = Some m
      \<and> m_id m = key \<and> tget (threads s') thread = Some th'"
    using assms(1)
  proof (cases rule: append_elim)
    case (replay m)
    with g show ?thesis by simp
  next
    case (appended key' revision' th' parent)
    with g(1) show ?thesis
      by (simp add: find_append_None appended_message_def tget_tput)
  qed
  then show ?thesis
    using g assms(2-) unfolding append_with_parent_def
    by (elim exE conjE) (simp only: bindE_simps ok_or_simps option.case if_False simp_thms if_True)
qed

section \<open>Branches\<close>

lemma log_sorted:
  assumes "log_ok s" and "tget (threads s) thread = Some th"
  shows "sorted_wrt (<) (map m_sequence (log_of s thread))"
proof -
  have "map m_sequence (log_of s thread) = [1..th_last_sequence th]"
    using log_okD(6) [OF assms] by (simp add: thread_log_ok_def)
  then show ?thesis by simp
qed

lemma message_list_log:
  assumes "log_ok s" and "tget (threads s) thread = Some th"
  shows "message_list s thread = Inr (log_of s thread)"
proof -
  have "sorted (map m_sequence (log_of s thread))"
    using log_sorted [OF assms] by (rule strict_sorted_imp_sorted)
  then show ?thesis using assms(2) by (simp add: message_list_def sort_key_id_if_sorted flip: log_of_def)
qed

text \<open>A path from a message up to a root, every step to the parent.\<close>

fun parent_path :: "message_row list \<Rightarrow> bool" where
  "parent_path [] = False"
| "parent_path [m] = (m_parent_id m = None)"
| "parent_path (m # n # ms) =
     (m_parent_id m = Some (m_id n) \<and> m_sequence n < m_sequence m \<and> parent_path (n # ms))"

lemma parent_path_Cons: "parent_path ms \<Longrightarrow> m_parent_id m = Some (m_id (hd ms))
    \<Longrightarrow> m_sequence (hd ms) < m_sequence m \<Longrightarrow> parent_path (m # ms)"
  by (cases ms) simp_all

lemma find_by_id:
  assumes "log_ok s" and "m \<in> set (log_of s thread)"
  shows "find (\<lambda>q. m_id q = m_id m) (log_of s thread) = Some m"
proof (cases "find (\<lambda>q. m_id q = m_id m) (log_of s thread)")
  case None
  then have "\<forall>x. x \<in> set (log_of s thread) \<longrightarrow> m_id x \<noteq> m_id m" by (simp add: find_None_iff)
  with assms(2) show ?thesis by metis
next
  case (Some q)
  from find_SomeD [OF this] have "m_id q = m_id m" "q \<in> set (messages s)" by (simp_all add: log_of_def)
  moreover have "m \<in> set (messages s)" using assms(2) by (simp add: log_of_def)
  ultimately have "q = m" using log_okD(2) [OF assms(1)] by (simp add: distinct_map inj_on_def)
  with Some show ?thesis by simp
qed

lemma branch_walk_path:
  assumes "log_ok s" and "m \<in> set (log_of s thread)"
    and "\<And>k q. k \<in> set seen \<Longrightarrow> q \<in> set (log_of s thread) \<Longrightarrow> m_id q = k \<Longrightarrow> m_sequence m < m_sequence q"
  shows "parent_path (branch_walk (log_of s thread) seen (m_id m))
    \<and> hd (branch_walk (log_of s thread) seen (m_id m)) = m
    \<and> set (branch_walk (log_of s thread) seen (m_id m)) \<subseteq> set (log_of s thread)"
  using assms(2,3)
proof (induction "nat (m_sequence m)" arbitrary: m seen rule: less_induct)
  case less
  have fresh: "m_id m \<notin> set seen" using less.prems(2) [of "m_id m" m] less.prems(1) by fastforce
  have walk: "branch_walk (log_of s thread) seen (m_id m)
      = m # (case m_parent_id m of None \<Rightarrow> []
             | Some p \<Rightarrow> branch_walk (log_of s thread) (m_id m # seen) p)"
    using fresh find_by_id [OF assms(1) less.prems(1)]
    by (simp add: branch_walk.simps [of "log_of s thread" seen "m_id m"])
  show ?case
  proof (cases "m_parent_id m")
    case None
    with walk less.prems(1) show ?thesis by simp
  next
    case (Some p)
    have m: "m \<in> set (messages s)" "m_thread_id m = thread" using less.prems(1) by (simp_all add: log_of_def)
    have mok: "message_ok s m" by (rule log_okD(5) [OF assms(1) m(1)])
    from mok Some obtain q where q: "q \<in> set (messages s)" "m_id q = p"
        "m_thread_id q = thread" "m_sequence q < m_sequence m"
      unfolding message_ok_def m(2) by metis
    from mok obtain th where th: "tget (threads s) thread = Some th"
      unfolding message_ok_def m(2) by fastforce
    have q': "q \<in> set (log_of s thread)" using q by (simp add: log_of_def)
    have "nat (m_sequence q) < nat (m_sequence m)"
      using sequence_bound [OF assms(1) th q(1,3)] q(4) by simp
    moreover have "m_sequence q < m_sequence x"
      if "k \<in> set (m_id m # seen)" "x \<in> set (log_of s thread)" "m_id x = k" for k x
    proof (cases "k = m_id m")
      case True
      with that find_by_id [OF assms(1)] less.prems(1) have "x = m" by (metis option.inject)
      with q(4) show ?thesis by simp
    next
      case False
      with that have "k \<in> set seen" by simp
      from less.prems(2) [OF this that(2,3)] q(4) show ?thesis by simp
    qed
    ultimately have "parent_path (branch_walk (log_of s thread) (m_id m # seen) (m_id q))
        \<and> hd (branch_walk (log_of s thread) (m_id m # seen) (m_id q)) = q
        \<and> set (branch_walk (log_of s thread) (m_id m # seen) (m_id q)) \<subseteq> set (log_of s thread)"
      using q' by (intro less.hyps) assumption+
    with walk Some q less.prems(1) show ?thesis by (simp add: parent_path_Cons)
  qed
qed

text \<open>A branch is read whole and in order: for a head in the conversation, the branch that is
  returned ends in that head, starts at a message without a parent, and every message in it is the
  parent of the next one; the guard against repeated ids never cuts it short.\<close>

theorem branch_is_complete_path:
  assumes "log_ok s" and "in_thread s thread h" and "tget (threads s) thread = Some th"
  shows "\<exists>path. list_branch s thread (Some h) = Inr (rev path) \<and> parent_path path
    \<and> m_id (hd path) = h \<and> set path \<subseteq> set (log_of s thread)"
proof -
  from assms(2) obtain m where m: "m \<in> set (log_of s thread)" "m_id m = h"
    by (auto simp: in_thread_iff)
  from branch_walk_path [OF assms(1) m(1), of "[]"] m(2) show ?thesis
    by (simp add: list_branch_def message_list_log [OF assms(1,3)])
qed

section \<open>Pages\<close>

lemma log_step_log_of:
  assumes "append_with_parent ctx thread a s = Inr s'"
  shows "log_of s' k = log_of s k \<or> (\<exists>m th. k = thread \<and> tget (threads s) thread = Some th
     \<and> log_of s' k = log_of s k @ [m] \<and> m_sequence m = th_last_sequence th + 1)"
  using assms
proof (cases rule: append_elim)
  case (appended key revision th parent)
  then show ?thesis by (auto simp: log_of_def appended_message_def)
qed simp

lemma sorted_filter_split:
  assumes "sorted_wrt (<) (map f xs)" and "ys \<noteq> []" and "xs = zs @ ys"
  shows "filter (\<lambda>x. f x < (f (hd ys) :: int)) xs = zs"
proof -
  have "\<forall>z\<in>set zs. f z < f (hd ys)" using assms by (cases ys) (auto simp: sorted_wrt_append)
  moreover have "\<forall>y\<in>set ys. \<not> f y < f (hd ys)" using assms by (cases ys) (auto simp: sorted_wrt_append)
  ultimately show ?thesis using assms(3) by simp
qed

text \<open>Paging backwards through a conversation misses and repeats nothing. A page before a
  sequence number, followed by the page before its first message, are adjacent parts of the log: the
  log before the cursor is the log before the page, then the page. And an append does not shift a
  page that was already visible.\<close>

theorem pages_tile_the_log:
  assumes "log_ok s" and "tget (threads s) thread = Some th"
    and "list_before s thread limit (Some b) = Inr page" and "page \<noteq> []"
  shows "filter (\<lambda>m. m_sequence m < b) (log_of s thread)
      = filter (\<lambda>m. m_sequence m < m_sequence (hd page)) (log_of s thread) @ page
    \<and> length page \<le> nat (max limit 1)
    \<and> (\<forall>ctx a s'. append_with_parent ctx thread a s = Inr s' \<longrightarrow> b \<le> th_last_sequence th + 1
         \<longrightarrow> list_before s' thread limit (Some b) = Inr page)"
proof (intro conjI allI impI)
  let ?old = "filter (\<lambda>m. m_sequence m < b) (log_of s thread)"
  let ?n = "nat (max limit 1)"
  have page: "page = rev (take ?n (rev ?old))"
    using assms(3) by (simp add: list_before_def message_list_log [OF assms(1,2)])
  have split: "?old = rev (drop ?n (rev ?old)) @ page"
    unfolding page by (metis append_take_drop_id rev_append rev_rev_ident)
  have "set page \<subseteq> set ?old" unfolding page by (metis set_rev set_take_subset)
  with assms(4) have b: "m_sequence (hd page) < b" by (cases page) auto
  have "sorted_wrt (<) (map m_sequence ?old)"
    using log_sorted [OF assms(1,2)] by (simp add: sorted_wrt_map sorted_wrt_filter)
  from sorted_filter_split [OF this assms(4) split]
  have "filter (\<lambda>m. m_sequence m < m_sequence (hd page)) ?old = rev (drop ?n (rev ?old))" .
  moreover have "filter (\<lambda>m. m_sequence m < m_sequence (hd page)) ?old
      = filter (\<lambda>m. m_sequence m < m_sequence (hd page)) (log_of s thread)"
    using b by (simp add: conj_commute cong: conj_cong) (intro filter_cong refl; force)
  ultimately show "?old = filter (\<lambda>m. m_sequence m < m_sequence (hd page)) (log_of s thread) @ page"
    using split by simp
  show "length page \<le> ?n" by (simp add: page)
  fix ctx a s'
  assume ap: "append_with_parent ctx thread a s = Inr s'" and le: "b \<le> th_last_sequence th + 1"
  have ok': "log_ok s'" by (rule append_keeps_log [OF ap assms(1)])
  obtain th' where th': "tget (threads s') thread = Some th'"
    using ap assms(2) by (cases rule: append_elim) (simp_all add: tget_tput)
  have "filter (\<lambda>m. m_sequence m < b) (log_of s' thread) = ?old"
    using log_step_log_of [OF ap, of thread] assms(2) le by auto
  then show "list_before s' thread limit (Some b) = Inr page"
    by (simp add: list_before_def message_list_log [OF ok' th'] page)
qed

section \<open>A conversation with two answers\<close>

definition sample_log :: store where
  "sample_log = (sample_store [])\<lparr>messages := []\<rparr>"

definition sample_append :: "string \<Rightarrow> string \<Rightarrow> int \<Rightarrow> string option \<Rightarrow> string option option \<Rightarrow> append_input" where
  "sample_append key kind n previous parent =
     \<lparr>ai_id = key, ai_kind = kind, ai_detail = JNull, ai_run_id = None, ai_sequence = n,
      ai_expected = n - 1, ai_previous = previous, ai_parent = parent, ai_idempotency = key,
      ai_revision_id = ''r-'' @ key, ai_state = ''terminal'', ai_reason = ''test'',
      ai_content = JStr ''text'', ai_at = ''t''\<rparr>"

definition sample_append1 :: "cerr + store" where
  "sample_append1 =
     append_with_parent sample_ctx ''room'' (sample_append ''user-1'' ''user'' 1 None None) sample_log"

definition sample_append2 :: "cerr + store" where
  "sample_append2 = bindE sample_append1
     (append_with_parent sample_ctx ''room'' (sample_append ''answer-1'' ''assistant'' 2 (Some ''user-1'') None))"

lemma sample_log_ok: "log_ok sample_log"
  by (auto simp: log_ok_def sample_log_def sample_defs tinv_def tget_def thread_log_ok_def log_of_def
      split: if_splits)

definition sample_log1 :: store where
  "sample_log1 = (case sample_append1 of Inr s \<Rightarrow> s | Inl _ \<Rightarrow> sample_log)"

definition sample_log2 :: store where
  "sample_log2 = (case sample_append2 of Inr s \<Rightarrow> s | Inl _ \<Rightarrow> sample_log)"

lemma sample_append1_Inr:
  "append_with_parent sample_ctx ''room'' (sample_append ''user-1'' ''user'' 1 None None) sample_log
     = Inr sample_log1"
proof -
  have "is_ok sample_append1" by code_simp
  then show ?thesis by (auto simp: sample_log1_def sample_append1_def is_ok_iff)
qed

lemma sample_append2_Inr:
  "append_with_parent sample_ctx ''room''
     (sample_append ''answer-1'' ''assistant'' 2 (Some ''user-1'') None) sample_log1 = Inr sample_log2"
proof -
  have "is_ok sample_append2" by code_simp
  then show ?thesis
    using sample_append1_Inr by (auto simp: sample_log2_def sample_append2_def sample_append1_def is_ok_iff)
qed

lemma sample_log2_ok: "log_ok sample_log2"
  using append_keeps_log sample_append1_Inr sample_append2_Inr sample_log_ok by metis

theorem log_is_append_only_witness:
  "log_ok sample_log2 \<and> prefix (message_revisions sample_log1) (message_revisions sample_log2)"
proof -
  have "(log_step sample_ctx)\<^sup>*\<^sup>* sample_log1 sample_log2"
    using sample_append2_Inr by (blast intro: log_step.appends)
  moreover have "log_ok sample_log1" using append_keeps_log sample_append1_Inr sample_log_ok by metis
  ultimately show ?thesis using log_is_append_only by metis
qed

theorem append_replay_is_safe_witness:
  "append_with_parent sample_ctx ''room'' (sample_append ''user-1'' ''user'' 7 (Some ''x'') None) sample_log1
     = Inr sample_log1"
  by (rule append_replay_is_safe [OF sample_append1_Inr]) (simp_all add: sample_append_def)

theorem branch_is_complete_path_witness:
  "\<exists>path. list_branch sample_log2 ''room'' (Some ''answer-1'') = Inr (rev path) \<and> parent_path path
    \<and> m_id (hd path) = ''answer-1''"
proof -
  have "in_thread sample_log2 ''room'' ''answer-1''" by code_simp
  moreover have "tget (threads sample_log2) ''room'' \<noteq> None" by code_simp
  then obtain th where "tget (threads sample_log2) ''room'' = Some th" by auto
  ultimately show ?thesis using branch_is_complete_path [OF sample_log2_ok] by metis
qed

theorem pages_tile_the_log_witness:
  "\<exists>page. list_before sample_log2 ''room'' 1 (Some 3) = Inr page \<and> map m_id page = [''answer-1'']
    \<and> filter (\<lambda>m. m_sequence m < 3) (log_of sample_log2 ''room'')
        = filter (\<lambda>m. m_sequence m < m_sequence (hd page)) (log_of sample_log2 ''room'') @ page"
proof -
  let ?p = "case list_before sample_log2 ''room'' 1 (Some 3) of Inr p \<Rightarrow> p | Inl _ \<Rightarrow> []"
  have "is_ok (list_before sample_log2 ''room'' 1 (Some 3)) \<and> map m_id ?p = [''answer-1'']" by code_simp
  then have p: "list_before sample_log2 ''room'' 1 (Some 3) = Inr ?p" "map m_id ?p = [''answer-1'']"
    by (auto simp: is_ok_iff)
  then have "?p \<noteq> []" by auto
  have "tget (threads sample_log2) ''room'' \<noteq> None" by code_simp
  then obtain th where "tget (threads sample_log2) ''room'' = Some th" by auto
  from pages_tile_the_log [OF sample_log2_ok this p(1) \<open>?p \<noteq> []\<close>] p show ?thesis
    by (intro exI [of _ ?p]) simp
qed

end
