(* ===== verification/Attempt_Store.thy ===== *)
theory Attempt_Store
  imports Store_Laws Collab_Samples
begin

text \<open>
  Provider attempts (\<open>store/repos/execution_attempt.rs\<close>) and the gates of execution: the workspace
  pause (\<open>execution_control.rs\<close>) and the settings of the native background worker
  (\<open>background_worker/persistence.rs\<close>). The ownership of an attempt is fixed when it is created and
  a terminal attempt is immutable; every change of a gate moves its revision or generation by one.
\<close>

section \<open>Attempts\<close>

definition err_attempt_identity :: cerr where
  "err_attempt_identity = Invalid ''Execution attempt ownership and creation identity are immutable.''"

definition err_attempt_terminal :: cerr where
  "err_attempt_terminal = Invalid ''A terminal execution attempt is immutable.''"

definition err_attempt_thread :: cerr where
  "err_attempt_thread = Invalid ''Attempt thread does not belong to this workspace.''"

definition is_terminal_status :: "string \<Rightarrow> bool" where
  "is_terminal_status status = (status \<in> {''completed'', ''cancelled'', ''failed'', ''interrupted''})"

definition upsert_attempt :: "string \<Rightarrow> attempt_row \<Rightarrow> store \<Rightarrow> cerr + store" where
  "upsert_attempt key row s =
     bindE (case tget (attempts s) key of
              None \<Rightarrow> Inr False
            | Some existing \<Rightarrow>
                if ar_thread_id existing \<noteq> ar_thread_id row \<or> ar_created_at existing \<noteq> ar_created_at row
                then Inl err_attempt_identity
                else if is_terminal_status (ar_status existing) then
                  (if existing = row then Inr True else Inl err_attempt_terminal)
                else Inr False) (\<lambda>replay.
     if replay then Inr s else
     if (case ar_thread_id row of None \<Rightarrow> False | Some th \<Rightarrow> tget (threads s) th = None)
     then Inl err_attempt_thread
     else Inr (s\<lparr>attempts := tput key row (attempts s)\<rparr>))"

text \<open>The row of an attempt, as \<open>write_attempt\<close> of \<open>collaboration/background.rs\<close> fills it.\<close>

definition row_of :: "execution_attempt \<Rightarrow> attempt_row" where
  "row_of a =
     \<lparr>ar_thread_id = at_thread_id a, ar_provider_id = at_provider_id a, ar_model = at_model a,
      ar_status = at_status a, ar_turn = at_turn a, ar_recoverable = at_recoverable a,
      ar_retry_count = at_retry_count a, ar_created_at = at_created_at a,
      ar_updated_at = at_updated_at a, ar_payload = Some a\<rparr>"

definition write_attempt :: "execution_attempt \<Rightarrow> store \<Rightarrow> cerr + store" where
  "write_attempt a s = upsert_attempt (at_id a) (row_of a) s"

lemma upsert_elim:
  assumes "upsert_attempt key row s = Inr s'"
  obtains (replay) "s' = s" "tget (attempts s) key = Some row" "is_terminal_status (ar_status row)"
  | (written) "s' = s\<lparr>attempts := tput key row (attempts s)\<rparr>"
      "\<And>old. tget (attempts s) key = Some old \<Longrightarrow> \<not> is_terminal_status (ar_status old)
          \<and> ar_thread_id old = ar_thread_id row \<and> ar_created_at old = ar_created_at row"
proof (cases "tget (attempts s) key")
  case None
  with assms that(2) show ?thesis by (simp add: upsert_attempt_def split: if_splits)
next
  case (Some old)
  with assms that show ?thesis
    by (cases "is_terminal_status (ar_status old)") (simp_all add: upsert_attempt_def split: if_splits)
qed

lemma upsert_law: "upsert_attempt key row s = Inr s' \<Longrightarrow> advances work_quiet quiet_new s s'"
  by (rule quiet.adv_same) (auto elim!: upsert_elim simp: store_ok_def intro: tinv_tput)

inductive attempt_step :: "store \<Rightarrow> store \<Rightarrow> bool" where
  "upsert_attempt key row s = Inr s' \<Longrightarrow> attempt_step s s'"

inductive_cases attempt_stepE: "attempt_step s s'"

lemma attempt_step_keeps:
  assumes "attempt_step s s'" and "tget (attempts s) k = Some old"
  shows "\<exists>new. tget (attempts s') k = Some new \<and> ar_thread_id new = ar_thread_id old
     \<and> ar_created_at new = ar_created_at old \<and> (is_terminal_status (ar_status old) \<longrightarrow> new = old)"
  using assms(1)
proof (rule attempt_stepE)
  fix key row
  assume "upsert_attempt key row s = Inr s'"
  then show ?thesis
    using assms(2) by (cases rule: upsert_elim) (auto simp: tget_tput)
qed

text \<open>C11. A finished attempt is evidence that nothing rewrites: along any sequence of accepted
  writes an attempt keeps its conversation and its creation time, and once its status is terminal
  its whole row stays exactly as it was.\<close>

theorem terminal_attempts_are_immutable:
  assumes "attempt_step\<^sup>*\<^sup>* s s'" and "tget (attempts s) key = Some old"
  shows "\<exists>new. tget (attempts s') key = Some new \<and> ar_thread_id new = ar_thread_id old
     \<and> ar_created_at new = ar_created_at old \<and> (is_terminal_status (ar_status old) \<longrightarrow> new = old)"
  using assms
proof (induction rule: rtranclp_induct)
  case (step t u)
  then obtain mid where "tget (attempts t) key = Some mid" "ar_thread_id mid = ar_thread_id old"
    "ar_created_at mid = ar_created_at old" "is_terminal_status (ar_status old) \<longrightarrow> mid = old" by metis
  with attempt_step_keeps [OF step(2), of key mid] show ?case by metis
qed simp

definition sample_done :: attempt_row where
  "sample_done = sample_attempt\<lparr>ar_status := ''completed''\<rparr>"

theorem terminal_attempts_are_immutable_witness:
  "\<exists>s s'. attempt_step s s' \<and> tget (attempts s) ''run-1'' = Some sample_attempt
    \<and> tget (attempts s') ''run-1'' = Some sample_done
    \<and> (\<forall>s''. attempt_step\<^sup>*\<^sup>* s' s'' \<longrightarrow> tget (attempts s'') ''run-1'' = Some sample_done)"
proof -
  let ?s = "sample_store []"
  let ?s' = "?s\<lparr>attempts := tput ''run-1'' sample_done (attempts ?s)\<rparr>"
  have "upsert_attempt ''run-1'' sample_done ?s = Inr ?s'"
    by (simp add: upsert_attempt_def sample_defs sample_done_def tget_def is_terminal_status_def)
  then have step: "attempt_step ?s ?s'" by (rule attempt_step.intros)
  have done_row: "tget (attempts ?s') ''run-1'' = Some sample_done" by (simp add: tget_tput)
  have "is_terminal_status (ar_status sample_done)"
    by (simp add: sample_done_def is_terminal_status_def)
  then have "tget (attempts s'') ''run-1'' = Some sample_done" if "attempt_step\<^sup>*\<^sup>* ?s' s''" for s''
    using terminal_attempts_are_immutable [OF that done_row] by auto
  moreover have "tget (attempts ?s) ''run-1'' = Some sample_attempt"
    by (simp add: sample_store_def tget_def)
  ultimately show ?thesis using step done_row by blast
qed

section \<open>The workspace pause\<close>

definition err_control_unavailable :: cerr where
  "err_control_unavailable = Invalid ''The local execution control is unavailable. New execution is paused for safety.''"

definition err_control_overflow :: cerr where
  "err_control_overflow = Invalid ''The execution control revision overflowed.''"

definition err_control_changed :: cerr where
  "err_control_changed = Invalid ''The execution control changed. Refresh it before resuming.''"

definition err_paused :: cerr where
  "err_paused = Invalid ''New execution is paused for this workspace. Resume it in Privacy settings before starting more work.''"

definition err_confirm_pause :: cerr where
  "err_confirm_pause = Invalid ''Type pause all execution exactly to confirm.''"

definition err_confirm_resume :: cerr where
  "err_confirm_resume = Invalid ''Type resume execution exactly to confirm.''"

definition default_state :: control_state where
  "default_state = \<lparr>cs_paused = False, cs_revision = 0, cs_changed_at = []\<rparr>"

definition read_state :: "store \<Rightarrow> cerr + control_state" where
  "read_state s =
     (case control_pref s of
        None \<Rightarrow> Inr default_state
      | Some None \<Rightarrow> Inl err_control_unavailable
      | Some (Some st) \<Rightarrow>
          if cs_revision st < 1 \<or> trim (cs_changed_at st) = [] then Inl err_control_unavailable
          else Inr st)"

definition i64_max :: int where "i64_max = 9223372036854775807"

definition write_state :: "ctx \<Rightarrow> control_state \<Rightarrow> bool \<Rightarrow> store \<Rightarrow> cerr + control_state \<times> store" where
  "write_state ctx cur paused s =
     (if cs_paused cur = paused then Inr (cur, s)
      else if i64_max \<le> cs_revision cur then Inl err_control_overflow
      else let st = \<lparr>cs_paused = paused, cs_revision = cs_revision cur + 1, cs_changed_at = time ctx\<rparr>
           in Inr (st, s\<lparr>control_pref := Some (Some st)\<rparr>))"

definition ensure_active_execution_allowed_in :: "store \<Rightarrow> cerr + unit" where
  "ensure_active_execution_allowed_in s =
     bindE (read_state s) (\<lambda>st. if cs_paused st then Inl err_paused else Inr ())"

definition allowed_at :: "store \<Rightarrow> cerr + bool" where
  "allowed_at s = bindE (read_state s) (\<lambda>st. Inr (\<not> cs_paused st))"

definition control_update :: "ctx \<Rightarrow> int option \<Rightarrow> bool \<Rightarrow> store \<Rightarrow> cerr + control_state \<times> store" where
  "control_update ctx base paused s =
     bindE (read_state s) (\<lambda>cur.
     if (case base of None \<Rightarrow> False | Some b \<Rightarrow> cs_revision cur \<noteq> b) then Inl err_control_changed
     else write_state ctx cur paused s)"

definition execution_control_pause :: "ctx \<Rightarrow> string \<Rightarrow> store \<Rightarrow> cerr + control_state \<times> store" where
  "execution_control_pause ctx confirmation s =
     (if confirmation \<noteq> ''pause all execution'' then Inl err_confirm_pause
      else control_update ctx None True s)"

definition execution_control_resume ::
  "ctx \<Rightarrow> int \<Rightarrow> string \<Rightarrow> store \<Rightarrow> cerr + control_state \<times> store" where
  "execution_control_resume ctx base confirmation s =
     (if confirmation \<noteq> ''resume execution'' then Inl err_confirm_resume
      else control_update ctx (Some base) False s)"

lemma read_saved_state:
  "1 \<le> cs_revision st \<Longrightarrow> trim (cs_changed_at st) \<noteq> []
     \<Longrightarrow> read_state (s\<lparr>control_pref := Some (Some st)\<rparr>) = Inr st"
  by (simp add: read_state_def)

lemma read_state_revision: "read_state s = Inr st \<Longrightarrow> 0 \<le> cs_revision st"
  by (simp add: read_state_def default_state_def split: option.splits if_splits) fastforce

lemma paused_state:
  assumes "trim (time ctx) \<noteq> []" and "execution_control_pause ctx c s = Inr (st, s')"
  shows "read_state s' = Inr st \<and> cs_paused st \<and> 0 \<le> cs_revision st"
proof -
  from assms(2) obtain cur where cur: "read_state s = Inr cur" "write_state ctx cur True s = Inr (st, s')"
    by (simp add: execution_control_pause_def control_update_def bindE_Inr split: if_splits) metis
  show ?thesis
  proof (cases "cs_paused cur")
    case True
    with cur read_state_revision [OF cur(1)] show ?thesis by (simp add: write_state_def)
  next
    case False
    with cur(2) have st: "st = \<lparr>cs_paused = True, cs_revision = cs_revision cur + 1, cs_changed_at = time ctx\<rparr>"
      and s': "s' = s\<lparr>control_pref := Some (Some st)\<rparr>"
      by (auto simp: write_state_def Let_def split: if_splits)
    show ?thesis
      using read_saved_state [of st s] read_state_revision [OF cur(1)] assms(1)
      unfolding s' by (simp add: st)
  qed
qed

text \<open>C29. The pause fails closed and cannot be lifted by a stale request. After an accepted pause no
  execution is allowed, a resume that names another revision is refused, and one that names the
  current revision allows execution again under the next revision. A saved state that does not
  decode allows no execution and accepts neither change.\<close>

theorem pause_fails_closed:
  assumes "trim (time ctx) \<noteq> []"
  shows "(\<forall>st s'. execution_control_pause ctx c s = Inr (st, s') \<longrightarrow>
           allowed_at s' = Inr False \<and> ensure_active_execution_allowed_in s' = Inl err_paused
           \<and> (\<forall>b d. b \<noteq> cs_revision st \<longrightarrow> (\<exists>e. execution_control_resume ctx b d s' = Inl e))
           \<and> (cs_revision st < i64_max \<longrightarrow>
                (\<exists>st' s''. execution_control_resume ctx (cs_revision st) ''resume execution'' s' = Inr (st', s'')
                   \<and> cs_revision st' = cs_revision st + 1 \<and> allowed_at s'' = Inr True)))
       \<and> (control_pref s = Some None \<longrightarrow>
           (\<exists>e. allowed_at s = Inl e) \<and> (\<exists>e. execution_control_pause ctx c s = Inl e)
           \<and> (\<exists>e. execution_control_resume ctx b c s = Inl e))"
proof (intro conjI allI impI, goal_cases)
  case (1 st s')
  from paused_state [OF assms 1] show ?case by (simp add: allowed_at_def)
next
  case (2 st s')
  from paused_state [OF assms 2] show ?case by (simp add: ensure_active_execution_allowed_in_def)
next
  case (3 st s' b d)
  with paused_state [OF assms 3(1)] show ?case
    by (simp add: execution_control_resume_def control_update_def)
next
  case (4 st s')
  let ?st = "\<lparr>cs_paused = False, cs_revision = cs_revision st + 1, cs_changed_at = time ctx\<rparr>"
  note st = paused_state [OF assms 4(1)]
  have "execution_control_resume ctx (cs_revision st) ''resume execution'' s'
      = Inr (?st, s'\<lparr>control_pref := Some (Some ?st)\<rparr>)"
    using st 4(2) by (simp add: execution_control_resume_def control_update_def write_state_def Let_def)
  moreover have "allowed_at (s'\<lparr>control_pref := Some (Some ?st)\<rparr>) = Inr True"
    using st read_saved_state [of ?st s'] assms by (simp add: allowed_at_def)
  ultimately show ?case by (metis control_state.select_convs(2))
qed (simp_all add: allowed_at_def read_state_def execution_control_pause_def
      execution_control_resume_def control_update_def)

theorem pause_fails_closed_witness:
  "allowed_at (sample_store []) = Inr True
   \<and> (\<exists>st s'. execution_control_pause sample_ctx ''pause all execution'' (sample_store []) = Inr (st, s')
        \<and> allowed_at s' = Inr False)"
proof -
  have t: "trim (time sample_ctx) \<noteq> []" by code_simp
  have "is_ok (execution_control_pause sample_ctx ''pause all execution'' (sample_store []))"
    by code_simp
  then obtain r where "execution_control_pause sample_ctx ''pause all execution'' (sample_store []) = Inr r"
    by (auto simp: is_ok_iff)
  moreover obtain st s' where "r = (st, s')" by fastforce
  ultimately show ?thesis
    using pause_fails_closed [OF t] by (simp add: allowed_at_def read_state_def sample_store_def default_state_def)
qed

section \<open>Settings of the background worker\<close>

definition err_settings_invalid :: cerr where
  "err_settings_invalid = Invalid ''Background execution settings are invalid; execution is paused.''"

definition err_settings_version :: cerr where
  "err_settings_version = Invalid ''Unsupported background settings.''"

definition err_generation_exhausted :: cerr where
  "err_generation_exhausted = Invalid ''Background generation exhausted.''"

definition settings_at :: "store \<Rightarrow> cerr + worker_settings" where
  "settings_at s =
     bindE (case worker_pref s of
              None \<Rightarrow> Inr \<lparr>wk_version = 1, wk_enabled = False, wk_generation = 0\<rparr>
            | Some None \<Rightarrow> Inl err_settings_invalid
            | Some (Some st) \<Rightarrow> Inr st) (\<lambda>st.
     if wk_version st \<noteq> 1 then Inl err_settings_version else Inr st)"

definition enabled_at :: "ctx \<Rightarrow> store \<Rightarrow> cerr + bool" where
  "enabled_at ctx s =
     bindE (settings_at s) (\<lambda>st.
     Inr (wk_enabled st
          \<and> (case worker_generation ctx of None \<Rightarrow> True | Some g \<Rightarrow> g = wk_generation st)))"

definition set_enabled_at :: "bool \<Rightarrow> store \<Rightarrow> cerr + store" where
  "set_enabled_at enabled s =
     bindE (settings_at s) (\<lambda>cur.
     if wk_enabled cur = enabled then Inr s
     else if wk_generation cur = - 1 then Inl err_generation_exhausted
     else Inr (s\<lparr>worker_pref := Some (Some \<lparr>wk_version = 1, wk_enabled = enabled,
                   wk_generation = wk_generation cur + 1\<rparr>)\<rparr>))"

definition revoke_at :: "store \<Rightarrow> cerr + store" where
  "revoke_at s = set_enabled_at False s"

text \<open>Revoking background execution reaches a running worker and is not undone by enabling it
  again: a worker that captured its generation while execution was enabled is disabled after an
  accepted revocation, and stays disabled after the next enabling, because the generation has moved
  past the one it holds.\<close>

theorem revocation_outlives_reenabling:
  assumes "worker_generation ctx = Some (wk_generation st)" and "settings_at s = Inr st"
    and "wk_enabled st" and "revoke_at s = Inr s1"
  shows "enabled_at ctx s1 = Inr False
     \<and> (\<forall>s2. set_enabled_at True s1 = Inr s2 \<longrightarrow> enabled_at ctx s2 = Inr False)"
proof -
  let ?saved = "\<lambda>e g. s\<lparr>worker_pref := Some (Some \<lparr>wk_version = 1, wk_enabled = e, wk_generation = g\<rparr>)\<rparr>"
  have saved: "settings_at (?saved e g) = Inr \<lparr>wk_version = 1, wk_enabled = e, wk_generation = g\<rparr>" for e g
    by (simp add: settings_at_def)
  have s1: "s1 = ?saved False (wk_generation st + 1)"
    using assms(2-4) by (simp add: revoke_at_def set_enabled_at_def split: if_splits)
  have "set_enabled_at True s1 = Inr s2 \<Longrightarrow> s2 = ?saved True (wk_generation st + 2)" for s2
    using saved [of False "wk_generation st + 1"]
    unfolding s1 by (simp add: set_enabled_at_def add.assoc split: if_splits)
  moreover have "enabled_at ctx (?saved False g) = Inr False" for g
    by (simp add: enabled_at_def saved)
  moreover have "enabled_at ctx (?saved True (wk_generation st + 2)) = Inr False"
    using assms(1) by (simp add: enabled_at_def saved)
  ultimately show ?thesis unfolding s1 by metis
qed

theorem revocation_outlives_reenabling_witness:
  "\<exists>s s1. enabled_at (sample_ctx\<lparr>worker_generation := Some 3\<rparr>) s = Inr True \<and> revoke_at s = Inr s1
    \<and> enabled_at (sample_ctx\<lparr>worker_generation := Some 3\<rparr>) s1 = Inr False
    \<and> (\<exists>s2. set_enabled_at True s1 = Inr s2 \<and> enabled_at (sample_ctx\<lparr>worker_generation := Some 3\<rparr>) s2 = Inr False)"
proof -
  let ?c = "sample_ctx\<lparr>worker_generation := Some 3\<rparr>"
  let ?st = "\<lparr>wk_version = 1, wk_enabled = True, wk_generation = 3\<rparr>"
  let ?s = "(sample_store [])\<lparr>worker_pref := Some (Some ?st)\<rparr>"
  have "settings_at ?s = Inr ?st" by (simp add: settings_at_def)
  moreover obtain s1 where s1: "revoke_at ?s = Inr s1" and s2: "\<exists>s2. set_enabled_at True s1 = Inr s2"
    by (simp add: revoke_at_def set_enabled_at_def settings_at_def)
  ultimately show ?thesis
    using revocation_outlives_reenabling [of ?c ?st ?s s1]
    by (intro exI [of _ ?s] exI [of _ s1]) (auto simp: enabled_at_def)
qed

end
