(* ===== verification/Work_Background.thy ===== *)
theory Work_Background
  imports Message_Log Attempt_Store Work_Continue
begin

text \<open>
  The native background owner (\<open>collaboration/background.rs\<close>): which Work it may take, the claim of
  a queued Work with its provider attempt, the publication of a result, checkpoints, interruption
  and the recovery of what a dead worker left behind.
\<close>

section \<open>Errors\<close>

definition err_needs_foreground :: cerr where
  "err_needs_foreground = Invalid ''This request now needs foreground context or tools. Open Mivlet and Continue after reviewing its saved state.''"

definition err_background_stopped :: cerr where
  "err_background_stopped = Invalid ''Background execution was stopped.''"

definition err_schedule_claim_missing :: cerr where
  "err_schedule_claim_missing = Invalid ''The native schedule claim is unavailable; no attempt was replayed.''"

definition err_background_attempt :: cerr where
  "err_background_attempt = Invalid ''The background attempt is unavailable.''"

definition err_background_terminal :: cerr where
  "err_background_terminal = Invalid ''The background attempt is already terminal.''"

definition err_background_conversation :: cerr where
  "err_background_conversation = Invalid ''The background conversation is unavailable.''"

definition err_background_author :: cerr where
  "err_background_author = Invalid ''The background attempt author is unavailable.''"

definition err_background_binding :: cerr where
  "err_background_binding = Invalid ''The background attempt binding changed.''"

definition err_background_invalid :: cerr where
  "err_background_invalid = Invalid ''Invalid background attempt.''"

definition msg_result_saved :: string where
  "msg_result_saved = ''The result is saved. Open Mivlet and Continue to apply the new follow-up with its current context.''"

definition msg_background_stopped :: string where
  "msg_background_stopped = ''The native background owner stopped. Review saved results before continuing. No provider request, approval or command was replayed.''"

section \<open>Eligible Work\<close>

definition native_provider_ids :: "string list" where
  "native_provider_ids =
     [''openai'', ''anthropic'', ''gemini'', ''xai'', ''deepseek'', ''alibaba'', ''moonshot'', ''zai'',
      ''groq'', ''together'', ''fireworks'', ''cerebras'', ''mistral'', ''openrouter'', ''nvidia'',
      ''siliconflow'', ''cohere'', ''custom'']"

definition supports_provider :: "string \<Rightarrow> bool" where
  "supports_provider provider =
     (provider \<in> {''codex'', ''claude''}
      \<or> provider \<noteq> ''gemini'' \<and> provider \<in> set native_provider_ids)"

definition route_provider :: "string \<Rightarrow> string option" where
  "route_provider route = map_option (\<lambda>i. take i route) (find_sub ''::'' route)"

definition eligible :: "work \<Rightarrow> agent_profile \<Rightarrow> bool" where
  "eligible it agent =
     (w_permission_mode it = ''read-only'' \<and> w_attachments it = [] \<and> w_parent_id it = None
      \<and> w_project_id it = None \<and> length (w_recipient_ids it) \<le> 1 \<and> w_dependencies it = []
      \<and> w_outcome_goal it = None \<and> (w_schedule it = None \<or> w_run_ids it = [])
      \<and> (w_run_ids it = [] \<or> length (w_run_ids it) = length (w_outputs it))
      \<and> list_all (\<lambda>run. length (filter (\<lambda>out. o_run_id out = run) (w_outputs it)) = 1) (w_run_ids it)
      \<and> w_messages it = [] \<and> p_connector_ids agent = [] \<and> p_knowledge_source_ids agent = []
      \<and> (case route_provider (w_model_option_id it) of None \<Rightarrow> False | Some p \<Rightarrow> supports_provider p))"

text \<open>\<open>enabled_at()? && allowed_at()?\<close>, short-circuit.\<close>

definition background_allowed :: "ctx \<Rightarrow> store \<Rightarrow> cerr + bool" where
  "background_allowed ctx s =
     bindE (enabled_at ctx s) (\<lambda>on. if on then allowed_at s else Inr False)"

definition background_admit :: "ctx \<Rightarrow> string \<Rightarrow> store \<Rightarrow> cerr + store" where
  "background_admit ctx key s =
     bindE (background_allowed ctx s) (\<lambda>ok.
     if \<not> ok \<or> \<not> worker_ready ctx then Inr s else
     bindE (item s key) (\<lambda>it.
     bindE (find_profile (profiles ctx) (w_agent_id it)) (\<lambda>agent.
     if eligible it agent
     then put_work ctx (it\<lparr>w_execution_owner := Some ''native-background''\<rparr>) s else Inr s)))"

section \<open>Choosing, claiming and finishing\<close>

definition background_next :: "ctx \<Rightarrow> store \<Rightarrow> cerr + work option \<times> store" where
  "background_next ctx s =
     bindE (reconcile_profiles ctx s) (\<lambda>s'.
     bindE (all_work s') (\<lambda>rows.
     let all = sort_key queue_key rows in
     Inr (find (\<lambda>it. owns_work it \<and> w_status it = Queued \<and> dispatchable it all
                 \<and> \<not> (\<exists>other\<in>set all. w_id other \<noteq> w_id it \<and> w_agent_id other = w_agent_id it
                        \<and> executing (w_status other))) all, s')))"

definition message_input ::
  "work \<Rightarrow> string \<Rightarrow> string \<Rightarrow> string \<Rightarrow> string \<Rightarrow> thread_row \<Rightarrow> append_input" where
  "message_input it run kind content at' head =
     (let key = run @ ''-'' @ kind in
      \<lparr>ai_id = key, ai_kind = kind,
       ai_detail = JObj [(''agentId'', JStr (w_agent_id it)),
                         (''executionOwner'', JStr ''native-background'')],
       ai_run_id = Some run, ai_sequence = th_last_sequence head + 1,
       ai_expected = th_last_sequence head, ai_previous = th_last_message_id head, ai_parent = None,
       ai_idempotency = key, ai_revision_id = key @ ''-revision'', ai_state = ''terminal'',
       ai_reason = ''native-background'', ai_content = JObj [(''text'', JStr content)], ai_at = at'\<rparr>)"

definition background_append ::
  "ctx \<Rightarrow> work \<Rightarrow> string \<Rightarrow> string \<Rightarrow> string \<Rightarrow> store \<Rightarrow> cerr + store" where
  "background_append ctx it run kind content s =
     bindE (ok_or err_background_conversation (tget (threads s) (w_conversation_id it))) (\<lambda>head.
     append ctx (w_conversation_id it) (message_input it run kind content (time ctx) head) s)"

text \<open>
  \<open>bind_at\<close> is the native schedule claim, when the caller holds one: it binds the attempt to its
  occurrence.
\<close>

definition background_claim ::
  "ctx \<Rightarrow> work \<Rightarrow> execution_attempt \<Rightarrow> (string \<Rightarrow> store \<Rightarrow> cerr + store) option \<Rightarrow> store
   \<Rightarrow> cerr + store" where
  "background_claim ctx it attempt bind_at s =
     bindE (current ctx (w_id it) (w_generation it) None s) (\<lambda>cur.
     if \<not> is_worker ctx \<or> \<not> owns_work cur then Inl err_needs_foreground else
     bindE (background_allowed ctx s) (\<lambda>ok.
     if \<not> ok then Inl err_needs_foreground else
     bindE (find_profile (profiles ctx) (w_agent_id cur)) (\<lambda>agent.
     if \<not> eligible cur agent \<or> w_status cur \<noteq> Queued \<or> tget (attempts s) (at_id attempt) \<noteq> None
     then Inl err_needs_foreground else
     bindE (write_attempt attempt s) (\<lambda>s1.
     bindE (if w_schedule it = None then Inr s1
            else (case bind_at of None \<Rightarrow> Inl err_schedule_claim_missing
                  | Some bind \<Rightarrow> bind (at_id attempt) s1)) (\<lambda>s2.
     bindE (bind_work ctx (w_id it) (w_generation it) (at_id attempt) None s2) (\<lambda>s3.
     if w_run_ids it = [] then background_append ctx cur (at_id attempt) ''user'' (w_user_request it) s3
     else Inr s3))))))"

definition background_check :: "ctx \<Rightarrow> work \<Rightarrow> string \<Rightarrow> store \<Rightarrow> cerr + unit" where
  "background_check ctx it run s =
     bindE (current ctx (w_id it) (w_generation it) (Some run) s) (\<lambda>cur.
     if \<not> owns_work cur then Inl err_background_stopped else
     bindE (background_allowed ctx s) (\<lambda>ok. if ok then Inr () else Inl err_background_stopped))"

definition parked :: "work \<Rightarrow> work" where
  "parked it = it\<lparr>w_status := AwaitingUser, w_awaiting_user := True, w_generation := w_generation it + 1,
                   w_current_run_id := None, w_reason := Some msg_result_saved\<rparr>"

definition finish_at ::
  "ctx \<Rightarrow> work \<Rightarrow> execution_attempt \<Rightarrow> work_status \<Rightarrow> store \<Rightarrow> cerr + work_status \<times> store" where
  "finish_at ctx it attempt status s =
     bindE (background_check ctx it (at_id attempt) s) (\<lambda>_.
     bindE (ok_or err_background_attempt (tget (attempts s) (at_id attempt))) (\<lambda>existing.
     if ar_status existing \<notin> {''queued'', ''streaming'', ''awaiting-approval''}
     then Inl err_background_terminal else
     bindE (write_attempt attempt s) (\<lambda>s1.
     bindE (if status = Completed
            then background_append ctx it (at_id attempt) ''assistant'' (at_transcript attempt) s1
            else Inr s1) (\<lambda>s2.
     bindE (finish ctx (w_id it) (w_generation it) (at_id attempt) status (at_error attempt) s2) (\<lambda>s3.
     bindE (item s3 (w_id it)) (\<lambda>finished.
     bindE (if w_status finished = Queued then
              bindE (find_profile (profiles ctx) (w_agent_id finished)) (\<lambda>agent.
              Inr (\<not> eligible finished agent))
            else Inr False) (\<lambda>park.
     if park then bindE (put_work ctx (parked finished) s3) (\<lambda>s4. Inr (AwaitingUser, s4))
     else Inr (w_status finished, s3))))))))"

definition checkpoint :: "ctx \<Rightarrow> work \<Rightarrow> execution_attempt \<Rightarrow> store \<Rightarrow> cerr + store" where
  "checkpoint ctx it attempt s =
     bindE (current ctx (w_id it) (w_generation it) (Some (at_id attempt)) s) (\<lambda>cur.
     bindE (background_allowed ctx s) (\<lambda>ok.
     if \<not> ok then Inl err_background_stopped else
     bindE (write_attempt attempt s) (\<lambda>s1.
     put_work ctx (cur\<lparr>w_updated_at := time ctx\<rparr>) s1)))"

section \<open>Interruption and recovery\<close>

definition interrupt_attempt :: "ctx \<Rightarrow> string \<Rightarrow> store \<Rightarrow> cerr + store" where
  "interrupt_attempt ctx run s =
     (case tget (attempts s) run of
        None \<Rightarrow> Inr s
      | Some row \<Rightarrow>
          if ar_status row \<in> {''queued'', ''streaming'', ''awaiting-approval'', ''retrying''} then
            bindE (ok_or err_background_invalid (ar_payload row)) (\<lambda>a.
            write_attempt (a\<lparr>at_status := ''interrupted'', at_recoverable := True,
                             at_pending_approval_ids := [], at_updated_at := time ctx\<rparr>) s)
          else Inr s)"

definition interrupt_bound_attempt :: "ctx \<Rightarrow> work \<Rightarrow> string \<Rightarrow> store \<Rightarrow> cerr + store" where
  "interrupt_bound_attempt ctx it run s =
     bindE (ok_or err_background_author (tget (authors s) run)) (\<lambda>a.
     if au_work_id a \<noteq> Some (w_id it) \<or> au_generation a \<noteq> w_generation it
     then Inl err_background_binding
     else interrupt_attempt ctx run s)"

definition interrupt_run :: "ctx \<Rightarrow> work \<Rightarrow> store \<Rightarrow> cerr + store" where
  "interrupt_run ctx it s =
     (case w_current_run_id it of None \<Rightarrow> Inr s | Some run \<Rightarrow> interrupt_attempt ctx run s)"

definition halted :: "ctx \<Rightarrow> string \<Rightarrow> work \<Rightarrow> work" where
  "halted ctx reason it =
     it\<lparr>w_status := AwaitingUser, w_generation := w_generation it + 1, w_current_run_id := None,
        w_reason := Some reason, w_updated_at := time ctx\<rparr>"

definition background_blocked :: "ctx \<Rightarrow> work \<Rightarrow> string \<Rightarrow> store \<Rightarrow> cerr + store" where
  "background_blocked ctx it reason s =
     bindE (current_for_failure (w_id it) (w_generation it) s) (\<lambda>cur.
     bindE (interrupt_run ctx cur s) (\<lambda>s1.
     put_work ctx (halted ctx (concat (take 1800 (scalars reason))) cur) s1))"

definition recover_one :: "ctx \<Rightarrow> work \<Rightarrow> store \<Rightarrow> cerr + store" where
  "recover_one ctx it s =
     (if \<not> owns_work it then Inr s else
      bindE (interrupt_run ctx it s) (\<lambda>s1.
      if active (w_status it) then put_work ctx (halted ctx msg_background_stopped it) s1 else Inr s1))"

definition background_recover :: "ctx \<Rightarrow> store \<Rightarrow> cerr + store" where
  "background_recover ctx s = bindE (all_work s) (\<lambda>all. foldE (recover_one ctx) all s)"

section \<open>Laws\<close>

text \<open>
  A loop over a snapshot of the records in which an iteration first changes other tables and then
  rewrites its own record.
\<close>

context work_law
begin

lemma adv_rows_via_aux:
  assumes "\<And>w t t'. w \<in> set ws \<Longrightarrow> f w t = Inr t' \<Longrightarrow>
      \<exists>u. works u = works t \<and> advances R N t u
        \<and> (t' = u \<or> (\<exists>w'. put_work ctx w' u = Inr t' \<and> R w w'))"
    and "foldE f ws s = Inr s'" and "distinct (map w_id ws)"
    and "\<And>w. w \<in> set ws \<Longrightarrow> tget (works s) (w_id w) = Some w"
  shows "advances R N s s'"
  using assms
proof (induction ws arbitrary: s)
  case (Cons w ws)
  from Cons.prems(2) obtain t where t: "f w s = Inr t" "foldE f ws t = Inr s'"
    by (auto simp: bindE_Inr)
  obtain u where u: "works u = works s" "advances R N s u"
      "t = u \<or> (\<exists>w'. put_work ctx w' u = Inr t \<and> R w w')"
    using Cons.prems(1) [OF _ t(1)] by force
  have w: "tget (works u) (w_id w) = Some w" using Cons.prems(4) [of w] u(1) by simp
  have "advances R N u t"
    using u(3)
  proof
    assume "\<exists>w'. put_work ctx w' u = Inr t \<and> R w w'"
    then show ?thesis using adv_put [OF w] by metis
  qed simp
  moreover have "tget (works t) (w_id v) = Some v" if "v \<in> set ws" for v
  proof -
    have "w_id v \<noteq> w_id w" using Cons.prems(3) that by (metis distinct.simps(2) image_eqI list.map(2) set_map)
    then show ?thesis
      using u(3) Cons.prems(4) [of v] that u(1) by (auto simp: put_work_get dest: law_id)
  qed
  with Cons.IH [OF Cons.prems(1) t(2)] Cons.prems(3) have "advances R N t s'"
    by (simp only: list.map distinct.simps list.set_intros simp_thms)
  ultimately show ?case using u(2) adv_trans by metis
qed simp

lemma adv_rows_via:
  assumes "\<And>w t t'. w \<in> set (trows (works s)) \<Longrightarrow> f w t = Inr t' \<Longrightarrow>
      \<exists>u. works u = works t \<and> advances R N t u
        \<and> (t' = u \<or> (\<exists>w'. put_work ctx w' u = Inr t' \<and> R w w'))"
    and "foldE f (trows (works s)) s = Inr s'"
  shows "advances R N s s'"
proof (cases "store_ok s")
  case True
  show ?thesis
    by (rule adv_rows_via_aux [OF assms(1,2)]) (use rows_distinct [OF True] works_rows [OF True] in auto)
qed (simp add: advances_def)

end

lemma write_attempt_law: "write_attempt a s = Inr s' \<Longrightarrow> advances work_quiet quiet_new s s'"
  unfolding write_attempt_def by (rule upsert_law)

lemma upsert_works: "upsert_attempt key row s = Inr s' \<Longrightarrow> works s' = works s"
  by (erule upsert_elim) simp_all

lemma append_law: "append ctx thread a s = Inr s' \<Longrightarrow> advances work_quiet quiet_new s s'"
  unfolding append_def
proof (erule append_elim, goal_cases)
  case (2 key revision th parent)
  then show ?case by (intro quiet.adv_same) (simp_all add: store_ok_def tinv_tput)
qed simp

lemma append_works: "append ctx thread a s = Inr s' \<Longrightarrow> works s' = works s"
  unfolding append_def by (erule append_elim) simp_all

lemma background_append_law:
  "background_append ctx it run kind content s = Inr s' \<Longrightarrow> advances work_quiet quiet_new s s'"
  unfolding background_append_def by (elim result_elims) (rule append_law)

lemma background_append_works:
  "background_append ctx it run kind content s = Inr s' \<Longrightarrow> works s' = works s"
  unfolding background_append_def by (elim result_elims) (rule append_works)

lemma admit_law: "background_admit ctx key s = Inr s' \<Longrightarrow> advances work_quiet quiet_new s s'"
  unfolding background_admit_def
proof (elim bindE_elim, goal_cases)
  case (1 ok)
  show ?case
  proof (cases "\<not> ok \<or> \<not> worker_ready ctx")
    case False
    from 1(2) [unfolded if_not_P [OF False]] show ?thesis
    proof (elim bindE_elim, goal_cases)
      case (1 it agent)
      show ?case
      proof (cases "eligible it agent")
        case True
        with 1 show ?thesis
          by (intro quiet.adv_put [of s key it "it\<lparr>w_execution_owner := Some ''native-background''\<rparr>" ctx s'])
            (simp_all add: work_law_defs work_wf_def)
      qed (use 1 in simp)
    qed
  qed (use 1 in simp)
qed

lemma next_law: "background_next ctx s = Inr (w, s') \<Longrightarrow> advances work_quiet quiet_new s s'"
  unfolding background_next_def Let_def by (elim bindE_elim) (auto intro: reconcile_profiles_law)

lemma claim_law:
  assumes "background_claim ctx it attempt bind_at s = Inr s'"
    and "\<And>bind run t t'. bind_at = Some bind \<Longrightarrow> bind run t = Inr t' \<Longrightarrow> advances work_extends work_wf t t'"
  shows "advances work_extends work_wf s s'"
  using assms(1) unfolding background_claim_def
proof (elim result_elims, goal_cases)
  case (1 cur ok agent s1 s2 s3)
  have a: "advances work_extends work_wf s s1"
    using 1 by (intro quiet_extends write_attempt_law)
  have b: "advances work_extends work_wf s1 s2"
  proof (cases "w_schedule it = None")
    case False
    with 1 show ?thesis by (cases bind_at) (simp_all add: assms(2))
  qed (use 1 in simp)
  have c: "advances work_extends work_wf s2 s3" using 1 by (intro bind_work_law)
  have "advances work_extends work_wf s3 s'"
    using 1 by (cases "w_run_ids it = []") (simp_all add: quiet_extends background_append_law)
  with a b c show ?case using extends.adv_trans by metis
qed

lemma parked_quiet: "work_quiet w (parked w)"
  by (simp add: parked_def work_law_defs work_wf_def)

lemma halted_quiet: "work_quiet w (halted ctx reason w)"
  by (simp add: halted_def work_law_defs work_wf_def)

lemma finish_at_law:
  assumes "finish_at ctx it attempt status s = Inr (st, s')"
  shows "advances work_quiet quiet_new s s'"
  using assms unfolding finish_at_def
proof (elim result_elims, goal_cases)
  case (1 u existing s1 s2 s3 finished park)
  have a: "advances work_quiet quiet_new s s1" using 1 by (intro write_attempt_law)
  have b: "advances work_quiet quiet_new s1 s2"
    using 1 by (cases "status = Completed") (simp_all add: background_append_law)
  have c: "advances work_quiet quiet_new s2 s3" using 1 by (intro finish_law)
  have "advances work_quiet quiet_new s3 s'"
  proof (cases park)
    case True
    with 1 have "put_work ctx (parked finished) s3 = Inr s'" "tget (works s3) (w_id it) = Some finished"
      by (simp_all add: bindE_Inr)
    then show ?thesis using quiet.adv_put parked_quiet by metis
  qed (use 1 in simp)
  with a b c show ?case using quiet.adv_trans by metis
qed

lemma checkpoint_law: "checkpoint ctx it attempt s = Inr s' \<Longrightarrow> advances work_quiet quiet_new s s'"
  unfolding checkpoint_def
proof (elim result_elims, goal_cases)
  case (1 cur ok s1)
  have "tget (works s1) (w_id it) = Some cur"
    using 1 current_item(1) upsert_works write_attempt_def by metis
  then have "advances work_quiet quiet_new s1 s'" using 1 quiet.adv_put touch_quiet by metis
  with 1 show ?case using write_attempt_law quiet.adv_trans by metis
qed

lemma interrupt_attempt_law:
  assumes "interrupt_attempt ctx run s = Inr s'"
  shows "advances work_quiet quiet_new s s'" and "works s' = works s"
proof -
  have "s' = s \<or> (\<exists>a. write_attempt a s = Inr s')"
    using assms unfolding interrupt_attempt_def
    by (cases "tget (attempts s) run") (auto simp: bindE_Inr split: if_splits)
  then show "advances work_quiet quiet_new s s'" "works s' = works s"
    using write_attempt_law by (auto simp: write_attempt_def dest: upsert_works)
qed

lemma interrupt_run_law:
  assumes "interrupt_run ctx it s = Inr s'"
  shows "advances work_quiet quiet_new s s'" and "works s' = works s"
proof -
  have "s' = s \<or> (\<exists>run. interrupt_attempt ctx run s = Inr s')"
    using assms by (cases "w_current_run_id it") (simp_all add: interrupt_run_def, metis)
  then show "advances work_quiet quiet_new s s'" "works s' = works s"
    using interrupt_attempt_law by (metis quiet.adv_refl)+
qed

lemma interrupt_bound_law:
  "interrupt_bound_attempt ctx it run s = Inr s' \<Longrightarrow> advances work_quiet quiet_new s s'"
  unfolding interrupt_bound_attempt_def by (elim result_elims) (rule interrupt_attempt_law)

lemma blocked_law:
  "background_blocked ctx it reason s = Inr s' \<Longrightarrow> advances work_quiet quiet_new s s'"
  unfolding background_blocked_def
proof (elim result_elims, goal_cases)
  case (1 cur s1)
  from 1(1) have "tget (works s) (w_id it) = Some cur"
    by (simp add: current_for_failure_def bindE_Inr split: if_splits)
  then have "tget (works s1) (w_id it) = Some cur" using interrupt_run_law(2) [OF 1(2)] by simp
  from quiet.adv_put [OF this _ 1(3)] halted_quiet show ?case
    using quiet.adv_trans [OF interrupt_run_law(1) [OF 1(2)]] by metis
qed

lemma recover_one_via:
  assumes "recover_one ctx w t = Inr t'"
  shows "\<exists>u. works u = works t \<and> advances work_quiet quiet_new t u
        \<and> (t' = u \<or> (\<exists>w'. put_work ctx w' u = Inr t' \<and> work_quiet w w'))"
proof (cases "owns_work w")
  case True
  with assms obtain u where u: "interrupt_run ctx w t = Inr u"
      "(if active (w_status w) then put_work ctx (halted ctx msg_background_stopped w) u else Inr u) = Inr t'"
    by (simp add: recover_one_def bindE_Inr) metis
  with interrupt_run_law [OF u(1)] halted_quiet show ?thesis
    by (cases "active (w_status w)") (auto intro!: exI [of _ u])
qed (use assms in \<open>auto simp: recover_one_def\<close>)

lemma background_recover_law:
  "background_recover ctx s = Inr s' \<Longrightarrow> advances work_quiet quiet_new s s'"
  unfolding background_recover_def
  using quiet.adv_rows_via [of s "recover_one ctx" ctx s'] recover_one_via
  by (simp add: bindE_Inr)

end
