(* ===== verification/Work_Recovery.thy ===== *)
theory Work_Recovery
  imports Work_Background
begin

text \<open>
  What happens to assignments from outside the command interface (\<open>collaboration.rs\<close>,
  \<open>collaboration/handover.rs\<close>): the restart of the application (\<open>recover\<close>), the loss of the
  renderer that owned an execution (\<open>fence_orphaned_executing_work\<close>), the end of an account session
  (\<open>suspend_account\<close>), an edit of a project (\<open>project_changed\<close>), the handover of a browser to the
  user (\<open>handover::pause\<close>) and the idle check of a conversation. None of them starts an execution.
\<close>

section \<open>Restart\<close>

definition owner_alive :: "ctx \<Rightarrow> bool" where
  "owner_alive ctx = (is_worker ctx \<or> worker_locked ctx)"

definition armed :: "work \<Rightarrow> bool" where
  "armed it = (case w_reset_continuation it of None \<Rightarrow> False | Some reset \<Rightarrow> rc_state reset = ''armed'')"

definition app_stopped :: "ctx \<Rightarrow> work \<Rightarrow> work" where
  "app_stopped ctx it =
     it\<lparr>w_status := AwaitingUser, w_generation := w_generation it + 1, w_updated_at := time ctx,
        w_reason := Some msg_app_stopped\<rparr>"

definition restart_one :: "ctx \<Rightarrow> work \<Rightarrow> store \<Rightarrow> cerr + store" where
  "restart_one ctx it s =
     (let it1 = require_review msg_restarted it in
      bindE (if armed it then put_work ctx it1 s else Inr s) (\<lambda>s1.
      bindE (recoverable_unstarted s1 it1) (\<lambda>unstarted.
      if unstarted \<or> w_execution_owner it1 = Some ''hosted'' then Inr s1
      else if active (w_status it1) \<and> \<not> (owns_work it1 \<and> owner_alive ctx)
      then put_work ctx (app_stopped ctx it1) s1 else Inr s1)))"

definition recover :: "ctx \<Rightarrow> store \<Rightarrow> cerr + store" where
  "recover ctx s = bindE (all_work s) (\<lambda>all. foldE (restart_one ctx) all s)"

section \<open>Lost owners, ended sessions, edited projects\<close>

definition orphaned :: "ctx \<Rightarrow> work \<Rightarrow> bool" where
  "orphaned ctx it =
     (executing (w_status it) \<and> w_execution_owner it \<noteq> Some ''hosted''
      \<and> \<not> (owns_work it \<and> owner_alive ctx))"

definition fence_orphaned_executing_work :: "ctx \<Rightarrow> store \<Rightarrow> cerr + store" where
  "fence_orphaned_executing_work ctx s =
     bindE (all_work s) (\<lambda>all.
     bindE (foldE (\<lambda>it t. if orphaned ctx it then put_work ctx (halted ctx msg_owner_lost it) t else Inr t)
              all s) (wake_waiters ctx))"

definition suspend_account :: "ctx \<Rightarrow> store \<Rightarrow> cerr + store" where
  "suspend_account ctx s =
     bindE (all_work s) (\<lambda>all.
     foldE (\<lambda>it t. if active (w_status it)
                   then put_work ctx (halted ctx msg_session_ended (mark_stop it)) t else Inr t) all s)"

definition project_edited :: "ctx \<Rightarrow> bool \<Rightarrow> work \<Rightarrow> work" where
  "project_edited ctx is_archived it =
     it\<lparr>w_generation := w_generation it + 1,
        w_status := if is_archived then Cancelled else AwaitingUser,
        w_reason := Some (if is_archived then msg_archived else msg_project_edited),
        w_updated_at := time ctx\<rparr>"

definition retitle_project_room :: "ctx \<Rightarrow> string \<Rightarrow> store \<Rightarrow> cerr + store" where
  "retitle_project_room ctx project s =
     (case tget (projects s) project of
        None \<Rightarrow> Inr s
      | Some row \<Rightarrow>
          (case tget (conversations s) (pj_thread_id row) of
             None \<Rightarrow> Inr s
           | Some r \<Rightarrow>
               put_conversation ctx
                 (r\<lparr>c_title := (case jstr (jindex (pj_payload row) ''name'') of
                                 Some name \<Rightarrow> name | None \<Rightarrow> c_title r),
                    c_updated_at := time ctx\<rparr>) s))"

definition project_changed :: "ctx \<Rightarrow> string \<Rightarrow> bool \<Rightarrow> store \<Rightarrow> cerr + store" where
  "project_changed ctx project is_archived s =
     (case tget (teams s) project of
        None \<Rightarrow> Inr s
      | Some tm \<Rightarrow>
          bindE (put_team ctx (tm\<lparr>tm_revision := tm_revision tm + 1\<rparr>) s) (\<lambda>s1.
          bindE (all_work s1) (\<lambda>all.
          bindE (foldE (\<lambda>it t. if w_project_id it = Some project \<and> active (w_status it)
                               then put_work ctx (project_edited ctx is_archived it) t else Inr t) all s1)
            (retitle_project_room ctx project))))"

section \<open>Browser handover\<close>

definition handed_over :: "work \<Rightarrow> work" where
  "handed_over it =
     it\<lparr>w_current_run_id := None, w_awaiting_user := False,
        w_outcome_goal := map_option (\<lambda>g. g\<lparr>g_status := ''paused''\<rparr>) (w_outcome_goal it)\<rparr>"

definition handover_pause :: "ctx \<Rightarrow> string \<Rightarrow> string \<Rightarrow> store \<Rightarrow> cerr + store" where
  "handover_pause ctx agent reason s =
     bindE (check_id agent) (\<lambda>_.
     bindE (bounded reason 2000 ''Browser handover reason'') (\<lambda>reason'.
     bindE (all_work s) (\<lambda>all.
     case filter (\<lambda>w. w_agent_id w = agent \<and> executing (w_status w)) all of
       [] \<Rightarrow> Inl err_no_handover_owner
     | it # rest \<Rightarrow>
         if rest \<noteq> [] then Inl err_ambiguous_handover else
         bindE (ok_or err_handover_no_run (w_current_run_id it)) (\<lambda>run.
         bindE (ok_or err_handover_no_author (tget (authors s) run)) (\<lambda>a.
         if au_work_id a \<noteq> Some (w_id it) \<or> au_generation a \<noteq> w_generation it
            \<or> au_agent_id a \<noteq> w_agent_id it \<or> au_conversation_id a \<noteq> w_conversation_id it
         then Inl err_handover_changed else
         bindE (ensure_run_current ctx (Some run) s) (\<lambda>_.
         bindE (invalidate_descendants ctx (w_id it) reason' AwaitingUser s) (\<lambda>s1.
         foldE (\<lambda>key t. bindE (item t key) (\<lambda>cur.
                  if w_status cur = AwaitingUser then put_work ctx (handed_over cur) t else Inr t))
           (affected_loop all [w_id it]) s1)))))))"

definition ensure_conversation_idle :: "string \<Rightarrow> store \<Rightarrow> cerr + unit" where
  "ensure_conversation_idle conversation s =
     bindE (all_work s) (\<lambda>all.
     if \<exists>it\<in>set all. w_conversation_id it = conversation \<and> active (w_status it)
     then Inl err_idle_required else Inr ())"

section \<open>Laws\<close>

lemma app_stopped_quiet: "work_quiet w (app_stopped ctx w)"
  by (simp add: app_stopped_def work_law_defs work_wf_def)

lemma mark_stop_quiet: "work_quiet w (mark_stop w)"
  by (simp add: mark_stop_def work_law_defs work_wf_def split: option.split)

lemma project_edited_quiet: "work_quiet w (project_edited ctx b w)"
  by (simp add: project_edited_def work_law_defs work_wf_def)

lemma handed_over_quiet: "w_status w = AwaitingUser \<Longrightarrow> work_quiet w (handed_over w)"
  by (simp add: handed_over_def work_law_defs work_wf_def)

lemma restart_one_put:
  assumes "restart_one ctx w t = Inr t'"
  shows "t' = t \<or> (\<exists>w'. put_work ctx w' t = Inr t' \<and> work_quiet w w')"
proof -
  let ?w1 = "require_review msg_restarted w"
  obtain s1 where s1: "(if armed w then put_work ctx ?w1 t else Inr t) = Inr s1"
      "t' = s1 \<or> put_work ctx (app_stopped ctx ?w1) s1 = Inr t'"
    using assms unfolding restart_one_def Let_def
    by (elim bindE_elim) (simp split: if_splits)
  have q: "work_quiet w ?w1" by (rule require_review_quiet)
  have q2: "work_quiet w (app_stopped ctx ?w1)" using q app_stopped_quiet quiet.law_trans by metis
  show ?thesis
  proof (cases "armed w")
    case True
    with s1(1) have p: "put_work ctx ?w1 t = Inr s1" by simp
    from s1(2) show ?thesis
    proof
      assume "put_work ctx (app_stopped ctx ?w1) s1 = Inr t'"
      then have "put_work ctx (app_stopped ctx ?w1) t = Inr t'"
        using put_work_twice [OF p] by (simp add: app_stopped_def)
      with q2 show ?thesis by metis
    qed (use p q in metis)
  next
    case False
    with s1 q2 show ?thesis by (simp, metis)
  qed
qed

lemma recover_law: "recover ctx s = Inr s' \<Longrightarrow> advances work_quiet quiet_new s s'"
  unfolding recover_def
  using quiet.adv_rows [of "\<lambda>t. t" s "restart_one ctx" ctx s'] restart_one_put
  by (simp add: bindE_Inr)


lemma fence_fold:
  assumes "fence_orphaned_executing_work ctx s = Inr s'"
  obtains t where
    "foldE (\<lambda>w. put_work ctx (halted ctx msg_owner_lost w)) (filter (orphaned ctx) (trows (works s))) s = Inr t"
    "wake_waiters ctx t = Inr s'"
  using assms unfolding fence_orphaned_executing_work_def
  by (elim bindE_elim) (simp add: foldE_filter)

lemma fence_law:
  assumes "fence_orphaned_executing_work ctx s = Inr s'"
  shows "advances work_quiet quiet_new s s'"
  using assms
proof (rule fence_fold)
  fix t
  assume f: "foldE (\<lambda>w. put_work ctx (halted ctx msg_owner_lost w)) (filter (orphaned ctx) (trows (works s))) s = Inr t"
    and w: "wake_waiters ctx t = Inr s'"
  have "advances work_quiet quiet_new s t"
    by (rule quiet.adv_rewrite [OF f]) (rule halted_quiet)
  with wake_waiters_law [OF w] show ?thesis using quiet.adv_trans by metis
qed

lemma suspend_fold:
  "suspend_account ctx s = Inr s' \<Longrightarrow>
   foldE (\<lambda>w. put_work ctx (halted ctx msg_session_ended (mark_stop w)))
     (filter (\<lambda>w. active (w_status w)) (trows (works s))) s = Inr s'"
  unfolding suspend_account_def by (elim bindE_elim) (simp add: foldE_filter)

lemma suspend_law:
  assumes "suspend_account ctx s = Inr s'"
  shows "advances work_quiet quiet_new s s'"
  using quiet.adv_rewrite [OF suspend_fold [OF assms]] mark_stop_quiet halted_quiet quiet.law_trans
  by metis

lemma retitle_law: "retitle_project_room ctx project s = Inr s' \<Longrightarrow> advances work_quiet quiet_new s s'"
  unfolding retitle_project_room_def
  by (cases "tget (projects s) project"; simp)
     (cases "tget (conversations s) (pj_thread_id (the (tget (projects s) project)))";
      simp add: put_conversation_law)

lemma project_changed_law:
  assumes "project_changed ctx project b s = Inr s'"
  shows "advances work_quiet quiet_new s s'"
proof (cases "tget (teams s) project")
  case (Some tm)
  from assms [unfolded project_changed_def Some option.case] show ?thesis
  proof (elim bindE_elim, goal_cases)
    case (1 s1 all s2)
    then have "foldE (\<lambda>w. put_work ctx (project_edited ctx b w))
        (filter (\<lambda>w. w_project_id w = Some project \<and> active (w_status w)) (trows (works s1))) s1 = Inr s2"
      by (simp add: foldE_filter)
    from quiet.adv_rewrite [OF this] project_edited_quiet
    have "advances work_quiet quiet_new s1 s2" by metis
    with put_team_law [OF 1(1)] retitle_law [OF 1(4)] show ?case using quiet.adv_trans by metis
  qed
qed (use assms in \<open>simp add: project_changed_def\<close>)

lemma hand_over_law:
  assumes "foldE (\<lambda>key t. bindE (item t key) (\<lambda>cur.
     if w_status cur = AwaitingUser then put_work ctx (handed_over cur) t else Inr t)) keys s = Inr s'"
  shows "advances work_quiet quiet_new s s'"
proof (rule quiet.adv_foldE [OF _ assms], goal_cases)
  case (1 key t t')
  then obtain cur where cur: "tget (works t) key = Some cur"
      "(if w_status cur = AwaitingUser then put_work ctx (handed_over cur) t else Inr t) = Inr t'"
    by (elim bindE_elim) simp
  show ?case
  proof (cases "w_status cur = AwaitingUser")
    case True
    with cur have "put_work ctx (handed_over cur) t = Inr t'" by simp
    with quiet.adv_put [OF cur(1)] handed_over_quiet [OF True] show ?thesis by metis
  qed (use cur in simp)
qed

lemma handover_elim:
  assumes "handover_pause ctx agent reason s = Inr s'"
  obtains it run a reason' s1 where
    "filter (\<lambda>w. w_agent_id w = agent \<and> executing (w_status w)) (trows (works s)) = [it]"
    "w_current_run_id it = Some run" "tget (authors s) run = Some a" "au_work_id a = Some (w_id it)"
    "au_generation a = w_generation it" "ensure_run_current ctx (Some run) s = Inr ()"
    "invalidate_descendants ctx (w_id it) reason' AwaitingUser s = Inr s1"
    "foldE (\<lambda>key t. bindE (item t key) (\<lambda>cur.
       if w_status cur = AwaitingUser then put_work ctx (handed_over cur) t else Inr t))
       (affected_loop (trows (works s)) [w_id it]) s1 = Inr s'"
  using assms unfolding handover_pause_def
proof (elim bindE_elim, goal_cases)
  case (1 u reason' all)
  show ?case
  proof (cases "filter (\<lambda>w. w_agent_id w = agent \<and> executing (w_status w)) all")
    case (Cons it rest)
    from 1(5) [unfolded Cons list.case] show ?thesis
      using 1(1) [of it] 1(4) Cons by (elim result_elims) simp
  qed (use 1 in simp)
qed

lemma handover_law:
  assumes "handover_pause ctx agent reason s = Inr s'"
  shows "advances work_quiet quiet_new s s'"
  using assms
proof (rule handover_elim, goal_cases)
  case (1 it run a reason' s1)
  from invalidate_law [OF 1(7)] hand_over_law [OF 1(8)] show ?case
    using quiet.adv_trans by simp
qed

section \<open>What recovery leaves\<close>

text \<open>A loop over the records in which every iteration settles its own record.\<close>

lemma rows_settle:
  assumes step: "\<And>w t t'. w \<in> set ws \<Longrightarrow> store_ok t \<Longrightarrow> tget (works t) (w_id w) = Some w \<Longrightarrow> f w t = Inr t' \<Longrightarrow>
      (t' = t \<or> (\<exists>w'. put_work ctx w' t = Inr t' \<and> w_id w' = w_id w))
      \<and> (\<exists>w'. tget (works t') (w_id w) = Some w' \<and> P w')"
    and "foldE f ws s = Inr s'" and "distinct (map w_id ws)" and "store_ok s"
    and "\<And>w. w \<in> set ws \<Longrightarrow> tget (works s) (w_id w) = Some w"
  shows "(\<forall>w\<in>set ws. \<exists>w'. tget (works s') (w_id w) = Some w' \<and> P w')
     \<and> (\<forall>k. k \<notin> w_id ` set ws \<longrightarrow> tget (works s') k = tget (works s) k)"
  using assms
proof (induction ws arbitrary: s)
  case (Cons w ws)
  from Cons.prems(2) obtain t where t: "f w s = Inr t" "foldE f ws t = Inr s'"
    by (auto simp: bindE_Inr)
  have own: "t = s \<or> (\<exists>w'. put_work ctx w' s = Inr t \<and> w_id w' = w_id w)"
    "\<exists>w'. tget (works t) (w_id w) = Some w' \<and> P w'"
    using Cons.prems(1) [OF _ Cons.prems(4) Cons.prems(5) [of w] t(1)] by simp_all
  have ok: "store_ok t" using own(1) Cons.prems(4) store_ok_put_work by metis
  have other: "tget (works t) k = tget (works s) k" if "k \<noteq> w_id w" for k
    using own(1) that by (metis put_work_get)
  have "(\<forall>v\<in>set ws. \<exists>w'. tget (works s') (w_id v) = Some w' \<and> P w')
     \<and> (\<forall>k. k \<notin> w_id ` set ws \<longrightarrow> tget (works s') k = tget (works t) k)"
  proof (rule Cons.IH [OF _ t(2) _ ok])
    show "tget (works t) (w_id v) = Some v" if "v \<in> set ws" for v
      using that other [of "w_id v"] Cons.prems(3,5) by (metis distinct.simps(2) image_eqI list.map(2) list.set_intros(2) set_map)
  qed (use Cons.prems(1,3) in auto)
  with own(2) other Cons.prems(3) show ?case by simp
qed simp

lemma recoverable_root:
  assumes "recoverable_unstarted s it = Inr True" and "store_ok s" and "tget (works s) key = Some w"
    and "w_root_id w = w_root_id it"
  shows "w_status w = Queued" and "w_current_run_id w = None"
proof -
  obtain root where root: "tget (works s) (w_root_id it) = Some root" "is_ok (unstarted s (w_id root) (w_generation root))"
    using assms(1) unfolding recoverable_unstarted_def by (elim bindE_elim) simp
  then have "w_root_id w = w_id root" using work_id [OF assms(2)] assms(4) by metis
  moreover have "w \<in> set (trows (works s))"
    using works_rows [OF assms(2)] work_id [OF assms(2,3)] assms(3) by metis
  ultimately have "w_status w = Queued \<and> w_current_run_id w = None"
    using root(2) work_id [OF assms(2) root(1)] root(1)
    unfolding unstarted_def is_ok_iff by (auto simp: bindE_Inr split: if_splits)
  then show "w_status w = Queued" "w_current_run_id w = None" by simp_all
qed

definition left_running :: "ctx \<Rightarrow> work \<Rightarrow> bool" where
  "left_running ctx w = (w_execution_owner w = Some ''hosted'' \<or> owns_work w \<and> owner_alive ctx)"

lemma restart_one_settles:
  assumes "store_ok t" and "tget (works t) (w_id w) = Some w" and "restart_one ctx w t = Inr t'"
  shows "\<exists>w'. tget (works t') (w_id w) = Some w' \<and> (executing (w_status w') \<longrightarrow> left_running ctx w')"
proof -
  let ?w1 = "require_review msg_restarted w"
  have f: "w_id ?w1 = w_id w" "w_root_id ?w1 = w_root_id w"
    by (simp_all add: require_review_def split: option.split)
  from assms(3) obtain s1 u where s1: "(if armed w then put_work ctx ?w1 t else Inr t) = Inr s1"
      and u: "recoverable_unstarted s1 ?w1 = Inr u"
      and t': "(if u \<or> w_execution_owner ?w1 = Some ''hosted'' then Inr s1
      else if active (w_status ?w1) \<and> \<not> (owns_work ?w1 \<and> owner_alive ctx)
      then put_work ctx (app_stopped ctx ?w1) s1 else Inr s1) = Inr t'"
    unfolding restart_one_def Let_def by (elim bindE_elim) simp
  have w1: "\<not> armed w \<Longrightarrow> ?w1 = w"
    by (cases "w_reset_continuation w") (simp_all add: armed_def require_review_def)
  have s1_get: "tget (works s1) (w_id w) = Some ?w1" and ok: "store_ok s1"
    using s1 assms(1,2) w1 store_ok_put_work put_work_get [of ctx ?w1 t s1 "w_id w"] f
    by (cases "armed w"; simp)+
  show ?thesis
  proof (cases "u \<or> w_execution_owner ?w1 = Some ''hosted''")
    case True
    with t' have "t' = s1" by simp
    with True s1_get u recoverable_root(1) [OF _ ok s1_get] show ?thesis
      by (cases u) (simp_all add: left_running_def)
  next
    case False
    note t'' = t' [unfolded if_not_P [OF False]]
    show ?thesis
    proof (cases "active (w_status ?w1) \<and> \<not> (owns_work ?w1 \<and> owner_alive ctx)")
      case True
      from put_work_get [OF t'' [unfolded if_P [OF True]], of "w_id w"] f show ?thesis
        by (simp add: app_stopped_def)
    next
      case False
      from t'' [unfolded if_not_P [OF False]] have "t' = s1" by simp
      with False s1_get executing_active show ?thesis by (simp add: left_running_def)
    qed
  qed
qed

lemma rows_everywhere:
  assumes "(\<forall>w\<in>set (trows (works s)). \<exists>w'. tget (works s') (w_id w) = Some w' \<and> P w')
     \<and> (\<forall>k. k \<notin> w_id ` set (trows (works s)) \<longrightarrow> tget (works s') k = tget (works s) k)"
    and "store_ok s" and "tget (works s') k = Some w"
  shows "P w"
proof (cases "k \<in> w_id ` set (trows (works s))")
  case True
  then show ?thesis using assms(1,3) by (metis (no_types, lifting) imageE option.inject)
next
  case False
  with assms have "tget (works s) k = Some w" by simp
  then have "w \<in> set (trows (works s))" "w_id w = k"
    using works_rows [OF assms(2)] work_id [OF assms(2)] by metis+
  with False show ?thesis by blast
qed

lemma recover_settles:
  assumes "recover ctx s = Inr s'" and "store_ok s" and "tget (works s') k = Some w" and "executing (w_status w)"
  shows "left_running ctx w"
proof -
  have f: "foldE (restart_one ctx) (trows (works s)) s = Inr s'"
    using assms(1) by (simp add: recover_def bindE_Inr)
  have "(t' = t \<or> (\<exists>w'. put_work ctx w' t = Inr t' \<and> w_id w' = w_id v))
     \<and> (\<exists>w'. tget (works t') (w_id v) = Some w' \<and> (executing (w_status w') \<longrightarrow> left_running ctx w'))"
    if "store_ok t" "tget (works t) (w_id v) = Some v" "restart_one ctx v t = Inr t'" for v t t'
  proof (rule conjI [OF _ restart_one_settles [OF that]])
    from restart_one_put [OF that(3)] show "t' = t \<or> (\<exists>w'. put_work ctx w' t = Inr t' \<and> w_id w' = w_id v)"
      by (elim disjE exE conjE) (simp, blast dest: quiet.law_id)
  qed
  note step = this
  have "(\<forall>w\<in>set (trows (works s)). \<exists>w'. tget (works s') (w_id w) = Some w' \<and> (executing (w_status w') \<longrightarrow> left_running ctx w'))
     \<and> (\<forall>k. k \<notin> w_id ` set (trows (works s)) \<longrightarrow> tget (works s') k = tget (works s) k)"
    by (rule rows_settle [OF step f rows_distinct [OF assms(2)] assms(2)])
      (assumption+, simp only: works_rows [OF assms(2)])
  from rows_everywhere [OF this assms(2,3)] assms(4) show ?thesis by simp
qed

lemma fence_settles:
  assumes "fence_orphaned_executing_work ctx s = Inr s'" and "store_ok s"
    and "tget (works s') k = Some w" and "executing (w_status w)"
  shows "left_running ctx w"
  using assms(1)
proof (rule fence_fold)
  fix t
  assume f: "foldE (\<lambda>w. put_work ctx (halted ctx msg_owner_lost w)) (filter (orphaned ctx) (trows (works s))) s = Inr t"
    and wake: "wake_waiters ctx t = Inr s'"
  have ok: "store_ok t" using foldE_put_others(2) [OF f assms(2)] .
  have get: "tget (works t) k = map_option (\<lambda>w. if orphaned ctx w then halted ctx msg_owner_lost w else w) (tget (works s) k)"
    by (rule rewrite_rows [OF assms(2) f]) (simp add: halted_def)
  have adv: "advances (woken ctx) (\<lambda>_. False) t s'"
    using wake wake_rounds_law unfolding wake_waiters_def by metis
  obtain v where v: "tget (works t) k = Some v" "woken ctx v w"
  proof (cases "tget (works t) k")
    case None
    with advancesD(3) [OF adv ok None assms(3)] show ?thesis by simp
  next
    case (Some v)
    with advancesD(2) [OF adv ok Some] assms(3) that show ?thesis by auto
  qed
  have "w = v"
    using v(2) assms(4) unfolding woken_def by (elim disjE conjE bexE exE) auto
  with v get obtain w0 where "tget (works s) k = Some w0" "w = (if orphaned ctx w0 then halted ctx msg_owner_lost w0 else w0)"
    by auto
  with assms(4) show ?thesis
    by (cases "orphaned ctx w0") (auto simp: halted_def orphaned_def left_running_def)
qed

lemma suspend_settles:
  assumes "suspend_account ctx s = Inr s'" and "store_ok s" and "tget (works s') k = Some w"
  shows "\<not> active (w_status w)"
proof -
  have "w_id (halted ctx msg_session_ended (mark_stop v)) = w_id v" for v
    by (simp add: halted_def mark_stop_def split: option.split)
  from rewrite_rows [OF assms(2) suspend_fold [OF assms(1)] this, of k] assms(3)
  show ?thesis by (cases "tget (works s) k") (auto simp: halted_def split: if_splits)
qed


definition sample_running :: work where
  "sample_running = sample_work\<lparr>w_status := Running, w_current_run_id := Some ''run-1'', w_run_ids := [''run-1'']\<rparr>"

definition sample_hosted :: work where
  "sample_hosted = sample_running\<lparr>w_id := ''remote'', w_root_id := ''remote'', w_execution_owner := Some ''hosted''\<rparr>"

definition sample_recovered :: "cerr + store" where
  "sample_recovered = recover sample_ctx (sample_store [sample_running, sample_hosted])"

lemma sample_recovered_ok: "is_ok sample_recovered" "store_ok (sample_store [sample_running, sample_hosted])"
  "tget (works (sample_store [sample_running, sample_hosted])) ''job'' = Some sample_running"
  by code_simp+


end
