(* ===== verification/Schedule_Records.thy ===== *)
theory Schedule_Records
  imports Work_Context
begin

text \<open>
  The data of local schedules (\<open>local_schedules.rs\<close>, \<open>local_schedules/events/models.rs\<close>) and the way
  it is saved: triggers, the payload of a schedule and of an occurrence, and the JSON form that the
  derived \<open>Serialize\<close> and \<open>Deserialize\<close> implementations of these structs prescribe (camel-case
  names, an internal tag for enums, defaults for absent fields, a field that is omitted when it is
  \<open>None\<close>). Objects are ordered maps, as in \<open>serde_json\<close>. The validators of
  \<open>local_schedules/validation.rs\<close> follow.
\<close>

section \<open>Numbers\<close>

definition show_int :: "int \<Rightarrow> string" where
  "show_int n = (if n < 0 then CHR ''-'' # dec (nat (- n)) else dec (nat n))"

definition dec_value :: "string \<Rightarrow> nat" where
  "dec_value s = foldl (\<lambda>n c. 10 * n + (byte c - 48)) 0 s"

definition read_int :: "string \<Rightarrow> int" where
  "read_int s = (case s of [] \<Rightarrow> 0
     | c # t \<Rightarrow> if c = CHR ''-'' then - int (dec_value t) else int (dec_value s))"

text \<open>A JSON number that is an integer, in its one canonical spelling.\<close>

definition jint :: "json \<Rightarrow> int option" where
  "jint v = (case v of JNum t \<Rightarrow> if show_int (read_int t) = t then Some (read_int t) else None
     | _ \<Rightarrow> None)"

definition in_i64 :: "int \<Rightarrow> bool" where
  "in_i64 n = (- 9223372036854775808 \<le> n \<and> n \<le> 9223372036854775807)"

definition jint64 :: "json \<Rightarrow> int option" where
  "jint64 v = (case jint v of None \<Rightarrow> None | Some n \<Rightarrow> if in_i64 n then Some n else None)"

definition jword32 :: "json \<Rightarrow> u32 option" where
  "jword32 v = (case jint v of None \<Rightarrow> None
     | Some n \<Rightarrow> if 0 \<le> n \<and> n < 4294967296 then Some (word_of_int n) else None)"

section \<open>Members of an object\<close>

definition jobj :: "(string \<times> json) list \<Rightarrow> json" where
  "jobj kvs = JObj (foldr (\<lambda>(k, v) t. tput k v t) kvs [])"

definition jopt :: "string option \<Rightarrow> json" where
  "jopt v = (case v of None \<Rightarrow> JNull | Some s \<Rightarrow> JStr s)"

text \<open>A required member, a member with a default, and an optional member of an object.\<close>

definition req :: "(json \<Rightarrow> 'a option) \<Rightarrow> json \<Rightarrow> string \<Rightarrow> 'a option" where
  "req f v key = Option.bind (jget v key) f"

definition dflt :: "'a \<Rightarrow> (json \<Rightarrow> 'a option) \<Rightarrow> json \<Rightarrow> string \<Rightarrow> 'a option" where
  "dflt d f v key = (case jget v key of None \<Rightarrow> Some d | Some x \<Rightarrow> f x)"

definition optional :: "(json \<Rightarrow> 'a option) \<Rightarrow> json \<Rightarrow> string \<Rightarrow> 'a option option" where
  "optional f v key = (case jget v key of None \<Rightarrow> Some None | Some JNull \<Rightarrow> Some None
     | Some x \<Rightarrow> map_option Some (f x))"

fun jstrings :: "json list \<Rightarrow> string list option" where
  "jstrings [] = Some []"
| "jstrings (v # vs) =
     (case jstr v of None \<Rightarrow> None | Some s \<Rightarrow> map_option ((#) s) (jstrings vs))"

definition jarr_str :: "json \<Rightarrow> string list option" where
  "jarr_str v = (case v of JArr vs \<Rightarrow> jstrings vs | _ \<Rightarrow> None)"

definition jmap :: "json \<Rightarrow> (string, json) table option" where
  "jmap v = (case v of JObj t \<Rightarrow> Some t | _ \<Rightarrow> None)"

section \<open>Triggers\<close>

record event_config =
  ev_source :: event_source
  ev_fields :: "string list"
  ev_max_age_seconds :: u32
  ev_valid_until :: string
  ev_route_id :: string
  ev_key_version :: u32
  ev_signing_key_id :: string

datatype schedule_trigger = Trigger_Event event_config | Trigger_Once string | Trigger_Daily string
  | Trigger_Weekly string string

definition trigger_kind :: "schedule_trigger \<Rightarrow> string" where
  "trigger_kind t = (case t of Trigger_Event _ \<Rightarrow> ''event'' | Trigger_Once _ \<Rightarrow> ''once''
     | Trigger_Daily _ \<Rightarrow> ''daily'' | Trigger_Weekly _ _ \<Rightarrow> ''weekly'')"

definition is_event :: "schedule_trigger \<Rightarrow> bool" where
  "is_event t = (case t of Trigger_Event _ \<Rightarrow> True | _ \<Rightarrow> False)"

definition is_once :: "schedule_trigger \<Rightarrow> bool" where
  "is_once t = (case t of Trigger_Once _ \<Rightarrow> True | _ \<Rightarrow> False)"

definition encode_source :: "event_source \<Rightarrow> json" where
  "encode_source src =
     (case src of
        Signed_Json i \<Rightarrow> jobj [(''kind'', JStr ''signed-json''), (''sourceId'', JStr i)]
      | Github_Issues r \<Rightarrow> jobj [(''kind'', JStr ''github-issues''), (''repository'', JStr r)]
      | Github_Workflow_Run r \<Rightarrow>
          jobj [(''kind'', JStr ''github-workflow-run''), (''repository'', JStr r)])"

text \<open>\<open>deny_unknown_fields\<close>: no member beside the tag and the variant's own.\<close>

definition only_members :: "string list \<Rightarrow> json \<Rightarrow> bool" where
  "only_members names v = (case v of JObj t \<Rightarrow> list_all (\<lambda>(k, _). k \<in> set names) t | _ \<Rightarrow> False)"

definition decode_source :: "json \<Rightarrow> event_source option" where
  "decode_source v =
     Option.bind (req jstr v ''kind'') (\<lambda>kind.
     if kind = ''signed-json'' \<and> only_members [''kind'', ''sourceId''] v
     then map_option Signed_Json (req jstr v ''sourceId'')
     else if kind = ''github-issues'' \<and> only_members [''kind'', ''repository''] v
     then map_option Github_Issues (req jstr v ''repository'')
     else if kind = ''github-workflow-run'' \<and> only_members [''kind'', ''repository''] v
     then map_option Github_Workflow_Run (req jstr v ''repository'')
     else None)"

definition encode_trigger :: "schedule_trigger \<Rightarrow> json" where
  "encode_trigger t =
     (case t of
        Trigger_Event c \<Rightarrow>
          jobj [(''kind'', JStr ''event''), (''source'', encode_source (ev_source c)),
                (''fields'', JArr (map JStr (ev_fields c))),
                (''maxAgeSeconds'', JNum (show_int (uint (ev_max_age_seconds c)))),
                (''validUntil'', JStr (ev_valid_until c)), (''routeId'', JStr (ev_route_id c)),
                (''keyVersion'', JNum (show_int (uint (ev_key_version c)))),
                (''signingKeyId'', JStr (ev_signing_key_id c))]
      | Trigger_Once at' \<Rightarrow> jobj [(''kind'', JStr ''once''), (''localDateTime'', JStr at')]
      | Trigger_Daily at' \<Rightarrow> jobj [(''kind'', JStr ''daily''), (''localTime'', JStr at')]
      | Trigger_Weekly day at' \<Rightarrow>
          jobj [(''kind'', JStr ''weekly''), (''weekday'', JStr day), (''localTime'', JStr at')])"

definition decode_config :: "json \<Rightarrow> event_config option" where
  "decode_config v =
     Option.bind (req decode_source v ''source'') (\<lambda>src.
     Option.bind (req jarr_str v ''fields'') (\<lambda>fields'.
     Option.bind (req jword32 v ''maxAgeSeconds'') (\<lambda>age.
     Option.bind (req jstr v ''validUntil'') (\<lambda>until.
     Option.bind (req jstr v ''routeId'') (\<lambda>route.
     Option.bind (req jword32 v ''keyVersion'') (\<lambda>version.
     Option.bind (req jstr v ''signingKeyId'') (\<lambda>key.
     Some \<lparr>ev_source = src, ev_fields = fields', ev_max_age_seconds = age, ev_valid_until = until,
           ev_route_id = route, ev_key_version = version, ev_signing_key_id = key\<rparr>)))))))"

definition decode_trigger :: "json \<Rightarrow> schedule_trigger option" where
  "decode_trigger v =
     Option.bind (req jstr v ''kind'') (\<lambda>kind.
     if kind = ''event'' then map_option Trigger_Event (decode_config v)
     else if kind = ''once'' then map_option Trigger_Once (req jstr v ''localDateTime'')
     else if kind = ''daily'' then map_option Trigger_Daily (req jstr v ''localTime'')
     else if kind = ''weekly'' then
       Option.bind (req jstr v ''weekday'') (\<lambda>day.
       map_option (Trigger_Weekly day) (req jstr v ''localTime''))
     else None)"

section \<open>Payloads\<close>

record schedule_payload =
  sp_execution_kind :: string
  sp_permission_mode :: string
  sp_prompt :: string
  sp_prompt_fingerprint :: string
  sp_prompt_revision :: int
  sp_timezone :: string
  sp_trigger :: schedule_trigger
  sp_project_id :: "string option"
  sp_agent_id :: string
  sp_provider_id :: string
  sp_model :: string
  sp_reasoning_effort :: "string option"
  sp_created_by :: string

record occurrence_payload =
  oy_event :: "event_work_origin option"
  oy_execution_kind :: string
  oy_permission_mode :: string
  oy_work_id :: "string option"
  oy_prompt :: string
  oy_prompt_fingerprint :: string
  oy_prompt_revision :: int
  oy_timezone :: string
  oy_trigger :: schedule_trigger
  oy_project_id :: "string option"
  oy_agent_id :: string
  oy_provider_id :: string
  oy_model :: string
  oy_reasoning_effort :: "string option"
  oy_intended_local_slot :: string
  oy_capacity_reservation_fingerprint :: string
  oy_outcome :: "string option"
  oy_detail :: "string option"

definition encode_schedule :: "schedule_payload \<Rightarrow> json" where
  "encode_schedule p =
     jobj [(''executionKind'', JStr (sp_execution_kind p)),
           (''permissionMode'', JStr (sp_permission_mode p)), (''prompt'', JStr (sp_prompt p)),
           (''promptFingerprint'', JStr (sp_prompt_fingerprint p)),
           (''promptRevision'', JNum (show_int (sp_prompt_revision p))),
           (''timezone'', JStr (sp_timezone p)), (''trigger'', encode_trigger (sp_trigger p)),
           (''projectId'', jopt (sp_project_id p)), (''agentId'', JStr (sp_agent_id p)),
           (''providerId'', JStr (sp_provider_id p)), (''model'', JStr (sp_model p)),
           (''reasoningEffort'', jopt (sp_reasoning_effort p)),
           (''createdByInternalUserId'', JStr (sp_created_by p))]"

definition decode_schedule :: "json \<Rightarrow> schedule_payload option" where
  "decode_schedule v =
     Option.bind (dflt ''research'' jstr v ''executionKind'') (\<lambda>kind.
     Option.bind (dflt ''read-only'' jstr v ''permissionMode'') (\<lambda>mode.
     Option.bind (req jstr v ''prompt'') (\<lambda>prompt.
     Option.bind (req jstr v ''promptFingerprint'') (\<lambda>print.
     Option.bind (req jint64 v ''promptRevision'') (\<lambda>revision.
     Option.bind (req jstr v ''timezone'') (\<lambda>zone.
     Option.bind (req decode_trigger v ''trigger'') (\<lambda>trigger.
     Option.bind (optional jstr v ''projectId'') (\<lambda>project.
     Option.bind (req jstr v ''agentId'') (\<lambda>agent.
     Option.bind (req jstr v ''providerId'') (\<lambda>provider.
     Option.bind (req jstr v ''model'') (\<lambda>model.
     Option.bind (optional jstr v ''reasoningEffort'') (\<lambda>effort.
     Option.bind (req jstr v ''createdByInternalUserId'') (\<lambda>creator.
     Some \<lparr>sp_execution_kind = kind, sp_permission_mode = mode, sp_prompt = prompt,
           sp_prompt_fingerprint = print, sp_prompt_revision = revision, sp_timezone = zone,
           sp_trigger = trigger, sp_project_id = project, sp_agent_id = agent,
           sp_provider_id = provider, sp_model = model, sp_reasoning_effort = effort,
           sp_created_by = creator\<rparr>)))))))))))))"

definition encode_origin :: "event_work_origin \<Rightarrow> json" where
  "encode_origin e =
     jobj [(''deliveryId'', JStr (eo_delivery_id e)), (''source'', encode_source (eo_source e)),
           (''receivedAt'', JStr (eo_received_at e)), (''expiresAt'', JStr (eo_expires_at e)),
           (''selectedFields'', JObj (eo_selected_fields e))]"

definition decode_origin :: "json \<Rightarrow> event_work_origin option" where
  "decode_origin v =
     Option.bind (req jstr v ''deliveryId'') (\<lambda>delivery.
     Option.bind (req decode_source v ''source'') (\<lambda>src.
     Option.bind (req jstr v ''receivedAt'') (\<lambda>received.
     Option.bind (req jstr v ''expiresAt'') (\<lambda>expires.
     Option.bind (req jmap v ''selectedFields'') (\<lambda>selected.
     Some \<lparr>eo_delivery_id = delivery, eo_source = src, eo_received_at = received,
           eo_expires_at = expires, eo_selected_fields = selected\<rparr>)))))"

definition encode_occurrence :: "occurrence_payload \<Rightarrow> json" where
  "encode_occurrence p =
     jobj ((case oy_event p of None \<Rightarrow> [] | Some e \<Rightarrow> [(''event'', encode_origin e)]) @
          [(''executionKind'', JStr (oy_execution_kind p)),
           (''permissionMode'', JStr (oy_permission_mode p)), (''workId'', jopt (oy_work_id p)),
           (''prompt'', JStr (oy_prompt p)), (''promptFingerprint'', JStr (oy_prompt_fingerprint p)),
           (''promptRevision'', JNum (show_int (oy_prompt_revision p))),
           (''timezone'', JStr (oy_timezone p)), (''trigger'', encode_trigger (oy_trigger p)),
           (''projectId'', jopt (oy_project_id p)), (''agentId'', JStr (oy_agent_id p)),
           (''providerId'', JStr (oy_provider_id p)), (''model'', JStr (oy_model p)),
           (''reasoningEffort'', jopt (oy_reasoning_effort p)),
           (''intendedLocalSlot'', JStr (oy_intended_local_slot p)),
           (''capacityReservationFingerprint'', JStr (oy_capacity_reservation_fingerprint p)),
           (''outcome'', jopt (oy_outcome p)), (''detail'', jopt (oy_detail p))])"

definition decode_occurrence :: "json \<Rightarrow> occurrence_payload option" where
  "decode_occurrence v =
     Option.bind (optional decode_origin v ''event'') (\<lambda>event.
     Option.bind (dflt ''research'' jstr v ''executionKind'') (\<lambda>kind.
     Option.bind (dflt ''read-only'' jstr v ''permissionMode'') (\<lambda>mode.
     Option.bind (optional jstr v ''workId'') (\<lambda>work.
     Option.bind (req jstr v ''prompt'') (\<lambda>prompt.
     Option.bind (req jstr v ''promptFingerprint'') (\<lambda>print.
     Option.bind (req jint64 v ''promptRevision'') (\<lambda>revision.
     Option.bind (req jstr v ''timezone'') (\<lambda>zone.
     Option.bind (req decode_trigger v ''trigger'') (\<lambda>trigger.
     Option.bind (optional jstr v ''projectId'') (\<lambda>project.
     Option.bind (req jstr v ''agentId'') (\<lambda>agent.
     Option.bind (req jstr v ''providerId'') (\<lambda>provider.
     Option.bind (req jstr v ''model'') (\<lambda>model.
     Option.bind (optional jstr v ''reasoningEffort'') (\<lambda>effort.
     Option.bind (req jstr v ''intendedLocalSlot'') (\<lambda>slot.
     Option.bind (req jstr v ''capacityReservationFingerprint'') (\<lambda>capacity.
     Option.bind (optional jstr v ''outcome'') (\<lambda>outcome.
     Option.bind (optional jstr v ''detail'') (\<lambda>detail.
     Some \<lparr>oy_event = event, oy_execution_kind = kind, oy_permission_mode = mode,
           oy_work_id = work, oy_prompt = prompt, oy_prompt_fingerprint = print,
           oy_prompt_revision = revision, oy_timezone = zone, oy_trigger = trigger,
           oy_project_id = project, oy_agent_id = agent, oy_provider_id = provider,
           oy_model = model, oy_reasoning_effort = effort, oy_intended_local_slot = slot,
           oy_capacity_reservation_fingerprint = capacity, oy_outcome = outcome,
           oy_detail = detail\<rparr>))))))))))))))))))"

section \<open>Round trip\<close>

lemma dec_value_snoc: "dec_value (s @ [c]) = 10 * dec_value s + (byte c - 48)"
  by (simp add: dec_value_def)

lemma byte_digit: "n < 10 \<Longrightarrow> byte (char_of (48 + n)) = 48 + n"
  by (simp add: byte_def)

lemma dec_value_dec [simp]: "dec_value (dec n) = n"
proof (induction n rule: dec.induct)
  case (1 n)
  show ?case
  proof (cases "n < 10")
    case True
    then show ?thesis by (simp add: dec.simps [of n] dec_value_def byte_digit)
  next
    case False
    with 1 have "dec_value (dec (n div 10)) = n div 10" by simp
    with False show ?thesis by (simp add: dec.simps [of n] dec_value_snoc byte_digit)
  qed
qed

lemma dec_digits: "dec n \<noteq> [] \<and> list_all ascii_digit (dec n)"
proof (induction n rule: dec.induct)
  case (1 n)
  have "ascii_digit (char_of (48 + m))" if "m < 10" for m :: nat
    using that by (simp add: ascii_digit_def byte_digit)
  with 1 show ?case by (cases "n < 10") (simp_all add: dec.simps [of n])
qed

lemma read_show_int [simp]: "read_int (show_int n) = n"
proof (cases "n < 0")
  case True
  then show ?thesis by (simp add: show_int_def read_int_def)
next
  case False
  obtain c t where ct: "dec (nat n) = c # t" "ascii_digit c"
    using dec_digits [of "nat n"] by (cases "dec (nat n)") auto
  then have "c \<noteq> CHR ''-''" by (auto simp: ascii_digit_def byte_def)
  with False ct show ?thesis
    using dec_value_dec [of "nat n"] by (simp add: show_int_def read_int_def)
qed

lemma jint_show [simp]: "jint (JNum (show_int n)) = Some n"
  by (simp add: jint_def)

lemma jint64_show [simp]: "in_i64 n \<Longrightarrow> jint64 (JNum (show_int n)) = Some n"
  by (simp add: jint64_def)

lemma jword32_show [simp]: "jword32 (JNum (show_int (uint w))) = Some w"
  using uint_bounded [of w] by (simp add: jword32_def)

lemma jget_jobj [simp]: "jget (jobj kvs) key = map_of kvs key"
proof -
  have "tget (foldr (\<lambda>(k, v) t. tput k v t) kvs []) key = map_of kvs key"
    by (induction kvs) (auto simp: tget_tput, simp add: tget_def)
  then show ?thesis by (simp add: jget_def jobj_def)
qed

lemma jstr_simps [simp]: "jstr (JStr s) = Some s" "jstr JNull = None" "jstr (JNum n) = None"
  by (simp_all add: jstr_def)

lemma jarr_str_map [simp]: "jarr_str (JArr (map JStr ss)) = Some ss"
proof -
  have "jstrings (map JStr ss) = Some ss" by (induction ss) simp_all
  then show ?thesis by (simp add: jarr_str_def)
qed

text \<open>What an optional text reads back as, whether it was saved as \<open>null\<close> or as a string.\<close>

lemma optional_jopt: "jget v key = Some (jopt x) \<Longrightarrow> optional jstr v key = Some x"
  by (cases x) (simp_all add: optional_def jopt_def)

lemma req_get: "jget v key = Some x \<Longrightarrow> req f v key = f x"
  by (simp add: req_def)

lemma dflt_get: "jget v key = Some x \<Longrightarrow> dflt d f v key = f x"
  by (simp add: dflt_def)

lemma only_members_jobj: "only_members names (jobj kvs) = list_all (\<lambda>(k, _). k \<in> set names) kvs"
proof -
  have "list_all P (tput k v t) \<longleftrightarrow> P (k, v) \<and> list_all P t"
    if "\<And>k v v'. P (k, v) = P (k, v')" for P :: "string \<times> json \<Rightarrow> bool" and k v t
    by (induction k v t rule: tput.induct) (use that in auto)
  then show ?thesis by (induction kvs) (auto simp: only_members_def jobj_def)
qed

lemma decode_encode_source [simp]: "decode_source (encode_source src) = Some src"
  by (cases src) (simp_all add: decode_source_def encode_source_def req_get only_members_jobj)

lemma decode_encode_trigger [simp]: "decode_trigger (encode_trigger t) = Some t"
  by (cases t) (simp_all add: decode_trigger_def encode_trigger_def decode_config_def req_get)

lemma decode_encode_schedule:
  "in_i64 (sp_prompt_revision p) \<Longrightarrow> decode_schedule (encode_schedule p) = Some p"
  by (simp add: decode_schedule_def encode_schedule_def req_get dflt_get optional_jopt)

lemma decode_encode_origin [simp]: "decode_origin (encode_origin e) = Some e"
  by (simp add: decode_origin_def encode_origin_def req_get jmap_def)

lemma optional_event:
  "optional decode_origin (encode_occurrence p) ''event'' = Some (oy_event p)"
proof (cases "oy_event p")
  case None
  then show ?thesis by (simp add: encode_occurrence_def optional_def)
next
  case (Some e)
  obtain t where t: "encode_origin e = JObj t" by (simp add: encode_origin_def jobj_def)
  then have "decode_origin (JObj t) = Some e" using decode_encode_origin [of e] by simp
  with Some t show ?thesis by (simp add: encode_occurrence_def optional_def)
qed

lemma jget_occurrence:
  "key \<noteq> ''event'' \<Longrightarrow> jget (encode_occurrence p) key = jget (encode_occurrence (p\<lparr>oy_event := None\<rparr>)) key"
  by (cases "oy_event p") (simp_all add: encode_occurrence_def)

lemma encoded_occurrence:
  "jget (encode_occurrence p) ''executionKind'' = Some (JStr (oy_execution_kind p))"
  "jget (encode_occurrence p) ''permissionMode'' = Some (JStr (oy_permission_mode p))"
  "jget (encode_occurrence p) ''workId'' = Some (jopt (oy_work_id p))"
  "jget (encode_occurrence p) ''prompt'' = Some (JStr (oy_prompt p))"
  "jget (encode_occurrence p) ''promptFingerprint'' = Some (JStr (oy_prompt_fingerprint p))"
  "jget (encode_occurrence p) ''promptRevision'' = Some (JNum (show_int (oy_prompt_revision p)))"
  "jget (encode_occurrence p) ''timezone'' = Some (JStr (oy_timezone p))"
  "jget (encode_occurrence p) ''trigger'' = Some (encode_trigger (oy_trigger p))"
  "jget (encode_occurrence p) ''projectId'' = Some (jopt (oy_project_id p))"
  "jget (encode_occurrence p) ''agentId'' = Some (JStr (oy_agent_id p))"
  "jget (encode_occurrence p) ''providerId'' = Some (JStr (oy_provider_id p))"
  "jget (encode_occurrence p) ''model'' = Some (JStr (oy_model p))"
  "jget (encode_occurrence p) ''reasoningEffort'' = Some (jopt (oy_reasoning_effort p))"
  "jget (encode_occurrence p) ''intendedLocalSlot'' = Some (JStr (oy_intended_local_slot p))"
  "jget (encode_occurrence p) ''capacityReservationFingerprint'' =
     Some (JStr (oy_capacity_reservation_fingerprint p))"
  "jget (encode_occurrence p) ''outcome'' = Some (jopt (oy_outcome p))"
  "jget (encode_occurrence p) ''detail'' = Some (jopt (oy_detail p))"
  by (subst jget_occurrence, simp, simp add: encode_occurrence_def)+

lemma decode_encode_occurrence:
  "in_i64 (oy_prompt_revision p) \<Longrightarrow> decode_occurrence (encode_occurrence p) = Some p"
  by (simp add: decode_occurrence_def optional_event encoded_occurrence req_get dflt_get optional_jopt)

text \<open>C33. What a schedule and an occurrence save is what is read back. Decoding the saved JSON form of a
  payload gives the payload, event provenance, triggers of every kind, optional and defaulted fields
  included, as long as its revision is in the range of the column.\<close>

theorem payload_round_trip:
  assumes "in_i64 (sp_prompt_revision p)" and "in_i64 (oy_prompt_revision q)"
  shows "decode_schedule (encode_schedule p) = Some p \<and> decode_occurrence (encode_occurrence q) = Some q"
  using decode_encode_schedule decode_encode_occurrence assms by simp

definition sample_trigger :: schedule_trigger where
  "sample_trigger = Trigger_Event \<lparr>ev_source = Github_Issues ''o/r'', ev_fields = [''issue.title''],
     ev_max_age_seconds = 600, ev_valid_until = ''u'', ev_route_id = ''ab'', ev_key_version = 2,
     ev_signing_key_id = ''webhook-key:1''\<rparr>"

definition sample_schedule_payload :: schedule_payload where
  "sample_schedule_payload = \<lparr>sp_execution_kind = ''agent'', sp_permission_mode = ''read-only'',
     sp_prompt = ''p'', sp_prompt_fingerprint = ''p'', sp_prompt_revision = 1, sp_timezone = ''UTC'',
     sp_trigger = Trigger_Daily ''09:00'', sp_project_id = None, sp_agent_id = ''ada'',
     sp_provider_id = ''openai'', sp_model = ''m'', sp_reasoning_effort = Some ''low'',
     sp_created_by = ''me''\<rparr>"

definition sample_occurrence_payload :: occurrence_payload where
  "sample_occurrence_payload = \<lparr>oy_event = Some \<lparr>eo_delivery_id = ''d'', eo_source = Signed_Json ''s'',
       eo_received_at = ''t'', eo_expires_at = ''u'', eo_selected_fields = [(''a'', JNum ''1'')]\<rparr>,
     oy_execution_kind = ''agent'', oy_permission_mode = ''read-only'', oy_work_id = None,
     oy_prompt = ''p'', oy_prompt_fingerprint = ''p'', oy_prompt_revision = 3, oy_timezone = ''UTC'',
     oy_trigger = sample_trigger, oy_project_id = None, oy_agent_id = ''ada'',
     oy_provider_id = ''openai'', oy_model = ''m'', oy_reasoning_effort = None,
     oy_intended_local_slot = ''d'', oy_capacity_reservation_fingerprint = ''c'', oy_outcome = None,
     oy_detail = None\<rparr>"

theorem payload_round_trip_witness:
  "decode_schedule (encode_schedule sample_schedule_payload) = Some sample_schedule_payload
   \<and> decode_occurrence (encode_occurrence sample_occurrence_payload) = Some sample_occurrence_payload"
  by (rule payload_round_trip)
    (simp_all add: sample_schedule_payload_def sample_occurrence_payload_def in_i64_def)

end
