(* ===== verification/Work_Schedules.thy ===== *)
theory Work_Schedules
  imports Work_Recovery Schedule_Records
begin

text \<open>
  Automation through the ordinary executor (\<open>collaboration/schedules.rs\<close>): an occurrence of a local
  schedule is staged as a Work of its own (\<open>stage_schedule\<close>), a project research occurrence is bound
  to its queued attempt (\<open>bind_schedule\<close>) and its saved result finishes the Work
  (\<open>finish_schedule\<close>).
\<close>

section \<open>Operations\<close>

record local_schedule_claim =
  cl_execution_kind :: string
  cl_permission_mode :: string
  cl_occurrence_id :: string
  cl_schedule_id :: string
  cl_schedule_revision :: int
  cl_prompt_revision :: int
  cl_scheduled_for :: string
  cl_claim_token :: string
  cl_lease_expires_at :: string
  cl_project_id :: "string option"
  cl_agent_id :: string
  cl_provider_id :: string
  cl_model :: string
  cl_reasoning_effort :: "string option"
  cl_prompt :: string

definition err_schedule_agent :: cerr where
  "err_schedule_agent = Invalid ''This schedule's named agent is unavailable.''"

definition err_occurrence_started :: cerr where
  "err_occurrence_started = Invalid ''This schedule occurrence has already started or stopped.''"

definition err_event_provenance :: cerr where
  "err_event_provenance = Invalid ''The event provenance is invalid.''"

definition err_schedule_participant :: cerr where
  "err_schedule_participant = Invalid ''Choose a current project participant for scheduled research.''"

definition err_scheduled_attempt :: cerr where
  "err_scheduled_attempt = Invalid ''The scheduled attempt is unavailable.''"

definition err_scheduled_conversation :: cerr where
  "err_scheduled_conversation = Invalid ''The scheduled result conversation is missing.''"

definition err_scheduled_prompt :: cerr where
  "err_scheduled_prompt = Invalid ''The scheduled prompt is missing.''"

definition err_scheduled_evidence :: cerr where
  "err_scheduled_evidence = Invalid ''The scheduled result evidence is unavailable.''"

definition validate_schedule_project :: "string option \<Rightarrow> string \<Rightarrow> store \<Rightarrow> cerr + unit" where
  "validate_schedule_project project agent s =
     (case project of
        None \<Rightarrow> Inr ()
      | Some p \<Rightarrow> bindE (project_team s p) (\<lambda>tm.
          if agent \<notin> set (tm_participant_ids tm) then Inl err_schedule_participant else Inr ()))"

text \<open>The claim's route replaces the model of the first profile with the agent's id.\<close>

fun claim_route :: "local_schedule_claim \<Rightarrow> agent_profile list \<Rightarrow> agent_profile list option" where
  "claim_route claim [] = None"
| "claim_route claim (p # ps) =
     (if p_id p = cl_agent_id claim
      then Some (p\<lparr>p_model_id := cl_provider_id claim @ ''::'' @ cl_model claim,
                   p_reasoning_effort := cl_reasoning_effort claim\<rparr> # ps)
      else map_option ((#) p) (claim_route claim ps))"

definition schedule_work_id :: "local_schedule_claim \<Rightarrow> string" where
  "schedule_work_id claim = ''work-schedule-'' @ cl_occurrence_id claim"

definition occurrence_event ::
  "string \<Rightarrow> store \<Rightarrow> cerr + event_work_origin option" where
  "occurrence_event occurrence s =
     (case tget (occurrences s) occurrence of
        None \<Rightarrow> Inr None
      | Some row \<Rightarrow>
          (case oc_payload row of
             JObj fields' \<Rightarrow> optE (\<lambda>v. ok_or err_event_provenance (decode_origin v)) (tget fields' ''event'')
           | _ \<Rightarrow> Inr None))"

definition staged ::
  "local_schedule_claim \<Rightarrow> event_work_origin option \<Rightarrow> work \<Rightarrow> work" where
  "staged claim event it =
     it\<lparr>w_permission_mode :=
          (if permission_rank (cl_permission_mode claim) < permission_rank (w_permission_mode it)
           then cl_permission_mode claim else w_permission_mode it),
        w_schedule := Some \<lparr>sc_event = event, sc_occurrence_id = cl_occurrence_id claim,
                            sc_reasoning_effort = cl_reasoning_effort claim\<rparr>\<rparr>"

definition stage_schedule ::
  "ctx \<Rightarrow> local_schedule_claim \<Rightarrow> store \<Rightarrow> cerr + (work \<times> store)" where
  "stage_schedule ctx claim s =
     bindE (ok_or err_schedule_agent (claim_route claim (profiles ctx))) (\<lambda>captured.
     let ctx' = ctx\<lparr>profiles := captured\<rparr>; key = schedule_work_id claim in
     bindE (validate_schedule_project (cl_project_id claim) (cl_agent_id claim) s) (\<lambda>_.
     case tget (works s) key of
       Some it \<Rightarrow> if w_status it \<noteq> Queued \<or> w_run_ids it \<noteq> [] then Inl err_occurrence_started
                  else Inr (it, s)
     | None \<Rightarrow>
         bindE (participants captured [cl_agent_id claim] (Some (cl_agent_id claim))) (\<lambda>members.
         bindE (create_room ctx' (''schedule-chat-'' @ cl_occurrence_id claim) ''Scheduled task''
                  (if cl_project_id claim \<noteq> None then ''group'' else ''direct'') members
                  (Some (cl_agent_id claim)) (cl_project_id claim) s) (\<lambda>(r, s1).
         bindE (start ctx' key (c_id r) (cl_agent_id claim) (cl_prompt claim) False (Some ''schedule'')
                  None s1) (\<lambda>s2.
         bindE (item s2 key) (\<lambda>it.
         bindE (occurrence_event (cl_occurrence_id claim) s2) (\<lambda>event.
         bindE (put_work ctx' (staged claim event it) s2) (\<lambda>s3.
         Inr (staged claim event it, s3)))))))))"

definition research_room :: "ctx \<Rightarrow> string \<Rightarrow> string \<Rightarrow> string \<Rightarrow> participant list \<Rightarrow> conversation" where
  "research_room ctx thread project agent members =
     \<lparr>c_chat = None, c_archived = False, c_id = thread, c_workspace_id = workspace ctx,
      c_kind = ''group'', c_title = ''Scheduled project research'', c_project_id = Some project,
      c_facilitator_id = Some agent, c_participants = members, c_revision = 1, c_generation = 1,
      c_created_at = time ctx, c_updated_at = time ctx\<rparr>"

definition bind_schedule :: "ctx \<Rightarrow> string \<Rightarrow> string \<Rightarrow> string \<Rightarrow> store \<Rightarrow> cerr + store" where
  "bind_schedule ctx project agent run s =
     bindE (validate_schedule_project (Some project) agent s) (\<lambda>_.
     bindE (ok_or err_scheduled_attempt (tget (attempts s) run)) (\<lambda>attempt.
     bindE (ok_or err_scheduled_conversation (ar_thread_id attempt)) (\<lambda>thread_id.
     bindE (ok_or err_scheduled_conversation (tget (threads s) thread_id)) (\<lambda>thread.
     bindE (project_team s project) (\<lambda>tm.
     bindE (participants (profiles ctx) (tm_participant_ids tm) (Some agent)) (\<lambda>members.
     let key = ''work-'' @ run in
     if tget (works s) key \<noteq> None then bind_work ctx key 1 run None s else
     bindE (put_conversation ctx (research_room ctx thread_id project agent members) s) (\<lambda>s1.
     bindE (ok_or err_scheduled_prompt (Option.bind (ar_payload attempt) at_prompt)) (\<lambda>prompt.
     bindE (start ctx key thread_id agent prompt False (Some ''schedule'') None s1) (\<lambda>s2.
     bindE (item s2 key) (\<lambda>it.
     bindE (put_work ctx (it\<lparr>w_permission_mode := ''read-only''\<rparr>) s2) (\<lambda>s3.
     bind_work ctx key 1 run None s3)))))))))))"

definition schedule_outcome :: "string \<Rightarrow> work_status" where
  "schedule_outcome st =
     (if st = ''completed'' then Completed else if st = ''failed'' then Failed else AwaitingUser)"

definition finish_schedule :: "ctx \<Rightarrow> string \<Rightarrow> store \<Rightarrow> cerr + store" where
  "finish_schedule ctx run s =
     (let key = ''work-'' @ run in
      case tget (works s) key of
        None \<Rightarrow> Inr s
      | Some it \<Rightarrow>
          if \<not> executing (w_status it) then Inr s else
          bindE (ok_or err_scheduled_evidence (tget (attempts s) run)) (\<lambda>row.
          finish ctx key (w_generation it) run (schedule_outcome (ar_status row))
            (Option.bind (ar_payload row) at_error) s))"

section \<open>Laws\<close>

text \<open>A submission to one recipient writes one record.\<close>

lemma start_one_elim:
  assumes "start ctx key c agent prompt0 disc origin atts s = Inr s'" and "tget (works s) key = None"
  obtains r p prompt w where "tget (conversations s) c = Some r"
    "find_profile (profiles ctx) agent = Inr p" "put_work ctx w s = Inr s'" "w_id w = key"
    "w_permission_mode w = permission_mode p" "w_status w = Queued" "w_run_ids w = []" "w_agent_id w = agent"
    "w_conversation_id w = c_id r" "w_project_id w = c_project_id r" "w_model_option_id w = p_model_id p"
    "w_origin w = origin" "quiet_new w" "w_user_request w = prompt"
    "bounded prompt0 32000 ''Message'' = Inr prompt"
proof -
  from assms(1) [unfolded start_def start_with_parent_def] show thesis
  proof (cases rule: start_for_recipients_elim)
    case (started prompt r w0 w2 s1 root s2)
    then have s': "s' = s1" by simp
    from started(4) show thesis
    proof (rule new_work_elim)
      fix p revision captured binding all
      assume p: "find_profile (profiles ctx) (hd [agent]) = Inr p"
        and w0: "w0 = initial_work ctx key r (hd [agent]) prompt prompt origin atts False None p revision captured binding all"
      note w2 = started(5) [unfolded w0]
      have f: "w_id w2 = key" "w_permission_mode w2 = permission_mode p" "w_status w2 = Queued"
        "w_run_ids w2 = []" "w_agent_id w2 = agent" "w_conversation_id w2 = c_id r"
        "w_project_id w2 = c_project_id r" "w_model_option_id w2 = p_model_id p"
        "w_origin w2 = origin" "quiet_new w2" "w_user_request w2 = prompt"
        by (simp_all add: w2 initial_work_def work_law_defs work_wf_def)
      have "tget (conversations s) c = Some r" using started(3) by (simp add: room_def ok_or_Inr)
      from that [OF this _ _ f started(2)] p started(6) s' show thesis by simp
    qed
  qed (use assms(2) in simp)
qed

lemma staged_quiet: "work_quiet w (staged claim event w)"
  by (simp add: staged_def work_law_defs work_wf_def)

lemma stage_elim:
  assumes "stage_schedule ctx claim s = Inr (it, s')" and "tget (works s) (schedule_work_id claim) = None"
  obtains captured members r s1 s2 it0 event where
    "claim_route claim (profiles ctx) = Some captured"
    "validate_schedule_project (cl_project_id claim) (cl_agent_id claim) s = Inr ()"
    "create_room (ctx\<lparr>profiles := captured\<rparr>) (''schedule-chat-'' @ cl_occurrence_id claim) ''Scheduled task''
       (if cl_project_id claim \<noteq> None then ''group'' else ''direct'') members
       (Some (cl_agent_id claim)) (cl_project_id claim) s = Inr (r, s1)"
    "start (ctx\<lparr>profiles := captured\<rparr>) (schedule_work_id claim) (c_id r) (cl_agent_id claim) (cl_prompt claim)
       False (Some ''schedule'') None s1 = Inr s2"
    "tget (works s2) (schedule_work_id claim) = Some it0" "it = staged claim event it0"
    "put_work (ctx\<lparr>profiles := captured\<rparr>) it s2 = Inr s'"
  using assms(1) unfolding stage_schedule_def Let_def assms(2) option.case
  by (elim result_elims, goal_cases) (auto simp: bindE_Inr split: prod.splits)

lemma stage_schedule_law:
  assumes "stage_schedule ctx claim s = Inr (it, s')"
  shows "advances work_quiet quiet_new s s'"
proof (cases "tget (works s) (schedule_work_id claim)")
  case None
  from assms None show ?thesis
  proof (rule stage_elim, goal_cases)
    case (1 captured members r s1 s2 it0 event)
    have "advances work_quiet quiet_new s2 s'"
      by (rule quiet.adv_put [OF 1(5) _ 1(7)]) (simp only: 1(6) staged_quiet)
    with create_room_law [OF 1(3)] start_law [OF 1(4)] show ?case using quiet.adv_trans by metis
  qed
next
  case (Some w)
  with assms have "s' = s"
    by (simp add: stage_schedule_def Let_def bindE_Inr split: if_splits)
  then show ?thesis by simp
qed

lemma bind_schedule_elim:
  assumes "bind_schedule ctx project agent run s = Inr s'"
  obtains (again) "bind_work ctx (''work-'' @ run) 1 run None s = Inr s'"
  | (first) thread members prompt s1 s2 it s3 where
      "put_conversation ctx (research_room ctx thread project agent members) s = Inr s1"
      "start ctx (''work-'' @ run) thread agent prompt False (Some ''schedule'') None s1 = Inr s2"
      "tget (works s2) (''work-'' @ run) = Some it"
      "put_work ctx (it\<lparr>w_permission_mode := ''read-only''\<rparr>) s2 = Inr s3"
      "bind_work ctx (''work-'' @ run) 1 run None s3 = Inr s'"
  using assms unfolding bind_schedule_def Let_def
proof (elim bindE_elim, goal_cases)
  case (1 u attempt thread_id thread tm members)
  show ?case
  proof (cases "tget (works s) (''work-'' @ run) = None")
    case False
    with 1(9) show ?thesis by (intro 1(1)) simp
  next
    case True
    then have n: "\<not> (tget (works s) (''work-'' @ run) \<noteq> None)" by simp
    from 1(9) [unfolded if_not_P [OF n]] show ?thesis
      by (elim result_elims) (rule 1(2), simp_all)
  qed
qed

lemma bind_schedule_law:
  assumes "bind_schedule ctx project agent run s = Inr s'"
  shows "advances work_extends work_wf s s'"
  using assms
proof (cases rule: bind_schedule_elim)
  case again
  then show ?thesis by (rule bind_work_law)
next
  case (first thread members prompt s1 s2 it s3)
  have "work_quiet it (it\<lparr>w_permission_mode := ''read-only''\<rparr>)"
    by (simp add: work_law_defs work_wf_def permission_rank_def)
  with quiet.adv_put [OF first(3) _ first(4)] have "advances work_quiet quiet_new s2 s3" by metis
  with put_conversation_law [OF first(1)] start_law [OF first(2)]
  have "advances work_extends work_wf s s3" using quiet.adv_trans quiet_extends by metis
  with bind_work_law [OF first(5)] show ?thesis using extends.adv_trans by metis
qed

lemma finish_schedule_law:
  assumes "finish_schedule ctx run s = Inr s'"
  shows "advances work_quiet quiet_new s s'"
proof (cases "tget (works s) (''work-'' @ run)")
  case (Some it)
  note body = assms [unfolded finish_schedule_def Let_def Some option.case]
  show ?thesis
  proof (cases "executing (w_status it)")
    case True
    then have n: "\<not> \<not> executing (w_status it)" by simp
    from body [unfolded if_not_P [OF n]] show ?thesis by (elim result_elims) (rule finish_law)
  qed (use body in simp)
qed (use assms in \<open>simp add: finish_schedule_def\<close>)

section \<open>What an occurrence is granted\<close>

lemma create_room_frame:
  assumes "create_room ctx key title kind members lead project s = Inr (r, s')"
  shows "teams s' = teams s" "projects s' = projects s" "works s' = works s" "c_id r = key"
    "occurrences s' = occurrences s"
  using assms
  by (rule create_room_elim;
      auto simp: thread_create_def Let_def result_simps dest!: put_conversation_Inr split: if_splits)+

lemma claim_route_finds:
  "claim_route claim ps = Some qs \<Longrightarrow> \<exists>p. find (\<lambda>p. p_id p = cl_agent_id claim) ps = Some p
     \<and> find (\<lambda>p. p_id p = cl_agent_id claim) qs =
         Some (p\<lparr>p_model_id := cl_provider_id claim @ ''::'' @ cl_model claim,
                p_reasoning_effort := cl_reasoning_effort claim\<rparr>)"
  by (induction claim ps arbitrary: qs rule: claim_route.induct) (auto split: if_splits)

text \<open>C13. What staging an occurrence of a schedule grants. The Work is queued and has run nothing, it
  goes to the agent and the provider route that the claim froze, it carries the occurrence whose
  lease fences it, and its permission exceeds neither the permission of the claim nor that of the
  agent. Staging the same claim again returns the same Work and changes nothing.\<close>

theorem staging_narrows_authority:
  assumes "stage_schedule ctx claim s = Inr (it, s')"
    and "tget (works s) (schedule_work_id claim) = None"
  shows "tget (works s') (schedule_work_id claim) = Some it \<and> w_status it = Queued \<and> w_run_ids it = []
     \<and> w_agent_id it = cl_agent_id claim
     \<and> w_model_option_id it = cl_provider_id claim @ ''::'' @ cl_model claim
     \<and> map_option sc_occurrence_id (w_schedule it) = Some (cl_occurrence_id claim)
     \<and> permission_rank (w_permission_mode it) \<le> permission_rank (cl_permission_mode claim)
     \<and> (\<exists>p. find_profile (profiles ctx) (cl_agent_id claim) = Inr p
          \<and> permission_rank (w_permission_mode it) \<le> permission_rank (permission_mode p))
     \<and> stage_schedule ctx claim s' = Inr (it, s')"
  using assms
proof (rule stage_elim, goal_cases)
  case (1 captured members r s1 s2 it0 event)
  note frame = create_room_frame [OF 1(3)]
  have "tget (works s1) (schedule_work_id claim) = None" using assms(2) frame(3) by simp
  from 1(4) this show ?case
  proof (rule start_one_elim, goal_cases)
    case (1 r' p prompt w)
    have w: "w = it0" using put_work_get [OF 1(3)] 1(4) \<open>tget (works s2) _ = Some it0\<close> by simp
    have s2: "teams s2 = teams s" "projects s2 = projects s"
      using put_work_other_tables [OF 1(3)] frame by simp_all
    note s' = \<open>put_work _ it s2 = Inr s'\<close>
    have key: "w_id it = schedule_work_id claim" using 1(4) w \<open>it = _\<close> by (simp add: staged_def)
    have s'_get: "tget (works s') (schedule_work_id claim) = Some it"
      using put_work_get [OF s'] key by simp
    have frame': "teams s' = teams s" "projects s' = projects s"
      using put_work_other_tables [OF s'] s2 by simp_all
    have valid: "validate_schedule_project (cl_project_id claim) (cl_agent_id claim) s' = Inr ()"
      using \<open>validate_schedule_project _ _ s = Inr ()\<close>
      unfolding validate_schedule_project_def project_team_def frame' .
    obtain p0 where p0: "find (\<lambda>p. p_id p = cl_agent_id claim) (profiles ctx) = Some p0"
      "find (\<lambda>p. p_id p = cl_agent_id claim) captured =
         Some (p0\<lparr>p_model_id := cl_provider_id claim @ ''::'' @ cl_model claim,
                p_reasoning_effort := cl_reasoning_effort claim\<rparr>)"
      using claim_route_finds [OF \<open>claim_route claim _ = Some captured\<close>] by metis
    then have p: "p = p0\<lparr>p_model_id := cl_provider_id claim @ ''::'' @ cl_model claim,
                p_reasoning_effort := cl_reasoning_effort claim\<rparr>"
      using 1(2) by (simp add: find_profile_def)
    have fields: "w_status it = Queued" "w_run_ids it = []" "w_agent_id it = cl_agent_id claim"
      "w_model_option_id it = cl_provider_id claim @ ''::'' @ cl_model claim"
      "map_option sc_occurrence_id (w_schedule it) = Some (cl_occurrence_id claim)"
      "permission_rank (w_permission_mode it) \<le> permission_rank (cl_permission_mode claim)"
      "permission_rank (w_permission_mode it) \<le> permission_rank (permission_mode p0)"
      using 1 w \<open>it = _\<close> p by (simp_all add: staged_def permission_mode_def)
    have "stage_schedule ctx claim s' = Inr (it, s')"
      using \<open>claim_route claim _ = Some captured\<close> valid s'_get fields(1,2)
      by (simp add: stage_schedule_def Let_def)
    with fields s'_get p0(1) show ?case by (simp add: find_profile_def)
  qed
qed

definition sample_claim :: local_schedule_claim where
  "sample_claim = \<lparr>cl_execution_kind = ''task'', cl_permission_mode = ''read-only'',
     cl_occurrence_id = ''occ'', cl_schedule_id = ''sched'', cl_schedule_revision = 1,
     cl_prompt_revision = 1, cl_scheduled_for = ''t'', cl_claim_token = ''tok'',
     cl_lease_expires_at = ''u'', cl_project_id = None, cl_agent_id = ''ada'',
     cl_provider_id = ''openai'', cl_model = ''m'', cl_reasoning_effort = None, cl_prompt = ''report''\<rparr>"

definition sample_stage :: "cerr + (work \<times> store)" where
  "sample_stage = stage_schedule sample_ctx sample_claim (sample_store [])"

lemma sample_stage_ok: "is_ok sample_stage" "tget (works (sample_store [])) (schedule_work_id sample_claim) = None"
  by code_simp+

theorem staging_narrows_authority_witness:
  "\<exists>it s'. stage_schedule sample_ctx sample_claim (sample_store []) = Inr (it, s')
     \<and> permission_rank (w_permission_mode it) \<le> permission_rank ''read-only''
     \<and> stage_schedule sample_ctx sample_claim s' = Inr (it, s')"
proof -
  obtain it s' where e: "stage_schedule sample_ctx sample_claim (sample_store []) = Inr (it, s')"
    using sample_stage_ok(1) unfolding sample_stage_def is_ok_iff by auto
  from staging_narrows_authority [OF e sample_stage_ok(2)] e show ?thesis
    by (simp add: sample_claim_def)
qed

end
