(* ===== verification/Work_Adoption.thy ===== *)
theory Work_Adoption
  imports Work_Schedules
begin

text \<open>
  Adoption of the projects and conversations that an earlier version of the program saved
  (\<open>collaboration.rs\<close>, \<open>adopt_existing\<close>): every local project gets a team, its legacy run
  attributions become \<open>Author\<close> records, and every thread the member owns becomes a conversation of
  the engine. Adoption runs whenever the interface loads, so it has to be idempotent.
\<close>

section \<open>Operations\<close>

definition list_projects :: "store \<Rightarrow> (string \<times> project_row) list" where
  "list_projects s = take 128 (newest_first (pj_updated_at \<circ> snd) (projects s))"

definition list_run_authors :: "store \<Rightarrow> string \<Rightarrow> (string \<times> run_author_row) list" where
  "list_run_authors s project =
     take 4096 (newest_first (ra_created_at \<circ> snd)
       (filter (\<lambda>(_, row). ra_project_id row = project) (run_authors s)))"

definition thread_list :: "store \<Rightarrow> (string \<times> thread_row) list" where
  "thread_list s = newest_first (th_updated_at \<circ> snd) (threads s)"

definition adopted_team :: "ctx \<Rightarrow> string \<Rightarrow> team" where
  "adopted_team ctx project =
     \<lparr>tm_project_id = project, tm_lead_agent_id = None,
      tm_participant_ids = map p_id (profiles ctx), tm_revision = 1\<rparr>"

definition imported_author :: "string \<Rightarrow> run_author_row \<Rightarrow> author" where
  "imported_author run row =
     \<lparr>au_run_id = run, au_conversation_id = ra_thread_id row, au_agent_id = ra_agent_id row,
      au_name = (case jstr (jindex (ra_payload row) ''agentName'') of
                   Some name \<Rightarrow> name | None \<Rightarrow> ''Unavailable teammate''),
      au_work_id = None, au_generation = 0\<rparr>"

definition import_author :: "ctx \<Rightarrow> string \<Rightarrow> string \<times> run_author_row \<Rightarrow> store \<Rightarrow> cerr + store" where
  "import_author ctx project = (\<lambda>(run, row) s.
     if tget (authors s) run = None then put_author ctx run (Some project) (imported_author run row) s
     else Inr s)"

definition adopt_project :: "ctx \<Rightarrow> string \<times> project_row \<Rightarrow> store \<Rightarrow> cerr + store" where
  "adopt_project ctx = (\<lambda>(project, _) s.
     bindE (if tget (teams s) project = None then put_team ctx (adopted_team ctx project) s else Inr s) (\<lambda>s1.
     foldE (import_author ctx project) (list_run_authors s1 project) s1))"

definition linked_profiles :: "ctx \<Rightarrow> string \<Rightarrow> agent_profile list" where
  "linked_profiles ctx thread =
     filter (\<lambda>p. p_thread_id p = Some thread \<or> thread \<in> set (p_thread_ids p)) (profiles ctx)"

definition as_participant :: "agent_profile \<Rightarrow> participant" where
  "as_participant p = \<lparr>pt_agent_id = p_id p, pt_name = p_name p\<rparr>"

definition adopted_members :: "ctx \<Rightarrow> string \<Rightarrow> string option \<Rightarrow> participant list" where
  "adopted_members ctx thread project =
     (if project \<noteq> None then map as_participant (profiles ctx)
      else if length (linked_profiles ctx thread) = 1
      then map as_participant (linked_profiles ctx thread) else [])"

definition adopted_room :: "ctx \<Rightarrow> string \<Rightarrow> thread_row \<Rightarrow> string option \<Rightarrow> conversation" where
  "adopted_room ctx key th project =
     (let members = adopted_members ctx key project; linked = linked_profiles ctx key in
      \<lparr>c_chat = (case project of
           Some p \<Rightarrow> Some \<lparr>cb_role = ''main'', cb_owner_kind = ''project'', cb_owner_id = p\<rparr>
         | None \<Rightarrow> (if length linked = 1
             then Some \<lparr>cb_role = ''side'', cb_owner_kind = ''agent'', cb_owner_id = p_id (hd linked)\<rparr>
             else None)),
       c_archived = False, c_id = key, c_workspace_id = workspace ctx,
       c_kind = (if project \<noteq> None then ''group'' else ''direct''), c_title = th_title th,
       c_project_id = project,
       c_facilitator_id = (if project = None \<and> members \<noteq> [] then Some (pt_agent_id (hd members)) else None),
       c_participants = members, c_revision = 1, c_generation = 1,
       c_created_at = th_created_at th, c_updated_at = th_updated_at th\<rparr>)"

definition attribute_run :: "ctx \<Rightarrow> string \<Rightarrow> participant \<Rightarrow> string \<Rightarrow> store \<Rightarrow> cerr + store" where
  "attribute_run ctx thread member run =
     put_author ctx run None
       \<lparr>au_run_id = run, au_conversation_id = thread, au_agent_id = pt_agent_id member,
        au_name = pt_name member, au_work_id = None, au_generation = 0\<rparr>"

definition runs_of :: "store \<Rightarrow> string \<Rightarrow> string list" where
  "runs_of s thread = map fst (filter (\<lambda>(_, a). ar_thread_id a = Some thread) (attempts s))"

definition adopt_thread ::
  "ctx \<Rightarrow> (string \<times> project_row) list \<Rightarrow> string \<times> thread_row \<Rightarrow> store \<Rightarrow> cerr + store" where
  "adopt_thread ctx rows = (\<lambda>(key, th) s.
     if tget (conversations s) key \<noteq> None \<or> th_owner_member_id th \<noteq> owner_member ctx then Inr s else
     let project = map_option fst (find (\<lambda>(_, p). pj_thread_id p = key) rows);
         r = adopted_room ctx key th project in
     bindE (put_conversation ctx r s) (\<lambda>s1.
     if project = None \<and> length (c_participants r) = 1
     then foldE (attribute_run ctx key (hd (c_participants r))) (runs_of s1 key) s1 else Inr s1))"

definition adopt_existing :: "ctx \<Rightarrow> store \<Rightarrow> cerr + store" where
  "adopt_existing ctx s =
     (let rows = list_projects s in
      bindE (foldE (adopt_project ctx) rows s) (\<lambda>s1.
      foldE (adopt_thread ctx rows) (thread_list s1) s1))"

section \<open>What adoption may change\<close>

definition adopts :: "store \<Rightarrow> store \<Rightarrow> bool" where
  "adopts s s' =
     (works s' = works s \<and> threads s' = threads s \<and> projects s' = projects s
      \<and> run_authors s' = run_authors s \<and> attempts s' = attempts s \<and> messages s' = messages s
      \<and> message_revisions s' = message_revisions s \<and> tombstones s' = tombstones s
      \<and> (\<forall>k t. tget (teams s) k = Some t \<longrightarrow> tget (teams s') k = Some t)
      \<and> (\<forall>k c. tget (conversations s) k = Some c \<longrightarrow> tget (conversations s') k = Some c)
      \<and> (\<forall>k. tget (authors s) k \<noteq> None \<longrightarrow> tget (authors s') k \<noteq> None)
      \<and> (store_ok s \<longrightarrow> store_ok s'))"

lemma adopts_refl [simp]: "adopts s s"
  by (simp add: adopts_def)

lemma adopts_trans: "adopts s t \<Longrightarrow> adopts t u \<Longrightarrow> adopts s u"
  unfolding adopts_def by simp

lemma adopts_put_author: "put_author ctx key p a s = Inr s' \<Longrightarrow> adopts s s' \<and> tget (authors s') key \<noteq> None"
  by (auto dest!: put_author_Inr simp: adopts_def store_ok_def tget_tput intro: tinv_tput)

lemma adopts_put_team:
  "put_team ctx tm s = Inr s' \<Longrightarrow> tget (teams s) (tm_project_id tm) = None
   \<Longrightarrow> adopts s s' \<and> tget (teams s') (tm_project_id tm) \<noteq> None"
  by (auto dest!: put_team_Inr simp: adopts_def store_ok_def tget_tput intro: tinv_tput keyed_by_tput)

lemma adopts_put_conversation:
  "put_conversation ctx r s = Inr s' \<Longrightarrow> tget (conversations s) (c_id r) = None
   \<Longrightarrow> adopts s s' \<and> tget (conversations s') (c_id r) \<noteq> None"
  by (auto dest!: put_conversation_Inr simp: adopts_def store_ok_def tget_tput intro: tinv_tput keyed_by_tput)

text \<open>A loop in which every iteration settles its own element for good.\<close>

lemma foldE_settles:
  assumes "\<And>x t t'. x \<in> set xs \<Longrightarrow> f x t = Inr t' \<Longrightarrow> adopts t t' \<and> Q x t'"
    and "\<And>x t t'. adopts t t' \<Longrightarrow> Q x t \<Longrightarrow> Q x t'" and "foldE f xs s = Inr s'"
  shows "adopts s s' \<and> (\<forall>x\<in>set xs. Q x s')"
  using assms(1,3)
proof (induction xs arbitrary: s)
  case (Cons x xs)
  from Cons.prems(2) obtain t where t: "f x s = Inr t" "foldE f xs t = Inr s'" by (auto simp: bindE_Inr)
  from Cons.prems(1) [OF _ t(1)] have x: "adopts s t" "Q x t" by simp_all
  from Cons.IH [OF Cons.prems(1) t(2)] have "adopts t s' \<and> (\<forall>x\<in>set xs. Q x s')" by simp
  with x adopts_trans assms(2) show ?case by (metis set_ConsD)
qed simp

lemma foldE_skip: "(\<And>x. x \<in> set xs \<Longrightarrow> f x s = Inr s) \<Longrightarrow> foldE f xs s = Inr s"
  by (induction xs) simp_all

lemma import_author_adopts:
  "import_author ctx project x s = Inr s' \<Longrightarrow> adopts s s' \<and> tget (authors s') (fst x) \<noteq> None"
  by (cases x) (auto simp: import_author_def dest: adopts_put_author split: if_splits)

definition project_done :: "string \<times> project_row \<Rightarrow> store \<Rightarrow> bool" where
  "project_done x s =
     (tget (teams s) (fst x) \<noteq> None
      \<and> (\<forall>a\<in>set (list_run_authors s (fst x)). tget (authors s) (fst a) \<noteq> None))"

lemma project_done_mono: "adopts s s' \<Longrightarrow> project_done x s \<Longrightarrow> project_done x s'"
  unfolding adopts_def project_done_def list_run_authors_def by auto

lemma adopt_project_adopts:
  assumes "adopt_project ctx x s = Inr s'"
  shows "adopts s s' \<and> project_done x s'"
proof -
  obtain project row where x: "x = (project, row)" by (cases x)
  from assms obtain s1 where s1:
      "(if tget (teams s) project = None then put_team ctx (adopted_team ctx project) s else Inr s) = Inr s1"
      "foldE (import_author ctx project) (list_run_authors s1 project) s1 = Inr s'"
    by (auto simp: adopt_project_def x bindE_Inr)
  have team: "adopts s s1 \<and> tget (teams s1) project \<noteq> None"
    using s1(1) adopts_put_team [of ctx "adopted_team ctx project" s s1]
    by (cases "tget (teams s) project") (auto simp: adopted_team_def)
  have a: "adopts s1 s' \<and> (\<forall>a\<in>set (list_run_authors s1 project). tget (authors s') (fst a) \<noteq> None)"
    by (rule foldE_settles [OF import_author_adopts _ s1(2)]) (auto simp: adopts_def)
  moreover from a have "list_run_authors s' project = list_run_authors s1 project"
    by (simp add: adopts_def list_run_authors_def)
  moreover from a team have "tget (teams s') project \<noteq> None" by (auto simp: adopts_def)
  ultimately show ?thesis using team adopts_trans by (auto simp: project_done_def x)
qed

definition thread_done :: "ctx \<Rightarrow> string \<times> thread_row \<Rightarrow> store \<Rightarrow> bool" where
  "thread_done ctx x s =
     (tget (conversations s) (fst x) \<noteq> None \<or> th_owner_member_id (snd x) \<noteq> owner_member ctx)"

lemma thread_done_mono: "adopts s s' \<Longrightarrow> thread_done ctx x s \<Longrightarrow> thread_done ctx x s'"
  unfolding adopts_def thread_done_def by auto

lemma attribute_runs_adopts:
  assumes "foldE (attribute_run ctx key m) runs s = Inr s'"
  shows "adopts s s'"
  using foldE_settles [of runs "attribute_run ctx key m" "\<lambda>_ _. True" s s'] adopts_put_author assms
  by (auto simp: attribute_run_def)

lemma adopt_thread_adopts:
  assumes "adopt_thread ctx rows x s = Inr s'"
  shows "adopts s s' \<and> thread_done ctx x s'"
proof -
  obtain key th where x: "x = (key, th)" by (cases x)
  show ?thesis
  proof (cases "tget (conversations s) key \<noteq> None \<or> th_owner_member_id th \<noteq> owner_member ctx")
    case True
    with assms show ?thesis by (auto simp: adopt_thread_def x thread_done_def)
  next
    case False
    define project where "project = map_option fst (find (\<lambda>(_, p). pj_thread_id p = key) rows)"
    let ?r = "adopted_room ctx key th project"
    from assms [unfolded adopt_thread_def x case_prod_conv if_not_P [OF False] Let_def, folded project_def]
    obtain s1 where s1: "put_conversation ctx ?r s = Inr s1"
      "(if project = None \<and> length (c_participants ?r) = 1
        then foldE (attribute_run ctx key (hd (c_participants ?r))) (runs_of s1 key) s1 else Inr s1) = Inr s'"
      by (elim bindE_elim)
    have id: "c_id ?r = key" by (simp add: adopted_room_def Let_def)
    from adopts_put_conversation [OF s1(1)] False have "adopts s s1" "tget (conversations s1) key \<noteq> None"
      by (simp_all add: id)
    moreover from s1(2) attribute_runs_adopts have "adopts s1 s'" by (auto split: if_splits)
    ultimately show ?thesis using adopts_trans thread_done_mono [of s1 s' ctx x]
      by (auto simp: thread_done_def x)
  qed
qed

lemma adopt_existing_adopts:
  assumes "adopt_existing ctx s = Inr s'"
  shows "adopts s s'" and "\<forall>x\<in>set (list_projects s'). project_done x s'"
    and "\<forall>x\<in>set (threads s'). thread_done ctx x s'"
proof -
  obtain s1 where s1: "foldE (adopt_project ctx) (list_projects s) s = Inr s1"
      "foldE (adopt_thread ctx (list_projects s)) (thread_list s1) s1 = Inr s'"
    using assms unfolding adopt_existing_def Let_def by (elim bindE_elim)
  have p: "adopts s s1 \<and> (\<forall>x\<in>set (list_projects s). project_done x s1)"
    by (rule foldE_settles [OF adopt_project_adopts _ s1(1)]) (assumption, rule project_done_mono)
  have t: "adopts s1 s' \<and> (\<forall>x\<in>set (thread_list s1). thread_done ctx x s')"
    by (rule foldE_settles [OF adopt_thread_adopts _ s1(2)]) (assumption, rule thread_done_mono)
  from p t have a: "adopts s s'" using adopts_trans by metis
  show "adopts s s'" by (rule a)
  have "list_projects s' = list_projects s" using a by (simp add: adopts_def list_projects_def)
  with p t show "\<forall>x\<in>set (list_projects s'). project_done x s'" using project_done_mono by metis
  have "set (thread_list s1) = set (threads s')" using t by (simp add: adopts_def thread_list_def)
  with t show "\<forall>x\<in>set (threads s'). thread_done ctx x s'" by simp
qed

lemma project_done_skips: "project_done x s \<Longrightarrow> adopt_project ctx x s = Inr s"
  by (cases x) (auto simp: project_done_def adopt_project_def import_author_def intro!: foldE_skip)

lemma thread_done_skips: "thread_done ctx x s \<Longrightarrow> adopt_thread ctx rows x s = Inr s"
  by (cases x) (auto simp: thread_done_def adopt_thread_def)

section \<open>Adoption\<close>

text \<open>Adoption is idempotent and rewrites no history. It changes no Work, message, attempt or
  thread, it keeps every team and conversation that exists, and running it again on the store it
  leaves succeeds and changes nothing.\<close>

theorem adoption_is_idempotent:
  assumes "adopt_existing ctx s = Inr s'"
  shows "adopt_existing ctx s' = Inr s'
     \<and> works s' = works s \<and> messages s' = messages s \<and> message_revisions s' = message_revisions s
     \<and> attempts s' = attempts s \<and> threads s' = threads s
     \<and> (\<forall>k t. tget (teams s) k = Some t \<longrightarrow> tget (teams s') k = Some t)
     \<and> (\<forall>k c. tget (conversations s) k = Some c \<longrightarrow> tget (conversations s') k = Some c)"
proof -
  note a = adopt_existing_adopts [OF assms]
  have "foldE (adopt_project ctx) (list_projects s') s' = Inr s'"
    by (rule foldE_skip) (use a(2) project_done_skips in simp)
  moreover have "foldE (adopt_thread ctx (list_projects s')) (thread_list s') s' = Inr s'"
    by (rule foldE_skip) (use a(3) thread_done_skips in \<open>simp add: thread_list_def\<close>)
  ultimately have "adopt_existing ctx s' = Inr s'" by (simp add: adopt_existing_def Let_def)
  with a(1) show ?thesis unfolding adopts_def by simp
qed

text \<open>
  A legacy store: project \<open>p\<close> with its own thread, a run of the thread \<open>room\<close> that the project
  attributes to \<open>bob\<close>, and a profile of \<open>ada\<close> that is linked to \<open>room\<close>.
\<close>

definition legacy_ctx :: ctx where
  "legacy_ctx = sample_ctx\<lparr>profiles := [sample_profile\<lparr>p_thread_ids := [''room'']\<rparr>, sample_peer]\<rparr>"

definition legacy_store :: store where
  "legacy_store = (sample_store [])\<lparr>conversations := [],
     threads := [(''main'', sample_thread), (''room'', sample_thread)],
     projects := [(''p'', \<lparr>pj_lifecycle = ''active'', pj_revision = 1, pj_thread_id = ''main'',
       pj_updated_at = ''t'', pj_payload = JNull\<rparr>)],
     run_authors := [(''run-1'', \<lparr>ra_project_id = ''p'', ra_agent_id = ''bob'', ra_thread_id = ''room'',
       ra_created_at = ''t'', ra_payload = JNull\<rparr>)]\<rparr>"

definition legacy_adopted :: "cerr + store" where
  "legacy_adopted = adopt_existing legacy_ctx legacy_store"

definition legacy_imported :: "cerr + store" where
  "legacy_imported = foldE (adopt_project legacy_ctx) (list_projects legacy_store) legacy_store"

definition author_of :: "string \<Rightarrow> cerr + store \<Rightarrow> string option" where
  "author_of run r = (case r of Inl _ \<Rightarrow> None | Inr s \<Rightarrow> map_option au_agent_id (tget (authors s) run))"

lemma legacy_adopted_ok: "is_ok legacy_adopted"
  by code_simp

theorem adoption_is_idempotent_witness:
  "\<exists>s'. adopt_existing legacy_ctx legacy_store = Inr s' \<and> adopt_existing legacy_ctx s' = Inr s'"
proof -
  obtain s' where e: "adopt_existing legacy_ctx legacy_store = Inr s'"
    using legacy_adopted_ok unfolding legacy_adopted_def is_ok_iff by auto
  from adoption_is_idempotent [OF e] e show ?thesis by metis
qed

text \<open>Adoption can attribute a run twice: the legacy attribution of a run is imported only where
  there is none yet, but the runs of a newly adopted direct chat are attributed without that check.
  Here a run that the import has just credited to bob ends up credited to ada, because her
  profile is linked to the conversation of the run.\<close>

theorem adoption_can_reattribute:
  "\<exists>ctx s t s'. foldE (adopt_project ctx) (list_projects s) s = Inr t \<and> adopt_existing ctx s = Inr s'
     \<and> author_of ''run-1'' (Inr t) = Some ''bob'' \<and> author_of ''run-1'' (Inr s') = Some ''ada''"
proof -
  have ok: "is_ok legacy_imported" "is_ok legacy_adopted"
    "author_of ''run-1'' legacy_imported = Some ''bob''" "author_of ''run-1'' legacy_adopted = Some ''ada''"
    by code_simp+
  then obtain t s' where "legacy_imported = Inr t" "legacy_adopted = Inr s'" by (auto simp: is_ok_iff)
  with ok show ?thesis unfolding legacy_imported_def legacy_adopted_def by metis
qed

end
