(* ===== verification/Civil_Time.thy ===== *)
theory Civil_Time
  imports Schedule_Records
begin

text \<open>
  Civil time of local schedules (\<open>local_schedules/civil_time.rs\<close>): the slots of a trigger in its time
  zone. An instant is its number of nanoseconds since the epoch, a local date and time the number of
  nanoseconds since 1970-01-01T00:00 on the wall clock, a date its day number.

  The crates \<open>chrono\<close> and \<open>chrono_tz\<close> are parameters: a zone gives the wall clock reading of an
  instant and the instants of a reading, \<open>civil\<close> the parsers and printers of dates, the range of
  dates and the time zone database. What the results rely on is \<open>zone_ok\<close>: the instants of a reading
  show it, and the offsets of one zone differ by at most a day.
\<close>

section \<open>Parameters\<close>

datatype local_result = No_Instant | Single int | Ambiguous int int

record zone =
  z_local :: "int \<Rightarrow> int"
  z_from_local :: "int \<Rightarrow> local_result"

record civil =
  cv_zone :: "string \<Rightarrow> zone option"
  cv_datetime :: "string \<Rightarrow> int option"
  cv_time :: "string \<Rightarrow> int option"
  cv_key :: "int \<Rightarrow> string"
  cv_stamp :: "int \<Rightarrow> string"
  cv_min_day :: int
  cv_max_day :: int

definition minute_ns :: int where "minute_ns = 60000000000"

definition day_ns :: int where "day_ns = 86400000000000"

definition day_of :: "int \<Rightarrow> int" where "day_of l = l div day_ns"

text \<open>1970-01-01 was a Thursday.\<close>

definition days_from_monday :: "int \<Rightarrow> int" where "days_from_monday d = (d + 3) mod 7"

definition checked_day :: "civil \<Rightarrow> int \<Rightarrow> int option" where
  "checked_day cv d = (if cv_min_day cv \<le> d \<and> d \<le> cv_max_day cv then Some d else None)"

definition and_time :: "int \<Rightarrow> int \<Rightarrow> int" where "and_time d t = d * day_ns + t"

section \<open>Slots\<close>

record civil_slot =
  cs_key :: string
  cs_instant :: int

definition err_past_once :: cerr where
  "err_past_once = Invalid ''Choose a future time for a new one-time schedule.''"

definition err_daily_overflow :: cerr where
  "err_daily_overflow = Invalid ''The daily schedule date overflowed.''"

definition err_daily_invalid :: cerr where
  "err_daily_invalid = Invalid ''The next daily schedule time is invalid.''"

definition err_weekly_overflow :: cerr where
  "err_weekly_overflow = Invalid ''The weekly schedule date overflowed.''"

definition err_daily_underflow :: cerr where
  "err_daily_underflow = Invalid ''The daily schedule date underflowed.''"

definition err_weekly_underflow :: cerr where
  "err_weekly_underflow = Invalid ''The weekly schedule date underflowed.''"

definition err_time_overflow :: cerr where
  "err_time_overflow = Invalid ''The schedule time overflowed.''"

definition err_time_unresolved :: cerr where
  "err_time_unresolved = Invalid ''The schedule time could not be resolved in its timezone.''"

definition err_timezone_invalid :: cerr where
  "err_timezone_invalid = Invalid ''The schedule timezone is invalid.''"

definition err_timezone_unknown :: cerr where
  "err_timezone_unknown = Invalid ''Use a valid IANA timezone for this schedule.''"

definition err_local_datetime :: cerr where
  "err_local_datetime = Invalid ''Use YYYY-MM-DDTHH:MM for a one-time local schedule.''"

definition err_local_time :: cerr where
  "err_local_time = Invalid ''Use HH:MM for a recurring local schedule.''"

definition err_weekday :: cerr where
  "err_weekday = Invalid ''The weekly schedule weekday is invalid.''"

definition err_revision_overflow :: cerr where
  "err_revision_overflow = Invalid ''The local schedule revision overflowed.''"

definition parse_timezone :: "civil \<Rightarrow> string \<Rightarrow> cerr + zone" where
  "parse_timezone cv value =
     (if value = [] \<or> 128 < chars_count value then Inl err_timezone_invalid
      else ok_or err_timezone_unknown (cv_zone cv value))"

definition parse_local_datetime :: "civil \<Rightarrow> string \<Rightarrow> cerr + int" where
  "parse_local_datetime cv value = ok_or err_local_datetime (cv_datetime cv value)"

definition parse_local_time :: "civil \<Rightarrow> string \<Rightarrow> cerr + int" where
  "parse_local_time cv value = ok_or err_local_time (cv_time cv value)"

definition parse_weekday :: "string \<Rightarrow> cerr + int" where
  "parse_weekday value =
     (let day = to_ascii_lowercase value in
      if day = ''monday'' then Inr 0 else if day = ''tuesday'' then Inr 1
      else if day = ''wednesday'' then Inr 2 else if day = ''thursday'' then Inr 3
      else if day = ''friday'' then Inr 4 else if day = ''saturday'' then Inr 5
      else if day = ''sunday'' then Inr 6 else Inl err_weekday)"

definition checked_revision :: "int \<Rightarrow> cerr + int" where
  "checked_revision n = (if in_i64 (n + 1) then Inr (n + 1) else Inl err_revision_overflow)"

text \<open>The scan for the first valid minute after a spring-forward gap.\<close>

fun first_valid :: "civil \<Rightarrow> zone \<Rightarrow> int \<Rightarrow> int list \<Rightarrow> cerr + int" where
  "first_valid cv z intended [] = Inl err_time_unresolved"
| "first_valid cv z intended (m # ms) =
     (let candidate = intended + m * minute_ns in
      case checked_day cv (day_of candidate) of
        None \<Rightarrow> Inl err_time_overflow
      | Some _ \<Rightarrow>
          (case z_from_local z candidate of
             Single v \<Rightarrow> Inr v
           | Ambiguous a b \<Rightarrow> Inr (min a b)
           | No_Instant \<Rightarrow> first_valid cv z intended ms))"

definition resolve_civil_slot :: "civil \<Rightarrow> zone \<Rightarrow> int \<Rightarrow> cerr + civil_slot" where
  "resolve_civil_slot cv z intended =
     bindE (case z_from_local z intended of
              Single v \<Rightarrow> Inr v
            | Ambiguous a b \<Rightarrow> Inr (min a b)
            | No_Instant \<Rightarrow> first_valid cv z intended [1..180]) (\<lambda>instant.
     Inr \<lparr>cs_key = cv_key cv intended, cs_instant = instant\<rparr>)"

fun next_daily :: "civil \<Rightarrow> zone \<Rightarrow> int \<Rightarrow> int \<Rightarrow> int \<Rightarrow> int list \<Rightarrow> cerr + civil_slot option" where
  "next_daily cv z date tod after [] = Inl err_daily_invalid"
| "next_daily cv z date tod after (i # is) =
     bindE (ok_or err_daily_overflow (checked_day cv (date + i))) (\<lambda>d.
     bindE (resolve_civil_slot cv z (and_time d tod)) (\<lambda>slot.
     if after < cs_instant slot then Inr (Some slot) else next_daily cv z date tod after is))"

definition next_slot_after ::
  "civil \<Rightarrow> schedule_trigger \<Rightarrow> zone \<Rightarrow> int \<Rightarrow> cerr + civil_slot option" where
  "next_slot_after cv trigger z after =
     (case trigger of
        Trigger_Event _ \<Rightarrow> Inr None
      | Trigger_Once value \<Rightarrow>
          bindE (parse_local_datetime cv value) (\<lambda>intended.
          bindE (resolve_civil_slot cv z intended) (\<lambda>slot.
          Inr (if after < cs_instant slot then Some slot else None)))
      | Trigger_Daily value \<Rightarrow>
          bindE (parse_local_time cv value) (\<lambda>tod.
          next_daily cv z (day_of (z_local z after)) tod after [0, 1, 2])
      | Trigger_Weekly day value \<Rightarrow>
          bindE (parse_weekday day) (\<lambda>weekday.
          bindE (parse_local_time cv value) (\<lambda>tod.
          let date = day_of (z_local z after);
              delta = (weekday - days_from_monday date) mod 7 in
          bindE (ok_or err_weekly_overflow (checked_day cv (date + delta))) (\<lambda>d.
          bindE (resolve_civil_slot cv z (and_time d tod)) (\<lambda>slot.
          if cs_instant slot \<le> after
          then bindE (ok_or err_weekly_overflow (checked_day cv (d + 7))) (\<lambda>d'.
               bindE (resolve_civil_slot cv z (and_time d' tod)) (\<lambda>slot'. Inr (Some slot')))
          else Inr (Some slot))))))"

definition initial_slot :: "civil \<Rightarrow> schedule_trigger \<Rightarrow> zone \<Rightarrow> int \<Rightarrow> cerr + civil_slot option" where
  "initial_slot cv trigger z now =
     (case trigger of
        Trigger_Event _ \<Rightarrow> Inr None
      | Trigger_Once value \<Rightarrow>
          bindE (parse_local_datetime cv value) (\<lambda>intended.
          bindE (resolve_civil_slot cv z intended) (\<lambda>slot.
          if cs_instant slot \<le> now then Inl err_past_once else Inr (Some slot)))
      | _ \<Rightarrow> next_slot_after cv trigger z now)"

definition latest_due_slot :: "civil \<Rightarrow> schedule_trigger \<Rightarrow> zone \<Rightarrow> int \<Rightarrow> cerr + civil_slot option" where
  "latest_due_slot cv trigger z now =
     (case trigger of
        Trigger_Event _ \<Rightarrow> Inr None
      | Trigger_Once value \<Rightarrow>
          bindE (parse_local_datetime cv value) (\<lambda>intended.
          bindE (resolve_civil_slot cv z intended) (\<lambda>slot.
          Inr (if cs_instant slot \<le> now then Some slot else None)))
      | Trigger_Daily value \<Rightarrow>
          bindE (parse_local_time cv value) (\<lambda>tod.
          let date = day_of (z_local z now) in
          bindE (resolve_civil_slot cv z (and_time date tod)) (\<lambda>slot.
          if now < cs_instant slot
          then bindE (ok_or err_daily_underflow (checked_day cv (date - 1))) (\<lambda>d.
               bindE (resolve_civil_slot cv z (and_time d tod)) (\<lambda>slot'. Inr (Some slot')))
          else Inr (Some slot)))
      | Trigger_Weekly day value \<Rightarrow>
          bindE (parse_weekday day) (\<lambda>weekday.
          bindE (parse_local_time cv value) (\<lambda>tod.
          let date = day_of (z_local z now);
              backwards = (days_from_monday date - weekday) mod 7 in
          bindE (ok_or err_weekly_underflow (checked_day cv (date - backwards))) (\<lambda>d.
          bindE (resolve_civil_slot cv z (and_time d tod)) (\<lambda>slot.
          if now < cs_instant slot
          then bindE (ok_or err_weekly_underflow (checked_day cv (d - 7))) (\<lambda>d'.
               bindE (resolve_civil_slot cv z (and_time d' tod)) (\<lambda>slot'. Inr (Some slot')))
          else Inr (Some slot))))))"

section \<open>Validation of requests\<close>

text \<open>\<open>local_schedules/validation.rs\<close>.\<close>

definition err_workflow :: cerr where
  "err_workflow = Invalid ''Choose a valid schedule workflow and permission mode.''"

definition err_schedule_prompt :: cerr where
  "err_schedule_prompt = Invalid ''The schedule prompt must contain 1 to 32000 characters.''"

definition err_reasoning_effort :: cerr where
  "err_reasoning_effort = Invalid ''Choose a supported reasoning effort.''"

definition err_bounded_id :: "string \<Rightarrow> nat \<Rightarrow> cerr" where
  "err_bounded_id label n =
     Invalid (label @ '' id must use 1 to '' @ dec n @ '' letters, numbers, hyphens, or underscores.'')"

definition err_catalog_id :: "string \<Rightarrow> cerr" where
  "err_catalog_id label = Invalid (label @ '' id is not a supported catalog identifier.'')"

definition err_event_binding :: cerr where
  "err_event_binding = Invalid ''Event triggers require a native signing-key binding.''"

definition err_schedule_corrupt :: cerr where
  "err_schedule_corrupt = Invalid ''The encrypted local schedule is invalid.''"

definition err_schedule_index :: cerr where
  "err_schedule_index = Invalid ''The encrypted local schedule does not match its index.''"

definition err_schedule_status :: cerr where
  "err_schedule_status = Invalid ''The local schedule status is invalid.''"

definition validate_execution_kind :: "string \<Rightarrow> string \<Rightarrow> cerr + unit" where
  "validate_execution_kind kind permission =
     (if kind \<notin> {''research'', ''agent''}
         \<or> permission \<notin> {''read-only'', ''trusted-scope'', ''full-access''}
         \<or> kind = ''research'' \<and> permission \<noteq> ''read-only''
      then Inl err_workflow else Inr ())"

definition validate_bounded_id :: "string \<Rightarrow> string \<Rightarrow> nat \<Rightarrow> cerr + unit" where
  "validate_bounded_id value label n =
     (if value = [] \<or> n < chars_count value
         \<or> \<not> list_all (\<lambda>c. ascii_alphanumeric c \<or> c \<in> {CHR ''-'', CHR ''_''}) value
      then Inl (err_bounded_id label n) else Inr ())"

definition validate_catalog_id :: "string \<Rightarrow> string \<Rightarrow> nat \<Rightarrow> cerr + unit" where
  "validate_catalog_id value label n =
     (if value = [] \<or> n < chars_count value
         \<or> \<not> list_all (\<lambda>c. ascii_alphanumeric c
              \<or> c \<in> {CHR ''-'', CHR ''_'', CHR ''.'', CHR ''/'', CHR '':''}) value
      then Inl (err_catalog_id label) else Inr ())"

definition validate_route_and_agent :: "string \<Rightarrow> string \<Rightarrow> string \<Rightarrow> cerr + unit" where
  "validate_route_and_agent agent provider model =
     bindE (validate_bounded_id agent ''Agent'' 96) (\<lambda>_.
     bindE (validate_catalog_id provider ''Provider'' 80) (\<lambda>_.
     validate_catalog_id model ''Model'' 160))"

definition validate_prompt :: "string \<Rightarrow> cerr + unit" where
  "validate_prompt prompt =
     (if trim prompt = [] \<or> 32000 < chars_count prompt then Inl err_schedule_prompt else Inr ())"

definition validate_reasoning_effort :: "string option \<Rightarrow> cerr + unit" where
  "validate_reasoning_effort effort =
     (case effort of
        None \<Rightarrow> Inr ()
      | Some v \<Rightarrow>
          if v \<notin> {''none'', ''minimal'', ''low'', ''medium'', ''high'', ''xhigh'', ''max'', ''ultra''}
          then Inl err_reasoning_effort else Inr ())"

definition ascii_hexdigit :: "char \<Rightarrow> bool" where
  "ascii_hexdigit c =
     (ascii_digit c \<or> 65 \<le> byte c \<and> byte c \<le> 70 \<or> 97 \<le> byte c \<and> byte c \<le> 102)"

definition validate_trigger :: "civil \<Rightarrow> schedule_trigger \<Rightarrow> cerr + unit" where
  "validate_trigger cv trigger =
     (case trigger of
        Trigger_Event c \<Rightarrow>
          if length (ev_route_id c) \<noteq> 64 \<or> \<not> list_all ascii_hexdigit (ev_route_id c)
             \<or> ev_key_version c = 0
          then Inl err_event_binding else Inr ()
      | Trigger_Once value \<Rightarrow> bindE (parse_local_datetime cv value) (\<lambda>_. Inr ())
      | Trigger_Daily value \<Rightarrow> bindE (parse_local_time cv value) (\<lambda>_. Inr ())
      | Trigger_Weekly day value \<Rightarrow>
          bindE (parse_weekday day) (\<lambda>_. bindE (parse_local_time cv value) (\<lambda>_. Inr ())))"

section \<open>Status and saved form of a schedule\<close>

datatype schedule_status = Sched_Enabled | Sched_Paused | Sched_Cancelled

definition status_text :: "schedule_status \<Rightarrow> string" where
  "status_text st = (case st of Sched_Enabled \<Rightarrow> ''enabled'' | Sched_Paused \<Rightarrow> ''paused''
     | Sched_Cancelled \<Rightarrow> ''cancelled'')"

definition parse_status :: "string \<Rightarrow> cerr + schedule_status" where
  "parse_status value =
     (if value = ''enabled'' then Inr Sched_Enabled else if value = ''paused'' then Inr Sched_Paused
      else if value = ''cancelled'' then Inr Sched_Cancelled else Inl err_schedule_status)"

text \<open>\<open>sha\<close> is the hexadecimal SHA-256 digest (\<open>fingerprint\<close>).\<close>

definition decode_schedule_payload ::
  "civil \<Rightarrow> (string \<Rightarrow> string) \<Rightarrow> schedule_row \<Rightarrow> cerr + schedule_payload" where
  "decode_schedule_payload cv sha row =
     bindE (ok_or err_schedule_corrupt (decode_schedule (sr_payload row))) (\<lambda>p.
     if sp_agent_id p \<noteq> sr_agent_id row \<or> sp_prompt_revision p \<noteq> sr_prompt_revision row
        \<or> trigger_kind (sp_trigger p) \<noteq> sr_trigger_kind row
        \<or> sp_prompt_fingerprint p \<noteq> sha (sp_prompt p)
     then Inl err_schedule_index else
     bindE (validate_execution_kind (sp_execution_kind p) (sp_permission_mode p)) (\<lambda>_.
     bindE (validate_route_and_agent (sp_agent_id p) (sp_provider_id p) (sp_model p)) (\<lambda>_.
     bindE (validate_prompt (sp_prompt p)) (\<lambda>_.
     bindE (validate_trigger cv (sp_trigger p)) (\<lambda>_.
     bindE (parse_timezone cv (sp_timezone p)) (\<lambda>_. Inr p))))))"

record local_schedule =
  lc_execution_kind :: string
  lc_permission_mode :: string
  lc_id :: string
  lc_project_id :: "string option"
  lc_agent_id :: string
  lc_provider_id :: string
  lc_model :: string
  lc_reasoning_effort :: "string option"
  lc_prompt :: string
  lc_timezone :: string
  lc_trigger :: schedule_trigger
  lc_status :: schedule_status
  lc_revision :: int
  lc_prompt_revision :: int
  lc_next_run_at :: "string option"
  lc_created_at :: string
  lc_updated_at :: string

definition schedule_from_row ::
  "civil \<Rightarrow> (string \<Rightarrow> string) \<Rightarrow> string \<Rightarrow> schedule_row \<Rightarrow> cerr + local_schedule" where
  "schedule_from_row cv sha key row =
     bindE (decode_schedule_payload cv sha row) (\<lambda>p.
     bindE (parse_status (sr_status row)) (\<lambda>st.
     Inr \<lparr>lc_execution_kind = sp_execution_kind p, lc_permission_mode = sp_permission_mode p,
          lc_id = key, lc_project_id = sp_project_id p, lc_agent_id = sr_agent_id row,
          lc_provider_id = sp_provider_id p, lc_model = sp_model p,
          lc_reasoning_effort = sp_reasoning_effort p, lc_prompt = sp_prompt p,
          lc_timezone = sp_timezone p, lc_trigger = sp_trigger p, lc_status = st,
          lc_revision = sr_revision row, lc_prompt_revision = sr_prompt_revision row,
          lc_next_run_at = sr_next_run_at row, lc_created_at = sr_created_at row,
          lc_updated_at = sr_updated_at row\<rparr>))"

section \<open>Slots of a trigger\<close>

definition zone_ok :: "zone \<Rightarrow> bool" where
  "zone_ok z =
     ((\<forall>l t. (z_local z t = l) =
         (case z_from_local z l of No_Instant \<Rightarrow> False | Single v \<Rightarrow> t = v | Ambiguous a b \<Rightarrow> t = a \<or> t = b))
      \<and> (\<forall>t u. (z_local z t - t) - (z_local z u - u) \<le> day_ns))"

definition civil_ok :: "civil \<Rightarrow> bool" where
  "civil_ok cv = (\<forall>val t. cv_time cv val = Some t \<longrightarrow> 0 \<le> t \<and> t < day_ns)"

definition earliest :: "zone \<Rightarrow> int \<Rightarrow> int option" where
  "earliest z l = (case z_from_local z l of No_Instant \<Rightarrow> None | Single v \<Rightarrow> Some v
     | Ambiguous a b \<Rightarrow> Some (min a b))"

lemma earliest_local:
  assumes "zone_ok z"
  shows "earliest z l = Some t \<Longrightarrow> z_local z t = l"
    and "earliest z l = Some t \<Longrightarrow> z_local z u = l \<Longrightarrow> t \<le> u"
    and "earliest z l = None \<Longrightarrow> z_local z u \<noteq> l"
  using assms unfolding zone_ok_def earliest_def
  by (auto split: local_result.splits if_splits simp: min_def)

lemma first_valid_spec:
  assumes "first_valid cv z i [lo..hi] = Inr t"
  obtains m where "lo \<le> m" "m \<le> hi" "earliest z (i + m * minute_ns) = Some t"
    "\<And>k. lo \<le> k \<Longrightarrow> k < m \<Longrightarrow> earliest z (i + k * minute_ns) = None"
  using assms
proof (induction lo hi arbitrary: thesis rule: upto.induct)
  case (1 lo hi)
  show ?case
  proof (cases "lo \<le> hi")
    case True
    have now: ?thesis if "earliest z (i + lo * minute_ns) = Some t"
      by (rule "1.prems"(1) [of lo]) (use True that in auto)
    have later: ?thesis if none: "z_from_local z (i + lo * minute_ns) = No_Instant"
      and rest: "first_valid cv z i [lo + 1..hi] = Inr t"
    proof (rule "1.IH" [OF True _ rest])
      fix m assume m: "lo + 1 \<le> m" "m \<le> hi" "earliest z (i + m * minute_ns) = Some t"
        "\<And>k. lo + 1 \<le> k \<Longrightarrow> k < m \<Longrightarrow> earliest z (i + k * minute_ns) = None"
      have "earliest z (i + k * minute_ns) = None" if "lo \<le> k" "k < m" for k
        using m(4) [of k] that none by (cases "k = lo") (auto simp: earliest_def)
      with m show ?thesis by (intro "1.prems"(1) [of m]) auto
    qed
    from "1.prems"(2) True now later show ?thesis
      by (auto simp: upto.simps [of lo hi] earliest_def Let_def split: option.splits local_result.splits)
  next
    case False
    with "1.prems"(2) show ?thesis by (simp add: upto.simps [of lo hi])
  qed
qed

lemma first_valid_Inl: "first_valid cv z i ms = Inl e \<Longrightarrow> e \<in> {err_time_overflow, err_time_unresolved}"
  by (induction ms) (auto simp: Let_def split: option.splits local_result.splits)

lemma resolve_spec:
  assumes "resolve_civil_slot cv z i = Inr slot"
  obtains m where "0 \<le> m" "m \<le> 180" "earliest z (i + m * minute_ns) = Some (cs_instant slot)"
    "\<And>k. 0 \<le> k \<Longrightarrow> k < m \<Longrightarrow> earliest z (i + k * minute_ns) = None" "cs_key slot = cv_key cv i"
proof (cases "z_from_local z i")
  case No_Instant
  with assms obtain t where t: "first_valid cv z i [1..180] = Inr t" and slot: "cs_instant slot = t" "cs_key slot = cv_key cv i"
    by (auto simp: resolve_civil_slot_def bindE_Inr)
  from t show thesis
  proof (rule first_valid_spec)
    fix m assume m: "1 \<le> m" "m \<le> 180" "earliest z (i + m * minute_ns) = Some t"
      "\<And>k. 1 \<le> k \<Longrightarrow> k < m \<Longrightarrow> earliest z (i + k * minute_ns) = None"
    have "earliest z (i + k * minute_ns) = None" if "0 \<le> k" "k < m" for k
      using m(4) [of k] that No_Instant by (cases "k = 0") (auto simp: earliest_def)
    with m slot show thesis by (intro that [of m]) auto
  qed
next
  case (Single v)
  with assms show thesis by (intro that [of 0]) (auto simp: resolve_civil_slot_def earliest_def)
next
  case (Ambiguous a b)
  with assms show thesis by (intro that [of 0]) (auto simp: resolve_civil_slot_def earliest_def)
qed

lemma resolve_Inl:
  "resolve_civil_slot cv z i = Inl e \<Longrightarrow> e \<in> {err_time_overflow, err_time_unresolved}"
  by (auto simp: resolve_civil_slot_def bindE_Inl first_valid_Inl split: local_result.splits dest: first_valid_Inl)

text \<open>How far a resolved slot lies from an instant, by the distance of the wall-clock readings.\<close>

lemma resolve_distance:
  assumes "zone_ok z" and "resolve_civil_slot cv z i = Inr slot"
  shows "i - z_local z u - day_ns \<le> cs_instant slot - u"
    and "cs_instant slot - u \<le> i - z_local z u + day_ns + 180 * minute_ns"
proof -
  from assms(2) obtain m where m: "0 \<le> m" "m \<le> 180" "earliest z (i + m * minute_ns) = Some (cs_instant slot)"
    by (rule resolve_spec)
  then have m3: "z_local z (cs_instant slot) = i + m * minute_ns" using earliest_local(1) [OF assms(1)] by blast
  have "(z_local z (cs_instant slot) - cs_instant slot) - (z_local z u - u) \<le> day_ns"
    "(z_local z u - u) - (z_local z (cs_instant slot) - cs_instant slot) \<le> day_ns"
    using assms(1) unfolding zone_ok_def by blast+
  moreover have "0 \<le> m * minute_ns" "m * minute_ns \<le> 180 * minute_ns"
    using m(1,2) by (auto simp: minute_ns_def)
  ultimately show "i - z_local z u - day_ns \<le> cs_instant slot - u"
    "cs_instant slot - u \<le> i - z_local z u + day_ns + 180 * minute_ns" using m3 by linarith+
qed

text \<open>A wall-clock slot is resolved deterministically. It runs at the first of the intended minute
  and the 180 following ones that the wall clock of the zone shows at all; if the clock shows that
  minute twice, at the earlier of the two instants. The key of the slot is that of the intended
  minute.\<close>

theorem slot_is_first_valid_minute:
  assumes "zone_ok z" and "resolve_civil_slot cv z intended = Inr slot"
  shows "cs_key slot = cv_key cv intended
    \<and> (\<exists>m. 0 \<le> m \<and> m \<le> 180 \<and> z_local z (cs_instant slot) = intended + m * minute_ns
         \<and> (\<forall>u. z_local z u = intended + m * minute_ns \<longrightarrow> cs_instant slot \<le> u)
         \<and> (\<forall>k u. 0 \<le> k \<and> k < m \<longrightarrow> z_local z u \<noteq> intended + k * minute_ns))"
  using assms(2)
proof (rule resolve_spec)
  fix m assume m: "0 \<le> m" "m \<le> 180" "earliest z (intended + m * minute_ns) = Some (cs_instant slot)"
    "\<And>k. 0 \<le> k \<Longrightarrow> k < m \<Longrightarrow> earliest z (intended + k * minute_ns) = None" "cs_key slot = cv_key cv intended"
  note e = earliest_local [OF assms(1)]
  show ?thesis using m e(1) [OF m(3)] e(2) [OF m(3)] e(3) [OF m(4)] by blast
qed

definition sample_zone :: zone where
  "sample_zone = \<lparr>z_local = (\<lambda>t. t), z_from_local = Single\<rparr>"

definition sample_civil :: civil where
  "sample_civil = \<lparr>cv_zone = (\<lambda>_. Some sample_zone), cv_datetime = (\<lambda>_. Some (5 * minute_ns)),
     cv_time = (\<lambda>_. Some (540 * minute_ns)), cv_key = (\<lambda>_. ''slot''), cv_stamp = (\<lambda>t. if t < day_ns then ''early'' else ''late''),
     cv_min_day = - 1000, cv_max_day = 1000\<rparr>"

lemma sample_zone_ok: "zone_ok sample_zone" "civil_ok sample_civil"
  by (auto simp: zone_ok_def sample_zone_def civil_ok_def sample_civil_def day_ns_def minute_ns_def)

theorem slot_is_first_valid_minute_witness:
  "\<exists>slot. resolve_civil_slot sample_civil sample_zone 7 = Inr slot \<and> cs_key slot = ''slot''"
proof -
  have r: "resolve_civil_slot sample_civil sample_zone 7 = Inr \<lparr>cs_key = ''slot'', cs_instant = 7\<rparr>"
    by (simp add: resolve_civil_slot_def sample_zone_def sample_civil_def)
  from slot_is_first_valid_minute [OF sample_zone_ok(1) r] r show ?thesis by (simp add: sample_civil_def)
qed

text \<open>The slot of a trigger on the date \<open>d\<close>.\<close>

lemma day_bounds: "day_of l * day_ns \<le> l" "l < day_of l * day_ns + day_ns"
  by (simp_all add: day_of_def day_ns_def)

lemma and_time_parts:
  assumes "0 \<le> tod" "tod < day_ns"
  shows "and_time d tod mod day_ns = tod" "day_of (and_time d tod) = d"
  using assms by (simp_all add: and_time_def day_of_def day_ns_def)

lemma next_daily_Inr:
  assumes "next_daily cv z date tod after is = Inr r"
  obtains i slot where "i \<in> set is" "resolve_civil_slot cv z (and_time (date + i) tod) = Inr slot"
    "after < cs_instant slot" "r = Some slot"
  using assms
proof (induction "is" arbitrary: thesis)
  case (Cons i "is")
  from Cons.prems(2) obtain slot where s: "resolve_civil_slot cv z (and_time (date + i) tod) = Inr slot"
    "(if after < cs_instant slot then Inr (Some slot) else next_daily cv z date tod after is) = Inr r"
    by (auto simp: bindE_Inr ok_or_Inr checked_day_def split: if_splits)
  show ?case
  proof (cases "after < cs_instant slot")
    case True
    with s Cons.prems(1) [of i slot] show ?thesis by simp
  next
    case False
    with s(2) have "next_daily cv z date tod after is = Inr r" by simp
    from Cons.IH [OF _ this] Cons.prems(1) show ?thesis by (metis list.set_intros(2))
  qed
qed simp

lemma next_daily_Inl:
  assumes "next_daily cv z date tod after is = Inl err_daily_invalid" and "i \<in> set is"
  obtains slot where "resolve_civil_slot cv z (and_time (date + i) tod) = Inr slot" "cs_instant slot \<le> after"
  using assms
proof (induction "is" arbitrary: thesis)
  case (Cons j "is")
  have ne: "err_daily_overflow \<noteq> err_daily_invalid"
    "resolve_civil_slot cv z (and_time (date + j) tod) \<noteq> Inl err_daily_invalid"
    using resolve_Inl [of cv z "and_time (date + j) tod" err_daily_invalid]
    by (auto simp: err_daily_overflow_def err_daily_invalid_def err_time_overflow_def err_time_unresolved_def)
  from Cons.prems(2) ne obtain slot where s: "resolve_civil_slot cv z (and_time (date + j) tod) = Inr slot"
    "cs_instant slot \<le> after" "next_daily cv z date tod after is = Inl err_daily_invalid"
    by (auto simp: bindE_Inl ok_or_Inl checked_day_def split: if_splits)
  show ?case
  proof (cases "i = j")
    case True
    with s Cons.prems(1) show ?thesis by simp
  next
    case False
    with Cons.prems(3) have "i \<in> set is" by simp
    from Cons.IH [OF Cons.prems(1) s(3) this] show ?thesis by simp
  qed
qed simp

text \<open>Where a recurring slot lies: on a day between today and two weeks ahead, at the time asked for.\<close>

definition intended_for :: "civil \<Rightarrow> schedule_trigger \<Rightarrow> int \<Rightarrow> bool" where
  "intended_for cv trigger l =
     (case trigger of
        Trigger_Event _ \<Rightarrow> False
      | Trigger_Once val \<Rightarrow> cv_datetime cv val = Some l
      | Trigger_Daily val \<Rightarrow> cv_time cv val = Some (l mod day_ns)
      | Trigger_Weekly day val \<Rightarrow>
          cv_time cv val = Some (l mod day_ns) \<and> parse_weekday day = Inr (days_from_monday (day_of l)))"

lemma ahead_bounds:
  assumes "zone_ok z" and "resolve_civil_slot cv z (and_time (day_of (z_local z after) + n) tod) = Inr slot"
    and "0 \<le> tod" "tod < day_ns"
  shows "2 \<le> n \<Longrightarrow> after < cs_instant slot"
    and "n \<le> 13 \<Longrightarrow> cs_instant slot \<le> after + 15 * day_ns + 180 * minute_ns"
proof -
  note d = resolve_distance [OF assms(1,2), of after] day_bounds [of "z_local z after"]
  show "2 \<le> n \<Longrightarrow> after < cs_instant slot"
    using d assms(3,4) by (simp add: and_time_def day_ns_def minute_ns_def)
  show "n \<le> 13 \<Longrightarrow> cs_instant slot \<le> after + 15 * day_ns + 180 * minute_ns"
    using d assms(3,4) by (simp add: and_time_def day_ns_def minute_ns_def)
qed

lemma weekday_reached:
  assumes "0 \<le> w" "w < 7"
  shows "days_from_monday (d + (w - days_from_monday d) mod 7) = w"
    "days_from_monday (d + (w - days_from_monday d) mod 7 + 7) = w"
proof -
  have "(d + (w - (d + 3) mod 7) mod 7 + 3) mod 7 = ((d + 3) + (w - (d + 3) mod 7) mod 7) mod 7"
    by (simp add: algebra_simps)
  also have "\<dots> = ((d + 3) + (w - (d + 3))) mod 7" by (simp only: mod_add_right_eq mod_diff_right_eq)
  finally have *: "(d + (w - (d + 3) mod 7) mod 7 + 3) mod 7 = w" using assms by simp
  then show "days_from_monday (d + (w - days_from_monday d) mod 7) = w" by (simp add: days_from_monday_def)
  have "(d + (w - (d + 3) mod 7) mod 7 + 7 + 3) mod 7 = ((d + (w - (d + 3) mod 7) mod 7 + 3) + 7) mod 7"
    by (simp only: ac_simps)
  also have "\<dots> = w" unfolding mod_add_self2 by (rule *)
  finally show "days_from_monday (d + (w - days_from_monday d) mod 7 + 7) = w" by (simp add: days_from_monday_def)
qed

lemma parse_weekday_range: "parse_weekday day = Inr w \<Longrightarrow> 0 \<le> w \<and> w < 7"
  by (auto simp: parse_weekday_def Let_def split: if_splits)

lemma next_daily_slot:
  assumes "zone_ok z" "civil_ok cv" "cv_time cv val = Some tod"
    and "next_daily cv z (day_of (z_local z after)) tod after [0, 1, 2] = Inr (Some slot)"
  shows "after < cs_instant slot \<and> cs_instant slot \<le> after + 15 * day_ns + 180 * minute_ns
    \<and> (\<exists>l. intended_for cv (Trigger_Daily val) l \<and> resolve_civil_slot cv z l = Inr slot)"
proof -
  have tod: "0 \<le> tod" "tod < day_ns" using assms(2,3) by (auto simp: civil_ok_def)
  from assms(4) obtain i where i: "i \<in> {0, 1, 2}" "after < cs_instant slot"
    "resolve_civil_slot cv z (and_time (day_of (z_local z after) + i) tod) = Inr slot"
    by (rule next_daily_Inr) auto
  moreover have "i \<le> 13" using i(1) by auto
  ultimately have "cs_instant slot \<le> after + 15 * day_ns + 180 * minute_ns"
    using ahead_bounds(2) [OF assms(1) i(3) tod] by simp
  moreover have "intended_for cv (Trigger_Daily val) (and_time (day_of (z_local z after) + i) tod)"
    using assms(3) and_time_parts [OF tod] by (simp add: intended_for_def)
  ultimately show ?thesis using i by blast
qed

lemma next_daily_total:
  assumes "zone_ok z" "civil_ok cv" "cv_time cv val = Some tod"
  shows "next_daily cv z (day_of (z_local z after)) tod after [0, 1, 2] \<noteq> Inl err_daily_invalid"
proof
  have tod: "0 \<le> tod" "tod < day_ns" using assms(2,3) by (auto simp: civil_ok_def)
  assume "next_daily cv z (day_of (z_local z after)) tod after [0, 1, 2] = Inl err_daily_invalid"
  then obtain slot where "resolve_civil_slot cv z (and_time (day_of (z_local z after) + 2) tod) = Inr slot"
    "cs_instant slot \<le> after" by (rule next_daily_Inl [of _ _ _ _ _ _ 2]) auto
  then show False using ahead_bounds(1) [OF assms(1) _ tod] by force
qed

lemma next_weekly_slot:
  assumes "zone_ok z" "civil_ok cv"
    and "next_slot_after cv (Trigger_Weekly day val) z after = Inr (Some slot)"
  shows "after < cs_instant slot \<and> cs_instant slot \<le> after + 15 * day_ns + 180 * minute_ns
    \<and> (\<exists>l. intended_for cv (Trigger_Weekly day val) l \<and> resolve_civil_slot cv z l = Inr slot)"
proof -
  let ?date = "day_of (z_local z after)"
  obtain w tod s1 where w: "parse_weekday day = Inr w" and t: "cv_time cv val = Some tod"
    and s1: "resolve_civil_slot cv z (and_time (?date + (w - days_from_monday ?date) mod 7) tod) = Inr s1"
    and pick: "after < cs_instant s1 \<and> slot = s1 \<or> cs_instant s1 \<le> after
       \<and> resolve_civil_slot cv z (and_time (?date + (w - days_from_monday ?date) mod 7 + 7) tod) = Inr slot"
    using assms(3) unfolding next_slot_after_def schedule_trigger.case Let_def
  proof (elim bindE_elim ok_or_elim, goal_cases)
    case (1 w tod d s1)
    then have d: "d = ?date + (w - days_from_monday ?date) mod 7" by (simp add: checked_day_def split: if_splits)
    have t: "cv_time cv val = Some tod" using 1(3) by (simp add: parse_local_time_def ok_or_Inr)
    show ?case
    proof (cases "cs_instant s1 \<le> after")
      case True
      with 1(5) obtain d' where "checked_day cv (d + 7) = Some d'" "resolve_civil_slot cv z (and_time d' tod) = Inr slot"
        by (auto simp: bindE_Inr ok_or_Inr)
      then have "resolve_civil_slot cv z (and_time (d + 7) tod) = Inr slot" by (simp add: checked_day_def split: if_splits)
      with True 1 t show ?thesis unfolding d by blast
    next
      case False
      with 1(5) have "slot = s1" "after < cs_instant s1" by simp_all
      with 1 t show ?thesis unfolding d by blast
    qed
  qed
  have tod: "0 \<le> tod" "tod < day_ns" using assms(2) t by (auto simp: civil_ok_def)
  have delta: "0 \<le> (w - days_from_monday ?date) mod 7" "(w - days_from_monday ?date) mod 7 \<le> 6"
    using pos_mod_bound [of 7 "w - days_from_monday ?date"] by simp_all
  have int: "intended_for cv (Trigger_Weekly day val) (and_time d tod)" if "days_from_monday d = w" for d
    using that w t and_time_parts [OF tod] by (simp add: intended_for_def)
  note reach = weekday_reached [OF parse_weekday_range [OF w, THEN conjunct1] parse_weekday_range [OF w, THEN conjunct2]]
  from pick show ?thesis
  proof
    assume "after < cs_instant s1 \<and> slot = s1"
    with s1 ahead_bounds(2) [OF assms(1) s1 tod] delta int [OF reach(1)] show ?thesis by auto
  next
    assume *: "cs_instant s1 \<le> after
       \<and> resolve_civil_slot cv z (and_time (?date + (w - days_from_monday ?date) mod 7 + 7) tod) = Inr slot"
    then have s2: "resolve_civil_slot cv z (and_time (?date + ((w - days_from_monday ?date) mod 7 + 7)) tod) = Inr slot"
      by (simp add: add.assoc)
    from ahead_bounds [OF assms(1) s2 tod] delta * int [OF reach(2)] show ?thesis by auto
  qed
qed

text \<open>The next run of a schedule lies in the future. In a zone whose offsets differ by at most a day,
  the slot computed after an instant is strictly later; that of a recurring trigger is at most fifteen
  days and three hours later and resolves a wall-clock time with the weekday and the time of day that
  the trigger names; and the search of a daily trigger over today and the two following days
  always finds one.\<close>

theorem next_slot_is_ahead:
  assumes "zone_ok z" and "civil_ok cv"
  shows "next_slot_after cv trigger z after \<noteq> Inl err_daily_invalid
    \<and> (\<forall>slot. next_slot_after cv trigger z after = Inr (Some slot) \<longrightarrow>
         after < cs_instant slot
         \<and> (is_once trigger \<or> cs_instant slot \<le> after + 15 * day_ns + 180 * minute_ns)
         \<and> (\<exists>l. intended_for cv trigger l \<and> resolve_civil_slot cv z l = Inr slot))"
proof (cases trigger)
  case (Trigger_Event c)
  then show ?thesis by (simp add: next_slot_after_def)
next
  case (Trigger_Once val)
  have "resolve_civil_slot cv z l \<noteq> Inl err_daily_invalid" for l
    using resolve_Inl [of cv z l err_daily_invalid]
    by (auto simp: err_daily_invalid_def err_time_overflow_def err_time_unresolved_def)
  then show ?thesis unfolding Trigger_Once
    by (auto simp: next_slot_after_def bindE_Inr bindE_Inl parse_local_datetime_def ok_or_Inr ok_or_Inl
        is_once_def intended_for_def err_local_datetime_def err_daily_invalid_def split: if_splits)
next
  case (Trigger_Daily val)
  show ?thesis
  proof (cases "cv_time cv val")
    case None
    then show ?thesis unfolding Trigger_Daily
      by (simp add: next_slot_after_def parse_local_time_def err_local_time_def err_daily_invalid_def)
  next
    case (Some tod)
    then have "next_slot_after cv trigger z after = next_daily cv z (day_of (z_local z after)) tod after [0, 1, 2]"
      unfolding Trigger_Daily by (simp add: next_slot_after_def parse_local_time_def)
    with next_daily_slot [OF assms Some] next_daily_total [OF assms Some] show ?thesis
      unfolding Trigger_Daily by auto
  qed
next
  case (Trigger_Weekly day val)
  have "resolve_civil_slot cv z l \<noteq> Inl err_daily_invalid" for l
    using resolve_Inl [of cv z l err_daily_invalid]
    by (auto simp: err_daily_invalid_def err_time_overflow_def err_time_unresolved_def)
  then have "next_slot_after cv trigger z after \<noteq> Inl err_daily_invalid" unfolding Trigger_Weekly
    by (auto simp: next_slot_after_def bindE_Inl parse_local_time_def parse_weekday_def ok_or_Inl Let_def
        err_local_time_def err_weekday_def err_weekly_overflow_def err_daily_invalid_def split: if_splits)
  with next_weekly_slot [OF assms] show ?thesis unfolding Trigger_Weekly by auto
qed

theorem next_slot_is_ahead_witness:
  "\<exists>slot. next_slot_after sample_civil (Trigger_Daily ''09:00'') sample_zone (600 * minute_ns) = Inr (Some slot)
     \<and> 600 * minute_ns < cs_instant slot"
proof -
  have "next_slot_after sample_civil (Trigger_Daily ''09:00'') sample_zone (600 * minute_ns) =
      Inr (Some \<lparr>cs_key = ''slot'', cs_instant = day_ns + 540 * minute_ns\<rparr>)"
    by code_simp
  with next_slot_is_ahead [OF sample_zone_ok, of "Trigger_Daily ''09:00''" "600 * minute_ns"]
  show ?thesis by blast
qed

end
