(* ===== verification/Schedule_Store.thy ===== *)
theory Schedule_Store
  imports Event_Templates Work_Schedules
begin

text \<open>
  The tables of local schedules: definitions and their occurrence ledger
  (\<open>store/repos/local_schedule.rs\<close>) and the event outbox (\<open>store/repos/local_event.rs\<close>). Every
  statement is scoped to one owner, whose rows these tables hold. A unique or foreign key that a
  statement violates is an error of SQLite and undoes the transaction.
\<close>

section \<open>Schedules\<close>

definition err_schedule_exists :: cerr where
  "err_schedule_exists = Invalid ''That local schedule already exists.''"

definition err_schedule_edited :: cerr where
  "err_schedule_edited = Invalid ''The local schedule changed. Refresh it before editing.''"

definition insert_schedule :: "string \<Rightarrow> schedule_row \<Rightarrow> store \<Rightarrow> cerr + store" where
  "insert_schedule key row s =
     (if tget (schedules s) key \<noteq> None then Inl err_schedule_exists
      else Inr (s\<lparr>schedules := tput key row (schedules s)\<rparr>))"

definition list_schedules :: "nat \<Rightarrow> store \<Rightarrow> (string \<times> schedule_row) list" where
  "list_schedules n s = take n (newest_first (sr_updated_at \<circ> snd) (schedules s))"

definition count_schedules :: "store \<Rightarrow> nat" where
  "count_schedules s = length (schedules s)"

definition due_at :: "string \<Rightarrow> schedule_row \<Rightarrow> bool" where
  "due_at now row =
     (sr_status row = ''enabled''
      \<and> (case sr_next_run_at row of None \<Rightarrow> False | Some next \<Rightarrow> next \<le> now))"

text \<open>The key under which a due row is ordered; a row that is not due has none.\<close>

definition next_key :: "string \<times> schedule_row \<Rightarrow> string" where
  "next_key kr = (case sr_next_run_at (snd kr) of None \<Rightarrow> [] | Some next \<Rightarrow> next)"

definition first_due_schedule :: "string \<Rightarrow> store \<Rightarrow> (string \<times> schedule_row) option" where
  "first_due_schedule now s =
     (case sort_key next_key (filter (due_at now \<circ> snd) (schedules s)) of
        [] \<Rightarrow> None | kr # _ \<Rightarrow> Some kr)"

definition replace_schedule :: "int \<Rightarrow> string \<Rightarrow> schedule_row \<Rightarrow> store \<Rightarrow> cerr + store" where
  "replace_schedule expected key row s =
     (case tget (schedules s) key of
        None \<Rightarrow> Inl err_schedule_edited
      | Some old \<Rightarrow>
          if sr_revision old \<noteq> expected then Inl err_schedule_edited
          else Inr (s\<lparr>schedules := tput key (row\<lparr>sr_created_at := sr_created_at old\<rparr>) (schedules s)\<rparr>))"

section \<open>Occurrences\<close>

definition err_occurrence_constraint :: cerr where
  "err_occurrence_constraint = Invalid ''UNIQUE constraint failed: local_schedule_occurrence''"

definition err_occurrence_moved :: cerr where
  "err_occurrence_moved = Invalid ''The local schedule occurrence changed before this transition.''"

definition err_occurrence_missing :: cerr where
  "err_occurrence_missing = Invalid ''The local schedule occurrence was not found.''"

definition err_schedule_missing :: cerr where
  "err_schedule_missing = Invalid ''The local schedule was not found.''"

definition same_slot :: "occurrence_row \<Rightarrow> occurrence_row \<Rightarrow> bool" where
  "same_slot a b =
     (oc_schedule_id a = oc_schedule_id b \<and> oc_schedule_revision a = oc_schedule_revision b
      \<and> oc_slot_fingerprint a = oc_slot_fingerprint b)"

definition insert_claimed_occurrence :: "string \<Rightarrow> occurrence_row \<Rightarrow> store \<Rightarrow> cerr + store" where
  "insert_claimed_occurrence key row s =
     (if tget (occurrences s) key \<noteq> None \<or> list_ex (same_slot row) (trows (occurrences s))
         \<or> tget (schedules s) (oc_schedule_id row) = None
      then Inl err_occurrence_constraint
      else Inr (s\<lparr>occurrences := tput key row (occurrences s)\<rparr>))"

text \<open>\<open>replace_occurrence\<close>: the states a row may be in are listed by the caller.\<close>

definition replaced_occurrence :: "occurrence_row \<Rightarrow> occurrence_row \<Rightarrow> occurrence_row" where
  "replaced_occurrence row old =
     old\<lparr>oc_state := oc_state row, oc_lease_expires_at := oc_lease_expires_at row,
         oc_execution_attempt_id := oc_execution_attempt_id row, oc_started_at := oc_started_at row,
         oc_completed_at := oc_completed_at row, oc_updated_at := oc_updated_at row,
         oc_payload := oc_payload row\<rparr>"

definition replace_occurrence ::
  "string \<Rightarrow> occurrence_row \<Rightarrow> string list \<Rightarrow> store \<Rightarrow> cerr + store" where
  "replace_occurrence key row expected s =
     (case tget (occurrences s) key of
        None \<Rightarrow> Inl err_occurrence_moved
      | Some old \<Rightarrow>
          if oc_state old \<notin> set expected then Inl err_occurrence_moved
          else Inr (s\<lparr>occurrences := tput key (replaced_occurrence row old) (occurrences s)\<rparr>))"

definition list_occurrences :: "string \<Rightarrow> nat \<Rightarrow> store \<Rightarrow> (string \<times> occurrence_row) list" where
  "list_occurrences schedule n s =
     take n (newest_first (oc_scheduled_for \<circ> snd)
       (filter (\<lambda>(_, row). oc_schedule_id row = schedule) (occurrences s)))"

definition occurrence_thread_id :: "string option \<Rightarrow> store \<Rightarrow> string option" where
  "occurrence_thread_id attempt s =
     (case attempt of None \<Rightarrow> None
      | Some a \<Rightarrow> Option.bind (tget (attempts s) a) ar_thread_id)"

text \<open>\<open>as_object_mut\<close> with \<open>insert\<close>: a payload that is no object is left as it is.\<close>

definition set_member :: "string \<Rightarrow> json \<Rightarrow> json \<Rightarrow> json" where
  "set_member key x v = (case v of JObj t \<Rightarrow> JObj (tput key x t) | _ \<Rightarrow> v)"

definition msg_claim_ended :: string where
  "msg_claim_ended = ''This automation claim ended. Inspect saved outcomes and reconcile external effects before continuing.''"

definition claim_ended :: "string \<Rightarrow> work \<Rightarrow> work" where
  "claim_ended now it =
     it\<lparr>w_generation := w_generation it + 1, w_status := AwaitingUser, w_awaiting_user := True,
        w_reason := Some msg_claim_ended, w_updated_at := now\<rparr>"

definition staged_work_id :: "occurrence_row \<Rightarrow> string option" where
  "staged_work_id row = jstr (jindex (oc_payload row) ''workId'')"

definition owned_by :: "string \<Rightarrow> work \<Rightarrow> bool" where
  "owned_by occurrence it = (map_option sc_occurrence_id (w_schedule it) = Some occurrence)"

definition interrupt_work :: "ctx \<Rightarrow> string \<Rightarrow> string \<Rightarrow> occurrence_row \<Rightarrow> store \<Rightarrow> cerr + store" where
  "interrupt_work ctx now key row s =
     (case staged_work_id row of
        None \<Rightarrow> Inr s
      | Some work_id \<Rightarrow>
          if (case tget (works s) work_id of None \<Rightarrow> True | Some root \<Rightarrow> \<not> owned_by key root)
          then Inr s else
          bindE (all_work s) (\<lambda>all.
          foldE (\<lambda>it t. if w_root_id it = work_id \<and> active (w_status it)
                        then put_work ctx (claim_ended now it) t else Inr t) all s))"

definition interrupted_row :: "string \<Rightarrow> json \<Rightarrow> occurrence_row \<Rightarrow> occurrence_row" where
  "interrupted_row now payload row =
     row\<lparr>oc_state := ''interrupted'', oc_completed_at := Some now, oc_updated_at := now,
         oc_payload := payload\<rparr>"

definition expire_one :: "ctx \<Rightarrow> string \<Rightarrow> string \<Rightarrow> store \<Rightarrow> cerr + store" where
  "expire_one ctx now key s =
     bindE (ok_or (Invalid ''An expired local schedule occurrence disappeared.'')
              (tget (occurrences s) key)) (\<lambda>row.
     let row' = interrupted_row now (set_member ''outcome'' (JStr ''lease-expired'') (oc_payload row)) row in
     bindE (replace_occurrence key row' [''claimed'', ''running''] s) (\<lambda>s1.
     interrupt_work ctx now key row' s1))"

definition lease_expired :: "string \<Rightarrow> occurrence_row \<Rightarrow> bool" where
  "lease_expired now row =
     (oc_state row \<in> {''claimed'', ''running''} \<and> oc_lease_expires_at row \<le> now)"

definition interrupt_expired :: "ctx \<Rightarrow> string \<Rightarrow> store \<Rightarrow> cerr + store" where
  "interrupt_expired ctx now s =
     foldE (expire_one ctx now)
       (map fst (filter (lease_expired now \<circ> snd) (occurrences s))) s"

text \<open>The last user message of an attempt's exchanges.\<close>

definition last_user_prompt :: "attempt_row \<Rightarrow> string option" where
  "last_user_prompt row =
     (case ar_payload row of None \<Rightarrow> None
      | Some a \<Rightarrow> map_option snd (find (\<lambda>(role, _). role = ''user'') (rev (at_exchanges a))))"

definition err_claim_stale :: cerr where
  "err_claim_stale = Invalid ''The local schedule claim is stale or belongs to another dispatcher.''"

definition err_claim_expired :: cerr where
  "err_claim_expired = Invalid ''The local schedule claim expired before execution could start.''"

definition err_schedule_stopped :: cerr where
  "err_schedule_stopped = Invalid ''The local schedule was paused or cancelled before execution could start.''"

definition err_attempt_foreign :: cerr where
  "err_attempt_foreign = Invalid ''The execution attempt does not belong to this schedule occurrence.''"

definition err_attempt_inexact :: cerr where
  "err_attempt_inexact = Invalid ''The schedule occurrence requires an exact durable queued execution attempt.''"

definition err_work_mismatch :: cerr where
  "err_work_mismatch = Invalid ''The queued automation Work no longer matches its frozen occurrence.''"

definition err_attempt_mismatch :: cerr where
  "err_attempt_mismatch = Invalid ''The queued execution attempt does not match the frozen schedule request.''"

definition err_attempt_unowned :: cerr where
  "err_attempt_unowned = Invalid ''The queued execution attempt is not owned by this private schedule scope.''"

definition work_matches :: "string \<Rightarrow> occurrence_row \<Rightarrow> attempt_row \<Rightarrow> work \<Rightarrow> bool" where
  "work_matches key row attempt it =
     (w_status it = Queued \<and> w_run_ids it = []
      \<and> w_conversation_id it = (case ar_thread_id attempt of None \<Rightarrow> [] | Some t \<Rightarrow> t)
      \<and> w_model_option_id it = ar_provider_id attempt @ ''::'' @ ar_model attempt
      \<and> w_user_request it = (case jstr (jindex (oc_payload row) ''prompt'') of None \<Rightarrow> [] | Some p \<Rightarrow> p)
      \<and> owned_by key it)"

definition attempt_matches :: "occurrence_row \<Rightarrow> attempt_row \<Rightarrow> bool" where
  "attempt_matches row attempt =
     (jget_str (oc_payload row) ''providerId'' = Some (ar_provider_id attempt)
      \<and> jget_str (oc_payload row) ''model'' = Some (ar_model attempt)
      \<and> jget_str (oc_payload row) ''prompt'' \<noteq> None
      \<and> last_user_prompt attempt = jget_str (oc_payload row) ''prompt'')"

definition thread_owned :: "ctx \<Rightarrow> attempt_row \<Rightarrow> store \<Rightarrow> bool" where
  "thread_owned ctx attempt s =
     (case ar_thread_id attempt of
        None \<Rightarrow> False
      | Some t \<Rightarrow> (case tget (threads s) t of None \<Rightarrow> False
          | Some th \<Rightarrow> th_owner_member_id th = owner_member ctx))"

definition bind_pending_attempt ::
  "ctx \<Rightarrow> string \<Rightarrow> string \<Rightarrow> string \<Rightarrow> string \<Rightarrow> string \<Rightarrow> store \<Rightarrow> cerr + store" where
  "bind_pending_attempt ctx key print attempt_id now lease s =
     bindE (ok_or err_occurrence_missing (tget (occurrences s) key)) (\<lambda>row.
     if oc_state row \<noteq> ''claimed'' \<or> oc_claim_fingerprint row \<noteq> print then Inl err_claim_stale else
     if oc_lease_expires_at row \<le> now then Inl err_claim_expired else
     bindE (ok_or err_schedule_missing (tget (schedules s) (oc_schedule_id row))) (\<lambda>schedule.
     if sr_status schedule \<noteq> ''enabled'' then Inl err_schedule_stopped else
     let staged' = Option.bind (jget_str (oc_payload row) ''workId'') (tget (works s)) in
     if staged' = None \<and> attempt_id \<noteq> ''schedule-run-'' @ key then Inl err_attempt_foreign else
     bindE (ok_or err_attempt_inexact (tget (attempts s) attempt_id)) (\<lambda>attempt.
     if ar_status attempt \<noteq> ''queued'' then Inl err_attempt_inexact else
     if (case staged' of None \<Rightarrow> False | Some it \<Rightarrow> \<not> work_matches key row attempt it)
     then Inl err_work_mismatch else
     if \<not> attempt_matches row attempt then Inl err_attempt_mismatch else
     if \<not> thread_owned ctx attempt s then Inl err_attempt_unowned else
     replace_occurrence key
       (row\<lparr>oc_state := ''running'', oc_execution_attempt_id := Some attempt_id,
            oc_started_at := Some now, oc_updated_at := now, oc_lease_expires_at := lease\<rparr>)
       [''claimed''] s)))"

definition err_lease_stale :: cerr where
  "err_lease_stale = Invalid ''The local schedule execution lease is stale or expired.''"

definition err_stopped_running :: cerr where
  "err_stopped_running = Invalid ''The local schedule was paused or cancelled while it was running.''"

definition renew_running_lease ::
  "string \<Rightarrow> string \<Rightarrow> string \<Rightarrow> string \<Rightarrow> string \<Rightarrow> store \<Rightarrow> cerr + store" where
  "renew_running_lease key print attempt_id now lease s =
     bindE (ok_or err_occurrence_missing (tget (occurrences s) key)) (\<lambda>row.
     if oc_state row \<noteq> ''running'' \<or> oc_claim_fingerprint row \<noteq> print
        \<or> oc_execution_attempt_id row \<noteq> Some attempt_id \<or> oc_lease_expires_at row \<le> now
     then Inl err_lease_stale else
     bindE (ok_or err_schedule_missing (tget (schedules s) (oc_schedule_id row))) (\<lambda>schedule.
     if sr_status schedule \<noteq> ''enabled'' then Inl err_stopped_running else
     replace_occurrence key (row\<lparr>oc_lease_expires_at := lease, oc_updated_at := now\<rparr>) [''running''] s))"

definition err_not_interruptible :: cerr where
  "err_not_interruptible = Invalid ''The local schedule claim cannot be interrupted from its current state.''"

definition interrupt_claimed ::
  "ctx \<Rightarrow> string \<Rightarrow> string \<Rightarrow> string \<Rightarrow> string \<Rightarrow> store \<Rightarrow> cerr + store" where
  "interrupt_claimed ctx key print detail now s =
     bindE (ok_or err_occurrence_missing (tget (occurrences s) key)) (\<lambda>row.
     if oc_state row \<noteq> ''claimed'' \<or> oc_claim_fingerprint row \<noteq> print then Inl err_not_interruptible else
     let row' = interrupted_row now (set_member ''detail'' (JStr detail)
                  (set_member ''outcome'' (JStr ''interrupted'') (oc_payload row))) row in
     bindE (replace_occurrence key row' [''claimed''] s) (\<lambda>s1.
     interrupt_work ctx now key row' s1))"

definition err_outcome_unsupported :: cerr where
  "err_outcome_unsupported = Invalid ''Unsupported schedule occurrence outcome.''"

definition err_completion_mismatch :: cerr where
  "err_completion_mismatch = Invalid ''The local schedule completion does not match its running attempt.''"

definition err_lease_over :: cerr where
  "err_lease_over = Invalid ''The local schedule execution lease expired before completion was recorded.''"

definition err_automation_missing :: cerr where
  "err_automation_missing = Invalid ''The automation Work is unavailable.''"

definition err_outcome_mismatch :: cerr where
  "err_outcome_mismatch = Invalid ''The schedule outcome does not match the durable execution attempt.''"

definition work_outcome :: "string \<Rightarrow> work_status \<Rightarrow> bool" where
  "work_outcome outcome st =
     (if outcome = ''completed'' then st = Completed
      else if outcome = ''failed'' then st = Failed
      else if outcome = ''interrupted'' then st \<in> {Cancelled, AwaitingUser, Blocked} else False)"

definition attempt_outcome :: "string \<Rightarrow> string option \<Rightarrow> bool" where
  "attempt_outcome outcome st =
     (if outcome = ''completed'' then st = Some ''completed''
      else if outcome = ''failed'' then st = Some ''failed''
      else if outcome = ''interrupted'' then st \<in> {Some ''cancelled'', Some ''interrupted''} else False)"

definition outcome_matches :: "string \<Rightarrow> string \<Rightarrow> string \<Rightarrow> occurrence_row \<Rightarrow> store \<Rightarrow> cerr + bool" where
  "outcome_matches key attempt_id outcome row s =
     (case staged_work_id row of
        Some work_id \<Rightarrow>
          bindE (ok_or err_automation_missing (tget (works s) work_id)) (\<lambda>it.
          Inr (owned_by key it \<and> attempt_id \<in> set (w_run_ids it) \<and> work_outcome outcome (w_status it)))
      | None \<Rightarrow> Inr (attempt_outcome outcome (map_option ar_status (tget (attempts s) attempt_id))))"

definition finish_occurrence ::
  "string \<Rightarrow> string \<Rightarrow> string \<Rightarrow> string \<Rightarrow> string option \<Rightarrow> string \<Rightarrow> store \<Rightarrow> cerr + store" where
  "finish_occurrence key print attempt_id outcome detail now s =
     (if outcome \<notin> {''completed'', ''failed'', ''interrupted''} then Inl err_outcome_unsupported else
      bindE (ok_or err_occurrence_missing (tget (occurrences s) key)) (\<lambda>row.
      if oc_state row \<noteq> ''running'' \<or> oc_claim_fingerprint row \<noteq> print
         \<or> oc_execution_attempt_id row \<noteq> Some attempt_id
      then Inl err_completion_mismatch else
      if oc_lease_expires_at row \<le> now then Inl err_lease_over else
      bindE (outcome_matches key attempt_id outcome row s) (\<lambda>ok.
      if \<not> ok then Inl err_outcome_mismatch else
      let p1 = set_member ''outcome'' (JStr outcome) (oc_payload row);
          p2 = (case detail of None \<Rightarrow> p1 | Some d \<Rightarrow> set_member ''detail'' (JStr d) p1) in
      replace_occurrence key
        (row\<lparr>oc_state := outcome, oc_completed_at := Some now, oc_updated_at := now, oc_payload := p2\<rparr>)
        [''running''] s)))"

end
