(* ===== verification/Event_Outbox.thy ===== *)
theory Event_Outbox
  imports Schedule_Store
begin

text \<open>
  The event outbox (\<open>store/repos/local_event.rs\<close>), the admission of a received event
  (\<open>events/delivery.rs\<close>, \<open>receive\<close>) and its retention (\<open>events/maintenance.rs\<close>). \<open>deliveries\<close> lists the
  rows in the order of their rowid. The closures \<open>verify\<close> and \<open>sanitize\<close> that \<open>receive\<close> takes, which
  consult the protected key, and the random delivery id are arguments here as well.
\<close>

section \<open>Rows\<close>

definition err_delivery_constraint :: cerr where
  "err_delivery_constraint = Invalid ''UNIQUE constraint failed: local_event_delivery''"

definition clashes :: "delivery_row \<Rightarrow> delivery_row \<Rightarrow> bool" where
  "clashes a b =
     (dv_id a = dv_id b
      \<or> dv_schedule_id a = dv_schedule_id b
        \<and> (dv_fingerprint a \<noteq> None \<and> dv_fingerprint a = dv_fingerprint b
           \<or> dv_body_fingerprint a \<noteq> None \<and> dv_body_fingerprint a = dv_body_fingerprint b))"

definition insert_delivery :: "delivery_row \<Rightarrow> store \<Rightarrow> cerr + store" where
  "insert_delivery row s =
     (if list_ex (clashes row) (deliveries s) \<or> tget (schedules s) (dv_schedule_id row) = None
      then Inl err_delivery_constraint
      else Inr (s\<lparr>deliveries := deliveries s @ [row]\<rparr>))"

definition get_delivery :: "string \<Rightarrow> store \<Rightarrow> delivery_row option" where
  "get_delivery key s = find (\<lambda>d. dv_id d = key) (deliveries s)"

definition duplicate :: "string \<Rightarrow> string \<Rightarrow> string \<Rightarrow> store \<Rightarrow> string option" where
  "duplicate schedule print body s =
     map_option dv_id (find (\<lambda>d. dv_schedule_id d = schedule
       \<and> (dv_fingerprint d = Some print \<or> dv_body_fingerprint d = Some body)) (deliveries s))"

definition of_schedule :: "string \<Rightarrow> store \<Rightarrow> delivery_row list" where
  "of_schedule schedule s = filter (\<lambda>d. dv_schedule_id d = schedule) (deliveries s)"

definition pending :: "string \<Rightarrow> delivery_row \<Rightarrow> bool" where
  "pending schedule d = (dv_schedule_id d = schedule \<and> dv_state d = ''pending'')"

definition first_pending :: "string \<Rightarrow> store \<Rightarrow> delivery_row option" where
  "first_pending schedule s =
     (case sort_key dv_received_at (filter (pending schedule) (deliveries s)) of
        [] \<Rightarrow> None | d # _ \<Rightarrow> Some d)"

definition count_deliveries :: "string \<Rightarrow> store \<Rightarrow> nat" where
  "count_deliveries schedule s = length (of_schedule schedule s)"

definition pending_count :: "string \<Rightarrow> store \<Rightarrow> nat" where
  "pending_count schedule s = length (filter (pending schedule) (deliveries s))"

definition update_deliveries :: "(delivery_row \<Rightarrow> bool) \<Rightarrow> (delivery_row \<Rightarrow> delivery_row) \<Rightarrow> store \<Rightarrow> store" where
  "update_deliveries p f s = s\<lparr>deliveries := map (\<lambda>d. if p d then f d else d) (deliveries s)\<rparr>"

definition replace_delivery :: "delivery_row \<Rightarrow> store \<Rightarrow> cerr + store" where
  "replace_delivery row s =
     (if get_delivery (dv_id row) s = None then Inl (Invalid ''Event delivery changed.'')
      else Inr (update_deliveries (\<lambda>d. dv_id d = dv_id row)
             (\<lambda>d. d\<lparr>dv_state := dv_state row, dv_occurrence_id := dv_occurrence_id row,
                    dv_payload := dv_payload row\<rparr>) s))"

definition retire_pending :: "string \<Rightarrow> string \<Rightarrow> store \<Rightarrow> cerr + store" where
  "retire_pending schedule state s =
     (if state \<notin> {''paused'', ''expired'', ''removed''} then Inl (Invalid ''Invalid event retirement.'')
      else Inr (update_deliveries (pending schedule) (\<lambda>d. d\<lparr>dv_state := state\<rparr>) s))"

definition purge_expired_tombstones :: "string \<Rightarrow> store \<Rightarrow> store" where
  "purge_expired_tombstones now s =
     s\<lparr>deliveries := filter (\<lambda>d. \<not> (dv_dedup_until d < now \<and> dv_state d \<noteq> ''pending'')) (deliveries s)\<rparr>"

section \<open>Retention\<close>

text \<open>The ids of the 50 newest rows of a list, \<open>ORDER BY received_at DESC, rowid DESC LIMIT 50\<close>.\<close>

definition newest_50 :: "delivery_row list \<Rightarrow> string list" where
  "newest_50 rows = map dv_id (take 50 (rev (sort_key dv_received_at rows)))"

definition drop_unsigned :: "string \<Rightarrow> store \<Rightarrow> store" where
  "drop_unsigned schedule s =
     (let unsigned = (\<lambda>d. dv_schedule_id d = schedule \<and> dv_fingerprint d = None);
          kept = newest_50 (filter unsigned (deliveries s)) in
      s\<lparr>deliveries := filter (\<lambda>d. \<not> (unsigned d \<and> dv_id d \<notin> set kept)) (deliveries s)\<rparr>)"

definition to_redact :: "string \<Rightarrow> string \<Rightarrow> store \<Rightarrow> string list" where
  "to_redact schedule cutoff s =
     (let recent = newest_50 (of_schedule schedule s) in
      take 256 (map dv_id (filter (\<lambda>d. dv_schedule_id d = schedule \<and> dv_state d \<noteq> ''pending''
         \<and> dv_redacted_at d = None \<and> (dv_received_at d < cutoff \<or> dv_id d \<notin> set recent))
        (deliveries s))))"

definition redact_delivery :: "string \<Rightarrow> string \<Rightarrow> store \<Rightarrow> cerr + store" where
  "redact_delivery now key s =
     (case get_delivery key s of
        None \<Rightarrow> Inr s
      | Some row \<Rightarrow>
          bindE (jassign ''selectedFields'' (JObj []) (dv_payload row)) (\<lambda>p1.
          bindE (jassign ''prompt'' JNull p1) (\<lambda>p2.
          bindE (replace_delivery (row\<lparr>dv_payload := p2\<rparr>) s) (\<lambda>s1.
          Inr (update_deliveries (\<lambda>d. dv_id d = key) (\<lambda>d. d\<lparr>dv_redacted_at := Some now\<rparr>) s1)))))"

definition prune :: "string \<Rightarrow> string \<Rightarrow> string \<Rightarrow> store \<Rightarrow> cerr + store" where
  "prune schedule now cutoff s =
     (let s1 = update_deliveries (\<lambda>d. pending schedule d \<and> dv_expires_at d \<le> now)
                 (\<lambda>d. d\<lparr>dv_state := ''expired''\<rparr>) s;
          s2 = drop_unsigned schedule s1 in
      bindE (foldE (redact_delivery now) (to_redact schedule cutoff s2) s2) (\<lambda>s3.
      Inr (purge_expired_tombstones now s3)))"

definition hours_24 :: int where "hours_24 = day_ns"

definition next_event_at :: "string \<Rightarrow> store \<Rightarrow> string option" where
  "next_event_at schedule s = map_option dv_received_at (first_pending schedule s)"

definition sweep_one :: "ctx \<Rightarrow> civil \<Rightarrow> int \<Rightarrow> string \<times> schedule_row \<Rightarrow> store \<Rightarrow> cerr + store" where
  "sweep_one ctx cv now kr s =
     (let (key, row) = kr in
      if sr_trigger_kind row \<noteq> ''event'' then Inr s else
      let expires = Option.bind (jstr (jindex (jindex (sr_payload row) ''trigger'') ''validUntil''))
                      (parse_time ctx) in
      bindE (if (case expires of None \<Rightarrow> True | Some t \<Rightarrow> t \<le> now)
             then retire_pending key ''expired'' s else Inr s) (\<lambda>s1.
      bindE (prune key (cv_stamp cv now) (cv_stamp cv (now - hours_24)) s1) (\<lambda>s2.
      let next = next_event_at key s2 in
      if sr_next_run_at row \<noteq> next
      then replace_schedule (sr_revision row) key (row\<lparr>sr_next_run_at := next\<rparr>) s2
      else Inr s2)))"

definition sweep :: "ctx \<Rightarrow> civil \<Rightarrow> int \<Rightarrow> store \<Rightarrow> cerr + store" where
  "sweep ctx cv now s = foldE (sweep_one ctx cv now) (list_schedules 1000 s) s"

section \<open>Admission\<close>

record receipt =
  rc_status :: nat
  rc_id :: "string option"
  rc_reason :: string

definition receipt_of :: "nat \<Rightarrow> string option \<Rightarrow> string \<Rightarrow> receipt" where
  "receipt_of st key reason = \<lparr>rc_status = st, rc_id = key, rc_reason = reason\<rparr>"

record delivery_payload =
  dp_source :: event_source
  dp_reason :: string
  dp_selected_fields :: "(string, json) table"
  dp_prompt :: "string option"
  dp_event_time :: "string option"

definition encode_delivery :: "delivery_payload \<Rightarrow> json" where
  "encode_delivery p =
     jobj [(''source'', encode_source (dp_source p)), (''reason'', JStr (dp_reason p)),
           (''selectedFields'', JObj (dp_selected_fields p)), (''prompt'', jopt (dp_prompt p)),
           (''eventTime'', jopt (dp_event_time p))]"

definition decode_delivery :: "json \<Rightarrow> delivery_payload option" where
  "decode_delivery v =
     Option.bind (req decode_source v ''source'') (\<lambda>src.
     Option.bind (req jstr v ''reason'') (\<lambda>reason.
     Option.bind (req jmap v ''selectedFields'') (\<lambda>selected.
     Option.bind (optional jstr v ''prompt'') (\<lambda>prompt.
     Option.bind (optional jstr v ''eventTime'') (\<lambda>at'.
     Some \<lparr>dp_source = src, dp_reason = reason, dp_selected_fields = selected, dp_prompt = prompt,
           dp_event_time = at'\<rparr>)))))"

definition rejection_status :: "string \<Rightarrow> nat" where
  "rejection_status reason =
     (if reason = ''invalid_signature'' then 401 else if reason = ''signing_key_unavailable'' then 503
      else if reason \<in> {''event_expired'', ''trigger_expired''} then 410 else 422)"

definition msg_paused_event :: string where
  "msg_paused_event = ''This trigger is paused. The event will not run or replay on resume.''"

text \<open>The verdict on a fresh event: status, reason and preview (\<open>receive\<close>, after the duplicate check).\<close>

definition verdict ::
  "string + verified_event \<Rightarrow> string + event_preview option \<Rightarrow> nat \<times> string \<times> event_preview option" where
  "verdict authentication preview =
     (let (status, reason) = (case authentication of Inr _ \<Rightarrow> (202, ''accepted'')
                              | Inl r \<Rightarrow> (rejection_status r, r)) in
      case preview of
        Inr (Some pv) \<Rightarrow>
          if pv_missing pv \<noteq> [] then (422, ''missing_selected_fields'', None)
          else (status, reason, Some pv)
      | Inr None \<Rightarrow> (status, reason, None)
      | Inl r \<Rightarrow> (if r = ''signing_key_unavailable'' then 503 else 422, r, None))"

definition right_option :: "'e + 'a \<Rightarrow> 'a option" where
  "right_option r = (case r of Inl _ \<Rightarrow> None | Inr x \<Rightarrow> Some x)"

definition delivery_of ::
  "civil \<Rightarrow> event_config \<Rightarrow> string \<Rightarrow> string \<Rightarrow> schedule_row \<Rightarrow> int \<Rightarrow> string + verified_event
   \<Rightarrow> nat \<times> string \<times> event_preview option \<Rightarrow> delivery_row" where
  "delivery_of cv config key schedule cur now authentication v =
     (let (status, reason, preview) = v;
          verified = right_option authentication;
          paused = (sr_status cur \<noteq> ''enabled'');
          at' = cv_stamp cv now in
      \<lparr>dv_id = key, dv_schedule_id = schedule, dv_schedule_revision = sr_revision cur,
       dv_fingerprint = map_option vf_id_fingerprint verified,
       dv_body_fingerprint = map_option vf_body_fingerprint verified,
       dv_state = (if status \<noteq> 202 then ''rejected'' else if paused then ''paused'' else ''pending''),
       dv_received_at = at',
       dv_expires_at = (case verified of None \<Rightarrow> at'
          | Some e \<Rightarrow> cv_stamp cv (vf_event_time e + uint (ev_max_age_seconds config) * 1000000000)),
       dv_dedup_until = cv_stamp cv (now + 7 * day_ns), dv_occurrence_id = None, dv_redacted_at = None,
       dv_payload = encode_delivery
         \<lparr>dp_source = ev_source config,
          dp_reason = (if paused \<and> status = 202 then msg_paused_event else reason),
          dp_selected_fields = (case preview of None \<Rightarrow> [] | Some pv \<Rightarrow> pv_selected_fields pv),
          dp_prompt = map_option pv_prompt preview,
          dp_event_time = map_option (\<lambda>e. cv_stamp cv (vf_event_time e)) verified\<rparr>\<rparr>)"

definition duplicate_receipt :: "string \<Rightarrow> verified_event \<Rightarrow> store \<Rightarrow> cerr + receipt option" where
  "duplicate_receipt schedule e s =
     (case duplicate schedule (vf_id_fingerprint e) (vf_body_fingerprint e) s of
        None \<Rightarrow> Inr None
      | Some key \<Rightarrow>
          bindE (ok_or (Invalid ''The prior delivery is unavailable.'') (get_delivery key s)) (\<lambda>original.
          Inr (Some (if dv_body_fingerprint original = Some (vf_body_fingerprint e)
                     then receipt_of 200 (Some key) ''duplicate''
                     else receipt_of 409 (Some key) ''idempotency_conflict''))))"

text \<open>The transaction of \<open>receive\<close>; \<open>revision\<close> is that of the schedule read before it.\<close>

definition admit_event ::
  "civil \<Rightarrow> event_config \<Rightarrow> string \<Rightarrow> int \<Rightarrow> string \<Rightarrow> int \<Rightarrow> string + verified_event
   \<Rightarrow> string + event_preview option \<Rightarrow> store \<Rightarrow> cerr + (receipt \<times> store)" where
  "admit_event cv config schedule revision key now authentication preview s =
     bindE (ok_or (Invalid ''The event trigger is unavailable.'') (tget (schedules s) schedule)) (\<lambda>cur.
     if sr_revision cur \<noteq> revision \<or> sr_status cur = ''cancelled''
     then Inr (receipt_of 409 None ''trigger_changed'', s) else
     let at' = cv_stamp cv now; cutoff = cv_stamp cv (now - hours_24) in
     bindE (prune schedule at' cutoff s) (\<lambda>s1.
     bindE (case authentication of Inl _ \<Rightarrow> Inr None | Inr e \<Rightarrow> duplicate_receipt schedule e s1) (\<lambda>dup.
     case dup of
       Some r \<Rightarrow> Inr (r, s1)
     | None \<Rightarrow>
         if 10000 \<le> count_deliveries schedule s1
         then Inr (receipt_of 429 None ''delivery_capacity'', s1) else
         let v = verdict authentication preview; (status, reason, _) = v;
             paused = (sr_status cur \<noteq> ''enabled'') in
         if status = 202 \<and> \<not> paused \<and> 128 \<le> pending_count schedule s1
         then Inr (receipt_of 429 None ''pending_capacity'', s1) else
         let row = delivery_of cv config key schedule cur now authentication v in
         bindE (insert_delivery row s1) (\<lambda>s2.
         bindE (prune schedule at' cutoff s2) (\<lambda>s3.
         bindE (if dv_state row = ''pending''
                then replace_schedule (sr_revision cur) schedule
                       (cur\<lparr>sr_next_run_at := next_event_at schedule s3\<rparr>) s3
                else Inr s3) (\<lambda>s4.
         Inr (if paused \<and> status = 202 then receipt_of 409 (Some key) ''trigger_paused''
              else receipt_of status (Some key) reason, s4)))))))"

definition preview_of ::
  "(event_preview \<Rightarrow> event_preview option) \<Rightarrow> ctx \<Rightarrow> event_config \<Rightarrow> string \<Rightarrow> string + verified_event
   \<Rightarrow> string + event_preview option" where
  "preview_of sanitize ctx config prompt authentication =
     (case authentication of
        Inl _ \<Rightarrow> Inr None
      | Inr e \<Rightarrow>
          (case render ctx (draft_of config) prompt (vf_body e) of
             Inl _ \<Rightarrow> Inl ''invalid_selected_fields''
           | Inr pv \<Rightarrow> (case sanitize pv of None \<Rightarrow> Inl ''signing_key_unavailable''
                        | Some pv' \<Rightarrow> Inr (Some pv'))))"

text \<open>
  \<open>receive\<close>: \<open>s0\<close> is the store when the endpoint is looked up, \<open>s\<close> the store when the transaction
  runs; other transactions may come between.
\<close>

definition receive ::
  "(string \<Rightarrow> string) \<Rightarrow> (local_schedule \<Rightarrow> event_config \<Rightarrow> string \<Rightarrow> string \<Rightarrow> bool option)
   \<Rightarrow> (local_schedule \<Rightarrow> event_config \<Rightarrow> event_preview \<Rightarrow> event_preview option)
   \<Rightarrow> ctx \<Rightarrow> civil \<Rightarrow> string \<Rightarrow> string \<Rightarrow> (string, string) table \<Rightarrow> string \<Rightarrow> int \<Rightarrow> string \<Rightarrow> store \<Rightarrow> store
   \<Rightarrow> cerr + (receipt \<times> store)" where
  "receive lossy verify sanitize ctx cv schedule_id route headers raw now key s0 s =
     bindE (optE (schedule_from_row cv (sha256 ctx) schedule_id) (tget (schedules s0) schedule_id)) (\<lambda>found.
     let unknown = receipt_of 404 None ''unknown_endpoint'' in
     case found of
       None \<Rightarrow> Inr (unknown, s)
     | Some schedule \<Rightarrow>
         (case lc_trigger schedule of
            Trigger_Event config \<Rightarrow>
              if ev_route_id config \<noteq> route \<or> lc_status schedule = Sched_Cancelled then Inr (unknown, s) else
              let authentication = signature_verify lossy (verify schedule config) ctx cv config headers raw now;
                  preview = preview_of (sanitize schedule config) ctx config (lc_prompt schedule) authentication in
              admit_event cv config schedule_id (lc_revision schedule) key now authentication preview s
          | _ \<Rightarrow> Inr (unknown, s)))"

end
