(* ===== verification/Schedule_Commands.thy ===== *)
theory Schedule_Commands
  imports Event_Outbox
begin

text \<open>
  The commands that define and change local schedules (\<open>local_schedules/commands.rs\<close>:
  \<open>create_at\<close>, \<open>update_at\<close>, \<open>set_status_at\<close>) and event triggers (\<open>events/commands.rs\<close>,
  \<open>event_trigger_save\<close>; \<open>events/secrets.rs\<close>, \<open>pause_revoked_key\<close>). The current instant \<open>now\<close>, a fresh
  random route and the presence of the protected signing key are arguments.
\<close>

record create_request =
  cr_execution_kind :: string
  cr_permission_mode :: string
  cr_id :: string
  cr_project_id :: "string option"
  cr_agent_id :: string
  cr_provider_id :: string
  cr_model :: string
  cr_reasoning_effort :: "string option"
  cr_prompt :: string
  cr_timezone :: string
  cr_trigger :: schedule_trigger
  cr_status :: schedule_status

record update_request =
  ur_execution_kind :: string
  ur_permission_mode :: string
  ur_id :: string
  ur_expected_revision :: int
  ur_project_id :: "string option"
  ur_agent_id :: string
  ur_provider_id :: string
  ur_model :: string
  ur_reasoning_effort :: "string option"
  ur_prompt :: string
  ur_timezone :: string
  ur_trigger :: schedule_trigger

record status_request =
  st_id :: string
  st_expected_revision :: int
  st_status :: schedule_status

definition err_start_cancelled :: cerr where
  "err_start_cancelled = Invalid ''A new local schedule cannot start cancelled.''"

definition err_schedule_limit :: cerr where
  "err_schedule_limit = Invalid ''This account already has the maximum of 128 local schedules.''"

definition err_schedule_immutable :: cerr where
  "err_schedule_immutable = Invalid ''A cancelled local schedule is immutable.''"

definition err_event_to_clock :: cerr where
  "err_event_to_clock = Invalid ''An event trigger cannot become a clock schedule.''"

definition err_status_stale :: cerr where
  "err_status_stale = Invalid ''The local schedule changed. Refresh it before changing its status.''"

definition err_restart_cancelled :: cerr where
  "err_restart_cancelled = Invalid ''A cancelled local schedule cannot be restarted.''"

definition err_window :: cerr where
  "err_window = Invalid ''Scheduled work can only run from the main Mivlet window.''"

definition require_main_window :: "string \<Rightarrow> cerr + unit" where
  "require_main_window label = (if label \<noteq> ''main'' then Inl err_window else Inr ())"

definition stamp_slot :: "civil \<Rightarrow> civil_slot option \<Rightarrow> string option" where
  "stamp_slot cv slot = map_option (\<lambda>x. cv_stamp cv (cs_instant x)) slot"

definition created_payload :: "ctx \<Rightarrow> create_request \<Rightarrow> schedule_payload" where
  "created_payload ctx r =
     \<lparr>sp_execution_kind = cr_execution_kind r, sp_permission_mode = cr_permission_mode r,
      sp_prompt = cr_prompt r, sp_prompt_fingerprint = sha256 ctx (cr_prompt r), sp_prompt_revision = 1,
      sp_timezone = cr_timezone r, sp_trigger = cr_trigger r, sp_project_id = cr_project_id r,
      sp_agent_id = cr_agent_id r, sp_provider_id = cr_provider_id r, sp_model = cr_model r,
      sp_reasoning_effort = cr_reasoning_effort r, sp_created_by = user_id ctx\<rparr>"

definition create_at ::
  "ctx \<Rightarrow> civil \<Rightarrow> create_request \<Rightarrow> int \<Rightarrow> store \<Rightarrow> cerr + (local_schedule \<times> store)" where
  "create_at ctx cv r now s =
     bindE (validate_bounded_id (cr_id r) ''Schedule'' 96) (\<lambda>_.
     bindE (validate_execution_kind (cr_execution_kind r) (cr_permission_mode r)) (\<lambda>_.
     bindE (validate_route_and_agent (cr_agent_id r) (cr_provider_id r) (cr_model r)) (\<lambda>_.
     bindE (validate_reasoning_effort (cr_reasoning_effort r)) (\<lambda>_.
     bindE (validate_prompt (cr_prompt r)) (\<lambda>_.
     bindE (validate_schedule_project (cr_project_id r) (cr_agent_id r) s) (\<lambda>_.
     if cr_status r = Sched_Cancelled then Inl err_start_cancelled else
     if 128 \<le> count_schedules s then Inl err_schedule_limit else
     bindE (parse_timezone cv (cr_timezone r)) (\<lambda>z.
     bindE (validate_trigger cv (cr_trigger r)) (\<lambda>_.
     bindE (initial_slot cv (cr_trigger r) z now) (\<lambda>slot.
     let at' = cv_stamp cv now;
         row = \<lparr>sr_agent_id = cr_agent_id r, sr_status = status_text (cr_status r),
                sr_trigger_kind = trigger_kind (cr_trigger r), sr_revision = 1,
                sr_prompt_revision = 1, sr_next_run_at = stamp_slot cv slot,
                sr_created_at = at', sr_updated_at = at',
                sr_payload = encode_schedule (created_payload ctx r)\<rparr> in
     bindE (insert_schedule (cr_id r) row s) (\<lambda>s1.
     bindE (schedule_from_row cv (sha256 ctx) (cr_id r) row) (\<lambda>view.
     Inr (view, s1))))))))))))"

definition updated_payload :: "ctx \<Rightarrow> update_request \<Rightarrow> int \<Rightarrow> string \<Rightarrow> schedule_payload" where
  "updated_payload ctx r prompt_revision creator =
     \<lparr>sp_execution_kind = ur_execution_kind r, sp_permission_mode = ur_permission_mode r,
      sp_prompt = ur_prompt r, sp_prompt_fingerprint = sha256 ctx (ur_prompt r),
      sp_prompt_revision = prompt_revision, sp_timezone = ur_timezone r, sp_trigger = ur_trigger r,
      sp_project_id = ur_project_id r, sp_agent_id = ur_agent_id r,
      sp_provider_id = ur_provider_id r, sp_model = ur_model r,
      sp_reasoning_effort = ur_reasoning_effort r, sp_created_by = creator\<rparr>"

definition update_at ::
  "ctx \<Rightarrow> civil \<Rightarrow> update_request \<Rightarrow> int \<Rightarrow> store \<Rightarrow> cerr + (local_schedule \<times> store)" where
  "update_at ctx cv r now s =
     bindE (validate_bounded_id (ur_id r) ''Schedule'' 96) (\<lambda>_.
     bindE (validate_execution_kind (ur_execution_kind r) (ur_permission_mode r)) (\<lambda>_.
     bindE (validate_route_and_agent (ur_agent_id r) (ur_provider_id r) (ur_model r)) (\<lambda>_.
     bindE (validate_reasoning_effort (ur_reasoning_effort r)) (\<lambda>_.
     bindE (validate_prompt (ur_prompt r)) (\<lambda>_.
     bindE (validate_schedule_project (ur_project_id r) (ur_agent_id r) s) (\<lambda>_.
     bindE (validate_trigger cv (ur_trigger r)) (\<lambda>_.
     bindE (ok_or err_schedule_missing (tget (schedules s) (ur_id r))) (\<lambda>row.
     if sr_revision row \<noteq> ur_expected_revision r then Inl err_schedule_edited else
     if sr_status row = ''cancelled'' then Inl err_schedule_immutable else
     bindE (decode_schedule_payload cv (sha256 ctx) row) (\<lambda>prior.
     if is_event (sp_trigger prior) \<and> \<not> is_event (ur_trigger r) then Inl err_event_to_clock else
     bindE (parse_timezone cv (ur_timezone r)) (\<lambda>z.
     bindE (initial_slot cv (ur_trigger r) z now) (\<lambda>slot.
     bindE (if sp_prompt prior \<noteq> ur_prompt r then checked_revision (sr_prompt_revision row)
            else Inr (sr_prompt_revision row)) (\<lambda>prompt_revision.
     bindE (checked_revision (sr_revision row)) (\<lambda>revision.
     let row' = row\<lparr>sr_agent_id := ur_agent_id r, sr_trigger_kind := trigger_kind (ur_trigger r),
                    sr_revision := revision, sr_prompt_revision := prompt_revision,
                    sr_next_run_at := stamp_slot cv slot, sr_updated_at := cv_stamp cv now,
                    sr_payload := encode_schedule
                      (updated_payload ctx r prompt_revision (sp_created_by prior))\<rparr> in
     bindE (replace_schedule (ur_expected_revision r) (ur_id r) row' s) (\<lambda>s1.
     bindE (schedule_from_row cv (sha256 ctx) (ur_id r) row') (\<lambda>view.
     Inr (view, s1))))))))))))))))"

definition set_status_at ::
  "ctx \<Rightarrow> civil \<Rightarrow> status_request \<Rightarrow> int \<Rightarrow> store \<Rightarrow> cerr + (local_schedule \<times> store)" where
  "set_status_at ctx cv r now s =
     bindE (validate_bounded_id (st_id r) ''Schedule'' 96) (\<lambda>_.
     bindE (ok_or err_schedule_missing (tget (schedules s) (st_id r))) (\<lambda>row.
     if sr_revision row \<noteq> st_expected_revision r then Inl err_status_stale else
     bindE (parse_status (sr_status row)) (\<lambda>current_status.
     if current_status = Sched_Cancelled \<and> st_status r \<noteq> Sched_Cancelled
     then Inl err_restart_cancelled else
     if current_status = st_status r
     then bindE (schedule_from_row cv (sha256 ctx) (st_id r) row) (\<lambda>view. Inr (view, s)) else
     bindE (decode_schedule_payload cv (sha256 ctx) row) (\<lambda>payload.
     bindE (if is_event (sp_trigger payload)
            then retire_pending (st_id r)
                   (if st_status r = Sched_Cancelled then ''removed'' else ''paused'') s
            else Inr s) (\<lambda>s1.
     bindE (checked_revision (sr_revision row)) (\<lambda>revision.
     bindE (case st_status r of
              Sched_Cancelled \<Rightarrow> Inr None
            | Sched_Paused \<Rightarrow> Inr (if is_event (sp_trigger payload) then None else sr_next_run_at row)
            | Sched_Enabled \<Rightarrow>
                if is_once (sp_trigger payload) then Inr (sr_next_run_at row) else
                bindE (parse_timezone cv (sp_timezone payload)) (\<lambda>z.
                bindE (next_slot_after cv (sp_trigger payload) z now) (\<lambda>slot.
                Inr (stamp_slot cv slot)))) (\<lambda>next.
     let row' = row\<lparr>sr_revision := revision, sr_status := status_text (st_status r),
                    sr_updated_at := cv_stamp cv now, sr_next_run_at := next\<rparr> in
     bindE (replace_schedule (st_expected_revision r) (st_id r) row' s1) (\<lambda>s2.
     bindE (schedule_from_row cv (sha256 ctx) (st_id r) row') (\<lambda>view.
     Inr (view, s2))))))))))"

section \<open>Event triggers\<close>

record save_event_request =
  se_workspace_id :: string
  se_id :: string
  se_agent_id :: string
  se_provider_id :: string
  se_model :: string
  se_reasoning_effort :: "string option"
  se_permission_mode :: string
  se_prompt :: string
  se_event :: event_draft
  se_signing_key_id :: string
  se_expected_revision :: "int option"
  se_rotate_endpoint :: bool

definition err_event_id :: cerr where
  "err_event_id = Invalid ''Event trigger IDs use at most 96 ASCII letters, numbers, dots, underscores or hyphens.''"

definition err_event_key :: cerr where
  "err_event_key = Invalid ''Choose the key reference returned by protected webhook signing setup.''"

definition err_event_workspace :: cerr where
  "err_event_workspace = Invalid ''The event trigger workspace changed.''"

definition err_clock_to_event :: cerr where
  "err_clock_to_event = Invalid ''A clock schedule cannot become an event trigger.''"

definition err_key_overflow :: cerr where
  "err_key_overflow = Invalid ''The signing-key revision overflowed.''"

definition prior_config :: "civil \<Rightarrow> (string \<Rightarrow> string) \<Rightarrow> schedule_row option \<Rightarrow> cerr + event_config option" where
  "prior_config cv sha prior =
     bindE (optE (decode_schedule_payload cv sha) prior) (\<lambda>p.
     let config = (case p of Some q \<Rightarrow> (case sp_trigger q of Trigger_Event c \<Rightarrow> Some c | _ \<Rightarrow> None)
                   | None \<Rightarrow> None) in
     if prior \<noteq> None \<and> config = None then Inl err_clock_to_event else Inr config)"

definition rotates :: "save_event_request \<Rightarrow> event_config option \<Rightarrow> bool" where
  "rotates r prior =
     (se_rotate_endpoint r
      \<or> (case prior of None \<Rightarrow> False
         | Some old \<Rightarrow> ev_signing_key_id old \<noteq> se_signing_key_id r
                       \<or> ev_source old \<noteq> ed_source (se_event r)))"

definition next_key_version :: "save_event_request \<Rightarrow> event_config option \<Rightarrow> cerr + u32" where
  "next_key_version r prior =
     (case prior of
        None \<Rightarrow> Inr 1
      | Some old \<Rightarrow>
          if rotates r prior
          then (if ev_key_version old + 1 = 0 then Inl err_key_overflow else Inr (ev_key_version old + 1))
          else Inr (ev_key_version old))"

definition saved_config :: "save_event_request \<Rightarrow> event_config option \<Rightarrow> string \<Rightarrow> u32 \<Rightarrow> event_config" where
  "saved_config r prior route version =
     \<lparr>ev_source = ed_source (se_event r), ev_fields = ed_fields (se_event r),
      ev_max_age_seconds = ed_max_age_seconds (se_event r),
      ev_valid_until = ed_valid_until (se_event r),
      ev_route_id = (case prior of Some old \<Rightarrow> if rotates r prior then route else ev_route_id old
                     | None \<Rightarrow> route),
      ev_key_version = version, ev_signing_key_id = se_signing_key_id r\<rparr>"

text \<open>
  \<open>event_trigger_save\<close>: \<open>s0\<close> is the store when the prior definition is read, \<open>s\<close> the store of the
  transaction, which runs at the instant \<open>later\<close>; \<open>require_key\<close> asks the protected key and \<open>route\<close> is the fresh random route.
\<close>

definition event_trigger_save ::
  "(string \<Rightarrow> string \<Rightarrow> event_config \<Rightarrow> cerr + unit) \<Rightarrow> string \<Rightarrow> ctx \<Rightarrow> civil \<Rightarrow> string \<Rightarrow> save_event_request
   \<Rightarrow> int \<Rightarrow> int \<Rightarrow> store \<Rightarrow> store \<Rightarrow> cerr + (local_schedule \<times> store)" where
  "event_trigger_save require_key route ctx cv label r now later s0 s =
     bindE (require_main_window label) (\<lambda>_.
     bindE (template_valid ctx (se_event r) (se_prompt r)) (\<lambda>_.
     bindE (validate_new_expiry ctx (se_event r) now) (\<lambda>_.
     bindE (validate_bounded_id (se_id r) ''Event trigger'' 96) (\<lambda>_.
     if \<not> valid_identifier (se_id r) 96 then Inl err_event_id else
     if \<not> starts_with (se_signing_key_id r) ''webhook-key:'' \<or> 160 < length (se_signing_key_id r)
     then Inl err_event_key else
     if se_workspace_id r \<noteq> workspace ctx then Inl err_event_workspace else
     bindE (prior_config cv (sha256 ctx) (tget (schedules s0) (se_id r))) (\<lambda>prior.
     bindE (next_key_version r prior) (\<lambda>version.
     let config = saved_config r prior route version in
     bindE (require_key (se_agent_id r) (se_id r) config) (\<lambda>_.
     bindE (case se_expected_revision r of
              Some expected \<Rightarrow>
                update_at ctx cv
                  \<lparr>ur_execution_kind = ''agent'', ur_permission_mode = se_permission_mode r,
                   ur_id = se_id r, ur_expected_revision = expected, ur_project_id = None,
                   ur_agent_id = se_agent_id r, ur_provider_id = se_provider_id r,
                   ur_model = se_model r, ur_reasoning_effort = se_reasoning_effort r,
                   ur_prompt = se_prompt r, ur_timezone = ''UTC'',
                   ur_trigger = Trigger_Event config\<rparr> later s
            | None \<Rightarrow>
                create_at ctx cv
                  \<lparr>cr_execution_kind = ''agent'', cr_permission_mode = se_permission_mode r,
                   cr_id = se_id r, cr_project_id = None, cr_agent_id = se_agent_id r,
                   cr_provider_id = se_provider_id r, cr_model = se_model r,
                   cr_reasoning_effort = se_reasoning_effort r, cr_prompt = se_prompt r,
                   cr_timezone = ''UTC'', cr_trigger = Trigger_Event config,
                   cr_status = Sched_Paused\<rparr> later s) (\<lambda>(view, s1).
     bindE (retire_pending (se_id r) ''paused'' s1) (\<lambda>s2. Inr (view, s2))))))))))"

definition pause_revoked_key ::
  "ctx \<Rightarrow> civil \<Rightarrow> string \<Rightarrow> string \<Rightarrow> string \<Rightarrow> int \<Rightarrow> store \<Rightarrow> cerr + store" where
  "pause_revoked_key ctx cv agent key_id target now s =
     (case tget (schedules s) target of
        None \<Rightarrow> Inr s
      | Some row \<Rightarrow>
          bindE (schedule_from_row cv (sha256 ctx) target row) (\<lambda>schedule.
          case lc_trigger schedule of
            Trigger_Event config \<Rightarrow>
              if lc_agent_id schedule = agent \<and> ev_signing_key_id config = key_id
                 \<and> lc_status schedule = Sched_Enabled
              then bindE (set_status_at ctx cv \<lparr>st_id = target,
                     st_expected_revision = lc_revision schedule, st_status = Sched_Paused\<rparr> now s)
                     (\<lambda>(_, s'). Inr s')
              else Inr s
          | _ \<Rightarrow> Inr s))"

text \<open>The commands of the interface accept clock triggers only.\<close>

definition local_schedule_create ::
  "ctx \<Rightarrow> civil \<Rightarrow> create_request \<Rightarrow> int \<Rightarrow> store \<Rightarrow> cerr + (local_schedule \<times> store)" where
  "local_schedule_create ctx cv r now s =
     (if is_event (cr_trigger r)
      then Inl (Invalid ''Configure event triggers through protected signing-key setup.'')
      else create_at ctx cv r now s)"

definition local_schedule_update ::
  "ctx \<Rightarrow> civil \<Rightarrow> update_request \<Rightarrow> int \<Rightarrow> store \<Rightarrow> cerr + (local_schedule \<times> store)" where
  "local_schedule_update ctx cv r now s =
     (if is_event (ur_trigger r)
      then Inl (Invalid ''Edit event triggers through their scoped event configuration.'')
      else update_at ctx cv r now s)"

definition local_schedule_preview ::
  "civil \<Rightarrow> string \<Rightarrow> schedule_trigger \<Rightarrow> int \<Rightarrow> cerr + string option" where
  "local_schedule_preview cv timezone trigger now =
     bindE (parse_timezone cv timezone) (\<lambda>z.
     bindE (validate_trigger cv trigger) (\<lambda>_.
     bindE (initial_slot cv trigger z now) (\<lambda>slot. Inr (stamp_slot cv slot))))"

end
