(* ===== verification/Schedule_Dispatch.thy ===== *)
theory Schedule_Dispatch
  imports Schedule_Commands
begin

text \<open>
  The dispatch of due occurrences: claiming a slot or an event (\<open>local_schedules/commands.rs\<close>,
  \<open>claim_due_after_capacity_matching\<close>; \<open>events/dispatch.rs\<close>), staging it as a Work
  (\<open>local_schedules/automation.rs\<close>), the serial dispatcher of the main window with its one active
  dispatch, and the claim the background owner holds (\<open>local_schedules/background.rs\<close>). Random tokens
  and the instants read from the clock are arguments. An operation that runs several transactions
  returns its result together with the state that is left, which an error keeps.
\<close>

definition claim_lease :: "civil \<Rightarrow> int \<Rightarrow> string" where
  "claim_lease cv now = cv_stamp cv (now + 5 * minute_ns)"

section \<open>Claiming an event\<close>

definition reason_expired :: string where
  "reason_expired = ''The event expired while waiting for admission.''"

definition reason_changed :: string where
  "reason_changed = ''The trigger changed before admission. Redeliver a fresh event.''"

definition reason_claimed :: string where
  "reason_claimed = ''Authenticated event claimed for ordinary Work admission.''"

record claim_tokens =
  tk_claim :: string
  tk_occurrence :: string
  tk_reservation :: string

definition claim_of ::
  "civil \<Rightarrow> claim_tokens \<Rightarrow> int \<Rightarrow> local_schedule \<Rightarrow> string \<Rightarrow> string \<Rightarrow> string \<Rightarrow> local_schedule_claim" where
  "claim_of cv tokens now schedule kind scheduled_for prompt =
     \<lparr>cl_execution_kind = kind, cl_permission_mode = lc_permission_mode schedule,
      cl_occurrence_id = tk_occurrence tokens, cl_schedule_id = lc_id schedule,
      cl_schedule_revision = lc_revision schedule, cl_prompt_revision = lc_prompt_revision schedule,
      cl_scheduled_for = scheduled_for, cl_claim_token = tk_claim tokens,
      cl_lease_expires_at = claim_lease cv now, cl_project_id = lc_project_id schedule,
      cl_agent_id = lc_agent_id schedule, cl_provider_id = lc_provider_id schedule,
      cl_model = lc_model schedule, cl_reasoning_effort = lc_reasoning_effort schedule,
      cl_prompt = prompt\<rparr>"

definition claimed_payload ::
  "ctx \<Rightarrow> claim_tokens \<Rightarrow> local_schedule \<Rightarrow> string \<Rightarrow> string \<Rightarrow> string \<Rightarrow> event_work_origin option \<Rightarrow> occurrence_payload" where
  "claimed_payload ctx tokens schedule kind prompt slot event =
     \<lparr>oy_event = event, oy_execution_kind = kind, oy_permission_mode = lc_permission_mode schedule,
      oy_work_id = None, oy_prompt = prompt, oy_prompt_fingerprint = sha256 ctx prompt,
      oy_prompt_revision = lc_prompt_revision schedule, oy_timezone = lc_timezone schedule,
      oy_trigger = lc_trigger schedule, oy_project_id = lc_project_id schedule,
      oy_agent_id = lc_agent_id schedule, oy_provider_id = lc_provider_id schedule,
      oy_model = lc_model schedule, oy_reasoning_effort = lc_reasoning_effort schedule,
      oy_intended_local_slot = slot,
      oy_capacity_reservation_fingerprint = sha256 ctx (tk_reservation tokens),
      oy_outcome = None, oy_detail = None\<rparr>"

definition claimed_row ::
  "ctx \<Rightarrow> civil \<Rightarrow> claim_tokens \<Rightarrow> int \<Rightarrow> local_schedule \<Rightarrow> string \<Rightarrow> string \<Rightarrow> occurrence_payload \<Rightarrow> occurrence_row" where
  "claimed_row ctx cv tokens now schedule slot_print scheduled_for payload =
     \<lparr>oc_schedule_id = lc_id schedule, oc_schedule_revision = lc_revision schedule,
      oc_prompt_revision = lc_prompt_revision schedule, oc_state = ''claimed'',
      oc_slot_fingerprint = slot_print, oc_claim_fingerprint = sha256 ctx (tk_claim tokens),
      oc_lease_expires_at = claim_lease cv now, oc_execution_attempt_id = None,
      oc_scheduled_for = scheduled_for, oc_claimed_at = cv_stamp cv now, oc_started_at = None,
      oc_completed_at = None, oc_updated_at = cv_stamp cv now,
      oc_payload = encode_occurrence payload\<rparr>"

text \<open>The admission of the delivery that is first in line.\<close>

definition claim_delivery ::
  "ctx \<Rightarrow> civil \<Rightarrow> claim_tokens \<Rightarrow> int \<Rightarrow> string \<Rightarrow> schedule_row \<Rightarrow> event_config \<Rightarrow> delivery_row \<Rightarrow> store
   \<Rightarrow> cerr + (local_schedule_claim option \<times> store)" where
  "claim_delivery ctx cv tokens now key row config delivery s =
     bindE (ok_or (Invalid ''The event delivery context is unavailable.'')
              (decode_delivery (dv_payload delivery))) (\<lambda>payload.
     bindE (ok_or (Invalid ''The event request is unavailable.'') (dp_prompt payload)) (\<lambda>prompt.
     bindE (schedule_from_row cv (sha256 ctx) key row) (\<lambda>schedule.
     bindE (ok_or (Invalid ''The event authentication receipt is unavailable.'')
              (dv_fingerprint delivery)) (\<lambda>print.
     let origin = \<lparr>eo_delivery_id = dv_id delivery, eo_source = ev_source config,
                   eo_received_at = dv_received_at delivery, eo_expires_at = dv_expires_at delivery,
                   eo_selected_fields = dp_selected_fields payload\<rparr> in
     bindE (insert_claimed_occurrence (tk_occurrence tokens)
              (claimed_row ctx cv tokens now schedule print (dv_received_at delivery)
                (claimed_payload ctx tokens schedule ''agent'' prompt (dv_id delivery) (Some origin))) s) (\<lambda>s1.
     bindE (jassign ''reason'' (JStr reason_claimed) (dv_payload delivery)) (\<lambda>p.
     bindE (replace_delivery (delivery\<lparr>dv_state := ''claimed'',
              dv_occurrence_id := Some (tk_occurrence tokens), dv_payload := p\<rparr>) s1) (\<lambda>s2.
     bindE (replace_schedule (sr_revision row) key (row\<lparr>sr_next_run_at := next_event_at key s2\<rparr>) s2) (\<lambda>s3.
     Inr (Some (claim_of cv tokens now schedule ''agent'' (dv_received_at delivery) prompt), s3)))))))))"

lemma first_pending_Some:
  assumes "first_pending schedule s = Some d"
  shows "d \<in> set (deliveries s)" "pending schedule d"
proof -
  obtain ds where "sort_key dv_received_at (filter (pending schedule) (deliveries s)) = d # ds"
    using assms by (auto simp: first_pending_def split: list.splits)
  then have "d \<in> set (sort_key dv_received_at (filter (pending schedule) (deliveries s)))" by simp
  then show "d \<in> set (deliveries s)" "pending schedule d" by simp_all
qed

lemma length_filter_update:
  assumes "x \<in> set xs" "P x" "\<not> P (f x)" "\<And>y. P (f y) \<Longrightarrow> P y"
  shows "length (filter P (map f xs)) < length (filter P xs)"
  using assms(1)
proof (induction xs)
  case (Cons y ys)
  have le: "length (filter P (map f ys)) \<le> length (filter P ys)"
    by (induction ys) (use assms(4) in auto)
  show ?case
  proof (cases "x = y")
    case True
    with le assms(2,3) show ?thesis by simp
  next
    case False
    with Cons show ?thesis using assms(4) by auto
  qed
qed simp

text \<open>Retiring the delivery first in line leaves fewer of them in line.\<close>

lemma retire_first_pending:
  assumes "first_pending schedule s = Some d" "dv_id row = dv_id d" "dv_state row \<noteq> ''pending''"
    and "replace_delivery row s = Inr s'"
  shows "pending_count schedule s' < pending_count schedule s"
proof -
  let ?f = "\<lambda>x. if dv_id x = dv_id row then x\<lparr>dv_state := dv_state row, dv_occurrence_id := dv_occurrence_id row,
      dv_payload := dv_payload row\<rparr> else x"
  from assms(4) have "deliveries s' = map ?f (deliveries s)"
    by (auto simp: replace_delivery_def update_deliveries_def split: if_splits)
  moreover have "length (filter (pending schedule) (map ?f (deliveries s)))
      < length (filter (pending schedule) (deliveries s))"
    by (rule length_filter_update [of d])
      (use first_pending_Some [OF assms(1)] assms(2,3) in \<open>auto simp: pending_def split: if_splits\<close>)
  ultimately show ?thesis by (simp add: pending_count_def)
qed

lemma retire_expired:
  "first_pending schedule s = Some d \<Longrightarrow>
   replace_delivery (d\<lparr>dv_state := ''expired'', dv_payload := p\<rparr>) s = Inr s' \<Longrightarrow>
   pending_count schedule s' < pending_count schedule s"
  by (rule retire_first_pending) simp_all

function claim_events ::
  "ctx \<Rightarrow> civil \<Rightarrow> claim_tokens \<Rightarrow> int \<Rightarrow> string \<Rightarrow> schedule_row \<Rightarrow> event_config \<Rightarrow> store
   \<Rightarrow> cerr + (local_schedule_claim option \<times> store)" where
  "claim_events ctx cv tokens now key row config s =
     (case first_pending key s of
        None \<Rightarrow>
          bindE (replace_schedule (sr_revision row) key (row\<lparr>sr_next_run_at := None\<rparr>) s) (\<lambda>s'.
          Inr (None, s'))
      | Some delivery \<Rightarrow>
          if dv_expires_at delivery \<le> cv_stamp cv now \<or> dv_schedule_revision delivery \<noteq> sr_revision row
          then
            bindE (jassign ''reason'' (JStr (if dv_expires_at delivery \<le> cv_stamp cv now
                     then reason_expired else reason_changed)) (dv_payload delivery)) (\<lambda>p.
            case replace_delivery (delivery\<lparr>dv_state := ''expired'', dv_payload := p\<rparr>) s of
              Inl e \<Rightarrow> Inl e
            | Inr s' \<Rightarrow> claim_events ctx cv tokens now key row config s')
          else claim_delivery ctx cv tokens now key row config delivery s)"
  by pat_completeness auto
termination
  by (relation "measure (\<lambda>(ctx, cv, tokens, now, key, row, config, s). pending_count key s)")
    (auto intro: retire_expired)

declare claim_events.simps [simp del]

definition events_claim ::
  "ctx \<Rightarrow> civil \<Rightarrow> claim_tokens \<Rightarrow> int \<Rightarrow> string \<Rightarrow> schedule_row \<Rightarrow> event_config \<Rightarrow> store
   \<Rightarrow> cerr + (local_schedule_claim option \<times> store)" where
  "events_claim ctx cv tokens now key row config s =
     (let s1 = purge_expired_tombstones (cv_stamp cv now) s in
      bindE (ok_or (Invalid ''The event trigger expiry is invalid.'')
               (parse_time ctx (ev_valid_until config))) (\<lambda>expires.
      if expires \<le> now
      then bindE (retire_pending key ''expired'' s1) (\<lambda>s2.
           bindE (replace_schedule (sr_revision row) key (row\<lparr>sr_next_run_at := None\<rparr>) s2) (\<lambda>s3.
           Inr (None, s3)))
      else claim_events ctx cv tokens now key row config s1))"

section \<open>Claiming a slot\<close>

definition err_due_changed :: cerr where
  "err_due_changed = Invalid ''The due schedule changed before capacity could be claimed.''"

definition err_cursor_mismatch :: cerr where
  "err_cursor_mismatch = Invalid ''The local schedule due cursor does not match its civil-time trigger.''"

definition err_no_next :: cerr where
  "err_no_next = Invalid ''A due schedule has no next run.''"

definition err_utc_invalid :: cerr where
  "err_utc_invalid = Invalid ''A local schedule UTC timestamp is invalid.''"

definition err_cursor_inconsistent :: cerr where
  "err_cursor_inconsistent = Invalid ''The local schedule due cursor is inconsistent.''"

definition slot_print :: "ctx \<Rightarrow> local_schedule \<Rightarrow> civil_slot \<Rightarrow> string" where
  "slot_print ctx schedule slot =
     sha256 ctx (lc_id schedule @ ''|'' @ show_int (lc_revision schedule) @ ''|'' @ cs_key slot)"

definition claim_slot ::
  "ctx \<Rightarrow> civil \<Rightarrow> claim_tokens \<Rightarrow> int \<Rightarrow> string \<Rightarrow> schedule_row \<Rightarrow> local_schedule \<Rightarrow> store
   \<Rightarrow> cerr + (local_schedule_claim option \<times> store)" where
  "claim_slot ctx cv tokens now key row schedule s =
     bindE (parse_timezone cv (lc_timezone schedule)) (\<lambda>z.
     bindE (latest_due_slot cv (lc_trigger schedule) z now) (\<lambda>due.
     bindE (ok_or err_cursor_mismatch due) (\<lambda>slot.
     bindE (ok_or err_no_next (sr_next_run_at row)) (\<lambda>next_text.
     bindE (ok_or err_utc_invalid (parse_time ctx next_text)) (\<lambda>stored_next.
     if cs_instant slot < stored_next \<or> now < cs_instant slot then Inl err_cursor_inconsistent else
     let scheduled_for = cv_stamp cv (cs_instant slot) in
     bindE (insert_claimed_occurrence (tk_occurrence tokens)
              (claimed_row ctx cv tokens now schedule (slot_print ctx schedule slot) scheduled_for
                (claimed_payload ctx tokens schedule (lc_execution_kind schedule) (lc_prompt schedule)
                  (cs_key slot) None)) s) (\<lambda>s1.
     bindE (if is_once (lc_trigger schedule) then Inr None
            else bindE (next_slot_after cv (lc_trigger schedule) z now) (\<lambda>next. Inr (stamp_slot cv next))) (\<lambda>next.
     bindE (replace_schedule (sr_revision row) key
              (row\<lparr>sr_next_run_at := next, sr_updated_at := cv_stamp cv now\<rparr>) s1) (\<lambda>s2.
     Inr (Some (claim_of cv tokens now schedule (lc_execution_kind schedule) scheduled_for
                 (lc_prompt schedule)), s2)))))))))"

definition due_selected :: "string \<Rightarrow> (string \<times> int) option \<Rightarrow> store \<Rightarrow> (string \<times> schedule_row) option" where
  "due_selected now expected s =
     (case expected of
        None \<Rightarrow> first_due_schedule now s
      | Some (key, _) \<Rightarrow>
          (case tget (schedules s) key of None \<Rightarrow> None
           | Some row \<Rightarrow> if due_at now row then Some (key, row) else None))"

definition claim_due ::
  "ctx \<Rightarrow> civil \<Rightarrow> claim_tokens \<Rightarrow> int \<Rightarrow> (string \<times> int) option \<Rightarrow> store
   \<Rightarrow> cerr + (local_schedule_claim option \<times> store)" where
  "claim_due ctx cv tokens now expected s =
     bindE (interrupt_expired ctx (cv_stamp cv now) s) (\<lambda>s1.
     case due_selected (cv_stamp cv now) expected s1 of
       None \<Rightarrow> Inr (None, s1)
     | Some (key, row) \<Rightarrow>
         if (case expected of None \<Rightarrow> False
             | Some (key', revision) \<Rightarrow> key \<noteq> key' \<or> sr_revision row \<noteq> revision)
         then Inl err_due_changed else
         bindE (schedule_from_row cv (sha256 ctx) key row) (\<lambda>schedule.
         case lc_trigger schedule of
           Trigger_Event config \<Rightarrow> events_claim ctx cv tokens now key row config s1
         | _ \<Rightarrow> claim_slot ctx cv tokens now key row schedule s1))"

section \<open>Binding, renewing and finishing\<close>

definition bind_claim_to_pending_attempt ::
  "ctx \<Rightarrow> civil \<Rightarrow> string \<Rightarrow> string \<Rightarrow> string \<Rightarrow> int \<Rightarrow> store \<Rightarrow> cerr + (string \<times> store)" where
  "bind_claim_to_pending_attempt ctx cv key token attempt_id now s =
     bindE (validate_bounded_id key ''Occurrence'' 96) (\<lambda>_.
     bindE (validate_bounded_id attempt_id ''Execution attempt'' 96) (\<lambda>_.
     bindE (bind_pending_attempt ctx key (sha256 ctx token) attempt_id (cv_stamp cv now)
              (claim_lease cv now) s) (\<lambda>s'.
     Inr (claim_lease cv now, s'))))"

definition renew_bound_occurrence_lease ::
  "ctx \<Rightarrow> civil \<Rightarrow> string \<Rightarrow> string \<Rightarrow> string \<Rightarrow> int \<Rightarrow> store \<Rightarrow> cerr + (string \<times> store)" where
  "renew_bound_occurrence_lease ctx cv key token attempt_id now s =
     bindE (renew_running_lease key (sha256 ctx token) attempt_id (cv_stamp cv now)
              (claim_lease cv now) s) (\<lambda>s'.
     Inr (claim_lease cv now, s'))"

definition finish_bound_occurrence ::
  "ctx \<Rightarrow> civil \<Rightarrow> string \<Rightarrow> string \<Rightarrow> string \<Rightarrow> string \<Rightarrow> string option \<Rightarrow> int \<Rightarrow> store \<Rightarrow> cerr + store" where
  "finish_bound_occurrence ctx cv key token attempt_id outcome detail now s =
     (if (case detail of None \<Rightarrow> False | Some d \<Rightarrow> 4000 < chars_count d)
      then Inl (Invalid ''The schedule outcome detail is too long.'')
      else finish_occurrence key (sha256 ctx token) attempt_id outcome detail (cv_stamp cv now) s)"

section \<open>Staging\<close>

definition err_stage_stopped :: cerr where
  "err_stage_stopped = Invalid ''The schedule occurrence was paused, cancelled or expired.''"

definition check_stage_event :: "ctx \<Rightarrow> int \<Rightarrow> occurrence_row \<Rightarrow> schedule_row \<Rightarrow> cerr + unit" where
  "check_stage_event ctx now row schedule =
     (if sr_trigger_kind schedule \<noteq> ''event'' then Inr () else
      bindE (ok_or (Invalid ''The event trigger expiry is invalid.'')
               (Option.bind (jstr (jindex (jindex (sr_payload schedule) ''trigger'') ''validUntil''))
                 (parse_time ctx))) (\<lambda>expiry.
      if sr_revision schedule \<noteq> oc_schedule_revision row \<or> expiry \<le> now
      then Inl (Invalid ''The event trigger changed or expired before Work admission.'') else
      bindE (ok_or (Invalid ''The event receipt expiry is invalid.'')
               (Option.bind (jstr (jindex (jindex (oc_payload row) ''event'') ''expiresAt''))
                 (parse_time ctx))) (\<lambda>event_expiry.
      if event_expiry \<le> now
      then Inl (Invalid ''The event expired before Work admission.'') else Inr ())))"

definition frozen_claim :: "string \<Rightarrow> occurrence_row \<Rightarrow> occurrence_payload \<Rightarrow> local_schedule_claim" where
  "frozen_claim key row payload =
     \<lparr>cl_execution_kind = oy_execution_kind payload, cl_permission_mode = oy_permission_mode payload,
      cl_occurrence_id = key, cl_schedule_id = oc_schedule_id row,
      cl_schedule_revision = oc_schedule_revision row, cl_prompt_revision = oc_prompt_revision row,
      cl_scheduled_for = oc_scheduled_for row, cl_claim_token = [],
      cl_lease_expires_at = oc_lease_expires_at row, cl_project_id = oy_project_id payload,
      cl_agent_id = oy_agent_id payload, cl_provider_id = oy_provider_id payload,
      cl_model = oy_model payload, cl_reasoning_effort = oy_reasoning_effort payload,
      cl_prompt = oy_prompt payload\<rparr>"

definition stage_at :: "ctx \<Rightarrow> civil \<Rightarrow> string \<Rightarrow> string \<Rightarrow> int \<Rightarrow> store \<Rightarrow> cerr + (work \<times> store)" where
  "stage_at ctx cv key token now s =
     bindE (ok_or (Invalid ''This schedule occurrence is unavailable.'') (tget (occurrences s) key)) (\<lambda>row.
     bindE (ok_or (Invalid ''This schedule is unavailable.'') (tget (schedules s) (oc_schedule_id row))) (\<lambda>schedule.
     if oc_state row \<noteq> ''claimed'' \<or> oc_claim_fingerprint row \<noteq> sha256 ctx token
        \<or> oc_lease_expires_at row \<le> cv_stamp cv now \<or> sr_status schedule \<noteq> ''enabled''
     then Inl err_stage_stopped else
     bindE (check_stage_event ctx now row schedule) (\<lambda>_.
     bindE (ok_or (Invalid ''The frozen schedule context is invalid.'')
              (decode_occurrence (oc_payload row))) (\<lambda>payload.
     if oy_execution_kind payload \<noteq> ''agent''
     then Inl (Invalid ''Research schedules use their restricted research runner.'') else
     bindE (stage_schedule (ctx\<lparr>time := cv_stamp cv now\<rparr>) (frozen_claim key row payload) s) (\<lambda>(it, s1).
     bindE (replace_occurrence key
              (row\<lparr>oc_payload := encode_occurrence (payload\<lparr>oy_work_id := Some (w_id it)\<rparr>)\<rparr>)
              [''claimed''] s1) (\<lambda>s2.
     Inr (it, s2)))))))"

end
