(* ===== verification/Schedule_Dispatcher.thy ===== *)
theory Schedule_Dispatcher
  imports Schedule_Dispatch
begin

text \<open>
  The owners of a claimed occurrence. The serial dispatcher of the main window keeps at most one
  active dispatch in memory (\<open>LocalScheduleDispatchCoordinator\<close>); the background owner holds its claim
  as a value whose destructor gives the occurrence up (\<open>local_schedules/background.rs\<close>). Every operation
  returns its result with the state it leaves: a refused transaction changes nothing, an earlier one
  that was committed stays.
\<close>

section \<open>The dispatcher of the main window\<close>

record active_dispatch =
  ad_workspace_id :: string
  ad_occurrence_id :: string
  ad_claim_token :: string
  ad_lease_expires_at :: string
  ad_attempt_id :: "string option"

type_synonym dispatcher = "active_dispatch option \<times> store"

definition err_no_dispatch :: cerr where
  "err_no_dispatch = Invalid ''No local schedule occurrence owns the dispatcher slot.''"

definition err_dispatch_stale :: cerr where
  "err_dispatch_stale = Invalid ''The local schedule dispatcher identity is stale.''"

definition err_must_finish :: cerr where
  "err_must_finish = Invalid ''A bound schedule occurrence must finish through its exact attempt.''"

definition err_detail_long :: cerr where
  "err_detail_long = Invalid ''The schedule interruption detail is too long.''"

definition validate_dispatch_identity ::
  "active_dispatch \<Rightarrow> string \<Rightarrow> string \<Rightarrow> string \<Rightarrow> string option \<Rightarrow> cerr + unit" where
  "validate_dispatch_identity act workspace_id occurrence_id claim_token attempt_id =
     (if ad_workspace_id act \<noteq> workspace_id \<or> ad_occurrence_id act \<noteq> occurrence_id
         \<or> ad_claim_token act \<noteq> claim_token
         \<or> (case attempt_id of None \<Rightarrow> False | Some a \<Rightarrow> ad_attempt_id act \<noteq> Some a)
      then Inl err_dispatch_stale else Inr ())"

text \<open>\<open>require_schedule_key\<close>, with the presence of the protected key as an argument.\<close>

definition require_schedule_key ::
  "(string \<Rightarrow> string \<Rightarrow> event_config \<Rightarrow> cerr + unit) \<Rightarrow> ctx \<Rightarrow> civil \<Rightarrow> string \<Rightarrow> store \<Rightarrow> cerr + unit" where
  "require_schedule_key require_key ctx cv key s =
     bindE (optE (schedule_from_row cv (sha256 ctx) key) (tget (schedules s) key)) (\<lambda>found.
     case found of
       None \<Rightarrow> Inr ()
     | Some schedule \<Rightarrow>
         (case lc_trigger schedule of
            Trigger_Event config \<Rightarrow> require_key (lc_agent_id schedule) key config
          | _ \<Rightarrow> Inr ()))"

definition require_occurrence_key ::
  "(string \<Rightarrow> string \<Rightarrow> event_config \<Rightarrow> cerr + unit) \<Rightarrow> ctx \<Rightarrow> civil \<Rightarrow> string \<Rightarrow> store \<Rightarrow> cerr + unit" where
  "require_occurrence_key require_key ctx cv key s =
     (case tget (occurrences s) key of
        None \<Rightarrow> Inr ()
      | Some row \<Rightarrow> require_schedule_key require_key ctx cv (oc_schedule_id row) s)"

definition dispatch_claim ::
  "(string \<Rightarrow> string \<Rightarrow> event_config \<Rightarrow> cerr + unit) \<Rightarrow> ctx \<Rightarrow> civil \<Rightarrow> claim_tokens \<Rightarrow> string \<Rightarrow> string \<Rightarrow> string
   \<Rightarrow> int \<Rightarrow> int \<Rightarrow> dispatcher \<Rightarrow> (cerr + local_schedule_claim option) \<times> dispatcher" where
  "dispatch_claim require_key ctx cv tokens label workspace_id schedule_id revision now d =
     (let (act, s) = d in
      case bindE (require_main_window label) (\<lambda>_. validate_bounded_id schedule_id ''Schedule'' 96) of
        Inl e \<Rightarrow> (Inl e, d)
      | Inr _ \<Rightarrow>
          if (case act of None \<Rightarrow> False | Some a \<Rightarrow> cv_stamp cv now < ad_lease_expires_at a)
          then (Inr None, d) else
          (case bindE (require_schedule_key require_key ctx cv schedule_id s) (\<lambda>_.
                bindE (validate_bounded_id (tk_reservation tokens) ''Capacity reservation'' 96) (\<lambda>_.
                claim_due ctx cv tokens now (Some (schedule_id, revision)) s)) of
             Inl e \<Rightarrow> (Inl e, (None, s))
           | Inr (None, s') \<Rightarrow> (Inr None, (None, s'))
           | Inr (Some claim, s') \<Rightarrow>
               (Inr (Some claim),
                (Some \<lparr>ad_workspace_id = workspace_id, ad_occurrence_id = cl_occurrence_id claim,
                       ad_claim_token = cl_claim_token claim,
                       ad_lease_expires_at = cl_lease_expires_at claim, ad_attempt_id = None\<rparr>, s'))))"

text \<open>The active dispatch whose identity the request carries.\<close>

definition owned_dispatch ::
  "cerr \<Rightarrow> string \<Rightarrow> string \<Rightarrow> string \<Rightarrow> string \<Rightarrow> string option \<Rightarrow> active_dispatch option
   \<Rightarrow> cerr + active_dispatch" where
  "owned_dispatch missing label workspace_id occurrence_id claim_token attempt_id act =
     bindE (require_main_window label) (\<lambda>_.
     bindE (ok_or missing act) (\<lambda>a.
     bindE (validate_dispatch_identity a workspace_id occurrence_id claim_token attempt_id) (\<lambda>_.
     Inr a)))"

definition err_slot_lost :: cerr where
  "err_slot_lost = Invalid ''This schedule no longer owns the dispatcher slot.''"

definition dispatch_stage ::
  "(string \<Rightarrow> string \<Rightarrow> event_config \<Rightarrow> cerr + unit) \<Rightarrow> ctx \<Rightarrow> civil \<Rightarrow> string \<Rightarrow> string \<Rightarrow> string \<Rightarrow> string
   \<Rightarrow> int \<Rightarrow> dispatcher \<Rightarrow> (cerr + string \<times> string) \<times> dispatcher" where
  "dispatch_stage require_key ctx cv label workspace_id occurrence_id claim_token now d =
     (let (act, s) = d in
      case bindE (owned_dispatch err_slot_lost label workspace_id occurrence_id claim_token None act) (\<lambda>_.
           bindE (require_occurrence_key require_key ctx cv occurrence_id s) (\<lambda>_.
           stage_at ctx cv occurrence_id claim_token now s)) of
        Inl e \<Rightarrow> (Inl e, d)
      | Inr (it, s') \<Rightarrow> (Inr (w_id it, w_conversation_id it), (act, s')))"

text \<open>\<open>record_project_occurrence\<close>: research in a project has a Work of its own.\<close>

definition record_project_occurrence ::
  "ctx \<Rightarrow> civil \<Rightarrow> string \<Rightarrow> string \<Rightarrow> bool \<Rightarrow> int \<Rightarrow> store \<Rightarrow> cerr + store" where
  "record_project_occurrence ctx cv key run finished now s =
     bindE (ok_or (Invalid ''The occurrence is unavailable.'') (tget (occurrences s) key)) (\<lambda>row.
     bindE (ok_or (Invalid ''The occurrence context is invalid.'')
              (decode_occurrence (oc_payload row))) (\<lambda>payload.
     if oy_work_id payload \<noteq> None then Inr s else
     case oy_project_id payload of
       None \<Rightarrow> Inr s
     | Some project \<Rightarrow>
         let ctx' = ctx\<lparr>time := cv_stamp cv now\<rparr> in
         if finished then finish_schedule ctx' run s
         else bind_schedule ctx' project (oy_agent_id payload) run s))"

definition dispatch_bind ::
  "ctx \<Rightarrow> civil \<Rightarrow> string \<Rightarrow> string \<Rightarrow> string \<Rightarrow> string \<Rightarrow> string \<Rightarrow> int \<Rightarrow> int \<Rightarrow> dispatcher
   \<Rightarrow> (cerr + string) \<times> dispatcher" where
  "dispatch_bind ctx cv label workspace_id occurrence_id claim_token attempt_id now later d =
     (let (act, s) = d in
      case bindE (owned_dispatch err_no_dispatch label workspace_id occurrence_id claim_token None act) (\<lambda>a.
           bindE (bind_claim_to_pending_attempt ctx cv occurrence_id claim_token attempt_id now s) (\<lambda>(lease, s1).
           Inr (a, lease, s1))) of
        Inl e \<Rightarrow> (Inl e, d)
      | Inr (a, lease, s1) \<Rightarrow>
          (case record_project_occurrence ctx cv occurrence_id attempt_id False later s1 of
             Inl e \<Rightarrow> (Inl e, (act, s1))
           | Inr s2 \<Rightarrow>
               (Inr lease, (Some (a\<lparr>ad_attempt_id := Some attempt_id, ad_lease_expires_at := lease\<rparr>), s2))))"

definition dispatch_renew ::
  "ctx \<Rightarrow> civil \<Rightarrow> string \<Rightarrow> string \<Rightarrow> string \<Rightarrow> string \<Rightarrow> string \<Rightarrow> int \<Rightarrow> dispatcher
   \<Rightarrow> (cerr + string) \<times> dispatcher" where
  "dispatch_renew ctx cv label workspace_id occurrence_id claim_token attempt_id now d =
     (let (act, s) = d in
      case bindE (owned_dispatch err_no_dispatch label workspace_id occurrence_id claim_token (Some attempt_id) act) (\<lambda>a.
           bindE (renew_bound_occurrence_lease ctx cv occurrence_id claim_token attempt_id now s) (\<lambda>(lease, s1).
           Inr (a, lease, s1))) of
        Inl e \<Rightarrow> (Inl e, d)
      | Inr (a, lease, s1) \<Rightarrow> (Inr lease, (Some (a\<lparr>ad_lease_expires_at := lease\<rparr>), s1)))"

definition dispatch_finish ::
  "ctx \<Rightarrow> civil \<Rightarrow> string \<Rightarrow> string \<Rightarrow> string \<Rightarrow> string \<Rightarrow> string \<Rightarrow> string \<Rightarrow> string option \<Rightarrow> int \<Rightarrow> int
   \<Rightarrow> dispatcher \<Rightarrow> (cerr + unit) \<times> dispatcher" where
  "dispatch_finish ctx cv label workspace_id occurrence_id claim_token attempt_id outcome detail now later d =
     (let (act, s) = d in
      case bindE (owned_dispatch err_no_dispatch label workspace_id occurrence_id claim_token (Some attempt_id) act) (\<lambda>_.
           finish_bound_occurrence ctx cv occurrence_id claim_token attempt_id outcome detail now s) of
        Inl e \<Rightarrow> (Inl e, d)
      | Inr s1 \<Rightarrow>
          (case record_project_occurrence ctx cv occurrence_id attempt_id True later s1 of
             Inl e \<Rightarrow> (Inl e, (act, s1))
           | Inr s2 \<Rightarrow> (Inr (), (None, s2))))"

definition dispatch_abandon ::
  "ctx \<Rightarrow> civil \<Rightarrow> string \<Rightarrow> string \<Rightarrow> string \<Rightarrow> string \<Rightarrow> string \<Rightarrow> int \<Rightarrow> dispatcher
   \<Rightarrow> (cerr + unit) \<times> dispatcher" where
  "dispatch_abandon ctx cv label workspace_id occurrence_id claim_token detail now d =
     (let (act, s) = d in
      case bindE (require_main_window label) (\<lambda>_.
           bindE (if 4000 < chars_count detail then Inl err_detail_long else Inr ()) (\<lambda>_.
           bindE (owned_dispatch err_no_dispatch label workspace_id occurrence_id claim_token None act) (\<lambda>a.
           if ad_attempt_id a \<noteq> None then Inl err_must_finish else
           interrupt_claimed ctx occurrence_id (sha256 ctx claim_token) detail (cv_stamp cv now) s))) of
        Inl e \<Rightarrow> (Inl e, d)
      | Inr s1 \<Rightarrow> (Inr (), (None, s1)))"

section \<open>The claim of the background owner\<close>

record held_claim =
  hc_claim :: local_schedule_claim
  hc_attempt :: "string option"
  hc_settled :: bool

definition err_background_unbound :: cerr where
  "err_background_unbound = Invalid ''The scheduled background attempt is not bound.''"

text \<open>\<open>Claim::bind_at\<close>, run inside the transaction that binds the Work.\<close>

definition claim_bind :: "ctx \<Rightarrow> civil \<Rightarrow> held_claim \<Rightarrow> int \<Rightarrow> string \<Rightarrow> store \<Rightarrow> cerr + store" where
  "claim_bind ctx cv hold now attempt s =
     bind_pending_attempt ctx (cl_occurrence_id (hc_claim hold))
       (sha256 ctx (cl_claim_token (hc_claim hold))) attempt (cv_stamp cv now) (claim_lease cv now) s"

definition claim_bound :: "string \<Rightarrow> held_claim \<Rightarrow> held_claim" where
  "claim_bound attempt hold = hold\<lparr>hc_attempt := Some attempt\<rparr>"

definition claim_renew :: "ctx \<Rightarrow> civil \<Rightarrow> held_claim \<Rightarrow> int \<Rightarrow> store \<Rightarrow> cerr + store" where
  "claim_renew ctx cv hold now s =
     bindE (ok_or err_background_unbound (hc_attempt hold)) (\<lambda>attempt.
     bindE (renew_bound_occurrence_lease ctx cv (cl_occurrence_id (hc_claim hold))
              (cl_claim_token (hc_claim hold)) attempt now s) (\<lambda>(_, s'). Inr s'))"

definition claim_finish ::
  "ctx \<Rightarrow> civil \<Rightarrow> held_claim \<Rightarrow> string \<Rightarrow> int \<Rightarrow> store \<Rightarrow> cerr + (held_claim \<times> store)" where
  "claim_finish ctx cv hold outcome now s =
     bindE (ok_or err_background_unbound (hc_attempt hold)) (\<lambda>attempt.
     bindE (finish_bound_occurrence ctx cv (cl_occurrence_id (hc_claim hold))
              (cl_claim_token (hc_claim hold)) attempt outcome None now s) (\<lambda>s'.
     Inr (hold\<lparr>hc_settled := True\<rparr>, s')))"

text \<open>The destructor: errors are ignored.\<close>

definition claim_drop :: "ctx \<Rightarrow> civil \<Rightarrow> held_claim \<Rightarrow> int \<Rightarrow> store \<Rightarrow> store" where
  "claim_drop ctx cv hold now s =
     (if hc_settled hold then s else
      let claim = hc_claim hold in
      case (case hc_attempt hold of
              Some attempt \<Rightarrow>
                finish_bound_occurrence ctx cv (cl_occurrence_id claim) (cl_claim_token claim) attempt
                  ''interrupted'' (Some ''The native owner stopped. No automatic replay.'') now s
            | None \<Rightarrow>
                interrupt_claimed ctx (cl_occurrence_id claim) (sha256 ctx (cl_claim_token claim))
                  ''Background dispatch stopped before binding.'' (cv_stamp cv now) s) of
        Inl _ \<Rightarrow> s | Inr s' \<Rightarrow> s')"

definition background_runnable :: "ctx \<Rightarrow> string \<Rightarrow> local_schedule \<Rightarrow> bool" where
  "background_runnable ctx now schedule =
     (lc_status schedule = Sched_Enabled \<and> lc_execution_kind schedule = ''agent''
      \<and> lc_permission_mode schedule = ''read-only'' \<and> lc_project_id schedule = None
      \<and> (case lc_next_run_at schedule of None \<Rightarrow> False | Some next \<Rightarrow> next \<le> now)
      \<and> supports_provider (lc_provider_id schedule)
      \<and> list_ex (\<lambda>p. p_id p = lc_agent_id schedule \<and> p_connector_ids p = []
                      \<and> p_knowledge_source_ids p = []) (profiles ctx))"

definition stage_background ::
  "ctx \<Rightarrow> civil \<Rightarrow> local_schedule_claim \<Rightarrow> int \<Rightarrow> store \<Rightarrow> cerr + (work \<times> store)" where
  "stage_background ctx cv claim now s =
     bindE (stage_at ctx cv (cl_occurrence_id claim) (cl_claim_token claim) now s) (\<lambda>(_, s1).
     bindE (ok_or (Invalid ''The staged background Work is unavailable.'')
              (tget (works s1) (''work-schedule-'' @ cl_occurrence_id claim))) (\<lambda>it.
     let it' = it\<lparr>w_execution_owner := Some ''native-background''\<rparr> in
     bindE (put_work ctx it' s1) (\<lambda>s2. Inr (it', s2))))"

text \<open>
  \<open>background::next\<close>. \<open>drop_now\<close> is the instant at which the claim is dropped when staging fails.
\<close>

definition background_schedule_next ::
  "ctx \<Rightarrow> civil \<Rightarrow> claim_tokens \<Rightarrow> int \<Rightarrow> int \<Rightarrow> store \<Rightarrow> (cerr + (work \<times> held_claim) option) \<times> store" where
  "background_schedule_next ctx cv tokens now drop_now s =
     (case mapE (\<lambda>(key, row). schedule_from_row cv (sha256 ctx) key row) (list_schedules 128 s) of
        Inl e \<Rightarrow> (Inl e, s)
      | Inr all \<Rightarrow>
          (case find (background_runnable ctx (cv_stamp cv now)) all of
             None \<Rightarrow> (Inr None, s)
           | Some schedule \<Rightarrow>
               (case all_work s of
                  Inl e \<Rightarrow> (Inl e, s)
                | Inr ws \<Rightarrow>
                    if \<exists>w\<in>set ws. w_agent_id w = lc_agent_id schedule \<and> executing (w_status w)
                    then (Inr None, s) else
                    (case bindE (validate_bounded_id (tk_reservation tokens) ''Capacity reservation'' 96) (\<lambda>_.
                          claim_due ctx cv tokens now (Some (lc_id schedule, lc_revision schedule)) s) of
                       Inl e \<Rightarrow> (Inl e, s)
                     | Inr (None, s1) \<Rightarrow> (Inr None, s1)
                     | Inr (Some claim, s1) \<Rightarrow>
                         (let hold = \<lparr>hc_claim = claim, hc_attempt = None, hc_settled = False\<rparr> in
                          case stage_background ctx cv claim now s1 of
                            Inl e \<Rightarrow> (Inl e, claim_drop ctx cv hold drop_now s1)
                          | Inr (it, s2) \<Rightarrow> (Inr (Some (it, hold)), s2))))))"

end
