(* ===== verification/Schedule_Views.thy ===== *)
theory Schedule_Views
  imports Schedule_Dispatcher
begin

text \<open>
  The read commands of local schedules: lists of definitions and occurrences
  (\<open>local_schedules/commands.rs\<close>, \<open>validation.rs\<close>), the preview of an event template and the history
  of an event trigger (\<open>events/commands.rs\<close>, \<open>events/delivery.rs\<close>). The history prunes the outbox
  before it reads.
\<close>

definition local_schedule_set_status ::
  "ctx \<Rightarrow> civil \<Rightarrow> status_request \<Rightarrow> int \<Rightarrow> store \<Rightarrow> cerr + (local_schedule \<times> store)" where
  "local_schedule_set_status ctx cv r now s = set_status_at ctx cv r now s"

definition local_schedule_list :: "ctx \<Rightarrow> civil \<Rightarrow> store \<Rightarrow> cerr + local_schedule list" where
  "local_schedule_list ctx cv s =
     mapE (\<lambda>(key, row). schedule_from_row cv (sha256 ctx) key row) (list_schedules 128 s)"

record local_occurrence =
  lo_id :: string
  lo_schedule_id :: string
  lo_schedule_revision :: int
  lo_prompt_revision :: int
  lo_state :: string
  lo_execution_attempt_id :: "string option"
  lo_thread_id :: "string option"
  lo_scheduled_for :: string
  lo_claimed_at :: string
  lo_started_at :: "string option"
  lo_completed_at :: "string option"
  lo_updated_at :: string
  lo_outcome :: "string option"
  lo_detail :: "string option"

definition occurrence_from_row :: "string \<Rightarrow> occurrence_row \<Rightarrow> string option \<Rightarrow> cerr + local_occurrence" where
  "occurrence_from_row key row thread =
     bindE (ok_or (Invalid ''The encrypted local schedule occurrence is invalid.'')
              (decode_occurrence (oc_payload row))) (\<lambda>payload.
     Inr \<lparr>lo_id = key, lo_schedule_id = oc_schedule_id row, lo_schedule_revision = oc_schedule_revision row,
          lo_prompt_revision = oc_prompt_revision row, lo_state = oc_state row,
          lo_execution_attempt_id = oc_execution_attempt_id row, lo_thread_id = thread,
          lo_scheduled_for = oc_scheduled_for row, lo_claimed_at = oc_claimed_at row,
          lo_started_at = oc_started_at row, lo_completed_at = oc_completed_at row,
          lo_updated_at = oc_updated_at row, lo_outcome = oy_outcome payload,
          lo_detail = oy_detail payload\<rparr>)"

definition local_schedule_occurrence_list ::
  "string \<Rightarrow> nat option \<Rightarrow> store \<Rightarrow> cerr + local_occurrence list" where
  "local_schedule_occurrence_list schedule limit s =
     bindE (validate_bounded_id schedule ''Schedule'' 96) (\<lambda>_.
     let n = max 1 (min 20 (case limit of None \<Rightarrow> 20 | Some n \<Rightarrow> n)) in
     mapE (\<lambda>(key, row). occurrence_from_row key row
             (occurrence_thread_id (oc_execution_attempt_id row) s)) (list_occurrences schedule n s))"

definition event_template_preview ::
  "ctx \<Rightarrow> string \<Rightarrow> event_draft \<Rightarrow> string \<Rightarrow> string \<Rightarrow> cerr + event_preview" where
  "event_template_preview ctx label draft prompt sample_json =
     bindE (require_main_window label) (\<lambda>_.
     bindE (parse_body ctx sample_json) (\<lambda>body. render ctx draft prompt body))"

record event_delivery =
  ey_id :: string
  ey_schedule_id :: string
  ey_received_at :: string
  ey_expires_at :: string
  ey_state :: string
  ey_payload :: delivery_payload
  ey_occurrence_id :: "string option"
  ey_work_id :: "string option"
  ey_thread_id :: "string option"

text \<open>The text a state is shown with; other states keep the stored reason.\<close>

definition shown_reason :: "string \<Rightarrow> string \<Rightarrow> string" where
  "shown_reason state reason =
     (if state = ''pending'' then ''Waiting for an available agent/provider and ordinary Work capacity. The event must still be fresh when admitted.''
      else if state = ''expired'' then ''The event or trigger expired before Work admission.''
      else if state = ''paused'' then ''The trigger was paused. This event will not replay on resume.''
      else if state = ''removed'' then ''The trigger was removed before Work admission.''
      else reason)"

definition work_status_text :: "work_status \<Rightarrow> string" where
  "work_status_text st =
     (case st of Queued \<Rightarrow> ''queued'' | Running \<Rightarrow> ''running'' | Waiting \<Rightarrow> ''waiting''
      | Blocked \<Rightarrow> ''blocked'' | AwaitingApproval \<Rightarrow> ''awaiting-approval''
      | AwaitingUser \<Rightarrow> ''awaiting-user'' | Completed \<Rightarrow> ''completed'' | Failed \<Rightarrow> ''failed''
      | Cancelled \<Rightarrow> ''cancelled'')"

text \<open>The part of \<open>public\<close> for a delivery that was claimed.\<close>

definition shown_occurrence :: "ctx \<Rightarrow> occurrence_row \<Rightarrow> event_delivery \<Rightarrow> store \<Rightarrow> event_delivery" where
  "shown_occurrence ctx occurrence event s =
     (let work_id = jstr (jindex (oc_payload occurrence) ''workId'');
          thread = occurrence_thread_id (oc_execution_attempt_id occurrence) s;
          payload = ey_payload event;
          payload' = (case jstr (jindex (oc_payload occurrence) ''detail'') of
                        None \<Rightarrow> payload
                      | Some detail \<Rightarrow> payload\<lparr>dp_reason := scrub_event ctx detail\<rparr>);
          event' = event\<lparr>ey_state := oc_state occurrence, ey_work_id := work_id, ey_thread_id := thread,
                         ey_payload := payload'\<rparr> in
      case Option.bind work_id (tget (works s)) of
        None \<Rightarrow> event'
      | Some it \<Rightarrow> event'\<lparr>ey_thread_id := Some (case thread of None \<Rightarrow> w_conversation_id it | Some t \<Rightarrow> t),
                          ey_state := work_status_text (w_status it)\<rparr>)"

definition delivery_public :: "ctx \<Rightarrow> delivery_row \<Rightarrow> store \<Rightarrow> cerr + event_delivery" where
  "delivery_public ctx row s =
     bindE (ok_or (Invalid ''The event delivery history is invalid.'')
              (decode_delivery (dv_payload row))) (\<lambda>payload.
     let event = \<lparr>ey_id = dv_id row, ey_schedule_id = dv_schedule_id row,
                  ey_received_at = dv_received_at row, ey_expires_at = dv_expires_at row,
                  ey_state = dv_state row,
                  ey_payload = payload\<lparr>dp_reason := shown_reason (dv_state row) (dp_reason payload)\<rparr>,
                  ey_occurrence_id = dv_occurrence_id row, ey_work_id = None, ey_thread_id = None\<rparr> in
     Inr (case Option.bind (dv_occurrence_id row) (tget (occurrences s)) of
            None \<Rightarrow> event
          | Some occurrence \<Rightarrow> shown_occurrence ctx occurrence event s))"

definition list_deliveries :: "string \<Rightarrow> nat \<Rightarrow> store \<Rightarrow> delivery_row list" where
  "list_deliveries schedule limit s =
     take (min limit 100) (rev (sort_key dv_received_at (of_schedule schedule s)))"

definition event_delivery_list ::
  "ctx \<Rightarrow> civil \<Rightarrow> string \<Rightarrow> string \<Rightarrow> int \<Rightarrow> int \<Rightarrow> store \<Rightarrow> cerr + (event_delivery list \<times> store)" where
  "event_delivery_list ctx cv label schedule now later s =
     bindE (require_main_window label) (\<lambda>_.
     bindE (ok_or (Invalid ''This event trigger is unavailable.'') (tget (schedules s) schedule)) (\<lambda>row.
     if sr_trigger_kind row \<noteq> ''event'' then Inl (Invalid ''This is not an event trigger.'') else
     bindE (prune schedule (cv_stamp cv now) (cv_stamp cv (later - hours_24)) s) (\<lambda>s1.
     bindE (mapE (\<lambda>d. delivery_public ctx d s1) (list_deliveries schedule 50 s1)) (\<lambda>events.
     Inr (events, s1)))))"

text \<open>A free-text detail of a run is shown only after it was scrubbed.\<close>

lemma shown_detail_scrubbed:
  assumes "jstr (jindex (oc_payload occurrence) ''detail'') = Some detail"
  shows "dp_reason (ey_payload (shown_occurrence ctx occurrence event s)) = scrub_event ctx detail"
  using assms by (simp add: shown_occurrence_def Let_def split: option.splits)

end
