(* ===== verification/Ledger_Laws.thy ===== *)
theory Ledger_Laws
  imports Schedule_Views
begin

text \<open>
  The laws of the schedule ledger. \<open>ledger_keeps\<close> relates the stores before and after a ledger
  transaction: the ledger stays well-formed (\<open>ledger_wf\<close>), every occurrence moves only forward
  (\<open>occurrence_moves\<close>), and the Work records change quietly, that is, none starts executing and none
  loses its history. The locale \<open>transaction_law\<close> is what such a relation has to satisfy to be
  carried through loops and sequences of transactions.
\<close>

locale transaction_law =
  fixes R :: "store \<Rightarrow> store \<Rightarrow> bool"
  assumes law_refl: "R s s"
    and law_trans: "R s t \<Longrightarrow> R t u \<Longrightarrow> R s u"
begin

lemma law_foldE:
  assumes "\<And>x s s'. x \<in> set xs \<Longrightarrow> f x s = Inr s' \<Longrightarrow> R s s'" and "foldE f xs s = Inr s'"
  shows "R s s'"
  by (rule foldE_rel [of R xs f]) (use assms law_refl law_trans in blast)+

lemma law_rtranclp:
  assumes "\<And>s s'. step s s' \<Longrightarrow> R s s'" and "step\<^sup>*\<^sup>* s s'"
  shows "R s s'"
  using assms(2) by induction (auto intro: law_refl law_trans assms(1))

end

section \<open>Occurrences\<close>

definition open_state :: "string \<Rightarrow> bool" where
  "open_state st = (st = ''claimed'' \<or> st = ''running'')"

definition occurrence_wf :: "occurrence_row \<Rightarrow> bool" where
  "occurrence_wf row =
     (oc_state row \<in> {''claimed'', ''running'', ''completed'', ''failed'', ''interrupted''}
      \<and> (oc_state row = ''claimed'' \<longrightarrow> oc_execution_attempt_id row = None)
      \<and> (oc_state row \<in> {''running'', ''completed'', ''failed''} \<longrightarrow> oc_execution_attempt_id row \<noteq> None))"

definition ledger_wf :: "store \<Rightarrow> bool" where
  "ledger_wf s =
     ((\<forall>k row. tget (occurrences s) k = Some row \<longrightarrow> occurrence_wf row)
      \<and> (\<forall>k k' row row'. tget (occurrences s) k = Some row \<and> tget (occurrences s) k' = Some row'
           \<and> same_slot row row' \<longrightarrow> k = k'))"

text \<open>The request an occurrence was claimed for: its prompt and its route.\<close>

definition frozen_request :: "json \<Rightarrow> string option \<times> string option \<times> string option" where
  "frozen_request v = (jget_str v ''prompt'', jget_str v ''providerId'', jget_str v ''model'')"

definition same_occurrence :: "occurrence_row \<Rightarrow> occurrence_row \<Rightarrow> bool" where
  "same_occurrence old new =
     (oc_schedule_id new = oc_schedule_id old \<and> oc_schedule_revision new = oc_schedule_revision old
      \<and> oc_prompt_revision new = oc_prompt_revision old
      \<and> oc_slot_fingerprint new = oc_slot_fingerprint old
      \<and> oc_claim_fingerprint new = oc_claim_fingerprint old
      \<and> oc_scheduled_for new = oc_scheduled_for old \<and> oc_claimed_at new = oc_claimed_at old
      \<and> frozen_request (oc_payload new) = frozen_request (oc_payload old))"

definition occurrence_moves :: "occurrence_row \<Rightarrow> occurrence_row \<Rightarrow> bool" where
  "occurrence_moves old new =
     (same_occurrence old new
      \<and> (\<not> open_state (oc_state old) \<longrightarrow> new = old)
      \<and> (oc_state old = ''running'' \<longrightarrow> oc_state new \<noteq> ''claimed'')
      \<and> (oc_execution_attempt_id old \<noteq> None \<longrightarrow> oc_execution_attempt_id new = oc_execution_attempt_id old))"

definition ledger_keeps :: "store \<Rightarrow> store \<Rightarrow> bool" where
  "ledger_keeps s s' =
     (ledger_wf s \<longrightarrow> ledger_wf s'
        \<and> (\<forall>k row. tget (occurrences s) k = Some row \<longrightarrow>
             (\<exists>row'. tget (occurrences s') k = Some row' \<and> occurrence_moves row row')))"

lemma frozen_set_member [simp]:
  "key \<notin> {''prompt'', ''providerId'', ''model''} \<Longrightarrow> frozen_request (set_member key x v) = frozen_request v"
  by (cases v) (auto simp: frozen_request_def set_member_def jget_str_def jget_def tget_tput)

lemma moves_refl [simp]: "occurrence_moves row row"
  by (simp add: occurrence_moves_def same_occurrence_def)

lemma moves_trans:
  assumes "occurrence_moves a b" "occurrence_moves b c"
  shows "occurrence_moves a c"
proof (cases "open_state (oc_state b)")
  case False
  with assms show ?thesis by (simp add: occurrence_moves_def)
next
  case True
  with assms show ?thesis
    by (auto simp: occurrence_moves_def same_occurrence_def open_state_def)
qed

interpretation ledger: transaction_law ledger_keeps
proof unfold_locales
  show "ledger_keeps s s" for s by (auto simp: ledger_keeps_def)
  show "ledger_keeps s t \<Longrightarrow> ledger_keeps t u \<Longrightarrow> ledger_keeps s u" for s t u
    unfolding ledger_keeps_def by (meson moves_trans)
qed

interpretation calm_works: transaction_law "advances work_quiet quiet_new"
  by unfold_locales (auto intro: quiet.adv_trans)

lemma ledger_same: "occurrences s' = occurrences s \<Longrightarrow> ledger_keeps s s'"
  by (auto simp: ledger_keeps_def ledger_wf_def)

lemma ledger_put:
  assumes "tget (occurrences s) key = Some old" and "ledger_wf s \<Longrightarrow> occurrence_moves old new \<and> occurrence_wf new"
    and "occurrences s' = tput key new (occurrences s)"
  shows "ledger_keeps s s'"
  unfolding ledger_keeps_def
proof (intro impI conjI allI)
  assume wf: "ledger_wf s"
  have new: "occurrence_moves old new" "occurrence_wf new" using assms(2) wf by auto
  have get: "tget (occurrences s') k = (if k = key then Some new else tget (occurrences s) k)" for k
    by (simp add: assms(3) tget_tput)
  show "\<exists>row'. tget (occurrences s') k = Some row' \<and> occurrence_moves row row'"
    if "tget (occurrences s) k = Some row" for k row
    using that assms(1) new by (auto simp: get)
  have slot: "same_slot new row = same_slot old row" "same_slot row new = same_slot row old" for row
    using new(1) by (auto simp: occurrence_moves_def same_occurrence_def same_slot_def)
  show "ledger_wf s'"
    unfolding ledger_wf_def
  proof (intro conjI allI impI)
    show "occurrence_wf row" if "tget (occurrences s') k = Some row" for k row
      using that wf new(2) by (auto simp: get ledger_wf_def split: if_splits)
    fix k k' row row'
    assume h: "tget (occurrences s') k = Some row \<and> tget (occurrences s') k' = Some row' \<and> same_slot row row'"
    have uniq: "\<And>k k' row row'. tget (occurrences s) k = Some row \<Longrightarrow> tget (occurrences s) k' = Some row' \<Longrightarrow>
        same_slot row row' \<Longrightarrow> k = k'" using wf unfolding ledger_wf_def by blast
    show "k = k'"
      using h assms(1) uniq slot by (cases "k = key"; cases "k' = key") (auto simp: get)
  qed
qed

lemma replace_occurrence_elim:
  assumes "replace_occurrence key row expected s = Inr s'"
  obtains old where "tget (occurrences s) key = Some old" "oc_state old \<in> set expected"
    "s' = s\<lparr>occurrences := tput key (replaced_occurrence row old) (occurrences s)\<rparr>"
  using assms unfolding replace_occurrence_def
  by (cases "tget (occurrences s) key") (auto split: if_splits)

lemma replace_occurrence_law:
  assumes "replace_occurrence key row expected s = Inr s'"
    and "\<And>old. tget (occurrences s) key = Some old \<Longrightarrow> oc_state old \<in> set expected \<Longrightarrow> ledger_wf s \<Longrightarrow>
      occurrence_moves old (replaced_occurrence row old) \<and> occurrence_wf (replaced_occurrence row old)"
  shows "ledger_keeps s s'"
  using assms(1)
proof (rule replace_occurrence_elim)
  fix old assume o: "tget (occurrences s) key = Some old" "oc_state old \<in> set expected"
    "s' = s\<lparr>occurrences := tput key (replaced_occurrence row old) (occurrences s)\<rparr>"
  show ?thesis by (rule ledger_put [OF o(1)]) (use assms(2) [OF o(1,2)] o(3) in auto)
qed

lemma replace_occurrence_quiet:
  "replace_occurrence key row expected s = Inr s' \<Longrightarrow> advances work_quiet quiet_new s s'"
  by (elim replace_occurrence_elim, intro quiet.adv_same) (simp_all add: store_ok_def)

lemma insert_occurrence_law:
  assumes "insert_claimed_occurrence key row s = Inr s'" and "oc_state row = ''claimed''"
    and "oc_execution_attempt_id row = None"
  shows "ledger_keeps s s'"
proof -
  have none: "tget (occurrences s) key = None" and no_slot: "\<not> list_ex (same_slot row) (trows (occurrences s))"
    and s': "s' = s\<lparr>occurrences := tput key row (occurrences s)\<rparr>"
    using assms(1) by (auto simp: insert_claimed_occurrence_def split: if_splits)
  have get: "tget (occurrences s') k = (if k = key then Some row else tget (occurrences s) k)" for k
    by (simp add: s' tget_tput)
  have new: "\<not> same_slot row r \<and> \<not> same_slot r row" if "tget (occurrences s) k = Some r" for k r
  proof -
    have "r \<in> set (trows (occurrences s))" using that by (force simp: tget_def trows_def dest: map_of_SomeD)
    then have "\<not> same_slot row r" using no_slot by (simp add: list_ex_iff)
    then show ?thesis by (auto simp: same_slot_def)
  qed
  have row: "occurrence_wf row" using assms(2,3) by (simp add: occurrence_wf_def)
  have keep: "tget (occurrences s') k = Some r" if "tget (occurrences s) k = Some r" for k r
    using that none by (auto simp: get)
  show ?thesis
    unfolding ledger_keeps_def
  proof (intro impI conjI allI)
    assume wf: "ledger_wf s"
    show "\<exists>row'. tget (occurrences s') k = Some row' \<and> occurrence_moves r row'"
      if "tget (occurrences s) k = Some r" for k r using keep [OF that] by auto
    show "ledger_wf s'"
      unfolding ledger_wf_def
    proof (intro conjI allI impI)
      show "occurrence_wf r" if "tget (occurrences s') k = Some r" for k r
        using that wf row by (auto simp: get ledger_wf_def split: if_splits)
      fix k k' r r'
      assume h: "tget (occurrences s') k = Some r \<and> tget (occurrences s') k' = Some r' \<and> same_slot r r'"
      have uniq: "\<And>k k' row row'. tget (occurrences s) k = Some row \<Longrightarrow> tget (occurrences s) k' = Some row' \<Longrightarrow>
        same_slot row row' \<Longrightarrow> k = k'" using wf unfolding ledger_wf_def by blast
      show "k = k'"
        using h uniq new by (cases "k = key"; cases "k' = key") (auto simp: get)
    qed
  qed
qed

lemma insert_occurrence_quiet:
  "insert_claimed_occurrence key row s = Inr s' \<Longrightarrow> advances work_quiet quiet_new s s'"
  by (intro quiet.adv_same) (auto simp: insert_claimed_occurrence_def store_ok_def split: if_splits)

section \<open>Transactions\<close>

definition tx_law :: "store \<Rightarrow> store \<Rightarrow> bool" where
  "tx_law s s' = (ledger_keeps s s' \<and> advances work_quiet quiet_new s s')"

interpretation tx: transaction_law tx_law
  by unfold_locales
    (auto simp: tx_law_def intro: ledger.law_refl calm_works.law_refl ledger.law_trans calm_works.law_trans)

text \<open>Transactions on definitions and deliveries leave every other table as it is.\<close>

definition frames :: "store \<Rightarrow> store \<Rightarrow> bool" where
  "frames s s' = (\<exists>a b. s' = s\<lparr>schedules := a, deliveries := b\<rparr>)"

interpretation fr: transaction_law frames
proof unfold_locales
  show "frames s s" for s
    unfolding frames_def by (intro exI [of _ "schedules s"] exI [of _ "deliveries s"]) simp
  fix s t u assume "frames s t" "frames t u"
  then obtain a b a' b' where "t = s\<lparr>schedules := a, deliveries := b\<rparr>" "u = t\<lparr>schedules := a', deliveries := b'\<rparr>"
    by (auto simp: frames_def)
  then have "u = s\<lparr>schedules := a', deliveries := b'\<rparr>" by simp
  then show "frames s u" unfolding frames_def by blast
qed

lemma frames_tx: "frames s s' \<Longrightarrow> tx_law s s'"
  by (auto simp: frames_def tx_law_def store_ok_def intro!: ledger_same quiet.adv_same)

lemma frames_occurrences: "frames s s' \<Longrightarrow> occurrences s' = occurrences s"
  by (auto simp: frames_def)

lemma frames_schedules [intro]: "frames s (s\<lparr>schedules := a\<rparr>)"
  unfolding frames_def by (intro exI [of _ a] exI [of _ "deliveries s"]) simp

lemma frames_deliveries [intro]: "frames s (s\<lparr>deliveries := b\<rparr>)"
  unfolding frames_def by (intro exI [of _ "schedules s"] exI [of _ b]) simp

lemma replace_schedule_frames: "replace_schedule n key row s = Inr s' \<Longrightarrow> frames s s'"
  by (auto simp: replace_schedule_def split: option.splits if_splits)

lemma insert_schedule_frames: "insert_schedule key row s = Inr s' \<Longrightarrow> frames s s'"
  by (auto simp: insert_schedule_def split: if_splits)

lemma update_deliveries_frames: "frames s (update_deliveries p f s)"
  by (auto simp: update_deliveries_def)

lemma replace_delivery_frames: "replace_delivery row s = Inr s' \<Longrightarrow> frames s s'"
  by (auto simp: replace_delivery_def update_deliveries_frames split: if_splits)

lemma insert_delivery_frames: "insert_delivery row s = Inr s' \<Longrightarrow> frames s s'"
  by (auto simp: insert_delivery_def split: if_splits)

lemma retire_pending_frames: "retire_pending key st s = Inr s' \<Longrightarrow> frames s s'"
  by (auto simp: retire_pending_def update_deliveries_frames split: if_splits)

lemma purge_frames: "frames s (purge_expired_tombstones now s)"
  by (auto simp: purge_expired_tombstones_def)

lemma redact_delivery_frames: "redact_delivery now key s = Inr s' \<Longrightarrow> frames s s'"
  by (auto simp: redact_delivery_def bindE_Inr fr.law_refl split: option.splits
      intro: fr.law_trans [OF replace_delivery_frames update_deliveries_frames])

lemma prune_frames:
  assumes "prune key now cutoff s = Inr s'"
  shows "frames s s'"
proof -
  let ?s1 = "update_deliveries (\<lambda>d. pending key d \<and> dv_expires_at d \<le> now) (\<lambda>d. d\<lparr>dv_state := ''expired''\<rparr>) s"
  let ?s2 = "drop_unsigned key ?s1"
  obtain s3 where s3: "foldE (redact_delivery now) (to_redact key cutoff ?s2) ?s2 = Inr s3"
    "s' = purge_expired_tombstones now s3"
    using assms by (auto simp: prune_def Let_def bindE_Inr)
  have 3: "frames ?s2 s3" by (rule fr.law_foldE [OF redact_delivery_frames s3(1)])
  have 2: "frames ?s1 ?s2" by (auto simp: drop_unsigned_def Let_def)
  show ?thesis
    unfolding s3(2)
    by (rule fr.law_trans [OF fr.law_trans [OF fr.law_trans [OF update_deliveries_frames 2] 3] purge_frames])
qed

lemma sweep_frames:
  assumes "sweep ctx cv now s = Inr s'"
  shows "frames s s'"
proof -
  have "frames s s'" if "sweep_one ctx cv now kr s = Inr s'" for kr s s'
  proof (cases kr)
    case (Pair key row)
    show ?thesis
    proof (cases "sr_trigger_kind row = ''event''")
      case True
      with that obtain s1 s2 where "s1 = s \<or> retire_pending key ''expired'' s = Inr s1"
        "prune key (cv_stamp cv now) (cv_stamp cv (now - hours_24)) s1 = Inr s2"
        "s' = s2 \<or> (\<exists>row'. replace_schedule (sr_revision row) key row' s2 = Inr s')"
        unfolding Pair sweep_one_def Let_def by (auto simp: bindE_Inr split: if_splits)
      then have "frames s s1" "frames s1 s2" "frames s2 s'"
        using retire_pending_frames prune_frames replace_schedule_frames fr.law_refl by blast+
      then show ?thesis using fr.law_trans by blast
    qed (use that in \<open>simp add: Pair sweep_one_def fr.law_refl\<close>)
  qed
  then show ?thesis using fr.law_foldE assms unfolding sweep_def by metis
qed

lemma admit_event_cases:
  assumes "admit_event cv config schedule revision key now auth preview s = Inr (r, s')"
  obtains (changed) "s' = s" "rc_id r = None" "rc_status r = 409"
  | (refused) s1 where "prune schedule (cv_stamp cv now) (cv_stamp cv (now - hours_24)) s = Inr s1" "s' = s1"
      "rc_status r = 429 \<or> (\<exists>e. auth = Inr e \<and> duplicate_receipt schedule e s1 = Inr (Some r))"
  | (admitted) cur s1 s2 s3 status reason pv where "tget (schedules s) schedule = Some cur"
      "sr_revision cur = revision" "sr_status cur \<noteq> ''cancelled''"
      "prune schedule (cv_stamp cv now) (cv_stamp cv (now - hours_24)) s = Inr s1"
      "\<And>e. auth = Inr e \<Longrightarrow> duplicate_receipt schedule e s1 = Inr None"
      "count_deliveries schedule s1 < 10000" "verdict auth preview = (status, reason, pv)"
      "status = 202 \<Longrightarrow> sr_status cur = ''enabled'' \<Longrightarrow> pending_count schedule s1 < 128"
      "insert_delivery (delivery_of cv config key schedule cur now auth (status, reason, pv)) s1 = Inr s2"
      "prune schedule (cv_stamp cv now) (cv_stamp cv (now - hours_24)) s2 = Inr s3"
      "s' = s3 \<or> replace_schedule (sr_revision cur) schedule
         (cur\<lparr>sr_next_run_at := next_event_at schedule s3\<rparr>) s3 = Inr s'"
      "rc_status r = 202 \<longleftrightarrow> status = 202 \<and> sr_status cur = ''enabled''" "rc_id r = Some key"
proof -
  let ?at = "cv_stamp cv now" and ?cut = "cv_stamp cv (now - hours_24)"
  obtain status reason pv where v: "verdict auth preview = (status, reason, pv)" by (cases "verdict auth preview")
  from assms show thesis
    unfolding admit_event_def Let_def v prod.case
  proof (elim bindE_elim ok_or_elim, goal_cases)
    case (1 cur)
    note body = 1(1)
    show ?case
    proof (cases "sr_revision cur \<noteq> revision \<or> sr_status cur = ''cancelled''")
      case True
      with body have "s' = s" "r = receipt_of 409 None ''trigger_changed''" by simp_all
      then show thesis by (intro changed) (simp_all add: receipt_of_def)
    next
      case live: False
      from body [unfolded if_not_P [OF live]] obtain s1 dup where s1: "prune schedule ?at ?cut s = Inr s1"
        and dup: "(case auth of Inl _ \<Rightarrow> Inr None | Inr e \<Rightarrow> duplicate_receipt schedule e s1) = Inr dup"
        and rest: "(case dup of Some r \<Rightarrow> Inr (r, s1) | None \<Rightarrow>
            if 10000 \<le> count_deliveries schedule s1 then Inr (receipt_of 429 None ''delivery_capacity'', s1) else
            if status = 202 \<and> \<not> sr_status cur \<noteq> ''enabled'' \<and> 128 \<le> pending_count schedule s1
            then Inr (receipt_of 429 None ''pending_capacity'', s1) else
            bindE (insert_delivery (delivery_of cv config key schedule cur now auth (status, reason, pv)) s1) (\<lambda>s2.
            bindE (prune schedule ?at ?cut s2) (\<lambda>s3.
            bindE (if dv_state (delivery_of cv config key schedule cur now auth (status, reason, pv)) = ''pending''
                then replace_schedule (sr_revision cur) schedule
                       (cur\<lparr>sr_next_run_at := next_event_at schedule s3\<rparr>) s3
                else Inr s3) (\<lambda>s4.
            Inr (if sr_status cur \<noteq> ''enabled'' \<and> status = 202 then receipt_of 409 (Some key) ''trigger_paused''
              else receipt_of status (Some key) reason, s4))))) = Inr (r, s')"
        by (elim bindE_elim)
      show thesis
      proof (cases dup)
        case (Some r')
        with dup rest show thesis by (intro refused [OF s1]) (auto split: sum.splits)
      next
        case None
        note rest = rest [unfolded None option.case]
        show thesis
        proof (cases "10000 \<le> count_deliveries schedule s1 \<or>
            status = 202 \<and> sr_status cur = ''enabled'' \<and> 128 \<le> pending_count schedule s1")
          case True
          with rest show thesis by (intro refused [OF s1]) (auto simp: receipt_of_def split: if_splits)
        next
          case room: False
          then have r1: "\<not> 10000 \<le> count_deliveries schedule s1"
            and r2: "\<not> (status = 202 \<and> \<not> sr_status cur \<noteq> ''enabled'' \<and> 128 \<le> pending_count schedule s1)" by auto
          obtain s2 s3 s4 where s2: "insert_delivery (delivery_of cv config key schedule cur now auth (status, reason, pv)) s1 = Inr s2"
              "prune schedule ?at ?cut s2 = Inr s3"
            and s4': "(if dv_state (delivery_of cv config key schedule cur now auth (status, reason, pv)) = ''pending''
                then replace_schedule (sr_revision cur) schedule
                       (cur\<lparr>sr_next_run_at := next_event_at schedule s3\<rparr>) s3
                else Inr s3) = Inr s4"
            and r: "r = (if sr_status cur \<noteq> ''enabled'' \<and> status = 202 then receipt_of 409 (Some key) ''trigger_paused''
              else receipt_of status (Some key) reason)" and s': "s4 = s'"
            using rest [unfolded if_not_P [OF r1] if_not_P [OF r2]] by (elim bindE_elim) simp
          have s4: "s' = s3 \<or> replace_schedule (sr_revision cur) schedule
                (cur\<lparr>sr_next_run_at := next_event_at schedule s3\<rparr>) s3 = Inr s'"
            using s4' s' by (simp split: if_splits)
          show thesis
            by (rule admitted [OF 1(2) _ _ s1 _ _ v _ s2 s4])
              (use live dup None room r in \<open>auto simp: receipt_of_def not_le split: sum.splits if_splits\<close>)
        qed
      qed
    qed
  qed
qed

lemma admit_event_frames:
  assumes "admit_event cv config schedule revision key now auth preview s = Inr (r, s')"
  shows "frames s s'"
  using assms
proof (cases rule: admit_event_cases)
  case changed
  then show ?thesis by (simp add: fr.law_refl)
next
  case (refused s1)
  then show ?thesis using prune_frames by simp
next
  case (admitted cur s1 s2 s3 status reason pv)
  have "frames s s3"
    using prune_frames [OF admitted(4)] insert_delivery_frames [OF admitted(9)] prune_frames [OF admitted(10)]
      fr.law_trans by blast
  with admitted(11) show ?thesis using replace_schedule_frames fr.law_trans by blast
qed

lemma receive_frames:
  assumes "receive lossy verify sanitize ctx cv schedule route headers raw now key s0 s = Inr (r, s')"
  shows "frames s s'"
  using assms unfolding receive_def Let_def
proof (elim bindE_elim, goal_cases)
  case (1 found)
  show ?case
  proof (cases found)
    case (Some schedule')
    with 1(2) show ?thesis
      by (cases "lc_trigger schedule'") (auto simp: fr.law_refl split: if_splits intro: admit_event_frames)
  qed (use 1(2) in \<open>simp add: fr.law_refl\<close>)
qed

lemma create_frames: "create_at ctx cv r now s = Inr (v, s') \<Longrightarrow> frames s s'"
  unfolding create_at_def Let_def by (elim result_elims) (auto intro: insert_schedule_frames)

lemma update_frames: "update_at ctx cv r now s = Inr (v, s') \<Longrightarrow> frames s s'"
  unfolding update_at_def Let_def by (elim result_elims) (auto intro: replace_schedule_frames)

lemma set_status_frames: "set_status_at ctx cv r now s = Inr (v, s') \<Longrightarrow> frames s s'"
  unfolding set_status_at_def Let_def
  by (auto simp: bindE_Inr fr.law_refl split: if_splits
      intro: replace_schedule_frames fr.law_trans [OF retire_pending_frames replace_schedule_frames])

lemma save_event_frames:
  "event_trigger_save rk route ctx cv label r now later s0 s = Inr (v, s') \<Longrightarrow> frames s s'"
  unfolding event_trigger_save_def Let_def
  by (elim result_elims) (auto simp: bindE_Inr split: option.splits
      intro: fr.law_trans [OF update_frames retire_pending_frames] fr.law_trans [OF create_frames retire_pending_frames])

lemma pause_key_frames:
  assumes "pause_revoked_key ctx cv agent key target now s = Inr s'"
  shows "frames s s'"
proof (cases "tget (schedules s) target")
  case None
  with assms show ?thesis by (simp add: pause_revoked_key_def fr.law_refl)
next
  case (Some row)
  from assms show ?thesis
    unfolding pause_revoked_key_def Some option.case
  proof (elim bindE_elim, goal_cases)
    case (1 schedule)
    then show ?case
      by (cases "lc_trigger schedule")
        (auto simp: bindE_Inr fr.law_refl split: if_splits intro: set_status_frames)
  qed
qed

lemma history_frames: "event_delivery_list ctx cv label schedule now later s = Inr (events, s') \<Longrightarrow> frames s s'"
  unfolding event_delivery_list_def by (elim result_elims) (auto intro: prune_frames)

section \<open>Leases\<close>

lemma replace_occurrence_tx:
  assumes "replace_occurrence key row expected s = Inr s'"
    and "\<And>old. tget (occurrences s) key = Some old \<Longrightarrow> oc_state old \<in> set expected \<Longrightarrow> ledger_wf s \<Longrightarrow>
      occurrence_moves old (replaced_occurrence row old) \<and> occurrence_wf (replaced_occurrence row old)"
  shows "tx_law s s'"
  using replace_occurrence_law [OF assms] replace_occurrence_quiet [OF assms(1)] by (simp add: tx_law_def)

lemma wf_row: "ledger_wf s \<Longrightarrow> tget (occurrences s) k = Some row \<Longrightarrow> occurrence_wf row"
  by (simp add: ledger_wf_def)

lemmas move_defs = replaced_occurrence_def occurrence_moves_def same_occurrence_def open_state_def
  occurrence_wf_def

lemma claim_ended_quiet: "work_quiet w (claim_ended now w)"
  by (simp add: claim_ended_def work_law_defs work_wf_def)

lemma interrupt_work_tx:
  assumes "interrupt_work ctx now key row s = Inr s'"
  shows "tx_law s s'"
proof (cases "staged_work_id row = None \<or> s' = s")
  case True
  with assms show ?thesis by (auto simp: interrupt_work_def tx.law_refl)
next
  case False
  then obtain work_id where w: "staged_work_id row = Some work_id" "s' \<noteq> s" by auto
  let ?f = "\<lambda>it t. if w_root_id it = work_id \<and> active (w_status it)
                        then put_work ctx (claim_ended now it) t else Inr t"
  from assms w obtain all where all: "all_work s = Inr all" and fold: "foldE ?f all s = Inr s'"
    by (auto simp: interrupt_work_def bindE_Inr split: if_splits)
  have rows: "all = trows (works s)" using all by (simp add: all_work_def list_rows_def split: if_splits)
  have "advances work_quiet quiet_new s s'"
    by (rule quiet.adv_rows [of id s ?f ctx s', unfolded id_apply])
      (use fold rows claim_ended_quiet in \<open>auto split: if_splits\<close>)
  moreover have "occurrences s' = occurrences s"
    by (rule foldE_rel [of "\<lambda>s s'. occurrences s' = occurrences s" all ?f, OF _ _ _ fold])
      (auto simp: put_work_Inr split: if_splits)
  ultimately show ?thesis by (simp add: tx_law_def ledger_same)
qed

lemma interrupted_moves:
  assumes "tget (occurrences s) key = Some row" "ledger_wf s" "open_state (oc_state row)"
    "frozen_request p = frozen_request (oc_payload row)"
  shows "occurrence_moves row (replaced_occurrence (interrupted_row now p row) row)
     \<and> occurrence_wf (replaced_occurrence (interrupted_row now p row) row)"
  using assms wf_row [OF assms(2,1)] by (auto simp: interrupted_row_def move_defs)

lemma expire_one_tx:
  assumes "expire_one ctx now key s = Inr s'"
  shows "tx_law s s'"
  using assms unfolding expire_one_def Let_def
proof (elim result_elims, goal_cases)
  case (1 row s1)
  have "tx_law s s1"
    by (rule replace_occurrence_tx [OF 1(1)])
      (use 1(3) interrupted_moves in \<open>auto simp: open_state_def\<close>)
  with interrupt_work_tx [OF 1(2)] show ?case using tx.law_trans by blast
qed

lemma interrupt_expired_tx: "interrupt_expired ctx now s = Inr s' \<Longrightarrow> tx_law s s'"
  unfolding interrupt_expired_def by (rule tx.law_foldE [OF expire_one_tx])

lemma bind_pending_elim:
  assumes "bind_pending_attempt ctx key print attempt_id now lease s = Inr s'"
  obtains row schedule attempt where "tget (occurrences s) key = Some row" "oc_state row = ''claimed''"
    "oc_claim_fingerprint row = print" "now < oc_lease_expires_at row"
    "tget (schedules s) (oc_schedule_id row) = Some schedule" "sr_status schedule = ''enabled''"
    "tget (attempts s) attempt_id = Some attempt" "ar_status attempt = ''queued''"
    "attempt_matches row attempt" "thread_owned ctx attempt s"
    "jget_str (oc_payload row) ''workId'' = None \<Longrightarrow> attempt_id = ''schedule-run-'' @ key"
    "\<And>wk it. jget_str (oc_payload row) ''workId'' = Some wk \<Longrightarrow> tget (works s) wk = Some it
       \<Longrightarrow> work_matches key row attempt it"
    "replace_occurrence key
       (row\<lparr>oc_state := ''running'', oc_execution_attempt_id := Some attempt_id,
            oc_started_at := Some now, oc_updated_at := now, oc_lease_expires_at := lease\<rparr>)
       [''claimed''] s = Inr s'"
  using assms unfolding bind_pending_attempt_def Let_def
proof (elim result_elims, goal_cases)
  case (1 row schedule attempt)
  show ?case
    by (rule 1(1) [of row schedule attempt]) (use 1 in \<open>auto simp: not_le\<close>)
qed

lemma bind_pending_tx:
  assumes "bind_pending_attempt ctx key print attempt_id now lease s = Inr s'"
  shows "tx_law s s'"
  using assms
proof (rule bind_pending_elim)
  fix row schedule attempt
  assume row: "tget (occurrences s) key = Some row" "oc_state row = ''claimed''"
    and r: "replace_occurrence key
       (row\<lparr>oc_state := ''running'', oc_execution_attempt_id := Some attempt_id,
            oc_started_at := Some now, oc_updated_at := now, oc_lease_expires_at := lease\<rparr>)
       [''claimed''] s = Inr s'"
  show ?thesis
    by (rule replace_occurrence_tx [OF r]) (use row wf_row [of s key row] in \<open>auto simp: move_defs\<close>)
qed

lemma renew_elim:
  assumes "renew_running_lease key print attempt_id now lease s = Inr s'"
  obtains row schedule where "tget (occurrences s) key = Some row" "oc_state row = ''running''"
    "oc_claim_fingerprint row = print" "oc_execution_attempt_id row = Some attempt_id"
    "now < oc_lease_expires_at row" "tget (schedules s) (oc_schedule_id row) = Some schedule"
    "sr_status schedule = ''enabled''"
    "replace_occurrence key (row\<lparr>oc_lease_expires_at := lease, oc_updated_at := now\<rparr>) [''running''] s = Inr s'"
  using assms unfolding renew_running_lease_def
  by (elim result_elims) (auto simp: not_le)

lemma renew_tx:
  assumes "renew_running_lease key print attempt_id now lease s = Inr s'"
  shows "tx_law s s'"
  using assms
proof (rule renew_elim)
  fix row schedule
  assume row: "tget (occurrences s) key = Some row" "oc_state row = ''running''"
    and r: "replace_occurrence key (row\<lparr>oc_lease_expires_at := lease, oc_updated_at := now\<rparr>) [''running''] s = Inr s'"
  show ?thesis
    by (rule replace_occurrence_tx [OF r]) (use row wf_row [of s key row] in \<open>auto simp: move_defs\<close>)
qed

lemma interrupt_claimed_tx:
  assumes "interrupt_claimed ctx key print detail now s = Inr s'"
  shows "tx_law s s'"
  using assms unfolding interrupt_claimed_def Let_def
proof (elim result_elims, goal_cases)
  case (1 row s1)
  have "tx_law s s1"
    by (rule replace_occurrence_tx [OF 1(2)])
      (use 1 interrupted_moves in \<open>auto simp: open_state_def\<close>)
  with interrupt_work_tx [OF 1(3)] show ?case using tx.law_trans by blast
qed

lemma finish_occurrence_elim:
  assumes "finish_occurrence key print attempt_id outcome detail now s = Inr s'"
  obtains row p where "outcome \<in> {''completed'', ''failed'', ''interrupted''}"
    "frozen_request p = frozen_request (oc_payload row)"
    "tget (occurrences s) key = Some row" "oc_state row = ''running''" "oc_claim_fingerprint row = print"
    "oc_execution_attempt_id row = Some attempt_id" "now < oc_lease_expires_at row"
    "outcome_matches key attempt_id outcome row s = Inr True"
    "replace_occurrence key
        (row\<lparr>oc_state := outcome, oc_completed_at := Some now, oc_updated_at := now, oc_payload := p\<rparr>)
        [''running''] s = Inr s'"
  using assms unfolding finish_occurrence_def Let_def
proof (elim result_elims, goal_cases)
  case (1 row ok)
  show ?case
    by (rule 1(1) [of "case detail of None \<Rightarrow> set_member ''outcome'' (JStr outcome) (oc_payload row)
          | Some d \<Rightarrow> set_member ''detail'' (JStr d) (set_member ''outcome'' (JStr outcome) (oc_payload row))" row])
      (use 1 in \<open>auto simp: not_le split: option.splits\<close>)
qed

lemma finish_occurrence_tx:
  assumes "finish_occurrence key print attempt_id outcome detail now s = Inr s'"
  shows "tx_law s s'"
  using assms
proof (rule finish_occurrence_elim)
  fix row p
  assume row: "outcome \<in> {''completed'', ''failed'', ''interrupted''}"
      "frozen_request p = frozen_request (oc_payload row)"
      "tget (occurrences s) key = Some row" "oc_state row = ''running''"
    and r: "replace_occurrence key
        (row\<lparr>oc_state := outcome, oc_completed_at := Some now, oc_updated_at := now, oc_payload := p\<rparr>)
        [''running''] s = Inr s'"
  show ?thesis
    by (rule replace_occurrence_tx [OF r]) (use row wf_row [of s key row] in \<open>auto simp: move_defs\<close>)
qed

section \<open>Claims\<close>

lemma insert_occurrence_tx:
  assumes "insert_claimed_occurrence key (claimed_row ctx cv tokens now schedule print for' payload) s = Inr s'"
  shows "tx_law s s'"
  using insert_occurrence_law [OF assms] insert_occurrence_quiet [OF assms]
  by (simp add: tx_law_def claimed_row_def)

lemma claim_delivery_elim:
  assumes "claim_delivery ctx cv tokens now key row config delivery s = Inr (c, s')"
  obtains schedule print payload prompt s1 s2 p where
    "schedule_from_row cv (sha256 ctx) key row = Inr schedule" "dv_fingerprint delivery = Some print"
    "decode_delivery (dv_payload delivery) = Some payload" "dp_prompt payload = Some prompt"
    "insert_claimed_occurrence (tk_occurrence tokens)
       (claimed_row ctx cv tokens now schedule print (dv_received_at delivery)
         (claimed_payload ctx tokens schedule ''agent'' prompt (dv_id delivery)
           (Some \<lparr>eo_delivery_id = dv_id delivery, eo_source = ev_source config,
                   eo_received_at = dv_received_at delivery, eo_expires_at = dv_expires_at delivery,
                   eo_selected_fields = dp_selected_fields payload\<rparr>))) s = Inr s1"
    "replace_delivery (delivery\<lparr>dv_state := ''claimed'', dv_occurrence_id := Some (tk_occurrence tokens),
       dv_payload := p\<rparr>) s1 = Inr s2"
    "replace_schedule (sr_revision row) key (row\<lparr>sr_next_run_at := next_event_at key s2\<rparr>) s2 = Inr s'"
    "c = Some (claim_of cv tokens now schedule ''agent'' (dv_received_at delivery) prompt)"
  using assms unfolding claim_delivery_def Let_def
  by (elim result_elims) auto

lemma claim_delivery_tx:
  assumes "claim_delivery ctx cv tokens now key row config delivery s = Inr (c, s')"
  shows "tx_law s s'"
  using assms
proof (rule claim_delivery_elim, goal_cases)
  case (1 schedule print payload prompt s1 s2 p)
  show ?case
    by (rule tx.law_trans [OF insert_occurrence_tx [OF 1(5)]
          frames_tx [OF fr.law_trans [OF replace_delivery_frames [OF 1(6)] replace_schedule_frames [OF 1(7)]]]])
qed

lemma claim_events_tx:
  "claim_events ctx cv tokens now key row config s = Inr (c, s') \<Longrightarrow> tx_law s s'"
proof (induction ctx cv tokens now key row config s rule: claim_events.induct)
  case (1 ctx cv tokens now key row config s)
  show ?case
  proof (cases "first_pending key s")
    case None
    with "1.prems" show ?thesis
      by (auto simp: claim_events.simps [of _ _ _ _ key _ _ s] bindE_Inr
          intro: frames_tx replace_schedule_frames)
  next
    case (Some d)
    note body = "1.prems" [unfolded claim_events.simps [of _ _ _ _ key _ _ s] Some option.case]
    show ?thesis
    proof (cases "dv_expires_at d \<le> cv_stamp cv now \<or> dv_schedule_revision d \<noteq> sr_revision row")
      case stale: True
      from body [unfolded if_P [OF stale]] obtain p s1 where
        p: "jassign ''reason'' (JStr (if dv_expires_at d \<le> cv_stamp cv now then reason_expired else reason_changed)) (dv_payload d) = Inr p"
        and s1: "replace_delivery (d\<lparr>dv_state := ''expired'', dv_payload := p\<rparr>) s = Inr s1"
        and rest: "claim_events ctx cv tokens now key row config s1 = Inr (c, s')"
        by (elim bindE_elim) (auto split: sum.splits)
      from frames_tx [OF replace_delivery_frames [OF s1]] "1.IH" [OF Some stale p s1 rest]
      show ?thesis by (rule tx.law_trans)
    next
      case False
      with body claim_delivery_tx show ?thesis by simp
    qed
  qed
qed

lemma events_claim_tx:
  assumes "events_claim ctx cv tokens now key row config s = Inr (c, s')"
  shows "tx_law s s'"
proof -
  let ?s1 = "purge_expired_tombstones (cv_stamp cv now) s"
  have p: "tx_law s ?s1" by (rule frames_tx [OF purge_frames])
  obtain expires where e: "(if expires \<le> now
      then bindE (retire_pending key ''expired'' ?s1) (\<lambda>s2.
           bindE (replace_schedule (sr_revision row) key (row\<lparr>sr_next_run_at := None\<rparr>) s2) (\<lambda>s3.
           Inr (None, s3)))
      else claim_events ctx cv tokens now key row config ?s1) = Inr (c, s')"
    using assms unfolding events_claim_def Let_def by (elim bindE_elim)
  have "tx_law ?s1 s'"
  proof (cases "expires \<le> now")
    case True
    with e obtain s2 where r: "retire_pending key ''expired'' ?s1 = Inr s2"
      "replace_schedule (sr_revision row) key (row\<lparr>sr_next_run_at := None\<rparr>) s2 = Inr s'"
      by (auto simp: bindE_Inr)
    show ?thesis
      by (rule frames_tx [OF fr.law_trans [OF retire_pending_frames [OF r(1)] replace_schedule_frames [OF r(2)]]])
  qed (use e claim_events_tx in simp)
  with p show ?thesis by (rule tx.law_trans)
qed

lemma claim_slot_elim:
  assumes "claim_slot ctx cv tokens now key row schedule s = Inr (c, s')"
  obtains z slot next_text stored_next s1 nxt where
    "parse_timezone cv (lc_timezone schedule) = Inr z"
    "latest_due_slot cv (lc_trigger schedule) z now = Inr (Some slot)"
    "sr_next_run_at row = Some next_text" "parse_time ctx next_text = Some stored_next"
    "stored_next \<le> cs_instant slot" "cs_instant slot \<le> now"
    "insert_claimed_occurrence (tk_occurrence tokens)
       (claimed_row ctx cv tokens now schedule (slot_print ctx schedule slot) (cv_stamp cv (cs_instant slot))
         (claimed_payload ctx tokens schedule (lc_execution_kind schedule) (lc_prompt schedule)
           (cs_key slot) None)) s = Inr s1"
    "if is_once (lc_trigger schedule) then nxt = None
     else \<exists>slot'. next_slot_after cv (lc_trigger schedule) z now = Inr slot' \<and> nxt = stamp_slot cv slot'"
    "replace_schedule (sr_revision row) key (row\<lparr>sr_next_run_at := nxt, sr_updated_at := cv_stamp cv now\<rparr>) s1 = Inr s'"
    "c = Some (claim_of cv tokens now schedule (lc_execution_kind schedule) (cv_stamp cv (cs_instant slot))
                 (lc_prompt schedule))"
  using assms unfolding claim_slot_def Let_def
proof (elim result_elims, goal_cases)
  case (1 z due slot next_text stored_next s1 nxt s2)
  have nxt: "if is_once (lc_trigger schedule) then nxt = None
     else \<exists>slot'. next_slot_after cv (lc_trigger schedule) z now = Inr slot' \<and> nxt = stamp_slot cv slot'"
    using 1(6) by (auto simp: bindE_Inr split: if_splits)
  show ?case
    by (rule 1(1) [of z slot next_text stored_next s1 nxt])
      (use 1(2-) nxt in \<open>simp_all add: not_less split del: if_split\<close>)
qed

lemma claim_slot_tx:
  assumes "claim_slot ctx cv tokens now key row schedule s = Inr (c, s')"
  shows "tx_law s s'"
  using assms
proof (rule claim_slot_elim, goal_cases)
  case (1 z slot next_text stored_next s1 nxt)
  show ?case
    by (rule tx.law_trans [OF insert_occurrence_tx [OF 1(7)] frames_tx [OF replace_schedule_frames [OF 1(9)]]])
qed

lemma claim_due_elim:
  assumes "claim_due ctx cv tokens now expected s = Inr (c, s')"
  obtains (idle) "interrupt_expired ctx (cv_stamp cv now) s = Inr s'" "c = None"
  | (event) s1 key row schedule config where "interrupt_expired ctx (cv_stamp cv now) s = Inr s1"
      "due_selected (cv_stamp cv now) expected s1 = Some (key, row)"
      "schedule_from_row cv (sha256 ctx) key row = Inr schedule" "lc_trigger schedule = Trigger_Event config"
      "events_claim ctx cv tokens now key row config s1 = Inr (c, s')"
  | (slot) s1 key row schedule where "interrupt_expired ctx (cv_stamp cv now) s = Inr s1"
      "due_selected (cv_stamp cv now) expected s1 = Some (key, row)"
      "schedule_from_row cv (sha256 ctx) key row = Inr schedule" "\<not> is_event (lc_trigger schedule)"
      "claim_slot ctx cv tokens now key row schedule s1 = Inr (c, s')"
proof -
  obtain s1 where s1: "interrupt_expired ctx (cv_stamp cv now) s = Inr s1" and
    body: "(case due_selected (cv_stamp cv now) expected s1 of
       None \<Rightarrow> Inr (None, s1)
     | Some (key, row) \<Rightarrow>
         if (case expected of None \<Rightarrow> False
             | Some (key', revision) \<Rightarrow> key \<noteq> key' \<or> sr_revision row \<noteq> revision)
         then Inl err_due_changed else
         bindE (schedule_from_row cv (sha256 ctx) key row) (\<lambda>schedule.
         case lc_trigger schedule of
           Trigger_Event config \<Rightarrow> events_claim ctx cv tokens now key row config s1
         | _ \<Rightarrow> claim_slot ctx cv tokens now key row schedule s1)) = Inr (c, s')"
    using assms unfolding claim_due_def by (elim bindE_elim)
  show thesis
  proof (cases "due_selected (cv_stamp cv now) expected s1")
    case None
    with body s1 show thesis by (intro idle) simp_all
  next
    case (Some kr)
    obtain key row where kr: "kr = (key, row)" by (cases kr)
    note sel = Some [unfolded kr]
    from body [unfolded sel option.case prod.case] show thesis
    proof (elim result_elims, goal_cases)
      case (1 schedule)
      show ?case
      proof (cases "lc_trigger schedule")
        case (Trigger_Event config)
        with 1 show thesis by (intro event [OF s1 sel 1(2) Trigger_Event]) simp
      qed (use 1 slot [OF s1 sel 1(2)] in \<open>simp_all add: is_event_def\<close>)
    qed
  qed
qed

lemma claim_due_tx:
  assumes "claim_due ctx cv tokens now expected s = Inr (c, s')"
  shows "tx_law s s'"
  using assms
proof (cases rule: claim_due_elim)
  case idle
  then show ?thesis using interrupt_expired_tx by blast
next
  case (event s1 key row schedule config)
  show ?thesis by (rule tx.law_trans [OF interrupt_expired_tx [OF event(1)] events_claim_tx [OF event(5)]])
next
  case (slot s1 key row schedule)
  show ?thesis by (rule tx.law_trans [OF interrupt_expired_tx [OF slot(1)] claim_slot_tx [OF slot(5)]])
qed

section \<open>Staging\<close>

lemma put_work_rest: "put_work ctx w s = Inr s' \<Longrightarrow> occurrences s' = occurrences s \<and> schedules s' = schedules s"
  by (auto simp: put_work_Inr)

lemma create_room_rest:
  assumes "create_room ctx key title kind members lead project s = Inr (r, s')"
  shows "occurrences s' = occurrences s \<and> schedules s' = schedules s \<and> works s' = works s"
  using assms
proof (rule create_room_elim)
  fix s1 th
  assume "thread_create key (c_title r) (time ctx) s = Inr s1" "put_conversation ctx r (s1\<lparr>threads := th\<rparr>) = Inr s'"
  then show ?thesis
    by (auto simp: thread_create_def bindE_Inr Let_def dest!: put_conversation_Inr split: if_splits)
qed

lemma stage_schedule_rest:
  assumes "stage_schedule ctx claim s = Inr (it, s')"
  shows "occurrences s' = occurrences s \<and> schedules s' = schedules s"
proof (cases "tget (works s) (schedule_work_id claim)")
  case None
  from assms None show ?thesis
  proof (rule stage_elim, goal_cases)
    case (1 captured members r s1 s2 it0 event)
    note a = create_room_rest [OF 1(3)]
    have "tget (works s1) (schedule_work_id claim) = None" using a None by simp
    from start_one_elim [OF 1(4) this] have "occurrences s2 = occurrences s1 \<and> schedules s2 = schedules s1"
      using put_work_rest by metis
    with a put_work_rest [OF 1(7)] show ?case by simp
  qed
next
  case (Some w)
  with assms show ?thesis by (simp add: stage_schedule_def Let_def bindE_Inr split: if_splits)
qed

lemma decode_occurrence_frozen:
  assumes "decode_occurrence v = Some p"
  shows "frozen_request v = (Some (oy_prompt p), Some (oy_provider_id p), Some (oy_model p))"
  using assms unfolding decode_occurrence_def
  by (auto simp: bind_eq_Some_conv req_def frozen_request_def jget_str_def)

lemma encode_occurrence_frozen:
  "frozen_request (encode_occurrence p) = (Some (oy_prompt p), Some (oy_provider_id p), Some (oy_model p))"
  by (simp add: frozen_request_def jget_str_def encoded_occurrence)

lemma stage_at_elim:
  assumes "stage_at ctx cv key token now s = Inr (it, s')"
  obtains row schedule payload s1 where "tget (occurrences s) key = Some row"
    "tget (schedules s) (oc_schedule_id row) = Some schedule" "oc_state row = ''claimed''"
    "oc_claim_fingerprint row = sha256 ctx token" "cv_stamp cv now < oc_lease_expires_at row"
    "sr_status schedule = ''enabled''" "decode_occurrence (oc_payload row) = Some payload"
    "oy_execution_kind payload = ''agent''"
    "stage_schedule (ctx\<lparr>time := cv_stamp cv now\<rparr>) (frozen_claim key row payload) s = Inr (it, s1)"
    "replace_occurrence key
       (row\<lparr>oc_payload := encode_occurrence (payload\<lparr>oy_work_id := Some (w_id it)\<rparr>)\<rparr>) [''claimed''] s1 = Inr s'"
  using assms unfolding stage_at_def
proof (elim result_elims, goal_cases)
  case (1 row schedule u payload x)
  then show ?case
    by (cases x) (auto simp: bindE_Inr not_le intro: 1(1) [of row schedule payload])
qed

lemma stage_at_tx:
  assumes "stage_at ctx cv key token now s = Inr (it, s')"
  shows "tx_law s s'"
  using assms
proof (rule stage_at_elim)
  fix row schedule payload s1
  assume row: "tget (occurrences s) key = Some row" "oc_state row = ''claimed''"
    and p: "decode_occurrence (oc_payload row) = Some payload"
    and st: "stage_schedule (ctx\<lparr>time := cv_stamp cv now\<rparr>) (frozen_claim key row payload) s = Inr (it, s1)"
    and r: "replace_occurrence key
       (row\<lparr>oc_payload := encode_occurrence (payload\<lparr>oy_work_id := Some (w_id it)\<rparr>)\<rparr>) [''claimed''] s1 = Inr s'"
  note same = stage_schedule_rest [OF st]
  have "tx_law s s1" using same stage_schedule_law [OF st] by (simp add: tx_law_def ledger_same)
  moreover have "tx_law s1 s'"
    by (rule replace_occurrence_tx [OF r])
      (use row same wf_row [of s1 key row] decode_occurrence_frozen [OF p] in
        \<open>auto simp: move_defs encode_occurrence_frozen\<close>)
  ultimately show ?thesis by (rule tx.law_trans)
qed

lemma stage_background_tx:
  assumes "stage_background ctx cv claim now s = Inr (it, s')"
  shows "tx_law s s'"
  using assms unfolding stage_background_def Let_def
proof (elim bindE_elim, goal_cases)
  case (1 x)
  obtain it0 s1 where x: "x = (it0, s1)" by (cases x)
  from 1(2) [unfolded x prod.case] obtain w s2 where w: "tget (works s1) (''work-schedule-'' @ cl_occurrence_id claim) = Some w"
    and put: "put_work ctx (w\<lparr>w_execution_owner := Some ''native-background''\<rparr>) s1 = Inr s2" and s': "s' = s2"
    by (auto simp: bindE_Inr ok_or_Inr)
  have q: "work_quiet w (w\<lparr>w_execution_owner := Some ''native-background''\<rparr>)"
    by (simp add: work_law_defs work_wf_def)
  have "tx_law s1 s'"
    unfolding s' tx_law_def using quiet.adv_put [OF w q put] put_work_rest [OF put] by (simp add: ledger_same)
  with stage_at_tx [OF 1(1) [unfolded x]] show ?case by (rule tx.law_trans)
qed

section \<open>Steps\<close>

inductive ledger_step :: "store \<Rightarrow> store \<Rightarrow> bool" where
  claims_due: "claim_due ctx cv tokens now expected s = Inr (c, s') \<Longrightarrow> ledger_step s s'"
| binds: "bind_pending_attempt ctx key print attempt now lease s = Inr s' \<Longrightarrow> ledger_step s s'"
| renews: "renew_running_lease key print attempt now lease s = Inr s' \<Longrightarrow> ledger_step s s'"
| gives_up: "interrupt_claimed ctx key print detail now s = Inr s' \<Longrightarrow> ledger_step s s'"
| finishes: "finish_occurrence key print attempt outcome detail now s = Inr s' \<Longrightarrow> ledger_step s s'"
| stages: "stage_at ctx cv key token at' s = Inr (it, s') \<Longrightarrow> ledger_step s s'"
| stages_owned: "stage_background ctx cv claim at' s = Inr (it, s') \<Longrightarrow> ledger_step s s'"
| creates: "create_at ctx cv cr at' s = Inr (v, s') \<Longrightarrow> ledger_step s s'"
| updates: "update_at ctx cv ur at' s = Inr (v, s') \<Longrightarrow> ledger_step s s'"
| switches: "set_status_at ctx cv sr at' s = Inr (v, s') \<Longrightarrow> ledger_step s s'"
| saves_event: "event_trigger_save rk route ctx cv label er at' later s0 s = Inr (v, s') \<Longrightarrow> ledger_step s s'"
| loses_key: "pause_revoked_key ctx cv agent key_id target at' s = Inr s' \<Longrightarrow> ledger_step s s'"
| receives: "receive lossy verify sanitize ctx cv schedule route headers raw at' key s0 s = Inr (rc, s')
    \<Longrightarrow> ledger_step s s'"
| sweeps: "sweep ctx cv at' s = Inr s' \<Longrightarrow> ledger_step s s'"
| reads_history: "event_delivery_list ctx cv label schedule at' later s = Inr (events, s') \<Longrightarrow> ledger_step s s'"

inductive_cases ledger_stepE: "ledger_step s s'"

lemmas step_once = r_into_rtranclp [of ledger_step]

lemmas definition_frames = create_frames update_frames set_status_frames save_event_frames
  pause_key_frames receive_frames sweep_frames history_frames

lemmas step_tx_laws = claim_due_tx bind_pending_tx renew_tx interrupt_claimed_tx finish_occurrence_tx
  stage_at_tx stage_background_tx definition_frames [THEN frames_tx]

lemma ledger_step_law: "ledger_step s s' \<Longrightarrow> tx_law s s'"
  by (erule ledger_stepE) (erule step_tx_laws)+

lemma ledger_step_quiet: "ledger_step s s' \<Longrightarrow> advances work_quiet quiet_new s s'"
  using ledger_step_law by (simp add: tx_law_def)

text \<open>The owners of a claim do nothing but ledger steps and the Work of project research.\<close>

lemma dispatch_claim_steps:
  "dispatch_claim rk ctx cv tokens label ws key n now (a, s) = (r, (a', s')) \<Longrightarrow> ledger_step\<^sup>*\<^sup>* s s'"
  by (auto simp: dispatch_claim_def bindE_Inr split: sum.splits if_splits option.splits prod.splits
      intro: r_into_rtranclp claims_due)

lemma dispatch_stage_steps:
  "dispatch_stage rk ctx cv label ws key token now (a, s) = (r, (a', s')) \<Longrightarrow> ledger_step\<^sup>*\<^sup>* s s'"
  by (auto simp: dispatch_stage_def bindE_Inr split: sum.splits prod.splits
      intro: r_into_rtranclp stages)

lemma dispatch_renew_steps:
  "dispatch_renew ctx cv label ws key token attempt now (a, s) = (r, (a', s')) \<Longrightarrow> ledger_step\<^sup>*\<^sup>* s s'"
  by (auto simp: dispatch_renew_def renew_bound_occurrence_lease_def bindE_Inr split: sum.splits prod.splits
      intro: r_into_rtranclp renews)

lemma dispatch_abandon_steps:
  "dispatch_abandon ctx cv label ws key token detail now (a, s) = (r, (a', s')) \<Longrightarrow> ledger_step\<^sup>*\<^sup>* s s'"
  by (auto simp: dispatch_abandon_def bindE_Inr split: sum.splits prod.splits if_splits
      intro: r_into_rtranclp gives_up)

lemma record_project_cases:
  assumes "record_project_occurrence ctx cv key run finished now s = Inr s'"
  obtains "s' = s" | ctx' where "finished" "finish_schedule ctx' run s = Inr s'"
  | ctx' project agent where "\<not> finished" "bind_schedule ctx' project agent run s = Inr s'"
  using assms unfolding record_project_occurrence_def Let_def
  by (elim bindE_elim) (auto split: if_splits option.splits)

lemma dispatch_bind_steps:
  assumes "dispatch_bind ctx cv label ws key token attempt now later (a, s) = (r, (a', s'))"
  obtains s1 where "ledger_step\<^sup>*\<^sup>* s s1"
    "s' = s1 \<or> record_project_occurrence ctx cv key attempt False later s1 = Inr s'"
  using assms
  by (auto simp: dispatch_bind_def bind_claim_to_pending_attempt_def bindE_Inr split: sum.splits prod.splits
      intro: that [OF rtranclp.rtrancl_refl] that [OF step_once [OF binds]])

lemma dispatch_finish_steps:
  assumes "dispatch_finish ctx cv label ws key token attempt outcome detail now later (a, s) = (r, (a', s'))"
  obtains s1 where "ledger_step\<^sup>*\<^sup>* s s1"
    "s' = s1 \<or> record_project_occurrence ctx cv key attempt True later s1 = Inr s'"
  using assms
  by (auto simp: dispatch_finish_def finish_bound_occurrence_def bindE_Inr split: sum.splits prod.splits if_splits
      intro: that [OF rtranclp.rtrancl_refl] that [OF step_once [OF finishes]])

lemma claim_drop_steps: "ledger_step\<^sup>*\<^sup>* s (claim_drop ctx cv hold now s)"
  by (auto simp: claim_drop_def finish_bound_occurrence_def Let_def split: option.splits sum.splits if_splits
      intro: r_into_rtranclp finishes gives_up)

lemma background_schedule_steps:
  assumes "background_schedule_next ctx cv tokens now drop_now s = (r, s')"
  shows "ledger_step\<^sup>*\<^sup>* s s'"
proof -
  have staged: "ledger_step\<^sup>*\<^sup>* s s2" if "claim_due ctx cv tokens now e s = Inr (c, s1)"
    "stage_background ctx cv c' at' s1 = Inr (it, s2)" for e c s1 c' at' it s2
    using that by (meson claims_due stages_owned rtranclp.rtrancl_into_rtrancl r_into_rtranclp)
  have dropped: "ledger_step\<^sup>*\<^sup>* s (claim_drop ctx cv h drop_now s1)"
    if "claim_due ctx cv tokens now e s = Inr (c, s1)" for e c s1 h
    using that claim_drop_steps by (meson claims_due converse_rtranclp_into_rtranclp)
  from assms staged dropped show ?thesis
    by (auto simp: background_schedule_next_def bindE_Inr Let_def
        split: sum.splits option.splits if_splits prod.splits intro: r_into_rtranclp claims_due)
qed

end
