(* ===== verification/Work_Engine.thy ===== *)
theory Work_Engine
  imports Work_Commands Work_Adoption Ledger_Laws
begin

text \<open>
  The engine as a whole: the entry points of \<open>collaboration.rs\<close> (\<open>collaboration_command\<close>,
  \<open>collaboration_load\<close>) and a step relation whose steps are the accepted transactions of every
  component, those of the schedule ledger included. A \<open>calm_step\<close> may not start an execution, a \<open>grant_step\<close> may, a \<open>load_step\<close> is the
  adoption of legacy records when the interface loads. Each transaction runs in a context of its
  own: profiles, time and process differ from step to step.
\<close>

section \<open>Entry points\<close>

text \<open>
  The files of staged attachments are verified in the agent's directory before the command is
  applied; \<open>verify_files agent refs\<close> stands for \<open>verify_attachment_files\<close>.
\<close>

definition verify_command ::
  "(string \<Rightarrow> work_attachment list \<Rightarrow> cerr + unit) \<Rightarrow> command \<Rightarrow> store \<Rightarrow> cerr + unit" where
  "verify_command verify_files c s =
     (case c of
        BindWork key _ _ (Some refs) \<Rightarrow>
          bindE (item s key) (\<lambda>it. verify_files (w_agent_id it) refs)
      | StartWork _ _ _ agent _ _ _ _ (Some refs) \<Rightarrow> verify_files agent refs
      | _ \<Rightarrow> Inr ())"

definition collaboration_command ::
  "(string \<Rightarrow> work_attachment list \<Rightarrow> cerr + unit) \<Rightarrow> ctx \<Rightarrow> command \<Rightarrow> store \<Rightarrow> cerr + store" where
  "collaboration_command verify_files ctx c s =
     bindE (verify_command verify_files c s) (\<lambda>_.
     bindE (apply_command ctx c s) (\<lambda>s1.
     case c of StartWork _ key _ _ _ _ _ _ _ \<Rightarrow> background_admit ctx key s1 | _ \<Rightarrow> Inr s1))"

definition collaboration_load :: "ctx \<Rightarrow> store \<Rightarrow> cerr + store" where
  "collaboration_load ctx s = bindE (adopt_existing ctx s) (reconcile_profiles ctx)"

text \<open>
  The background owner binds a staged assignment together with the occurrence it holds; an
  assignment without a schedule is bound alone.
\<close>

definition scheduled_bind :: "ctx \<Rightarrow> (string \<Rightarrow> store \<Rightarrow> cerr + store) option \<Rightarrow> bool" where
  "scheduled_bind ctx bind_at =
     (bind_at = None \<or> (\<exists>cv hold now. bind_at = Some (claim_bind ctx cv hold now)))"

text \<open>What such a binding touches beside the ledger of occurrences: nothing.\<close>

definition ledger_only :: "(string \<Rightarrow> store \<Rightarrow> cerr + store) \<Rightarrow> bool" where
  "ledger_only bind =
     (\<forall>run t t'. bind run t = Inr t' \<longrightarrow> (\<exists>occ. t' = t\<lparr>occurrences := occ\<rparr>))"

lemma claim_bind_ledger_only: "ledger_only (claim_bind ctx cv hold now)"
  unfolding ledger_only_def
proof (intro allI impI)
  fix run t t'
  assume "claim_bind ctx cv hold now run t = Inr t'"
  then show "\<exists>occ. t' = t\<lparr>occurrences := occ\<rparr>"
    unfolding claim_bind_def by (rule bind_pending_elim) (erule replace_occurrence_elim, rule exI)
qed

lemma scheduled_ledger_only: "scheduled_bind ctx bind_at \<Longrightarrow> bind_at = Some bind \<Longrightarrow> ledger_only bind"
  using claim_bind_ledger_only unfolding scheduled_bind_def by auto

section \<open>Steps\<close>

inductive calm_step :: "store \<Rightarrow> store \<Rightarrow> bool" where
  command: "collaboration_command v ctx c s = Inr s' \<Longrightarrow> fresh_command ctx c s \<Longrightarrow> \<not> grants_execution c
    \<Longrightarrow> calm_step s s'"
| admits_live: "live_admit ctx key g event body s = Inr (r, s') \<Longrightarrow> calm_step s s'"
| receives_live: "live_receipt ctx key g event d s = Inr s' \<Longrightarrow> calm_step s s'"
| next_background: "background_next ctx s = Inr (w, s') \<Longrightarrow> calm_step s s'"
| finishes_background: "finish_at ctx it attempt status s = Inr (st, s') \<Longrightarrow> calm_step s s'"
| checkpoints: "checkpoint ctx it attempt s = Inr s' \<Longrightarrow> calm_step s s'"
| interrupts: "interrupt_bound_attempt ctx it run s = Inr s' \<Longrightarrow> calm_step s s'"
| blocks: "background_blocked ctx it reason s = Inr s' \<Longrightarrow> calm_step s s'"
| recovers_background: "background_recover ctx s = Inr s' \<Longrightarrow> calm_step s s'"
| recovers: "recover ctx s = Inr s' \<Longrightarrow> calm_step s s'"
| fences: "fence_orphaned_executing_work ctx s = Inr s' \<Longrightarrow> calm_step s s'"
| suspends: "suspend_account ctx s = Inr s' \<Longrightarrow> calm_step s s'"
| edits_project: "project_changed ctx project arch s = Inr s' \<Longrightarrow> calm_step s s'"
| hands_over: "handover_pause ctx agent reason s = Inr s' \<Longrightarrow> calm_step s s'"
| schedules: "ledger_step s s' \<Longrightarrow> calm_step s s'"
| finishes_schedule: "finish_schedule ctx run s = Inr s' \<Longrightarrow> calm_step s s'"
| logs: "log_step ctx s s' \<Longrightarrow> calm_step s s'"
| saves_attempt: "upsert_attempt key row s = Inr s' \<Longrightarrow> calm_step s s'"
| pauses: "execution_control_pause ctx confirmation s = Inr (st, s') \<Longrightarrow> calm_step s s'"
| resumes: "execution_control_resume ctx base confirmation s = Inr (st, s') \<Longrightarrow> calm_step s s'"
| enables: "set_enabled_at enabled s = Inr s' \<Longrightarrow> calm_step s s'"

inductive grant_step :: "store \<Rightarrow> store \<Rightarrow> bool" where
  grants: "collaboration_command v ctx c s = Inr s' \<Longrightarrow> grants_execution c \<Longrightarrow> grant_step s s'"
| claims: "background_claim ctx it attempt bind_at s = Inr s'
    \<Longrightarrow> scheduled_bind ctx bind_at \<Longrightarrow> grant_step s s'"
| binds_schedule: "bind_schedule ctx project agent run s = Inr s' \<Longrightarrow> grant_step s s'"

inductive load_step :: "store \<Rightarrow> store \<Rightarrow> bool" where
  loads: "collaboration_load ctx s = Inr s' \<Longrightarrow> load_step s s'"

inductive engine_step :: "store \<Rightarrow> store \<Rightarrow> bool" where
  calm: "calm_step s s' \<Longrightarrow> engine_step s s'"
| grant: "grant_step s s' \<Longrightarrow> engine_step s s'"
| load: "load_step s s' \<Longrightarrow> engine_step s s'"

inductive_cases calm_stepE: "calm_step s s'"
inductive_cases grant_stepE: "grant_step s s'"
inductive_cases load_stepE: "load_step s s'"
inductive_cases engine_stepE: "engine_step s s'"

section \<open>Laws of the steps\<close>

lemma log_law: "log_step ctx s s' \<Longrightarrow> advances work_quiet quiet_new s s'"
proof (erule log_stepE, goal_cases)
  case (1 thread a)
  then show ?case
  proof (cases rule: append_elim)
    case (appended key revision th parent)
    then show ?thesis by (intro quiet.adv_same) (simp_all add: store_ok_def tinv_tput)
  qed simp
next
  case (2 thread r)
  then show ?case
  proof (cases rule: revise_elim)
    case (revised cur)
    then show ?thesis by (intro quiet.adv_same) (simp_all add: store_ok_def)
  qed simp
next
  case (3 thread head at')
  then show ?case unfolding select_head_def
    by (elim result_elims, intro quiet.adv_same) (auto simp: store_ok_def intro: tinv_tput)
qed

lemma control_update_law: "control_update ctx base paused s = Inr (st, s') \<Longrightarrow> advances work_quiet quiet_new s s'"
  unfolding control_update_def write_state_def Let_def
  by (elim result_elims, intro quiet.adv_same) (auto simp: store_ok_def split: if_splits)

lemma pause_law: "execution_control_pause ctx c s = Inr (st, s') \<Longrightarrow> advances work_quiet quiet_new s s'"
  unfolding execution_control_pause_def by (elim guard_elim) (rule control_update_law)

lemma resume_law: "execution_control_resume ctx b c s = Inr (st, s') \<Longrightarrow> advances work_quiet quiet_new s s'"
  unfolding execution_control_resume_def by (elim guard_elim) (rule control_update_law)

lemma set_enabled_law: "set_enabled_at b s = Inr s' \<Longrightarrow> advances work_quiet quiet_new s s'"
  unfolding set_enabled_at_def
  by (elim bindE_elim, intro quiet.adv_same) (auto simp: store_ok_def split: if_splits)

lemma collaboration_command_elim:
  assumes "collaboration_command v ctx c s = Inr s'"
  obtains s1 where "apply_command ctx c s = Inr s1"
    "s' = s1 \<or> (\<not> grants_execution c \<and> (\<exists>key. background_admit ctx key s1 = Inr s'))"
proof -
  obtain s1 where s1: "apply_command ctx c s = Inr s1"
      "(case c of StartWork _ key _ _ _ _ _ _ _ \<Rightarrow> background_admit ctx key s1 | _ \<Rightarrow> Inr s1) = Inr s'"
    using assms unfolding collaboration_command_def by (elim bindE_elim)
  from s1(2) have "s' = s1 \<or> (\<not> grants_execution c \<and> (\<exists>key. background_admit ctx key s1 = Inr s'))"
    by (cases c) (auto simp: grants_execution_def)
  with s1(1) show thesis by (rule that)
qed

lemma collaboration_command_calm:
  assumes "collaboration_command v ctx c s = Inr s'" and "fresh_command ctx c s" and "\<not> grants_execution c"
  shows "advances work_calm calm_new s s'"
  using assms(1)
proof (rule collaboration_command_elim)
  fix s1
  assume 1: "apply_command ctx c s = Inr s1"
    "s' = s1 \<or> (\<not> grants_execution c \<and> (\<exists>key. background_admit ctx key s1 = Inr s'))"
  from 1(2) have "advances work_calm calm_new s1 s'" using admit_law quiet_calm by (metis calm.adv_refl)
  with apply_calm [OF 1(1) assms(2,3)] show ?thesis using calm.adv_trans by metis
qed

lemmas step_quiet_laws = live_admit_law live_receipt_law next_law finish_at_law checkpoint_law
  interrupt_bound_law blocked_law background_recover_law recover_law fence_law suspend_law
  project_changed_law handover_law ledger_step_quiet finish_schedule_law log_law upsert_law
  pause_law resume_law set_enabled_law

lemma calm_step_law: "calm_step s s' \<Longrightarrow> advances work_calm calm_new s s'"
  by (erule calm_stepE) (erule collaboration_command_calm, assumption+, (rule quiet_calm, erule step_quiet_laws)+)

lemma ledger_law:
  assumes "ledger_only bind" and "bind run t = Inr t'"
  shows "advances work_extends work_wf t t'"
proof -
  obtain occ where "t' = t\<lparr>occurrences := occ\<rparr>" using assms unfolding ledger_only_def by metis
  then show ?thesis by (intro extends.adv_same) (simp_all add: store_ok_def)
qed

lemma grant_step_law:
  assumes "grant_step s s'"
  shows "advances work_extends work_wf s s'"
  using assms
proof (cases rule: grant_step.cases)
  case (grants v ctx c)
  from grants(1) show ?thesis
  proof (rule collaboration_command_elim)
    fix s1
    assume 1: "apply_command ctx c s = Inr s1"
      "s' = s1 \<or> (\<not> grants_execution c \<and> (\<exists>key. background_admit ctx key s1 = Inr s'))"
    moreover have "fresh_command ctx c s"
      using grants(2) by (cases c) (simp_all add: grants_execution_def fresh_command_def)
    ultimately show ?thesis using apply_extends grants(2) by metis
  qed
next
  case (claims ctx it attempt bind_at)
  from claims(1) show ?thesis by (rule claim_law) (use scheduled_ledger_only [OF claims(2)] ledger_law in metis)
next
  case (binds_schedule ctx project agent run)
  then show ?thesis by (rule bind_schedule_law)
qed

lemma load_step_elim:
  assumes "load_step s s'"
  obtains t where "adopts s t" "advances work_quiet quiet_new t s'"
  using assms
proof (cases rule: load_step.cases)
  case (loads ctx)
  then show ?thesis
    unfolding collaboration_load_def
    by (elim bindE_elim) (rule that, rule adopt_existing_adopts(1), assumption, rule reconcile_profiles_law)
qed

section \<open>What every step keeps\<close>

lemma engine_step_elim:
  assumes "engine_step s s'" and "store_ok s"
  obtains t where "store_ok t" "works t = works s" "advances work_extends work_wf t s'"
  using assms(1)
proof (cases rule: engine_step.cases)
  case calm
  from that [OF assms(2) refl calm_extends [OF calm_step_law [OF calm]]] show thesis .
next
  case grant
  from that [OF assms(2) refl grant_step_law [OF grant]] show thesis .
next
  case load
  then show thesis
  proof (rule load_step_elim)
    fix t assume "adopts s t" "advances work_quiet quiet_new t s'"
    with assms(2) show thesis by (intro that [of t]) (simp_all add: adopts_def quiet_extends)
  qed
qed

lemma engine_step_ok:
  assumes "engine_step s s'" and "store_ok s"
  shows "store_ok s'" and "works_wf s \<Longrightarrow> works_wf s'"
    and "tget (works s) k = Some w \<Longrightarrow> \<exists>w'. tget (works s') k = Some w' \<and> work_extends w w'"
proof -
  obtain t where t: "store_ok t" "works t = works s" "advances work_extends work_wf t s'"
    using assms by (rule engine_step_elim)
  show "store_ok s'" using advancesD(1) [OF t(3,1)] .
  show "works_wf s \<Longrightarrow> works_wf s'" using works_wf_advances [OF t(3,1)] t(2) by (simp add: works_wf_def)
  show "tget (works s) k = Some w \<Longrightarrow> \<exists>w'. tget (works s') k = Some w' \<and> work_extends w w'"
    using advancesD(2) [OF t(3,1)] t(2) by simp
qed

section \<open>One executor per agent\<close>

definition single_executor :: "store \<Rightarrow> bool" where
  "single_executor s =
     (\<forall>k w k' w'. tget (works s) k = Some w \<longrightarrow> tget (works s) k' = Some w' \<longrightarrow> executing (w_status w)
        \<longrightarrow> executing (w_status w') \<longrightarrow> w_agent_id w = w_agent_id w' \<longrightarrow> k = k')"

lemma idle_origin:
  assumes "advances work_idle idle_new s s'" and "store_ok s" and "tget (works s') k = Some w'"
    and "executing (w_status w')"
  shows "\<exists>w. tget (works s) k = Some w \<and> executing (w_status w) \<and> w_agent_id w' = w_agent_id w"
proof (cases "tget (works s) k")
  case None
  from advancesD(3) [OF assms(1,2) None assms(3)] assms(4) show ?thesis by (simp add: idle_new_def)
next
  case (Some w)
  from advancesD(2) [OF assms(1,2) Some] assms(3,4) have "work_idle w w'" by auto
  with Some assms(4) show ?thesis by (simp add: work_idle_def)
qed

lemma idle_single:
  assumes "advances work_idle idle_new s s'" and "store_ok s" and "single_executor s"
  shows "single_executor s'"
  unfolding single_executor_def
proof (intro allI impI)
  fix k w k' w'
  assume "tget (works s') k = Some w" "tget (works s') k' = Some w'" "executing (w_status w)"
    "executing (w_status w')" "w_agent_id w = w_agent_id w'"
  with idle_origin [OF assms(1,2)] assms(3) show "k = k'" unfolding single_executor_def by metis
qed

text \<open>What binding a queued assignment changes.\<close>

lemma bind_effect:
  assumes "bind_work ctx key g run as s = Inr s'" and "store_ok s"
  obtains (already) it where "s' = s" "tget (works s) key = Some it" "w_current_run_id it = Some run"
      "executing (w_status it)"
  | (started) it it1 root t where "tget (works s) key = Some it" "w_status it = Queued" "w_generation it = g"
      "ensure_dispatchable s it = Inr ()" "check_prerequisites t it1 = Inr ()" "\<not> limit_reached root"
      "check_attempt t run it1 = Inr ()" "work_quiet it it1" "advances work_quiet quiet_new s t"
      "tget (works t) key = Some it1" "tget (works t) (w_root_id it1) = Some root"
      "tget (works s') key = Some (bound ctx run t it1)"
      "\<And>k. k \<noteq> key \<Longrightarrow> tget (works s') k =
         (if k = w_root_id it1 then Some (root\<lparr>w_turn_count := w_turn_count root + 1\<rparr>) else tget (works t) k)"
      "\<And>k w. tget (works t) k = Some w \<Longrightarrow> w_agent_id w = w_agent_id it1 \<Longrightarrow> executing (w_status w) \<Longrightarrow> k = key"
      "tget (authors s) run = None"
      "tget (authors s') run = Some \<lparr>au_run_id = run, au_conversation_id = w_conversation_id it1,
         au_agent_id = w_agent_id it1, au_name = w_agent_name it1, au_work_id = Some key, au_generation = g\<rparr>"
      "\<And>k. k \<noteq> key \<Longrightarrow> tget (works t) k = tget (works s) k"
      "w_turn_count it1 = w_turn_count it" "w_max_turns it1 = w_max_turns it"
      "w_token_usage it1 = w_token_usage it" "w_max_tokens it1 = w_max_tokens it"
  using assms(1)
proof (cases rule: bind_work_cases)
  case (1 it)
  then show thesis by (intro already)
next
  case (2 it it1 t root)
  note cur = current_item [OF 2(1)]
  note inputs = bind_inputs_law [OF 2(4) cur(1)]
  have okt: "store_ok t" using advancesD(1) [OF inputs(1) assms(2)] .
  have it1: "tget (works t) key = Some it1" using inputs(2) [OF assms(2)] .
  have ids: "w_id it1 = key" "w_id root = w_root_id it1"
    using work_id [OF okt it1] work_id [OF okt bind_admit_Inr(3) [OF 2(5)]] by simp_all
  have q: "work_quiet it it1"
    using advancesD(2) [OF inputs(1) assms(2) cur(1)] it1 by simp
  have auth: "authors t = authors s"
    using bind_inputs_Inr [OF 2(4)] put_work_other_tables(1) by metis
  have same: "w_turn_count it1 = w_turn_count it" "w_max_turns it1 = w_max_turns it"
      "w_token_usage it1 = w_token_usage it" "w_max_tokens it1 = w_max_tokens it"
    using bind_inputs_Inr [OF 2(4)] by (elim disjE exE conjE; simp)+
  have rest: "tget (works t) k = tget (works s) k" if "k \<noteq> key" for k
    using bind_inputs_Inr [OF 2(4)] that ids(1) by (elim disjE exE conjE) (simp_all add: put_work_get)
  obtain s2 s3 a p where c: "w_id root = w_id it1 \<and> s2 = t \<or> w_id root \<noteq> w_id it1
        \<and> put_work ctx (root\<lparr>w_turn_count := w_turn_count root + 1\<rparr>) t = Inr s2"
    "put_work ctx (bound ctx run t it1) s2 = Inr s3" "save_author ctx run a p s3 = Inr s'"
    "a = \<lparr>au_run_id = run, au_conversation_id = w_conversation_id it1, au_agent_id = w_agent_id it1,
        au_name = w_agent_name it1, au_work_id = Some key, au_generation = g\<rparr>"
    using 2(6) by (rule bind_commit_Inr)
  have s2: "tget (works s2) k = (if k = w_root_id it1 \<and> k \<noteq> key
       then Some (root\<lparr>w_turn_count := w_turn_count root + 1\<rparr>) else tget (works t) k)" "authors s2 = authors t" for k
    using c(1) ids by (auto simp: put_work_get put_work_other_tables)
  have s': "works s' = works s3" "authors s' = tput run a (authors s3)" "tget (authors s3) run = None"
    using c(3) by (auto simp: save_author_def dest: put_author_Inr split: if_splits)
  have bid: "w_id (bound ctx run t it1) = key" using ids by (simp add: bound_def)
  show thesis
  proof (rule started [OF cur(1) 2(2) cur(2) 2(3) bind_admit_Inr(2) [OF 2(5)] bind_admit_Inr(4) [OF 2(5)]
        bind_admit_Inr(5) [OF 2(5)] q inputs(1) it1 bind_admit_Inr(3) [OF 2(5)]])
    show "tget (works s') key = Some (bound ctx run t it1)"
      using put_work_get [OF c(2)] s'(1) bid by simp
    show "tget (works s') k = (if k = w_root_id it1 then Some (root\<lparr>w_turn_count := w_turn_count root + 1\<rparr>)
        else tget (works t) k)" if "k \<noteq> key" for k
      using put_work_get [OF c(2), of k] s'(1) bid s2(1) [of k] that by simp
    show "k = key" if "tget (works t) k = Some w" "w_agent_id w = w_agent_id it1" "executing (w_status w)" for k w
      using bind_admit_Inr(1) [OF 2(5)] that works_rows [OF okt, of w] work_id [OF okt that(1)] ids(1) by metis
    show "tget (authors s) run = None"
      using s'(3) put_work_other_tables(1) [OF c(2)] s2(2) auth by simp
    show "tget (authors s') run = Some \<lparr>au_run_id = run, au_conversation_id = w_conversation_id it1,
         au_agent_id = w_agent_id it1, au_name = w_agent_name it1, au_work_id = Some key, au_generation = g\<rparr>"
      using s'(2) c(4) by (simp add: tget_tput)
  qed (use rest same in simp_all)
qed

lemma bind_single:
  assumes "bind_work ctx key g run as s = Inr s'" and "store_ok s" and "single_executor s"
  shows "single_executor s'"
  using assms(1,2)
proof (cases rule: bind_effect)
  case (started it it1 root t)
  have t: "single_executor t" using idle_single [OF quiet_idle [OF started(9)] assms(2,3)] .
  have from_t: "\<exists>v. tget (works t) k = Some v \<and> executing (w_status v) \<and> w_agent_id v = w_agent_id w"
    if "tget (works s') k = Some w" "executing (w_status w)" "k \<noteq> key" for k w
    using started(13) [OF that(3)] started(11) that(1,2)
    by (cases "k = w_root_id it1") (auto intro: sym)
  have agent: "w_agent_id (bound ctx run t it1) = w_agent_id it1" by (simp add: bound_def)
  have only: "k = key" if "tget (works s') k = Some w" "executing (w_status w)" "w_agent_id w = w_agent_id it1" for k w
  proof (rule ccontr)
    assume "k \<noteq> key"
    with from_t [OF that(1,2)] started(14) that(3) show False by metis
  qed
  show ?thesis
    unfolding single_executor_def
  proof (intro allI impI)
    fix k w k' w'
    assume w: "tget (works s') k = Some w" "tget (works s') k' = Some w'" "executing (w_status w)"
      "executing (w_status w')" "w_agent_id w = w_agent_id w'"
    show "k = k'"
    proof (cases "k = key \<or> k' = key")
      case True
      then have "w_agent_id w = w_agent_id it1" using w(1,2,5) started(12) agent by auto
      with only w show ?thesis by metis
    next
      case False
      with from_t w t show ?thesis unfolding single_executor_def by metis
    qed
  qed
qed (use assms(3) in simp)

lemma adopts_single:
  "adopts s t \<Longrightarrow> single_executor t = single_executor s"
  by (simp add: adopts_def single_executor_def)

lemma load_single: "load_step s s' \<Longrightarrow> store_ok s \<Longrightarrow> single_executor s \<Longrightarrow> single_executor s'"
  by (erule load_step_elim) (metis adopts_def adopts_single idle_single quiet_idle)

lemma calm_single: "calm_step s s' \<Longrightarrow> store_ok s \<Longrightarrow> single_executor s \<Longrightarrow> single_executor s'"
  using calm_step_law calm_idle idle_single by metis

lemma single_ledger: "single_executor (t\<lparr>occurrences := occ\<rparr>) = single_executor t"
  by (simp add: single_executor_def)

lemma claim_single:
  assumes "background_claim ctx it attempt bind_at s = Inr s'" and "scheduled_bind ctx bind_at"
    and "store_ok s" and "single_executor s"
  shows "single_executor s'"
  using assms(1) unfolding background_claim_def
proof (elim result_elims, goal_cases)
  case (1 cur ok agent s1 s2 s3)
  have s1: "store_ok s1 \<and> single_executor s1"
    using write_attempt_law [OF 1(7)] assms(3,4) idle_single quiet_idle advancesD(1) by metis
  have s2: "store_ok s2 \<and> single_executor s2"
  proof (cases "w_schedule it = None")
    case False
    with 1(8) obtain b where b: "bind_at = Some b" "b (at_id attempt) s1 = Inr s2"
      by (cases bind_at) auto
    then obtain occ where "s2 = s1\<lparr>occurrences := occ\<rparr>" using scheduled_ledger_only [OF assms(2)] unfolding ledger_only_def by metis
    with s1 show ?thesis by (simp add: single_ledger store_ok_def)
  qed (use 1 s1 in simp)
  have s3: "store_ok s3 \<and> single_executor s3"
    using bind_single [OF 1(9)] s2 advancesD(1) [OF bind_work_law [OF 1(9)]] by simp
  have "s' = s3 \<or> background_append ctx cur (at_id attempt) ''user'' (w_user_request it) s3 = Inr s'"
    using 1(10) by (cases "w_run_ids it = []") simp_all
  with s3 show ?case using background_append_law quiet_idle idle_single by metis
qed

lemma bind_schedule_single:
  assumes "bind_schedule ctx project agent run s = Inr s'" and "store_ok s" and "single_executor s"
  shows "single_executor s'"
  using assms(1)
proof (cases rule: bind_schedule_elim)
  case again
  then show ?thesis using bind_single assms(2,3) by metis
next
  case (first thread members prompt s1 s2 it s3)
  have "work_quiet it (it\<lparr>w_permission_mode := ''read-only''\<rparr>)"
    by (simp add: work_law_defs work_wf_def permission_rank_def)
  with quiet.adv_put [OF first(3) _ first(4)] have "advances work_quiet quiet_new s2 s3" by metis
  with put_conversation_law [OF first(1)] start_law [OF first(2)]
  have "advances work_quiet quiet_new s s3" using quiet.adv_trans by metis
  with bind_single [OF first(5)] assms(2,3) show ?thesis using quiet_idle idle_single advancesD(1) by metis
qed

lemma status_single:
  assumes "work_status_op ctx key g st reason s = Inr s'" and "store_ok s" and "single_executor s"
    and "\<And>w. tget (works s) key = Some w \<Longrightarrow> executing st \<Longrightarrow> executing (w_status w)"
  shows "single_executor s'"
  using assms(1)
proof (rule work_status_elim, goal_cases)
  case (1 it reason' s1 s2)
  have "advances work_idle idle_new s s1"
    by (rule idle.adv_put [OF 1(1) _ 1(6)]) (use assms(4) [OF 1(1)] in \<open>simp add: work_idle_def\<close>)
  moreover have "advances work_idle idle_new s1 s2"
    using 1(7) invalidate_children_law by (auto intro: quiet_idle)
  ultimately show ?case
    using quiet_idle [OF wake_waiters_law [OF 1(8)]] idle.adv_trans idle_single [OF _ assms(2,3)] by metis
qed

end
