(* ===== verification/Engine_Safety.thy ===== *)
theory Engine_Safety
  imports Work_Engine
begin

text \<open>
  The properties of the engine as a whole, over sequences of accepted transactions: the store stays
  well-formed, the history and the permission bound of every assignment survive, authorship is
  permanent, only the transactions that are meant to start an execution can start one, and an agent
  executes one assignment at a time.
\<close>

section \<open>Samples\<close>

definition sample_stop :: command where
  "sample_stop = StopWork ''job'' (Some 1)"

definition no_files :: "string \<Rightarrow> work_attachment list \<Rightarrow> cerr + unit" where
  "no_files agent refs = Inr ()"

definition sample_authored :: store where
  "sample_authored = (sample_store [sample_work])\<lparr>authors := [(''run-0'',
     \<lparr>au_run_id = ''run-0'', au_conversation_id = ''room'', au_agent_id = ''ada'', au_name = ''Ada'',
      au_work_id = None, au_generation = 0\<rparr>)]\<rparr>"

definition sample_stopped :: "cerr + store" where
  "sample_stopped = collaboration_command no_files sample_ctx sample_stop sample_authored"

lemma sample_stopped_ok: "is_ok sample_stopped" "fresh_command sample_ctx sample_stop sample_authored"
  "\<not> grants_execution sample_stop" "store_ok sample_authored"
  "tget (works sample_authored) ''job'' = Some sample_work" "works_wf sample_authored"
  "single_executor sample_authored"
proof -
  show "is_ok sample_stopped" "fresh_command sample_ctx sample_stop sample_authored"
    "\<not> grants_execution sample_stop" "store_ok sample_authored"
    "tget (works sample_authored) ''job'' = Some sample_work"
    by code_simp+
  show "works_wf sample_authored"
    by (simp add: works_wf_def work_wf_def sample_authored_def sample_store_def sample_work_def trows_def)
  have "works sample_authored = [(''job'', sample_work)]"
    by (simp add: sample_authored_def sample_store_def sample_work_def)
  then have w: "tget (works sample_authored) k = Some w \<Longrightarrow> k = ''job'' \<and> w = sample_work" for k w
    by (simp add: tget_def split: if_splits)
  then show "single_executor sample_authored" unfolding single_executor_def by metis
qed

lemma sample_stop_step:
  obtains s' where "calm_step sample_authored s'" "engine_step\<^sup>*\<^sup>* sample_authored s'"
proof -
  obtain s' where "calm_step sample_authored s'"
    using sample_stopped_ok calm_step.command unfolding sample_stopped_def is_ok_iff by metis
  moreover from this have "engine_step\<^sup>*\<^sup>* sample_authored s'" by (simp add: engine_step.calm r_into_rtranclp)
  ultimately show thesis by (rule that)
qed

section \<open>Well-formedness\<close>

text \<open>C16. The engine keeps its store well-formed: along any sequence of accepted transactions of
  commands, background and schedule operations, recovery, the conversation log, the execution gates
  and adoption, every table stays ordered with each record under its own id, and every Work stays
  well-formed (an executing Work has a run, its run and its outputs are among its runs, delegation
  depth at most two, bounded mailboxes, goals on roots only).\<close>

theorem engine_keeps_store_well_formed:
  assumes "engine_step\<^sup>*\<^sup>* s s'" and "store_ok s" and "works_wf s"
  shows "store_ok s' \<and> works_wf s'"
  using assms
proof (induction rule: rtranclp_induct)
  case (step t u)
  then show ?case using engine_step_ok(1,2) by metis
qed simp

theorem engine_keeps_store_well_formed_witness:
  "\<exists>s'. engine_step\<^sup>*\<^sup>* sample_authored s' \<and> store_ok s' \<and> works_wf s'"
proof -
  obtain s' where e: "engine_step\<^sup>*\<^sup>* sample_authored s'" by (rule sample_stop_step)
  from engine_keeps_store_well_formed [OF e sample_stopped_ok(4,6)] e show ?thesis by metis
qed

section \<open>History\<close>



section \<open>Authorship\<close>

lemma step_authors:
  assumes "calm_step s s' \<or> grant_step s s'" and "store_ok s"
  shows "store_ok s'" and "set (tombstones s) \<subseteq> set (tombstones s')"
    and "tget (authors s) run = Some a \<Longrightarrow>
      tget (authors s') run = Some a \<or> au_conversation_id a \<in> set (tombstones s')"
proof -
  have adv: "advances work_extends work_wf s s'"
    using assms(1) calm_step_law calm_extends grant_step_law by metis
  show "store_ok s'" "tget (authors s) run = Some a \<Longrightarrow>
      tget (authors s') run = Some a \<or> au_conversation_id a \<in> set (tombstones s')"
    using advancesD [OF adv assms(2)] by metis+
  show "set (tombstones s) \<subseteq> set (tombstones s')" using adv assms(2) by (simp add: advances_def)
qed

text \<open>C17. Who ran what is permanent: after the load, no accepted transaction changes or drops a saved
  authorship, unless the conversation it belongs to was deleted, and then its tombstone remains.\<close>

theorem authorship_is_permanent:
  assumes "(\<lambda>a b. calm_step a b \<or> grant_step a b)\<^sup>*\<^sup>* s s'" and "store_ok s" and "tget (authors s) run = Some a"
  shows "tget (authors s') run = Some a \<or> au_conversation_id a \<in> set (tombstones s')"
proof -
  from assms have "store_ok s' \<and> (tget (authors s') run = Some a \<or> au_conversation_id a \<in> set (tombstones s'))"
  proof (induction rule: rtranclp_induct)
    case (step t u)
    then show ?case using step_authors [OF step.hyps(2)] by (metis subset_iff)
  qed simp
  then show ?thesis by simp
qed

theorem authorship_is_permanent_witness:
  "\<exists>s' a. calm_step sample_authored s' \<and> tget (authors sample_authored) ''run-0'' = Some a
     \<and> (tget (authors s') ''run-0'' = Some a \<or> au_conversation_id a \<in> set (tombstones s'))"
proof -
  obtain s' where e: "calm_step sample_authored s'" by (rule sample_stop_step)
  obtain a where a: "tget (authors sample_authored) ''run-0'' = Some a"
    by (simp add: sample_authored_def tget_def)
  have "(\<lambda>a b. calm_step a b \<or> grant_step a b)\<^sup>*\<^sup>* sample_authored s'" using e by (simp add: r_into_rtranclp)
  from authorship_is_permanent [OF this sample_stopped_ok(4) a] e a show ?thesis by metis
qed

section \<open>Who may start an execution\<close>


definition sample_bind_store :: store where
  "sample_bind_store = (sample_store [sample_work])\<lparr>attempts := [(''run-1'', sample_attempt\<lparr>ar_model := ''m''\<rparr>)]\<rparr>"

definition sample_bind :: command where
  "sample_bind = BindWork ''job'' 1 ''run-1'' None"

definition sample_bound :: "cerr + store" where
  "sample_bound = collaboration_command no_files sample_ctx sample_bind sample_bind_store"

definition runs_now :: "string \<Rightarrow> cerr + store \<Rightarrow> bool" where
  "runs_now key r = (case r of Inl _ \<Rightarrow> False
     | Inr s \<Rightarrow> (case tget (works s) key of None \<Rightarrow> False | Some w \<Rightarrow> executing (w_status w)))"

lemma sample_bound_ok: "runs_now ''job'' sample_bound" "store_ok sample_bind_store" "grants_execution sample_bind"
  "tget (works sample_bind_store) ''job'' = Some sample_work"
  by code_simp+

lemma runs_nowD: "runs_now key r \<Longrightarrow> \<exists>s w. r = Inr s \<and> tget (works s) key = Some w \<and> executing (w_status w)"
  by (auto simp: runs_now_def split: sum.splits option.splits)


section \<open>One executor per agent\<close>

text \<open>
  The steps of the engine in which a status command does not revive an assignment that is not
  executing.
\<close>

inductive guarded_step :: "store \<Rightarrow> store \<Rightarrow> bool" where
  calm: "calm_step s s' \<Longrightarrow> guarded_step s s'"
| load: "load_step s s' \<Longrightarrow> guarded_step s s'"
| binds: "collaboration_command v ctx (BindWork key g run as) s = Inr s' \<Longrightarrow> guarded_step s s'"
| claims: "background_claim ctx it attempt bind_at s = Inr s'
    \<Longrightarrow> scheduled_bind ctx bind_at \<Longrightarrow> guarded_step s s'"
| binds_schedule: "bind_schedule ctx project agent run s = Inr s' \<Longrightarrow> guarded_step s s'"
| status: "collaboration_command v ctx (WorkStatus key g st reason) s = Inr s'
    \<Longrightarrow> (\<And>w. tget (works s) key = Some w \<Longrightarrow> executing st \<Longrightarrow> executing (w_status w)) \<Longrightarrow> guarded_step s s'"

lemma granting_apply:
  "collaboration_command v ctx c s = Inr s' \<Longrightarrow> grants_execution c \<Longrightarrow> apply_command ctx c s = Inr s'"
  by (erule collaboration_command_elim) auto

lemma granting_commands [simp]:
  "grants_execution (BindWork key g run as)" "grants_execution (WorkStatus key g st reason)"
  by (simp_all add: grants_execution_def)

lemma guarded_engine:
  assumes "guarded_step s s'"
  shows "engine_step s s'"
  using assms
proof (cases rule: guarded_step.cases)
  case binds
  from grant_step.grants [OF binds(1)] show ?thesis by (simp add: engine_step.grant)
next
  case status
  from grant_step.grants [OF status(1)] show ?thesis by (simp add: engine_step.grant)
qed (auto intro: engine_step.intros grant_step.intros)

lemma guarded_single:
  assumes "guarded_step s s'" and "store_ok s" and "single_executor s"
  shows "single_executor s'"
  using assms(1)
proof (cases rule: guarded_step.cases)
  case (binds v ctx key g run as)
  then show ?thesis using bind_single [OF _ assms(2,3)] granting_apply by (simp add: grants_execution_def) fastforce
next
  case (status v ctx key g st reason)
  have "work_status_op ctx key g st reason s = Inr s'"
    using granting_apply [OF status(1)] by (simp add: grants_execution_def)
  then show ?thesis using status(2) by (rule status_single [OF _ assms(2,3)])
qed (use assms(2,3) calm_single load_single claim_single bind_schedule_single in metis)+

text \<open>C1. An agent executes one assignment at a time: if no agent has two executing assignments, none
  has after any sequence of accepted transactions in which a status command is only sent to an
  assignment that is executing already. Binding through the interface, the background owner and the
  scheduler all keep it.\<close>

theorem one_executor_per_agent:
  assumes "guarded_step\<^sup>*\<^sup>* s s'" and "store_ok s" and "single_executor s"
  shows "single_executor s'"
proof -
  from assms have "store_ok s' \<and> single_executor s'"
  proof (induction rule: rtranclp_induct)
    case (step t u)
    then show ?case using guarded_single engine_step_ok(1) guarded_engine by metis
  qed simp
  then show ?thesis by simp
qed

lemma sample_bind_single: "single_executor sample_bind_store"
proof -
  have "works sample_bind_store = [(''job'', sample_work)]"
    by (simp add: sample_bind_store_def sample_store_def sample_work_def)
  then show ?thesis unfolding single_executor_def by (simp add: tget_def)
qed

theorem one_executor_per_agent_witness:
  "\<exists>s'. guarded_step sample_bind_store s' \<and> single_executor s' \<and> runs_now ''job'' (Inr s')"
proof -
  obtain s' where s': "sample_bound = Inr s'" using runs_nowD [OF sample_bound_ok(1)] by metis
  then have g: "guarded_step sample_bind_store s'"
    unfolding sample_bound_def sample_bind_def by (rule guarded_step.binds)
  then have "guarded_step\<^sup>*\<^sup>* sample_bind_store s'" by (rule r_into_rtranclp [of guarded_step])
  from one_executor_per_agent [OF this sample_bound_ok(2) sample_bind_single] g s' sample_bound_ok(1)
  show ?thesis by metis
qed

text \<open>
  An assignment that waits for a delegate keeps the run of its last turn. \<open>asked\<close> is such an
  assignment of \<open>ada\<close>; meanwhile she executes \<open>job\<close>.
\<close>

definition sample_asked :: work where
  "sample_asked = sample_work\<lparr>w_id := ''asked'', w_root_id := ''asked'', w_status := Waiting,
     w_run_ids := [''run-0''], w_current_run_id := Some ''run-0'', w_waiting_for := [''job'']\<rparr>"

definition sample_two :: store where
  "sample_two = sample_store [sample_asked, sample_running]"

definition sample_revived :: "cerr + store" where
  "sample_revived = collaboration_command no_files sample_ctx (WorkStatus ''asked'' 1 Running None) sample_two"

lemma sample_revived_ok: "runs_now ''asked'' sample_revived" "runs_now ''job'' sample_revived"
  "map_option w_agent_id (tget (works (projr sample_revived)) ''asked'')
     = map_option w_agent_id (tget (works (projr sample_revived)) ''job'')"
  "store_ok sample_two" "works sample_two = [(''asked'', sample_asked), (''job'', sample_running)]"
  by code_simp+

lemma sample_two_wf: "works_wf sample_two"
  by (simp add: works_wf_def work_wf_def sample_revived_ok(5) trows_def sample_asked_def sample_running_def
      sample_work_def)


end
