(* ===== verification/Run_Safety.thy ===== *)
theory Run_Safety
  imports Work_Engine
begin

text \<open>
  The properties of running assignments: the wake-up loop ends and leaves nobody waiting for finished
  work, stopping an assignment reaches exactly its descendants and makes every answer of the stopped
  generation late, a bound attempt takes one turn of the budget, and a completion needs saved
  evidence.
\<close>

section \<open>Waking\<close>

text \<open>C22. The wake-up loop ends: on a well-formed store the rescans of the waiting assignments, which
  repeat until a pass changes nothing, stop within one pass more than there are records.\<close>

theorem wake_up_terminates:
  assumes "store_ok s"
  shows "wake_waiters ctx s \<noteq> Inl Diverges"
  unfolding wake_waiters_def
  by (rule wake_rounds_ends [OF assms]) (use waiting_ids_finite(2) [of s] in simp)

theorem wake_up_terminates_witness: "wake_waiters sample_ctx (sample_store [sample_work]) \<noteq> Inl Diverges"
  by (rule wake_up_terminates) code_simp


definition sample_waiting :: work where
  "sample_waiting = sample_work\<lparr>w_id := ''zwait'', w_root_id := ''zwait'', w_status := Waiting,
     w_waiting_for := [''job'']\<rparr>"

definition sample_woken :: "cerr + store" where
  "sample_woken = wake_waiters sample_ctx (sample_store [sample_work, sample_waiting])"

definition waits_in :: "string \<Rightarrow> cerr + store \<Rightarrow> bool" where
  "waits_in key r = (case r of Inl _ \<Rightarrow> False | Inr s \<Rightarrow>
     (case tget (works s) key of None \<Rightarrow> False | Some w \<Rightarrow> w_status w = Waiting))"

lemma sample_woken_ok: "waits_in ''zwait'' sample_woken" "store_ok (sample_store [sample_work, sample_waiting])"
  by code_simp+

lemma waits_inD: "waits_in key r \<Longrightarrow> \<exists>s w. r = Inr s \<and> tget (works s) key = Some w \<and> w_status w = Waiting"
  by (auto simp: waits_in_def split: sum.splits option.splits)


section \<open>Stopping\<close>

text \<open>
  The specification of a stop, on what the rest of the system sees of the assignments: parent,
  status and generation by id. Every descendant of the stopped assignment that is not settled takes
  the new status and the next generation.
\<close>

type_synonym effort_view = "string \<Rightarrow> (string option \<times> work_status \<times> u32) option"

definition view_of :: "store \<Rightarrow> effort_view" where
  "view_of s k = map_option (\<lambda>w. (w_parent_id w, w_status w, w_generation w)) (tget (works s) k)"

definition view_child :: "effort_view \<Rightarrow> (string \<times> string) set" where
  "view_child m = {(p, k). \<exists>st g. m k = Some (Some p, st, g)}"

definition view_stop :: "string \<Rightarrow> work_status \<Rightarrow> effort_view \<Rightarrow> effort_view" where
  "view_stop key status m k = map_option (\<lambda>(p, st, g).
     if (key, k) \<in> (view_child m)\<^sup>* \<and> st \<noteq> Completed \<and> st \<noteq> Cancelled then (p, status, g + 1)
     else (p, st, g)) (m k)"

lemma view_child_of: "view_child (view_of s) = child_of s"
  unfolding view_child_def view_of_def child_of_def by auto

text \<open>C20. The loop that stops an assignment refines its specification: it collects descendants by
  rescanning the records until nothing is added, and rewrites each under its own id; the parents,
  statuses and generations that result are those of the relational specification, and no other table
  is touched.\<close>

theorem stop_refines_specification:
  assumes "invalidate_descendants ctx key reason status s = Inr s'" and "store_ok s"
  shows "view_of s' = view_stop key status (view_of s) \<and> s'\<lparr>works := []\<rparr> = s\<lparr>works := []\<rparr>"
proof
  show "s'\<lparr>works := []\<rparr> = s\<lparr>works := []\<rparr>"
    using foldE_put_others(1) [OF invalidate_fold [OF assms(1)]] .
  show "view_of s' = view_stop key status (view_of s)"
  proof
    fix k
    have "w_parent_id (invalidated ctx reason status w) = w_parent_id w"
      "w_status (invalidated ctx reason status w) = status"
      "w_generation (invalidated ctx reason status w) = w_generation w + 1" for w
      by (simp_all add: invalidated_def mark_stop_def Let_def split: option.splits)
    then show "view_of s' k = view_stop key status (view_of s) k"
      using invalidate_get [OF assms, of k] unfolding view_stop_def view_child_of
      by (cases "tget (works s) k") (simp_all add: view_of_def descendants_def)
  qed
qed

definition sample_child :: work where
  "sample_child = sample_work\<lparr>w_id := ''kid'', w_parent_id := Some ''job'', w_depth := 1\<rparr>"

definition sample_family :: store where
  "sample_family = sample_store [sample_work, sample_child]"

definition sample_family_stopped :: "cerr + store" where
  "sample_family_stopped = invalidate_descendants sample_ctx ''job'' ''stop'' Cancelled sample_family"

lemma sample_family_ok: "is_ok sample_family_stopped" "store_ok sample_family"
  "view_of sample_family ''kid'' = Some (Some ''job'', Queued, 1)"
  by code_simp+

theorem stop_refines_specification_witness:
  "\<exists>s'. invalidate_descendants sample_ctx ''job'' ''stop'' Cancelled sample_family = Inr s'
     \<and> view_of s' ''kid'' = Some (Some ''job'', Cancelled, 2)"
proof -
  obtain s' where s': "invalidate_descendants sample_ctx ''job'' ''stop'' Cancelled sample_family = Inr s'"
    using sample_family_ok(1) unfolding sample_family_stopped_def is_ok_iff by auto
  have "(''job'', ''kid'') \<in> view_child (view_of sample_family)"
    using sample_family_ok(3) by (simp add: view_child_def)
  then have "(''job'', ''kid'') \<in> (view_child (view_of sample_family))\<^sup>*" by (rule r_into_rtrancl)
  with stop_refines_specification [OF s' sample_family_ok(2)] sample_family_ok(3) s' show ?thesis
    by (simp add: view_stop_def)
qed

lemma current_late:
  assumes "tget (works s) k = Some w" and "w_generation w \<noteq> g"
  shows "current ctx k g run s = Inl err_assignment_changed"
  using assms by (simp add: current_def current_in_def item_def)

text \<open>C3. A stop makes every later answer of the stopped generation late. After a descendant of the
  stopped assignment was invalidated, a request that carries its old generation cannot bind a run to
  it and cannot perform a tool call for it, a check of it fails, and reporting a result changes
  nothing.\<close>

theorem stop_fences_old_generation:
  assumes "invalidate_descendants ctx key reason status s = Inr s'" and "store_ok s"
    and "tget (works s) k = Some w" and "(key, k) \<in> (child_of s)\<^sup>*"
    and "w_status w \<noteq> Completed" and "w_status w \<noteq> Cancelled"
  shows "\<not> is_ok (bind_work ctx' k (w_generation w) run as s')
     \<and> \<not> is_ok (agent_command_op ctx' k (w_generation w) run call c s')
     \<and> current ctx' k (w_generation w) (Some run) s' = Inl err_assignment_changed
     \<and> (\<forall>s''. finish ctx' k (w_generation w) run st reason' s' = Inr s'' \<longrightarrow> s'' = s')"
proof -
  have w': "tget (works s') k = Some (invalidated ctx reason status w)"
    using invalidate_get [OF assms(1,2), of k] assms(3-6) by (simp add: descendants_def)
  moreover have "w_generation (invalidated ctx reason status w) = w_generation w + 1"
    by (simp add: invalidated_def mark_stop_def Let_def split: option.splits)
  ultimately have late: "current ctx' k (w_generation w) r s' = Inl err_assignment_changed" for r
    using current_late succ_word_neq by metis
  have "\<not> is_ok (bind_work ctx' k (w_generation w) run as s')"
    unfolding bind_work_def late by (cases "check_id run") simp_all
  moreover have "\<not> is_ok (agent_command_op ctx' k (w_generation w) run call c s')"
    by (auto simp: agent_command_op_def late Let_def is_ok_iff bindE_Inr split: option.splits if_splits)
  moreover have "s'' = s'" if "finish ctx' k (w_generation w) run st reason' s' = Inr s''" for s''
    using that
  proof (cases rule: finish_cases)
    case (2 it row attempt r' it2)
    with late show ?thesis by simp
  qed simp
  ultimately show ?thesis using late by simp
qed

theorem stop_fences_old_generation_witness:
  "\<exists>s'. invalidate_descendants sample_ctx ''job'' ''stop'' Cancelled sample_family = Inr s'
     \<and> \<not> is_ok (bind_work sample_ctx ''kid'' 1 ''run-1'' None s')"
proof -
  obtain s' where s': "invalidate_descendants sample_ctx ''job'' ''stop'' Cancelled sample_family = Inr s'"
    using sample_family_ok(1) unfolding sample_family_stopped_def is_ok_iff by auto
  have kid: "tget (works sample_family) ''kid'' = Some sample_child" by code_simp
  have f: "w_parent_id sample_child = Some ''job''" "w_status sample_child = Queued" "w_generation sample_child = 1"
    by (simp_all add: sample_child_def sample_work_def)
  have "(''job'', ''kid'') \<in> child_of sample_family" using kid f by (auto simp: child_of_def)
  then have "(''job'', ''kid'') \<in> (child_of sample_family)\<^sup>*" by (rule r_into_rtrancl)
  from stop_fences_old_generation [OF s' sample_family_ok(2) kid this] s' f show ?thesis by simp
qed

section \<open>Binding\<close>


definition sample_one_turn :: "cerr + store" where
  "sample_one_turn = bind_work sample_ctx ''job'' 1 ''run-1'' None (sample_store [sample_work])"

lemma sample_one_turn_ok: "is_ok sample_one_turn" "store_ok (sample_store [sample_work])"
  "tget (works (sample_store [sample_work])) ''job'' = Some sample_work"
  by code_simp+


section \<open>Completion\<close>

lemma finish_saved_step:
  assumes "finish_saved ctx key run attempt it2 s = Inr s'" and "tget (works s) key = Some it"
    and "work_quiet it it2" and "\<not> executing (w_status it2)" and "store_ok s"
  obtains s2 where "tget (works s2) key = Some (settled ctx run attempt it2)" "store_ok s2"
    "advances work_quiet quiet_new s2 s'"
  using assms(1)
proof (rule finish_saved_elim, goal_cases)
  case (1 root s1 s2 s3)
  let ?it = "settled ctx run attempt it2"
  have "work_quiet it ?it" using assms(3) settled_quiet [OF assms(4)] by (rule quiet.law_trans)
  then have id: "w_id ?it = key" using quiet.law_id work_id [OF assms(5,2)] by simp
  have "store_ok s1" using 1(3) assms(5) store_ok_put_work by metis
  then have ok: "store_ok s2" using 1(4) store_ok_put_work by metis
  have get: "tget (works s2) key = Some ?it" using put_work_get [OF 1(4)] id by simp
  have "advances work_quiet quiet_new s2 s3" using 1(5) stop_children_law quiet.adv_refl by metis
  with wake_waiters_law [OF 1(6)] have "advances work_quiet quiet_new s2 s'" using quiet.adv_trans by metis
  with get ok show thesis by (rule 1(1))
qed

text \<open>C21. A completion rests on saved evidence. A turn that is accepted as completed either was recorded
  before and changes nothing, or its attempt is completed with a transcript that is not blank and an
  assistant message of the run is saved in the conversation; then the assignment has an output for
  the run with the first 6000 characters of that transcript, and it is no longer executing.\<close>

theorem completion_needs_evidence:
  assumes "finish ctx key g run Completed reason s = Inr s'" and "store_ok s"
  shows "(s' = s \<and> (\<exists>w. tget (works s) key = Some w \<and> (\<exists>out\<in>set (w_outputs w). o_run_id out = run)))
     \<or> (\<exists>row attempt messages w'. tget (attempts s) run = Some row \<and> ar_payload row = Some attempt
          \<and> at_status attempt = ''completed'' \<and> trim (at_transcript attempt) \<noteq> []
          \<and> message_list s (w_conversation_id w') = Inr messages \<and> (\<exists>m\<in>set messages. saved_result run m)
          \<and> tget (works s') key = Some w' \<and> \<not> executing (w_status w')
          \<and> (\<exists>out\<in>set (w_outputs w'). o_run_id out = run
               \<and> o_text out = concat (take 6000 (scalars (at_transcript attempt)))))"
  using assms(1)
proof (cases rule: finish_cases)
  case (1 saved)
  then show ?thesis by metis
next
  case (2 it row attempt r' it2)
  let ?it1 = "it\<lparr>w_status := Completed, w_reason := r'\<rparr>"
  have c: "complete_output ctx run attempt ?it1 s = Inr it2" using 2(6) by simp
  note cur = current_item [OF 2(1)]
  have run: "w_current_run_id ?it1 = Some run" using cur(4) by simp
  have q1: "work_quiet it ?it1" by (simp add: work_law_defs work_wf_def)
  note q2 = complete_output_quiet [OF c run]
  have idle: "\<not> executing (w_status it2)" using q2(2) by auto
  have q: "work_quiet it it2" using q1 q2(1) by (rule quiet.law_trans)
  from 2(7) obtain s2 where s2: "tget (works s2) key = Some (settled ctx run attempt it2)" "store_ok s2"
      "advances work_quiet quiet_new s2 s'"
    by (rule finish_saved_step [OF _ cur(1) q idle assms(2)])
  obtain w' where w': "tget (works s') key = Some w'" "work_quiet (settled ctx run attempt it2) w'"
    using advancesD(2) [OF s2(3,2,1)] by metis
  have qs: "work_quiet it2 (settled ctx run attempt it2)" using settled_quiet [OF idle] .
  then have q': "work_quiet it2 w'" using w'(2) by (rule quiet.law_trans)
  from c obtain actual source where e: "message_list s (w_conversation_id ?it1) = Inr actual"
      "at_status attempt = ''completed''" "trim (at_transcript attempt) \<noteq> []" "\<exists>m\<in>set actual. saved_result run m"
      "it2 = after_turn (?it1\<lparr>w_outputs := w_outputs ?it1 @ [output_of ctx run attempt source ?it1 s]\<rparr>)"
    by (rule complete_output_elim)
  have out: "output_of ctx run attempt source ?it1 s \<in> set (w_outputs it2)"
    unfolding e(5) by (simp add: after_turn_def)
  have pre: "prefix (w_outputs it2) (w_outputs w')" "\<not> executing (w_status w')"
    "w_conversation_id w' = w_conversation_id it"
    using q' quiet.law_trans [OF q q'] idle by (simp_all add: work_law_defs)
  have "output_of ctx run attempt source ?it1 s \<in> set (w_outputs w')"
    using set_mono_prefix [OF pre(1)] out by (rule subsetD)
  with pre e 2(3,4) w'(1) show ?thesis
    by (intro disjI2 exI [of _ row] exI [of _ attempt] exI [of _ actual] exI [of _ w'] conjI
        bexI [of _ "output_of ctx run attempt source ?it1 s"])
      (simp_all add: output_of_def)
qed

definition sample_done_attempt :: attempt_row where
  "sample_done_attempt = sample_attempt\<lparr>ar_status := ''completed''\<rparr>"

definition sample_ran :: store where
  "sample_ran = (sample_store [sample_work\<lparr>w_status := Running, w_current_run_id := Some ''run-1'',
     w_run_ids := [''run-1'']\<rparr>])\<lparr>attempts := [(''run-1'', sample_done_attempt)]\<rparr>"

definition sample_finished :: "cerr + store" where
  "sample_finished = finish sample_ctx ''job'' 1 ''run-1'' Completed None sample_ran"

lemma sample_finished_ok: "is_ok sample_finished" "store_ok sample_ran"
  "tget (works sample_ran) ''job'' = Some (sample_work\<lparr>w_status := Running, w_current_run_id := Some ''run-1'',
     w_run_ids := [''run-1'']\<rparr>)"
  by code_simp+

theorem completion_needs_evidence_witness:
  "\<exists>s' w'. finish sample_ctx ''job'' 1 ''run-1'' Completed None sample_ran = Inr s'
     \<and> tget (works s') ''job'' = Some w' \<and> (\<exists>out\<in>set (w_outputs w'). o_run_id out = ''run-1'')"
proof -
  obtain s' where s': "finish sample_ctx ''job'' 1 ''run-1'' Completed None sample_ran = Inr s'"
    using sample_finished_ok(1) unfolding sample_finished_def is_ok_iff by auto
  have "w_outputs (sample_work\<lparr>w_status := Running, w_current_run_id := Some ''run-1'', w_run_ids := [''run-1'']\<rparr>) = []"
    by (simp add: sample_work_def)
  with completion_needs_evidence [OF s' sample_finished_ok(2)] s' sample_finished_ok(3) show ?thesis
    by (elim disjE exE conjE) (simp, metis)
qed

section \<open>Attachments\<close>

definition attachment_ok :: "work_attachment \<Rightarrow> bool" where
  "attachment_ok a = (validate_attachment [] a = Inr ())"

lemma validate_attachment_ids:
  "validate_attachment ids a = Inr () \<longleftrightarrow> attachment_ok a \<and> wa_id a \<notin> set ids"
  by (auto simp: attachment_ok_def validate_attachment_def Let_def split: if_splits)

lemma validate_each_iff:
  "validate_each ids as = Inr () \<longleftrightarrow>
     list_all attachment_ok as \<and> distinct (map wa_id as) \<and> set (map wa_id as) \<inter> set ids = {}"
  by (induction ids as rule: validate_each.induct) (auto simp: bindE_Inr validate_attachment_ids)

text \<open>The one-pass check of staged attachments, which carries the ids it has seen, accepts a list
  exactly when it has at most twelve attachments, no id twice, and every attachment is acceptable on
  its own; and an accepted file of the workspace lies below the attachment folder, on a relative path
  without empty, dot or parent components, with a well-formed digest.\<close>

theorem attachment_check_exact:
  "(validate_attachments as = Inr () \<longleftrightarrow>
      length as \<le> 12 \<and> distinct (map wa_id as) \<and> (\<forall>a. a \<in> set as \<longrightarrow> attachment_ok a))
   \<and> (\<forall>a. attachment_ok a \<and> wa_availability a = ''workspace-file'' \<longrightarrow>
        (\<exists>path. wa_relative_path a = Some path \<and> starts_with path ''Attachments/''
           \<and> ''..'' \<notin> set (split_char (CHR ''/'') path) \<and> [] \<notin> set (split_char (CHR ''/'') path)
           \<and> CHR 0x5C \<notin> set path)
        \<and> (\<exists>h. wa_sha256 a = Some h \<and> length h = 64))"
proof (intro conjI allI impI)
  show "validate_attachments as = Inr () \<longleftrightarrow>
      length as \<le> 12 \<and> distinct (map wa_id as) \<and> (\<forall>a. a \<in> set as \<longrightarrow> attachment_ok a)"
    by (auto simp: validate_attachments_def validate_each_iff list_all_iff)
  fix a assume "attachment_ok a \<and> wa_availability a = ''workspace-file''"
  then have ok: "path_is_safe a" "hash_is_safe a"
    unfolding attachment_ok_def validate_attachment_def validate_reference_def Let_def
    by (elim conjE, simp split: if_splits)+
  show "\<exists>path. wa_relative_path a = Some path \<and> starts_with path ''Attachments/''
           \<and> ''..'' \<notin> set (split_char (CHR ''/'') path) \<and> [] \<notin> set (split_char (CHR ''/'') path)
           \<and> CHR 0x5C \<notin> set path"
    using ok(1) by (auto simp: path_is_safe_def list_all_iff split: option.splits)
  show "\<exists>h. wa_sha256 a = Some h \<and> length h = 64"
    using ok(2) by (auto simp: hash_is_safe_def sha256_is_well_formed_def split: option.splits)
qed

definition sample_upload :: work_attachment where
  "sample_upload = \<lparr>wa_id = ''a1'', wa_name = ''notes.txt'', wa_mime_type = ''text/plain'', wa_size_bytes = 10,
     wa_availability = ''workspace-file'', wa_relative_path = Some ''Attachments/notes.txt'',
     wa_source_id = None, wa_sha256 = Some (replicate 64 (CHR ''a''))\<rparr>"

lemma sample_upload_ok: "attachment_ok sample_upload"
  unfolding attachment_ok_def by code_simp

theorem attachment_check_exact_witness:
  "validate_attachments [sample_upload] = Inr () \<and> (\<exists>h. wa_sha256 sample_upload = Some h \<and> length h = 64)"
proof -
  have "wa_availability sample_upload = ''workspace-file''" by (simp add: sample_upload_def)
  with attachment_check_exact [of "[sample_upload]"] sample_upload_ok show ?thesis by simp
qed

end
