(* ===== verification/Ledger_Safety.thy ===== *)
theory Ledger_Safety
  imports Work_Engine
begin

text \<open>
  The properties of the schedule ledger: an occurrence is dispatched once and only moves forward, the
  run that is bound to it is the one it was claimed for, an expired lease cannot be revived, and a
  schedule that was stopped starts nothing.
\<close>

section \<open>Occurrences\<close>

text \<open>
  A history of the ledger: its own transactions, and any transactions of the rest of the system
  between them, which do not write occurrences.
\<close>

definition ledger_run :: "store \<Rightarrow> store \<Rightarrow> bool" where
  "ledger_run = (\<lambda>s s'. ledger_step s s' \<or> occurrences s' = occurrences s)\<^sup>*\<^sup>*"

lemma ledger_run_keeps: "ledger_run s s' \<Longrightarrow> ledger_keeps s s'"
  unfolding ledger_run_def
  by (erule ledger.law_rtranclp [rotated]) (use ledger_step_law ledger_same in \<open>auto simp: tx_law_def\<close>)

lemma closed_stays:
  assumes "ledger_keeps s s'" and "ledger_wf s" and "tget (occurrences s) k = Some row"
    and "\<not> open_state (oc_state row)"
  shows "tget (occurrences s') k = Some row"
  using assms unfolding ledger_keeps_def occurrence_moves_def by metis

text \<open>C2. An occurrence of a schedule runs at most once. Along every history of the ledger no two
  occurrences are for the same slot of the same schedule revision; an occurrence keeps its schedule,
  slot, claim and frozen request for ever; it never goes back from running to claimed; the attempt
  it was bound to is never exchanged; and a completed, failed or interrupted occurrence does not
  change any more.\<close>

theorem each_slot_runs_once:
  assumes "ledger_run s s'" and "ledger_wf s"
  shows "(\<forall>k k' row row'. tget (occurrences s') k = Some row \<and> tget (occurrences s') k' = Some row'
            \<and> same_slot row row' \<longrightarrow> k = k')
     \<and> (\<forall>k row. tget (occurrences s) k = Some row \<longrightarrow>
          (\<exists>row'. tget (occurrences s') k = Some row' \<and> same_occurrence row row'
             \<and> (oc_state row = ''running'' \<longrightarrow> oc_state row' \<noteq> ''claimed'')
             \<and> (oc_execution_attempt_id row \<noteq> None \<longrightarrow>
                  oc_execution_attempt_id row' = oc_execution_attempt_id row)
             \<and> (oc_state row \<in> {''completed'', ''failed'', ''interrupted''} \<longrightarrow> row' = row)))"
proof -
  note kept = ledger_run_keeps [OF assms(1), unfolded ledger_keeps_def, rule_format, OF assms(2)]
  have "\<exists>row'. tget (occurrences s') k = Some row' \<and> same_occurrence row row'
             \<and> (oc_state row = ''running'' \<longrightarrow> oc_state row' \<noteq> ''claimed'')
             \<and> (oc_execution_attempt_id row \<noteq> None \<longrightarrow>
                  oc_execution_attempt_id row' = oc_execution_attempt_id row)
             \<and> (oc_state row \<in> {''completed'', ''failed'', ''interrupted''} \<longrightarrow> row' = row)"
    if row: "tget (occurrences s) k = Some row" for k row
  proof -
    obtain row' where "tget (occurrences s') k = Some row'" "occurrence_moves row row'" using kept row by blast
    then show ?thesis by (intro exI [of _ row']) (auto simp: occurrence_moves_def open_state_def)
  qed
  with kept show ?thesis unfolding ledger_wf_def by simp
qed

section \<open>A schedule for the witnesses\<close>

definition sample_request :: create_request where
  "sample_request = \<lparr>cr_execution_kind = ''research'', cr_permission_mode = ''read-only'', cr_id = ''daily'',
     cr_project_id = None, cr_agent_id = ''ada'', cr_provider_id = ''x'', cr_model = ''m'',
     cr_reasoning_effort = None, cr_prompt = ''p'', cr_timezone = ''UTC'',
     cr_trigger = Trigger_Daily ''09:00'', cr_status = Sched_Enabled\<rparr>"

definition sample_tokens :: claim_tokens where
  "sample_tokens = \<lparr>tk_claim = ''token'', tk_occurrence = ''o1'', tk_reservation = ''seat''\<rparr>"

definition sample_ledger :: store where
  "sample_ledger = (sample_store [])\<lparr>attempts := [(''schedule-run-o1'', sample_attempt)]\<rparr>"

definition sample_created :: "cerr + store" where
  "sample_created = map_sum id snd (create_at sample_ctx sample_civil sample_request 0 sample_ledger)"

definition sample_claimed :: "cerr + (local_schedule_claim option \<times> store)" where
  "sample_claimed = bindE sample_created (claim_due sample_ctx sample_civil sample_tokens (1438 * minute_ns) None)"


definition sample_pause :: status_request where
  "sample_pause = \<lparr>st_id = ''daily'', st_expected_revision = 1, st_status = Sched_Paused\<rparr>"

text \<open>Evaluation compares lengths as integers.\<close>

lemma validate_prompt_int [code]:
  "validate_prompt prompt =
     (if trim prompt = [] \<or> 32000 < int (chars_count prompt) then Inl err_schedule_prompt else Inr ())"
  by (simp add: validate_prompt_def)

definition sample_claim_ok :: bool where
  "sample_claim_ok =
     (case sample_claimed of
        Inr (Some c, s) \<Rightarrow> cl_occurrence_id c = ''o1'' \<and> cl_prompt c = ''p''
          \<and> is_ok (bind_pending_attempt sample_ctx ''o1'' ''token'' ''schedule-run-o1'' ''early'' ''late'' s)
          \<and> is_ok (set_status_at sample_ctx sample_civil sample_pause 0 s)
          \<and> map_option (\<lambda>row. (oc_state row, oc_lease_expires_at row, oc_schedule_id row))
              (tget (occurrences s) ''o1'') = Some (''claimed'', ''late'', ''daily'')
      | _ \<Rightarrow> False)"

lemma sample_claim_ok: "sample_claim_ok"
  by code_simp

lemma empty_ledger_wf: "occurrences s = [] \<Longrightarrow> ledger_wf s"
  by (simp add: ledger_wf_def tget_def)

lemma sample_ledger_run:
  obtains s c s1 s2 row where "ledger_wf s"
    "claim_due sample_ctx sample_civil sample_tokens (1438 * minute_ns) None s = Inr (Some c, s1)"
    "bind_pending_attempt sample_ctx ''o1'' ''token'' ''schedule-run-o1'' ''early'' ''late'' s1 = Inr s2"
    "cl_occurrence_id c = ''o1''" "cl_prompt c = ''p''" "tget (occurrences s1) ''o1'' = Some row"
    "oc_state row = ''claimed''" "oc_lease_expires_at row = ''late''" "oc_schedule_id row = ''daily''"
    "is_ok (set_status_at sample_ctx sample_civil sample_pause 0 s1)"
proof -
  obtain s where s: "sample_created = Inr s"
  proof (cases sample_created)
    case (Inl e)
    with sample_claim_ok show thesis unfolding sample_claim_ok_def sample_claimed_def Inl by simp
  qed
  then obtain v where "create_at sample_ctx sample_civil sample_request 0 sample_ledger = Inr (v, s)"
    unfolding sample_created_def by (cases "create_at sample_ctx sample_civil sample_request 0 sample_ledger") auto
  from frames_occurrences [OF create_frames [OF this]] have "ledger_wf s"
    by (intro empty_ledger_wf) (simp add: sample_ledger_def sample_store_def)
  moreover have claimed: "sample_claimed = claim_due sample_ctx sample_civil sample_tokens (1438 * minute_ns) None s"
    unfolding sample_claimed_def s by simp
  ultimately show thesis
    using sample_claim_ok that unfolding sample_claim_ok_def claimed is_ok_iff
    by (auto split: sum.splits prod.splits option.splits)
qed

theorem each_slot_runs_once_witness:
  "\<exists>s s' row row'. ledger_step s s' \<and> tget (occurrences s) ''o1'' = Some row
     \<and> tget (occurrences s') ''o1'' = Some row' \<and> same_occurrence row row'"
proof (rule sample_ledger_run)
  fix s c s1 s2 row
  assume wf: "ledger_wf s"
    and c: "claim_due sample_ctx sample_civil sample_tokens (1438 * minute_ns) None s = Inr (Some c, s1)"
    and b: "bind_pending_attempt sample_ctx ''o1'' ''token'' ''schedule-run-o1'' ''early'' ''late'' s1 = Inr s2"
    and row: "tget (occurrences s1) ''o1'' = Some row"
  have wf1: "ledger_wf s1" using claim_due_tx [OF c] wf by (simp add: tx_law_def ledger_keeps_def)
  have step: "ledger_step s1 s2" using b by (rule binds)
  then have "ledger_run s1 s2" unfolding ledger_run_def by (auto intro: r_into_rtranclp)
  note kept = mp [OF spec [OF spec [OF conjunct2 [OF each_slot_runs_once [OF this wf1]]]] row]
  with step row show ?thesis by (elim exE conjE) (intro exI conjI)
qed

section \<open>What is bound is what was claimed\<close>

lemma claim_events_Some:
  "claim_events ctx cv tokens now key row config s = Inr (Some c, s')
   \<Longrightarrow> \<exists>d t. claim_delivery ctx cv tokens now key row config d t = Inr (Some c, s')"
proof (induction ctx cv tokens now key row config s rule: claim_events.induct)
  case (1 ctx cv tokens now key row config s)
  show ?case
  proof (cases "first_pending key s")
    case None
    with "1.prems" show ?thesis by (simp add: claim_events.simps [of _ _ _ _ key _ _ s] bindE_Inr)
  next
    case (Some d)
    note body = "1.prems" [unfolded claim_events.simps [of _ _ _ _ key _ _ s] Some option.case]
    show ?thesis
    proof (cases "dv_expires_at d \<le> cv_stamp cv now \<or> dv_schedule_revision d \<noteq> sr_revision row")
      case stale: True
      from body [unfolded if_P [OF stale]] "1.IH" [OF Some stale] show ?thesis
        by (elim bindE_elim) (simp split: sum.splits)
    next
      case False
      with body have "claim_delivery ctx cv tokens now key row config d s = Inr (Some c, s')" by simp
      then show ?thesis by (intro exI)
    qed
  qed
qed

lemma inserted_row:
  assumes "insert_claimed_occurrence key row s = Inr t" and "frames t s'"
  shows "tget (occurrences s') key = Some row"
  using assms by (auto simp: insert_claimed_occurrence_def frames_occurrences tget_tput split: if_splits)

lemma claim_due_row:
  assumes "claim_due ctx cv tokens now expected s = Inr (Some c, s')"
  obtains row where "tget (occurrences s') (cl_occurrence_id c) = Some row"
    "oc_state row = ''claimed''" "oc_claim_fingerprint row = sha256 ctx (cl_claim_token c)"
    "oc_schedule_id row = cl_schedule_id c" "oc_lease_expires_at row = cl_lease_expires_at c"
    "frozen_request (oc_payload row) = (Some (cl_prompt c), Some (cl_provider_id c), Some (cl_model c))"
proof -
  note found = that
  note row_defs = claimed_row_def claim_of_def encode_occurrence_frozen claimed_payload_def
  have claimed: thesis
    if "tget (occurrences s') (tk_occurrence tokens) = Some (claimed_row ctx cv tokens now schedule print at'
          (claimed_payload ctx tokens schedule kind (cl_prompt c) slot event))"
      and "Some c = Some (claim_of cv tokens now schedule kind at' prompt)" for schedule print at' kind slot event prompt
    using that
      found [of "claimed_row ctx cv tokens now schedule print at' (claimed_payload ctx tokens schedule kind (cl_prompt c) slot event)"]
    by (simp add: row_defs)
  have delivered: thesis if "claim_delivery ctx cv tokens now key row config d t = Inr (Some c, s')"
    for key row config d t
    using that
  proof (rule claim_delivery_elim, goal_cases)
    case (1 schedule print payload prompt s1 s2 p)
    from inserted_row [OF 1(5) fr.law_trans [OF replace_delivery_frames [OF 1(6)] replace_schedule_frames [OF 1(7)]]]
      1(8) show ?case by (intro claimed) (simp_all add: claim_of_def)
  qed
  from assms show thesis
  proof (cases rule: claim_due_elim)
    case (event s1 key row schedule config)
    from event(5) have "\<exists>t. claim_events ctx cv tokens now key row config t = Inr (Some c, s')"
      unfolding events_claim_def Let_def by (elim bindE_elim) (auto simp: bindE_Inr split: if_splits)
    with claim_events_Some delivered show thesis by metis
  next
    case (slot s1 key row schedule)
    from slot(5) show thesis
    proof (rule claim_slot_elim, goal_cases)
      case (1 z slot next_text stored_next s1 nxt)
      from inserted_row [OF 1(7) replace_schedule_frames [OF 1(9)]] 1(10)
      show ?case by (intro claimed) (simp_all add: claim_of_def)
    qed
  qed simp
qed

text \<open>C4. The run that starts is the run that was claimed. When a due schedule is claimed, then any
  history of the ledger happens, and at the end an attempt is bound to that occurrence, the attempt
  is a queued one whose provider, model and last user message are those of the claim, and whoever
  bound it knew the token the claim returned.\<close>

theorem bound_run_is_the_claimed_one:
  assumes "claim_due ctx cv tokens now expected s = Inr (Some c, s1)" and "ledger_wf s"
    and "ledger_run s1 s2"
    and "bind_pending_attempt ctx' (cl_occurrence_id c) print attempt now' lease s2 = Inr s3"
  shows "\<exists>a. tget (attempts s2) attempt = Some a \<and> ar_status a = ''queued''
     \<and> ar_provider_id a = cl_provider_id c \<and> ar_model a = cl_model c
     \<and> last_user_prompt a = Some (cl_prompt c) \<and> print = sha256 ctx (cl_claim_token c)"
  using assms(1)
proof (rule claim_due_row)
  fix row
  assume row: "tget (occurrences s1) (cl_occurrence_id c) = Some row"
      "oc_claim_fingerprint row = sha256 ctx (cl_claim_token c)"
      "frozen_request (oc_payload row) = (Some (cl_prompt c), Some (cl_provider_id c), Some (cl_model c))"
  have "ledger_wf s1" using claim_due_tx [OF assms(1)] assms(2) by (simp add: tx_law_def ledger_keeps_def)
  then obtain row2 where row2: "tget (occurrences s2) (cl_occurrence_id c) = Some row2" "same_occurrence row row2"
    using ledger_run_keeps [OF assms(3)] row(1) unfolding ledger_keeps_def occurrence_moves_def by blast
  from assms(4) show ?thesis
  proof (rule bind_pending_elim, goal_cases)
    case (1 row' schedule a)
    then have "row' = row2" using row2(1) by simp
    with 1(3,7,8,9) row2(2) row show ?case
      by (intro exI [of _ a]) (auto simp: same_occurrence_def frozen_request_def attempt_matches_def)
  qed
qed

theorem bound_run_is_the_claimed_one_witness:
  "\<exists>s s1 s2 c a. claim_due sample_ctx sample_civil sample_tokens (1438 * minute_ns) None s = Inr (Some c, s1)
     \<and> bind_pending_attempt sample_ctx ''o1'' ''token'' ''schedule-run-o1'' ''early'' ''late'' s1 = Inr s2
     \<and> tget (attempts s1) ''schedule-run-o1'' = Some a \<and> last_user_prompt a = Some ''p''"
proof (rule sample_ledger_run)
  fix s c s1 s2
  assume wf: "ledger_wf s"
    and c: "claim_due sample_ctx sample_civil sample_tokens (1438 * minute_ns) None s = Inr (Some c, s1)"
    and b: "bind_pending_attempt sample_ctx ''o1'' ''token'' ''schedule-run-o1'' ''early'' ''late'' s1 = Inr s2"
    and i: "cl_occurrence_id c = ''o1''" "cl_prompt c = ''p''"
  have "ledger_run s1 s1" by (simp add: ledger_run_def)
  from bound_run_is_the_claimed_one [OF c wf this, unfolded i, OF b] c b show ?thesis
    by (elim exE conjE) (intro exI conjI)
qed

section \<open>Leases\<close>

lemma interrupt_work_tables:
  assumes "interrupt_work ctx now key row s = Inr s'"
  shows "occurrences s' = occurrences s" and "schedules s' = schedules s"
proof -
  let ?f = "\<lambda>work_id it t. if w_root_id it = work_id \<and> active (w_status it)
                        then put_work ctx (claim_ended now it) t else Inr t"
  have fold: "occurrences t' = occurrences t \<and> schedules t' = schedules t" if "foldE (?f work_id) all t = Inr t'"
    for work_id all t t'
    by (rule foldE_rel [of "\<lambda>s s'. occurrences s' = occurrences s \<and> schedules s' = schedules s" all "?f work_id",
          OF _ _ _ that]) (auto simp: put_work_Inr split: if_splits)
  from assms show "occurrences s' = occurrences s" "schedules s' = schedules s"
    unfolding interrupt_work_def by (auto simp: bindE_Inr dest: fold split: option.splits if_splits)
qed

lemma expire_one_result:
  assumes "expire_one ctx now key s = Inr s'"
  shows "\<exists>row. tget (occurrences s') key = Some row \<and> oc_state row = ''interrupted''"
  using assms unfolding expire_one_def Let_def
proof (elim result_elims, goal_cases)
  case (1 row s1)
  from 1(1) obtain row' where "tget (occurrences s1) key = Some row'" "oc_state row' = ''interrupted''"
    by (auto simp: replaced_occurrence_def interrupted_row_def tget_tput elim!: replace_occurrence_elim)
  with interrupt_work_tables(1) [OF 1(2)] show ?case by auto
qed

lemma interrupt_expired_closes:
  assumes "interrupt_expired ctx now s = Inr s'" and "ledger_wf s" and "tget (occurrences s) k = Some row"
    and "open_state (oc_state row)" and "oc_lease_expires_at row \<le> now"
  shows "\<exists>row'. tget (occurrences s') k = Some row' \<and> oc_state row' = ''interrupted''"
proof -
  have "k \<in> set (map fst (filter (lease_expired now \<circ> snd) (occurrences s)))"
    using assms(3-5) by (force simp: tget_def lease_expired_def open_state_def dest: map_of_SomeD)
  then obtain xs ys where split: "map fst (filter (lease_expired now \<circ> snd) (occurrences s)) = xs @ k # ys"
    by (meson split_list)
  with assms(1) obtain t u where t: "foldE (expire_one ctx now) xs s = Inr t" "expire_one ctx now k t = Inr u"
    "foldE (expire_one ctx now) ys u = Inr s'"
    unfolding interrupt_expired_def by (auto simp: foldE_append bindE_Inr)
  have keeps: "ledger_keeps a b" if "foldE (expire_one ctx now) zs a = Inr b" for zs a b
    using tx.law_foldE [OF expire_one_tx that] by (simp add: tx_law_def)
  have "ledger_wf u"
    using keeps [OF t(1)] expire_one_tx [OF t(2)] assms(2) by (simp add: ledger_keeps_def tx_law_def)
  moreover obtain row' where "tget (occurrences u) k = Some row'" "oc_state row' = ''interrupted''"
    using expire_one_result [OF t(2)] by blast
  ultimately show ?thesis using closed_stays [OF keeps [OF t(3)]] by (auto simp: open_state_def)
qed

text \<open>C18. An expired lease cannot be revived. Once the lease of an occurrence has run out, staging it,
  binding an attempt to it, renewing its lease and finishing it all fail, whatever token is shown; and
  the next accepted claim of any schedule closes it as interrupted if it was still open.\<close>

theorem lease_cannot_be_revived:
  assumes "tget (occurrences s) k = Some row" and "oc_lease_expires_at row \<le> cv_stamp cv now"
  shows "\<not> is_ok (stage_at ctx cv k token now s)
     \<and> \<not> is_ok (bind_claim_to_pending_attempt ctx cv k token attempt now s)
     \<and> \<not> is_ok (renew_bound_occurrence_lease ctx cv k token attempt now s)
     \<and> \<not> is_ok (finish_bound_occurrence ctx cv k token attempt outcome detail now s)
     \<and> (\<forall>tokens expected c s'. ledger_wf s \<and> open_state (oc_state row)
          \<and> claim_due ctx' cv tokens now expected s = Inr (c, s') \<longrightarrow>
          (\<exists>row'. tget (occurrences s') k = Some row' \<and> oc_state row' = ''interrupted''))"
proof (intro conjI allI impI notI)
  assume "is_ok (stage_at ctx cv k token now s)"
  then obtain r where "stage_at ctx cv k token now s = Inr r" unfolding is_ok_iff by blast
  with assms show False by (cases r) (auto elim!: stage_at_elim)
next
  assume "is_ok (bind_claim_to_pending_attempt ctx cv k token attempt now s)"
  with assms show False
    by (auto simp: is_ok_iff bind_claim_to_pending_attempt_def bindE_Inr elim!: bind_pending_elim)
next
  assume "is_ok (renew_bound_occurrence_lease ctx cv k token attempt now s)"
  with assms show False
    by (auto simp: is_ok_iff renew_bound_occurrence_lease_def bindE_Inr elim!: renew_elim)
next
  assume "is_ok (finish_bound_occurrence ctx cv k token attempt outcome detail now s)"
  with assms show False
    by (auto simp: is_ok_iff finish_bound_occurrence_def elim!: finish_occurrence_elim split: if_splits)
next
  fix tokens expected c s'
  assume h: "ledger_wf s \<and> open_state (oc_state row)
          \<and> claim_due ctx' cv tokens now expected s = Inr (c, s')"
  then obtain s1 where s1: "interrupt_expired ctx' (cv_stamp cv now) s = Inr s1" "ledger_keeps s1 s'"
    by (auto elim!: claim_due_elim simp: ledger.law_refl
        dest!: events_claim_tx claim_slot_tx simp: tx_law_def)
  have "ledger_wf s1" using interrupt_expired_tx [OF s1(1)] h by (simp add: tx_law_def ledger_keeps_def)
  moreover obtain row' where "tget (occurrences s1) k = Some row'" "oc_state row' = ''interrupted''"
    using interrupt_expired_closes [OF s1(1) _ assms(1) _ assms(2)] h by blast
  ultimately show "\<exists>row'. tget (occurrences s') k = Some row' \<and> oc_state row' = ''interrupted''"
    using closed_stays [OF s1(2)] by (auto simp: open_state_def)
qed

theorem lease_cannot_be_revived_witness:
  "\<exists>s row. tget (occurrences s) ''o1'' = Some row \<and> oc_state row = ''claimed''
     \<and> \<not> is_ok (bind_claim_to_pending_attempt sample_ctx sample_civil ''o1'' ''token'' ''schedule-run-o1'' day_ns s)"
proof (rule sample_ledger_run)
  fix s1 :: store and row
  assume row: "tget (occurrences s1) ''o1'' = Some row" "oc_state row = ''claimed''"
    "oc_lease_expires_at row = ''late''"
  have "oc_lease_expires_at row \<le> cv_stamp sample_civil day_ns" using row(3) by (simp add: sample_civil_def)
  from conjunct1 [OF conjunct2 [OF lease_cannot_be_revived [OF row(1) this]]] row show ?thesis
    by (intro exI [of _ s1] exI [of _ row]) simp
qed

section \<open>Stopped schedules\<close>

lemma parse_status_text: "parse_status x = Inr st \<Longrightarrow> status_text st = x"
  by (auto simp: parse_status_def status_text_def split: if_splits)

lemma replace_schedule_row:
  "replace_schedule e key row s = Inr s' \<Longrightarrow>
     \<exists>row'. tget (schedules s') key = Some row' \<and> sr_status row' = sr_status row"
  by (auto simp: replace_schedule_def tget_tput split: option.splits if_splits)

lemma set_status_result:
  assumes "set_status_at ctx cv r now s = Inr (v, s')"
  shows "\<exists>row. tget (schedules s') (st_id r) = Some row \<and> sr_status row = status_text (st_status r)"
  using assms unfolding set_status_at_def Let_def
  by (auto simp: bindE_Inr ok_or_Inr dest!: parse_status_text dest: replace_schedule_row split: if_splits)

lemma expire_one_schedules: "expire_one ctx now key s = Inr s' \<Longrightarrow> schedules s' = schedules s"
  unfolding expire_one_def Let_def
  by (elim bindE_elim) (auto simp: interrupt_work_tables elim!: replace_occurrence_elim)

lemma interrupt_expired_schedules: "interrupt_expired ctx now s = Inr s' \<Longrightarrow> schedules s' = schedules s"
  unfolding interrupt_expired_def
  by (erule foldE_rel [of "\<lambda>s s'. schedules s' = schedules s", rotated 3]) (auto dest: expire_one_schedules)

lemma stopped_not_due:
  assumes "tget (schedules s) key = Some row" and "sr_status row \<noteq> ''enabled''"
  shows "due_selected now (Some (key, n)) s = None"
  using assms by (simp add: due_selected_def due_at_def)

text \<open>C31. A stopped schedule starts nothing. After a schedule was paused or cancelled, none of its
  occurrences can be staged, bound to an attempt or kept running by renewing its lease, and a
  dispatcher that asks to claim it gets no claim.\<close>

theorem stopped_schedule_starts_nothing:
  assumes "set_status_at ctx cv r now s = Inr (v, s')" and "st_status r \<noteq> Sched_Enabled"
    and "tget (occurrences s') k = Some row" and "oc_schedule_id row = st_id r"
  shows "\<not> is_ok (stage_at ctx' cv' k token now' s')
     \<and> \<not> is_ok (bind_claim_to_pending_attempt ctx' cv' k token attempt now' s')
     \<and> \<not> is_ok (renew_bound_occurrence_lease ctx' cv' k token attempt now' s')
     \<and> (\<forall>tokens n c s''. claim_due ctx' cv' tokens now' (Some (st_id r, n)) s' = Inr (c, s'') \<longrightarrow> c = None)"
proof -
  obtain schedule where schedule: "tget (schedules s') (st_id r) = Some schedule" "sr_status schedule \<noteq> ''enabled''"
    using set_status_result [OF assms(1)] assms(2) by (auto simp: status_text_def split: schedule_status.splits)
  have stage: "\<not> is_ok (stage_at ctx' cv' k token now' s')"
    unfolding is_ok_iff using assms(3,4) schedule by (auto elim!: stage_at_elim)
  have bind: "\<not> is_ok (bind_claim_to_pending_attempt ctx' cv' k token attempt now' s')"
    unfolding is_ok_iff bind_claim_to_pending_attempt_def using assms(3,4) schedule
    by (auto simp: bindE_Inr elim!: bind_pending_elim)
  have renew: "\<not> is_ok (renew_bound_occurrence_lease ctx' cv' k token attempt now' s')"
    unfolding is_ok_iff renew_bound_occurrence_lease_def using assms(3,4) schedule
    by (auto simp: bindE_Inr elim!: renew_elim)
  have "c = None" if claim: "claim_due ctx' cv' tokens now' (Some (st_id r, n)) s' = Inr (c, s'')" for tokens n c s''
  proof -
    obtain s1 where s1: "interrupt_expired ctx' (cv_stamp cv' now') s' = Inr s1"
      using claim unfolding claim_due_def bindE_Inr by blast
    have "tget (schedules s1) (st_id r) = Some schedule"
      using schedule(1) interrupt_expired_schedules [OF s1] by simp
    from claim stopped_not_due [OF this schedule(2)] show ?thesis
      unfolding claim_due_def s1 by simp
  qed
  with stage bind renew show ?thesis by blast
qed

theorem stopped_schedule_starts_nothing_witness:
  "\<exists>s v s'. set_status_at sample_ctx sample_civil sample_pause 0 s = Inr (v, s')
     \<and> \<not> is_ok (bind_claim_to_pending_attempt sample_ctx sample_civil ''o1'' ''token'' ''schedule-run-o1'' 0 s')"
proof (rule sample_ledger_run)
  fix s1 :: store and row
  assume row: "tget (occurrences s1) ''o1'' = Some row" "oc_schedule_id row = ''daily''"
    and p: "is_ok (set_status_at sample_ctx sample_civil sample_pause 0 s1)"
  obtain v s' where s': "set_status_at sample_ctx sample_civil sample_pause 0 s1 = Inr (v, s')"
    using p unfolding is_ok_iff by auto
  have st: "st_status sample_pause \<noteq> Sched_Enabled" "oc_schedule_id row = st_id sample_pause"
    using row(2) by (simp_all add: sample_pause_def)
  have "tget (occurrences s') ''o1'' = Some row"
    using row(1) frames_occurrences [OF set_status_frames [OF s']] by simp
  from conjunct1 [OF conjunct2 [OF stopped_schedule_starts_nothing [OF s' st(1) this st(2)]]] s'
  show ?thesis by (intro exI conjI)
qed

end
