(* ===== verification/Event_Safety.thy ===== *)
theory Event_Safety
  imports Ledger_Laws
begin

text \<open>
  Replay protection of the event outbox: what a transaction of the outbox keeps of the rows that
  remember authenticated events, and that an event that was seen is not admitted again.
\<close>

text \<open>What no transaction changes of a row; a row does not become pending again.\<close>

definition same_delivery :: "delivery_row \<Rightarrow> delivery_row \<Rightarrow> bool" where
  "same_delivery d d' =
     (dv_id d' = dv_id d \<and> dv_schedule_id d' = dv_schedule_id d \<and> dv_fingerprint d' = dv_fingerprint d
      \<and> dv_body_fingerprint d' = dv_body_fingerprint d \<and> dv_dedup_until d' = dv_dedup_until d
      \<and> (dv_state d' = ''pending'' \<longrightarrow> dv_state d = ''pending''))"

text \<open>A row remembers an authenticated event while its replay window is open.\<close>

definition remembers :: "string \<Rightarrow> delivery_row \<Rightarrow> bool" where
  "remembers now d = (dv_fingerprint d \<noteq> None \<and> now \<le> dv_dedup_until d)"

definition outbox_keeps :: "string \<Rightarrow> store \<Rightarrow> store \<Rightarrow> bool" where
  "outbox_keeps now s s' =
     (distinct (map dv_id (deliveries s)) \<longrightarrow>
        distinct (map dv_id (deliveries s'))
        \<and> (\<forall>d'\<in>set (deliveries s'). \<exists>d\<in>set (deliveries s). same_delivery d d')
        \<and> (\<forall>d\<in>set (deliveries s). remembers now d \<longrightarrow> (\<exists>d'\<in>set (deliveries s'). same_delivery d d')))"

lemma same_delivery_refl [simp]: "same_delivery d d"
  by (simp add: same_delivery_def)

lemma same_delivery_trans: "same_delivery a b \<Longrightarrow> same_delivery b c \<Longrightarrow> same_delivery a c"
  by (simp add: same_delivery_def)

lemma same_delivery_remembers: "same_delivery a b \<Longrightarrow> remembers now a \<Longrightarrow> remembers now b"
  by (simp add: same_delivery_def remembers_def)

interpretation outbox: transaction_law "outbox_keeps now"
proof unfold_locales
  show "outbox_keeps now s s" for s unfolding outbox_keeps_def by (auto intro: same_delivery_refl)
  show "outbox_keeps now s u" if "outbox_keeps now s t" "outbox_keeps now t u" for s t u
    unfolding outbox_keeps_def
  proof (intro impI)
    assume "distinct (map dv_id (deliveries s))"
    with that have st: "distinct (map dv_id (deliveries u))"
        "\<forall>d'\<in>set (deliveries t). \<exists>d\<in>set (deliveries s). same_delivery d d'"
        "\<forall>d\<in>set (deliveries s). remembers now d \<longrightarrow> (\<exists>d'\<in>set (deliveries t). same_delivery d d')"
        "\<forall>d'\<in>set (deliveries u). \<exists>d\<in>set (deliveries t). same_delivery d d'"
        "\<forall>d\<in>set (deliveries t). remembers now d \<longrightarrow> (\<exists>d'\<in>set (deliveries u). same_delivery d d')"
      unfolding outbox_keeps_def by auto
    then show "distinct (map dv_id (deliveries u))
        \<and> (\<forall>d'\<in>set (deliveries u). \<exists>d\<in>set (deliveries s). same_delivery d d')
        \<and> (\<forall>d\<in>set (deliveries s). remembers now d \<longrightarrow> (\<exists>d'\<in>set (deliveries u). same_delivery d d'))"
      by (meson same_delivery_trans same_delivery_remembers)
  qed
qed

lemma update_keeps:
  assumes "\<And>d. d \<in> set (deliveries s) \<Longrightarrow> p d \<Longrightarrow> distinct (map dv_id (deliveries s)) \<Longrightarrow> same_delivery d (f d)"
  shows "outbox_keeps now s (update_deliveries p f s)"
  unfolding outbox_keeps_def
proof (intro impI conjI)
  assume dist: "distinct (map dv_id (deliveries s))"
  have same: "same_delivery d (if p d then f d else d)" if "d \<in> set (deliveries s)" for d
    using assms [OF that _ dist] by simp
  have "map dv_id (map (\<lambda>d. if p d then f d else d) (deliveries s)) = map dv_id (deliveries s)"
    using same by (simp add: same_delivery_def)
  then show "distinct (map dv_id (deliveries (update_deliveries p f s)))"
    using dist unfolding update_deliveries_def by (simp del: map_map)
  have rows: "set (deliveries (update_deliveries p f s)) = (\<lambda>d. if p d then f d else d) ` set (deliveries s)"
    by (simp add: update_deliveries_def)
  show "\<forall>d'\<in>set (deliveries (update_deliveries p f s)). \<exists>d\<in>set (deliveries s). same_delivery d d'"
    "\<forall>d\<in>set (deliveries s). remembers now d \<longrightarrow>
       (\<exists>d'\<in>set (deliveries (update_deliveries p f s)). same_delivery d d')"
    unfolding rows using same by blast+
qed

lemma filter_keeps:
  assumes "\<And>d. d \<in> set (deliveries s) \<Longrightarrow> remembers now d \<Longrightarrow> p d"
  shows "outbox_keeps now s (s\<lparr>deliveries := filter p (deliveries s)\<rparr>)"
  using assms unfolding outbox_keeps_def
  by (auto simp: distinct_map_filter intro: same_delivery_refl)

lemma get_delivery_row:
  "get_delivery key s = Some row \<Longrightarrow> row \<in> set (deliveries s) \<and> dv_id row = key"
  unfolding get_delivery_def by (auto simp: find_Some_iff)

lemma redact_keeps:
  assumes "redact_delivery now' key s = Inr s'"
  shows "outbox_keeps now s s'"
proof (cases "get_delivery key s")
  case None
  with assms show ?thesis by (simp add: redact_delivery_def outbox.law_refl)
next
  case (Some row)
  then obtain p s1 where s1: "replace_delivery (row\<lparr>dv_payload := p\<rparr>) s = Inr s1"
      "s' = update_deliveries (\<lambda>d. dv_id d = key) (\<lambda>d. d\<lparr>dv_redacted_at := Some now'\<rparr>) s1"
    using assms by (auto simp: redact_delivery_def bindE_Inr)
  have "same_delivery d (d\<lparr>dv_state := dv_state row, dv_occurrence_id := dv_occurrence_id row, dv_payload := p\<rparr>)"
    if "d \<in> set (deliveries s)" "dv_id d = dv_id row" "distinct (map dv_id (deliveries s))" for d
    using that get_delivery_row [OF Some] by (auto simp: distinct_map same_delivery_def dest: inj_onD)
  with s1(1) have "outbox_keeps now s s1"
    unfolding replace_delivery_def by (auto split: if_splits intro!: update_keeps)
  moreover have "outbox_keeps now s1 s'"
    unfolding s1(2) by (rule update_keeps) (simp add: same_delivery_def)
  ultimately show ?thesis by (rule outbox.law_trans)
qed

lemma prune_keeps:
  assumes "prune schedule now cutoff s = Inr s'"
  shows "outbox_keeps now s s'"
proof -
  define s1 where "s1 = update_deliveries (\<lambda>d. pending schedule d \<and> dv_expires_at d \<le> now)
                 (\<lambda>d. d\<lparr>dv_state := ''expired''\<rparr>) s"
  obtain s3 where s3: "foldE (redact_delivery now) (to_redact schedule cutoff (drop_unsigned schedule s1))
      (drop_unsigned schedule s1) = Inr s3" "s' = purge_expired_tombstones now s3"
    using assms unfolding prune_def s1_def Let_def by (auto simp: bindE_Inr)
  have "outbox_keeps now s s1"
    unfolding s1_def by (rule update_keeps) (simp add: same_delivery_def)
  moreover have "outbox_keeps now s1 (drop_unsigned schedule s1)"
    unfolding drop_unsigned_def Let_def by (rule filter_keeps) (simp add: remembers_def)
  moreover have "outbox_keeps now (drop_unsigned schedule s1) s3"
    using outbox.law_foldE [OF redact_keeps s3(1)] .
  moreover have "outbox_keeps now s3 s'"
    unfolding s3(2) purge_expired_tombstones_def by (rule filter_keeps) (simp add: remembers_def not_less)
  ultimately show ?thesis using outbox.law_trans by metis
qed

lemma duplicate_found:
  assumes "d \<in> set (deliveries s)" and "dv_schedule_id d = schedule"
    and "dv_fingerprint d = Some (vf_id_fingerprint e)"
  shows "duplicate_receipt schedule e s \<noteq> Inr None"
proof -
  have "find (\<lambda>d. dv_schedule_id d = schedule
       \<and> (dv_fingerprint d = Some (vf_id_fingerprint e) \<or> dv_body_fingerprint d = Some (vf_body_fingerprint e)))
       (deliveries s) \<noteq> None"
    using assms by (auto simp: find_None_iff)
  then show ?thesis
    by (auto simp: duplicate_receipt_def duplicate_def bindE_Inr)
qed


text \<open>A trigger whose event was delivered before.\<close>

definition sample_config :: event_config where
  "sample_config = \<lparr>ev_source = Signed_Json ''src'', ev_fields = [], ev_max_age_seconds = 60,
     ev_valid_until = ''late'', ev_route_id = [], ev_key_version = 1, ev_signing_key_id = []\<rparr>"

definition sample_verified :: verified_event where
  "sample_verified = \<lparr>vf_id_fingerprint = ''id'', vf_body_fingerprint = ''body'', vf_event_time = 0,
     vf_body = JObj []\<rparr>"

definition sample_trigger_row :: schedule_row where
  "sample_trigger_row = \<lparr>sr_agent_id = ''ada'', sr_status = ''enabled'', sr_trigger_kind = ''event'',
     sr_revision = 1, sr_prompt_revision = 1, sr_next_run_at = None, sr_created_at = ''early'',
     sr_updated_at = ''early'', sr_payload = JObj []\<rparr>"

definition sample_seen :: delivery_row where
  "sample_seen = delivery_of sample_civil sample_config ''d0'' ''hook'' sample_trigger_row 0
     (Inr sample_verified) (422, ''missing_selected_fields'', None)"

definition sample_outbox :: store where
  "sample_outbox = (sample_store [])\<lparr>schedules := [(''hook'', sample_trigger_row)], deliveries := [sample_seen]\<rparr>"

definition sample_replay :: "cerr + (receipt \<times> store)" where
  "sample_replay = admit_event sample_civil sample_config ''hook'' 1 ''d1'' (2 * minute_ns) (Inr sample_verified)
     (Inr None) sample_outbox"

lemma sample_replay_ok: "is_ok sample_replay" by code_simp


end
