(* ===== verification/Permission_Policy.thy ===== *)
theory Permission_Policy
  imports Rust_Text
begin

text \<open>
  The permission policy at the native execution boundary (\<open>permission_policy.rs\<close>) with the
  vocabulary it is compiled from (\<open>packages/connectors/src/permission-policy.json\<close>, included in
  the binary): the effect of a tool or connector action, whether a permission profile allows an
  effect, and whether the allowed effect still needs the user's approval.

  The lemmas show that the profiles are ordered by authority, that the need for approval does not
  depend on the profile, and that a normalised route is a fixed point of the normalisation.
\<close>

section \<open>Vocabulary\<close>

definition profile_for_mode_table :: "(string \<times> string) list" where
  "profile_for_mode_table =
     [(''read-only'', ''read-only''), (''trusted-scope'', ''trusted''),
      (''full-access'', ''full-with-approvals'')]"

definition read_only_allowed :: "string list" where
  "read_only_allowed =
     [''coordination'', ''local-read'', ''connector-read'', ''web-fetch'', ''browser-read'',
      ''cache-read'']"

definition trusted_allowed :: "string list" where
  "trusted_allowed =
     [''coordination'', ''local-read'', ''connector-read'', ''web-fetch'', ''browser-read'',
      ''cache-read'', ''local-write'', ''connector-write'', ''browser-state-mutation'',
      ''app-state-mutation'', ''delete'', ''publish-external'', ''memory-promotion'']"

definition high_severity_effects :: "string list" where
  "high_severity_effects =
     [''delete'', ''shell-execution'', ''connector-write'', ''publish-external'',
      ''cache-mutation'', ''memory-promotion'', ''browser-state-mutation'']"

definition consequential_effects :: "string list" where
  "consequential_effects =
     [''local-write'', ''app-state-mutation'', ''delete'', ''shell-execution'',
      ''connector-write'', ''publish-external'', ''cache-mutation'', ''memory-promotion'',
      ''browser-state-mutation'']"

definition high_risks :: "string list" where
  "high_risks =
     [''high'', ''critical'']"

definition tool_effects :: "(string \<times> string) list" where
  "tool_effects =
     [(''request-secret'', ''local-write''), (''secret-request-status'', ''local-read''),
      (''webhook-signing-install'', ''local-write''),
      (''webhook-signing-status'', ''local-read''),
      (''webhook-signing-verify'', ''local-read''), (''webhook-signing-remove'', ''delete''),
      (''repository-status'', ''local-read''), (''repository-read'', ''local-read''),
      (''repository-checkpoint-list'', ''local-read''),
      (''repository-checkpoint-preview'', ''local-read''),
      (''repository-checkpoint-capture'', ''local-write''),
      (''repository-checkpoint-restore'', ''local-write''),
      (''repository-checkpoint-delete'', ''delete''), (''repository-write'', ''local-write''),
      (''repository-run'', ''shell-execution''), (''repository-start'', ''shell-execution''),
      (''workspace-run'', ''shell-execution''), (''workspace-start'', ''shell-execution''),
      (''command-jobs'', ''local-read''), (''command-output'', ''local-read''),
      (''command-stop'', ''app-state-mutation''), (''command-input'', ''app-state-mutation''),
      (''repository-commit'', ''local-write''), (''repository-publish'', ''connector-write''),
      (''repository-pr-read'', ''connector-read''),
      (''repository-pr-local'', ''connector-write''),
      (''repository-pr-action'', ''connector-write''),
      (''repository-pr-watch'', ''connector-write''),
      (''repository-recover'', ''connector-write''), (''workspace-agents'', ''coordination''),
      (''workspace-inspect'', ''coordination''), (''continuation-read'', ''coordination''),
      (''goal-report'', ''coordination''), (''teammate-assign'', ''coordination''),
      (''teammate-message'', ''coordination''), (''project-record'', ''coordination''),
      (''team-await-user'', ''coordination''), (''agent-create'', ''app-state-mutation''),
      (''agent-update'', ''app-state-mutation''), (''agent-delete'', ''delete''),
      (''project-create'', ''app-state-mutation''),
      (''project-team-update'', ''app-state-mutation''), (''read-file'', ''local-read''),
      (''computer-artifact'', ''local-read''), (''write-file'', ''local-write''),
      (''create-spreadsheet'', ''local-write''), (''create-document'', ''local-write''),
      (''create-presentation'', ''local-write''), (''create-pdf'', ''local-write''),
      (''generate-image'', ''local-write''), (''edit-image'', ''local-write''),
      (''run-shell'', ''shell-execution''), (''web-fetch'', ''web-fetch''),
      (''local-app-observe'', ''browser-read''), (''local-app-list'', ''browser-read''),
      (''local-browser-open'', ''browser-state-mutation''),
      (''local-browser-tabs'', ''browser-read''), (''local-browser-observe'', ''browser-read''),
      (''local-browser-navigate'', ''browser-state-mutation''),
      (''local-browser-activate'', ''browser-state-mutation''),
      (''local-browser-fill'', ''browser-state-mutation''),
      (''local-browser-download'', ''browser-state-mutation''),
      (''local-browser-upload-choices'', ''browser-read''),
      (''local-browser-upload'', ''browser-state-mutation''),
      (''local-browser-handover'', ''browser-state-mutation''),
      (''local-browser-click'', ''browser-state-mutation''),
      (''local-browser-scroll'', ''browser-state-mutation''),
      (''local-app-select'', ''browser-read''), (''local-desktop-observe'', ''browser-read''),
      (''local-app-action'', ''browser-state-mutation''),
      (''local-desktop-action'', ''browser-state-mutation''),
      (''cloud-browser'', ''browser-state-mutation''),
      (''cloud-browser-action'', ''browser-state-mutation''),
      (''connection-read'', ''connector-read''), (''connector-tools'', ''connector-read''),
      (''connector-resource'', ''connector-read''), (''github-read'', ''connector-read''),
      (''vercel-read'', ''connector-read''), (''linear-read'', ''connector-read''),
      (''google-drive-read'', ''connector-read''), (''gmail-read'', ''connector-read''),
      (''google-calendar-read'', ''connector-read''), (''search-notion'', ''connector-read''),
      (''search-slack'', ''connector-read''), (''connector-call'', ''connector-write''),
      (''connector-action'', ''connector-write'')]"

definition connector_delete_actions :: "string list" where
  "connector_delete_actions =
     [''google-calendar.delete-event'', ''google-drive.delete-file'', ''notion.delete-block'',
      ''slack.delete'', ''vercel.delete-domain'']"

definition connector_publish_actions :: "string list" where
  "connector_publish_actions =
     [''gmail.send'', ''google-calendar.cancel-event'', ''google-drive.share-file'',
      ''notion.create-comment'', ''slack.edit'', ''slack.post'', ''slack.reply'',
      ''vercel.promote'', ''vercel.rollback'']"

definition browser_action_effects :: "(string \<times> string) list" where
  "browser_action_effects =
     [(''browser.read-url'', ''browser-read''), (''browser.read-title'', ''browser-read''),
      (''browser.download'', ''local-write''), (''browser.submit'', ''publish-external''),
      (''browser.upload'', ''publish-external''),
      (''browser.clipboard-write'', ''publish-external''),
      (''browser.navigate'', ''browser-state-mutation''),
      (''browser.click'', ''browser-state-mutation''),
      (''browser.type'', ''browser-state-mutation''),
      (''browser.select'', ''browser-state-mutation''),
      (''browser.screenshot'', ''browser-state-mutation''),
      (''browser.clipboard-read'', ''browser-state-mutation'')]"

definition reason_read_only_denied :: string where
  "reason_read_only_denied = ''Read-only only permits safe local, connector, cache, and web reads.''"

definition reason_trusted_denied :: string where
  "reason_trusted_denied = ''Trusted profile blocks shell execution and cache mutation.''"

definition reason_approval_required :: string where
  "reason_approval_required = ''This action is allowed only through the approval and audit boundary.''"

definition reason_read_like_allowed :: string where
  "reason_read_like_allowed = ''This read-like action is allowed by the active permission profile.''"

definition APPROVAL_MODES :: "string list" where
  "APPROVAL_MODES = [''read-only'', ''trusted-scope'', ''full-access'']"

section \<open>Routes\<close>

record policy_decision =
  pd_profile :: string
  pd_mode :: string
  pd_allowed :: bool
  pd_approval_required :: bool
  pd_reason :: string

definition profile_for_mode :: "string \<Rightarrow> string option" where
  "profile_for_mode mode = map_of profile_for_mode_table mode"

definition mode_for_profile :: "string \<Rightarrow> string option" where
  "mode_for_profile profile = map_of (map (\<lambda>(m, p). (p, m)) profile_for_mode_table) profile"

definition err_mode :: string where
  "err_mode = ''Permission mode is not recognized.''"

definition err_profile :: string where
  "err_profile = ''Permission profile is not recognized.''"

definition err_profile_mode :: string where
  "err_profile_mode = ''Permission profile does not match its protocol mode.''"

definition normalize_permission_route ::
    "string \<Rightarrow> string option \<Rightarrow> string + string \<times> string" where
  "normalize_permission_route mode profile =
     (let normalized_mode = to_ascii_lowercase (trim mode)
      in if normalized_mode \<notin> set APPROVAL_MODES then Inl err_mode
         else case map_option (\<lambda>p. to_ascii_lowercase (trim p)) profile of
                Some p \<Rightarrow>
                  if p \<noteq> [] then
                    bindE (ok_or err_profile (mode_for_profile p)) (\<lambda>expected_mode.
                      if expected_mode \<noteq> normalized_mode then Inl err_profile_mode
                      else Inr (normalized_mode, p))
                  else bindE (ok_or err_mode (profile_for_mode normalized_mode)) (\<lambda>q.
                         Inr (normalized_mode, q))
              | None \<Rightarrow> bindE (ok_or err_mode (profile_for_mode normalized_mode)) (\<lambda>q.
                         Inr (normalized_mode, q)))"

section \<open>Effects\<close>

definition effect_for_tool :: "string \<Rightarrow> string option" where
  "effect_for_tool tool = map_of tool_effects tool"

definition effect_for_connector_action :: "string \<Rightarrow> string" where
  "effect_for_connector_action action =
     (if action \<in> set connector_delete_actions then ''delete''
      else if action \<in> set connector_publish_actions then ''publish-external''
      else ''connector-write'')"

definition effect_for_browser_action :: "string \<Rightarrow> string option" where
  "effect_for_browser_action action = map_of browser_action_effects action"

definition is_high_severity_effect :: "string \<Rightarrow> bool" where
  "is_high_severity_effect effect = (effect \<in> set high_severity_effects)"

section \<open>Evaluation\<close>

definition evaluate_permission_policy ::
    "string \<Rightarrow> string option \<Rightarrow> string \<Rightarrow> string \<Rightarrow> string + policy_decision" where
  "evaluate_permission_policy mode profile effect risk_level =
     bindE (normalize_permission_route mode profile) (\<lambda>(m, p).
       if p = ''read-only'' \<and> effect \<notin> set read_only_allowed then
         Inr \<lparr>pd_profile = p, pd_mode = m, pd_allowed = False, pd_approval_required = False,
              pd_reason = reason_read_only_denied\<rparr>
       else if p = ''trusted'' \<and> effect \<notin> set trusted_allowed then
         Inr \<lparr>pd_profile = p, pd_mode = m, pd_allowed = False, pd_approval_required = False,
              pd_reason = reason_trusted_denied\<rparr>
       else let approval_required =
                  effect \<in> set consequential_effects \<or> effect = ''web-fetch''
                  \<or> risk_level \<in> set high_risks
            in Inr \<lparr>pd_profile = p, pd_mode = m, pd_allowed = True,
                    pd_approval_required = approval_required,
                    pd_reason = (if approval_required then reason_approval_required
                                 else reason_read_like_allowed)\<rparr>)"

definition ensure_permission_allowed ::
    "string \<Rightarrow> string option \<Rightarrow> string \<Rightarrow> string \<Rightarrow> string + policy_decision" where
  "ensure_permission_allowed mode profile effect risk_level =
     bindE (evaluate_permission_policy mode profile effect risk_level) (\<lambda>decision.
       if pd_allowed decision then Inr decision
       else Inl (''Permission denied: '' @ pd_reason decision))"

section \<open>The vocabulary\<close>

text \<open>Every tool and action has an effect of the vocabulary's allow lists, and the mutating
  effects are exactly those that the read-only profile refuses.\<close>

lemma read_only_subset_trusted: "set read_only_allowed \<subseteq> set trusted_allowed"
  by code_simp

lemma consequential_not_read_only: "set consequential_effects \<inter> set read_only_allowed = {}"
  by code_simp

lemma high_severity_consequential: "set high_severity_effects \<subseteq> set consequential_effects"
  by code_simp

lemma tool_effects_covered:
  "snd ` set tool_effects \<subseteq> set read_only_allowed \<union> set consequential_effects"
  by code_simp

lemma profile_for_mode_cases:
  "profile_for_mode m = Some p \<longleftrightarrow>
     (m, p) \<in> {(''read-only'', ''read-only''), (''trusted-scope'', ''trusted''),
              (''full-access'', ''full-with-approvals'')}"
  by (auto simp: profile_for_mode_def profile_for_mode_table_def split: if_splits)

lemma mode_for_profile_iff: "mode_for_profile p = Some m \<longleftrightarrow> profile_for_mode m = Some p"
  unfolding profile_for_mode_cases
  by (auto simp: mode_for_profile_def profile_for_mode_table_def split: if_splits)

lemma modes_have_profiles: "m \<in> set APPROVAL_MODES \<longleftrightarrow> (\<exists>p. profile_for_mode m = Some p)"
  unfolding profile_for_mode_cases by (auto simp: APPROVAL_MODES_def)

section \<open>Routes\<close>

text \<open>A route is the pair of a mode and its own profile.\<close>

lemma route_pairs:
  assumes "normalize_permission_route mode profile = Inr (m, p)"
  shows "m = to_ascii_lowercase (trim mode)" "profile_for_mode m = Some p"
  using assms
  by (auto simp: normalize_permission_route_def Let_def mode_for_profile_iff result_simps
           split: option.splits if_splits)

lemma profile_plain:
  assumes "profile_for_mode m = Some p"
  shows "to_ascii_lowercase (trim m) = m" "to_ascii_lowercase (trim p) = p" "p \<noteq> []"
proof -
  have "(m, p) \<in> set profile_for_mode_table"
    using assms unfolding profile_for_mode_def by (rule map_of_SomeD)
  moreover have "\<forall>(m, p) \<in> set profile_for_mode_table.
      to_ascii_lowercase (trim m) = m \<and> to_ascii_lowercase (trim p) = p \<and> p \<noteq> []"
    by code_simp
  ultimately show "to_ascii_lowercase (trim m) = m" "to_ascii_lowercase (trim p) = p" "p \<noteq> []"
    by auto
qed

lemma route_of_mode:
  assumes "profile_for_mode m = Some p"
  shows "normalize_permission_route m None = Inr (m, p)"
    and "normalize_permission_route m (Some p) = Inr (m, p)"
  using assms profile_plain [OF assms] modes_have_profiles [of m] mode_for_profile_iff [of p m]
  by (simp_all add: normalize_permission_route_def)

text \<open>Normalising is a projection: its results are routes, and a route is its own normal form.\<close>

lemma route_normal_form:
  assumes "normalize_permission_route mode profile = Inr (m, p)"
  shows "normalize_permission_route m (Some p) = Inr (m, p)"
    and "normalize_permission_route m None = Inr (m, p)"
  using route_of_mode [OF route_pairs(2) [OF assms]] by simp_all

section \<open>Authority\<close>

text \<open>The effects a mode allows.\<close>

definition allows :: "string \<Rightarrow> string \<Rightarrow> bool" where
  "allows mode effect =
     (case evaluate_permission_policy mode None effect ''low'' of
        Inl _ \<Rightarrow> False | Inr d \<Rightarrow> pd_allowed d)"

definition needs_approval :: "string \<Rightarrow> string \<Rightarrow> bool" where
  "needs_approval effect risk =
     (effect \<in> set consequential_effects \<or> effect = ''web-fetch'' \<or> risk \<in> set high_risks)"

lemma decision_of_mode:
  assumes "profile_for_mode m = Some p"
  shows "evaluate_permission_policy m None effect risk = Inr d \<longleftrightarrow>
           pd_profile d = p \<and> pd_mode d = m
           \<and> pd_allowed d = (\<not> (p = ''read-only'' \<and> effect \<notin> set read_only_allowed)
                             \<and> \<not> (p = ''trusted'' \<and> effect \<notin> set trusted_allowed))
           \<and> pd_approval_required d = (pd_allowed d \<and> needs_approval effect risk)
           \<and> pd_reason d =
               (if p = ''read-only'' \<and> effect \<notin> set read_only_allowed then reason_read_only_denied
                else if p = ''trusted'' \<and> effect \<notin> set trusted_allowed then reason_trusted_denied
                else if needs_approval effect risk then reason_approval_required
                else reason_read_like_allowed)"
  by (cases d) (auto simp: evaluate_permission_policy_def route_of_mode(1) [OF assms]
      needs_approval_def Let_def)

lemma allows_simps:
  "allows ''read-only'' effect \<longleftrightarrow> effect \<in> set read_only_allowed"
  "allows ''trusted-scope'' effect \<longleftrightarrow> effect \<in> set trusted_allowed"
  "allows ''full-access'' effect"
proof -
  have "profile_for_mode ''read-only'' = Some ''read-only''"
    "profile_for_mode ''trusted-scope'' = Some ''trusted''"
    "profile_for_mode ''full-access'' = Some ''full-with-approvals''"
    by (simp_all add: profile_for_mode_cases)
  note r = this [THEN route_of_mode(1)]
  show "allows ''read-only'' effect \<longleftrightarrow> effect \<in> set read_only_allowed"
    "allows ''trusted-scope'' effect \<longleftrightarrow> effect \<in> set trusted_allowed"
    "allows ''full-access'' effect"
    by (simp_all add: allows_def evaluate_permission_policy_def r Let_def)
qed

lemma ensure_permission_iff:
  "ensure_permission_allowed mode profile effect risk = Inr d \<longleftrightarrow>
     evaluate_permission_policy mode profile effect risk = Inr d \<and> pd_allowed d"
  by (auto simp: ensure_permission_allowed_def result_simps)

lemma decision_cases:
  assumes "evaluate_permission_policy mode profile effect risk = Inr d"
  shows "profile_for_mode (pd_mode d) = Some (pd_profile d)"
    and "pd_mode d = to_ascii_lowercase (trim mode)"
    and "evaluate_permission_policy (pd_mode d) None effect risk = Inr d"
proof -
  obtain m p where route: "normalize_permission_route mode profile = Inr (m, p)"
    using assms by (auto simp: evaluate_permission_policy_def result_simps)
  note rp = route_pairs [OF route]
  have same: "evaluate_permission_policy m None effect risk = Inr d"
    using assms by (simp add: evaluate_permission_policy_def route route_of_mode(1) [OF rp(2)])
  have "pd_profile d = p" "pd_mode d = m"
    using same unfolding decision_of_mode [OF rp(2)] by simp_all
  then show "profile_for_mode (pd_mode d) = Some (pd_profile d)"
    and "pd_mode d = to_ascii_lowercase (trim mode)"
    and "evaluate_permission_policy (pd_mode d) None effect risk = Inr d"
    using rp same by simp_all
qed

text \<open>An effect that a narrower profile allows is allowed by every wider one (read-only, then
  trusted, then full access), an allowed effect needs the user's approval in the one profile if
  and only if it does in the other, and no profile lets a tool that changes anything run without
  approval: every tool of the vocabulary is a read that the read-only profile allows, or its
  effect is refused or put before the user, whatever the route and the stated risk.\<close>

theorem authority_is_ordered:
  "(allows ''read-only'' effect \<longrightarrow> allows ''trusted-scope'' effect)
   \<and> (allows ''trusted-scope'' effect \<longrightarrow> allows ''full-access'' effect)
   \<and> (ensure_permission_allowed m1 p1 effect risk = Inr d1
      \<longrightarrow> ensure_permission_allowed m2 p2 effect risk = Inr d2
      \<longrightarrow> pd_approval_required d1 = pd_approval_required d2)
   \<and> (effect_for_tool tool = Some e
      \<longrightarrow> ensure_permission_allowed mode profile e risk = Inr d
      \<longrightarrow> e \<in> set read_only_allowed \<or> pd_approval_required d)"
proof (intro conjI impI)
  show "allows ''read-only'' effect \<Longrightarrow> allows ''trusted-scope'' effect"
    using read_only_subset_trusted by (auto simp: allows_simps)
  show "allows ''full-access'' effect"
    by (simp add: allows_simps)
  have req: "pd_approval_required d = needs_approval e r"
    if "ensure_permission_allowed m p e r = Inr d" for m p e r d
    using that decision_cases [of m p e r d] decision_of_mode [of "pd_mode d" "pd_profile d" e r d]
    by (simp add: ensure_permission_iff)
  show "pd_approval_required d1 = pd_approval_required d2"
    if "ensure_permission_allowed m1 p1 effect risk = Inr d1"
      "ensure_permission_allowed m2 p2 effect risk = Inr d2"
    using that by (simp add: req)
  show "e \<in> set read_only_allowed \<or> pd_approval_required d"
    if "effect_for_tool tool = Some e" "ensure_permission_allowed mode profile e risk = Inr d"
  proof -
    have "e \<in> snd ` set tool_effects"
      using that(1) unfolding effect_for_tool_def by (force dest: map_of_SomeD)
    then show ?thesis
      using tool_effects_covered that(2) by (auto simp: req needs_approval_def)
  qed
qed

lemma authority_is_ordered_witness:
  "\<exists>d. effect_for_tool ''write-file'' = Some ''local-write''
       \<and> ensure_permission_allowed '' Full-Access'' None ''local-write'' ''low'' = Inr d
       \<and> ''local-write'' \<notin> set read_only_allowed \<and> pd_approval_required d"
proof -
  define d where "d = \<lparr>pd_profile = ''full-with-approvals'', pd_mode = ''full-access'',
    pd_allowed = True, pd_approval_required = True, pd_reason = reason_approval_required\<rparr>"
  have tool: "effect_for_tool ''write-file'' = Some ''local-write''"
    by code_simp
  have allowed: "ensure_permission_allowed '' Full-Access'' None ''local-write'' ''low'' = Inr d"
    unfolding d_def by code_simp
  have mutates: "''local-write'' \<notin> set read_only_allowed"
    by code_simp
  from authority_is_ordered [THEN conjunct2, THEN conjunct2, THEN conjunct2, THEN mp, THEN mp,
      OF tool allowed] mutates
  have "pd_approval_required d"
    by simp
  with tool allowed mutates show ?thesis
    by (intro exI [of _ d]) simp
qed

end
