(* ===== verification/Approval_Requests.thy ===== *)
theory Approval_Requests
  imports Permission_Policy
begin

text \<open>
  Approval requests and their resolution (\<open>approvals.rs\<close>, the text helpers of \<open>paths.rs\<close> and the
  records of \<open>models.rs\<close>): normalisation of requests, grants and audit entries, the bounded audit
  log and the bounded list of standing rules, the resolution of a request by the user's decision,
  and the confirmation that the minting of a high-risk permit needs. The native dialog is a
  parameter, a function from the request it shows to the answer.
\<close>

section \<open>Text helpers\<close>

function ws_words :: "string list \<Rightarrow> string list" where
  "ws_words cs =
     (let rest = dropWhile white_space cs
      in if rest = [] then []
         else concat (takeWhile (\<lambda>c. \<not> white_space c) rest)
              # ws_words (dropWhile (\<lambda>c. \<not> white_space c) rest))"
  by pat_completeness auto

lemma ws_words_smaller:
  assumes "dropWhile white_space cs \<noteq> []"
  shows "length (dropWhile (\<lambda>c. \<not> white_space c) (dropWhile white_space cs)) < length cs"
proof -
  obtain c rest where split: "dropWhile white_space cs = c # rest" "\<not> white_space c"
    using assms by (metis dropWhile_eq_Nil_conv hd_dropWhile list.exhaust_sel)
  have "length (dropWhile (\<lambda>c. \<not> white_space c) rest) \<le> length rest"
    by (rule length_dropWhile_le)
  moreover have "length (c # rest) \<le> length cs"
    using length_dropWhile_le [of white_space cs] split by simp
  ultimately show ?thesis
    using split by simp
qed

termination ws_words
  by (relation "measure length") (auto simp: ws_words_smaller)

declare ws_words.simps [simp del]

definition split_whitespace :: "string \<Rightarrow> string list" where
  "split_whitespace s = ws_words (scalars s)"

fun join :: "string \<Rightarrow> string list \<Rightarrow> string" where
  "join sep [] = []"
| "join sep [w] = w"
| "join sep (w # ws) = w @ sep @ join sep ws"

definition normalize_spaces :: "string \<Rightarrow> string" where
  "normalize_spaces v = join '' '' (split_whitespace v)"

definition truncate_characters :: "string \<Rightarrow> nat \<Rightarrow> string" where
  "truncate_characters v n =
     (if chars_count v \<le> n then v else concat (take n (scalars v)))"

definition is_alnum_scalar :: "string \<Rightarrow> bool" where
  "is_alnum_scalar ch = (case ch of [c] \<Rightarrow> ascii_alphanumeric c | _ \<Rightarrow> False)"

fun slug_loop :: "string list \<Rightarrow> string \<Rightarrow> bool \<Rightarrow> string" where
  "slug_loop [] slug previous_dash = slug"
| "slug_loop (ch # cs) slug previous_dash =
     (let (slug', dash') =
            (if is_alnum_scalar ch then (slug @ ch, False)
             else if \<not> previous_dash \<and> slug \<noteq> [] then (slug @ ''-'', True)
             else (slug, previous_dash))
      in if 40 \<le> length slug' then slug' else slug_loop cs slug' dash')"

definition trim_matches :: "char \<Rightarrow> string \<Rightarrow> string" where
  "trim_matches c s = rev (dropWhile (\<lambda>x. x = c) (rev (dropWhile (\<lambda>x. x = c) s)))"

definition file_slug :: "string \<Rightarrow> string" where
  "file_slug file_name =
     trim_matches (CHR ''-'') (slug_loop (scalars (to_ascii_lowercase file_name)) [] False)"

section \<open>Records\<close>

record approval_audit_entry =
  ae_id :: string
  ae_request_id :: string
  ae_decision :: string
  ae_decided_at :: string
  ae_note :: string

record approval_request =
  aq_id :: string
  aq_service :: string
  aq_action :: string
  aq_mode :: string
  aq_risk_level :: string
  aq_data_used :: "string list"
  aq_consequence :: string
  aq_requested_at :: string
  aq_decisions :: "string list"
  aq_confirmation_phrase :: "string option"

record approval_modification =
  am_mode :: string
  am_data_used :: "string list"
  am_consequence :: string

record approval_grant =
  ag_id :: string
  ag_request_id :: string
  ag_scope :: string
  ag_service :: string
  ag_action :: string
  ag_mode :: string
  ag_data_used :: "string list"
  ag_created_at :: string

record resolution_request =
  rq_request :: approval_request
  rq_decision :: string
  rq_decided_at :: string
  rq_confirmation_text :: "string option"
  rq_modification :: "approval_modification option"

record resolution_response =
  rs_persisted :: bool
  rs_audit_entry :: approval_audit_entry
  rs_effective_request :: approval_request
  rs_dismissed :: bool
  rs_grant :: "approval_grant option"

definition APPROVAL_DECISIONS :: "string list" where
  "APPROVAL_DECISIONS = [''once'', ''session'', ''rule'', ''modify'', ''deny'']"

definition APPROVAL_RISK_LEVELS :: "string list" where
  "APPROVAL_RISK_LEVELS = [''low'', ''medium'', ''high'', ''critical'']"

definition MAX_APPROVAL_AUDIT_ENTRIES :: nat where "MAX_APPROVAL_AUDIT_ENTRIES = 200"
definition MAX_APPROVAL_AUDIT_NOTE_CHARACTERS :: nat where "MAX_APPROVAL_AUDIT_NOTE_CHARACTERS = 240"
definition MAX_APPROVAL_RULES :: nat where "MAX_APPROVAL_RULES = 100"
definition MAX_MEMORY_TITLE_CHARACTERS :: nat where "MAX_MEMORY_TITLE_CHARACTERS = 120"
definition MAX_MEMORY_VALUE_CHARACTERS :: nat where "MAX_MEMORY_VALUE_CHARACTERS = 2000"
definition MAX_RUNTIME_SNAPSHOT_ID_CHARACTERS :: nat where "MAX_RUNTIME_SNAPSHOT_ID_CHARACTERS = 160"

section \<open>Normalisation\<close>

definition normalize_approval_data :: "string list \<Rightarrow> string list" where
  "normalize_approval_data values =
     fold (\<lambda>v acc.
             let n = truncate_characters (normalize_spaces v) MAX_APPROVAL_AUDIT_NOTE_CHARACTERS
             in if n = [] \<or> n \<in> set acc then acc else acc @ [n]) values []"

definition normalize_approval_audit_entry ::
    "approval_audit_entry \<Rightarrow> string + approval_audit_entry" where
  "normalize_approval_audit_entry entry =
     (let id = normalize_spaces (ae_id entry);
          request_id = normalize_spaces (ae_request_id entry);
          decision = to_ascii_lowercase (normalize_spaces (ae_decision entry));
          decided_at = normalize_spaces (ae_decided_at entry);
          note = truncate_characters (normalize_spaces (ae_note entry))
                   MAX_APPROVAL_AUDIT_NOTE_CHARACTERS
      in if id = [] \<or> request_id = [] then
           Inl ''Approval audit entries need stable request identifiers.''
         else if decision \<notin> set APPROVAL_DECISIONS then
           Inl ''Approval decision is not recognized.''
         else if decided_at = [] then Inl ''Approval audit entries need a decision time.''
         else if note = [] then Inl ''Approval audit entries need a short note.''
         else Inr \<lparr>ae_id = id, ae_request_id = request_id, ae_decision = decision,
                   ae_decided_at = decided_at, ae_note = note\<rparr>)"

definition normalize_approval_request :: "approval_request \<Rightarrow> string + approval_request" where
  "normalize_approval_request request =
     (let id = truncate_characters (normalize_spaces (aq_id request))
                 MAX_RUNTIME_SNAPSHOT_ID_CHARACTERS;
          service = truncate_characters (normalize_spaces (aq_service request))
                 MAX_MEMORY_TITLE_CHARACTERS;
          action = truncate_characters (normalize_spaces (aq_action request))
                 MAX_APPROVAL_AUDIT_NOTE_CHARACTERS;
          mode = to_ascii_lowercase (normalize_spaces (aq_mode request));
          risk_level = to_ascii_lowercase (normalize_spaces (aq_risk_level request));
          consequence = truncate_characters (normalize_spaces (aq_consequence request))
                 MAX_MEMORY_VALUE_CHARACTERS;
          requested_at = normalize_spaces (aq_requested_at request);
          decisions = filter (\<lambda>d. d \<in> set APPROVAL_DECISIONS)
                 (map (\<lambda>d. to_ascii_lowercase (normalize_spaces d)) (aq_decisions request));
          confirmation_phrase =
                 (case aq_confirmation_phrase request of
                    None \<Rightarrow> None
                  | Some phrase \<Rightarrow>
                      let p = truncate_characters (normalize_spaces phrase) 120
                      in if p = [] then None else Some p)
      in if id = [] \<or> service = [] \<or> action = [] \<or> consequence = [] \<or> requested_at = [] then
           Inl ''Approval requests need identity, service, action, consequence, and time.''
         else if mode \<notin> set APPROVAL_MODES then Inl ''Approval mode is not recognized.''
         else if risk_level \<notin> set APPROVAL_RISK_LEVELS then
           Inl ''Approval risk level is not recognized.''
         else if decisions = [] then
           Inl ''Approval requests need at least one available decision.''
         else Inr \<lparr>aq_id = id, aq_service = service, aq_action = action, aq_mode = mode,
                   aq_risk_level = risk_level,
                   aq_data_used = normalize_approval_data (aq_data_used request),
                   aq_consequence = consequence, aq_requested_at = requested_at,
                   aq_decisions = decisions, aq_confirmation_phrase = confirmation_phrase\<rparr>)"

definition normalize_approval_grant :: "approval_grant \<Rightarrow> string + approval_grant" where
  "normalize_approval_grant grant =
     (let id = truncate_characters (normalize_spaces (ag_id grant))
                 MAX_RUNTIME_SNAPSHOT_ID_CHARACTERS;
          request_id = truncate_characters (normalize_spaces (ag_request_id grant))
                 MAX_RUNTIME_SNAPSHOT_ID_CHARACTERS;
          scope = to_ascii_lowercase (normalize_spaces (ag_scope grant));
          service = truncate_characters (normalize_spaces (ag_service grant))
                 MAX_MEMORY_TITLE_CHARACTERS;
          action = truncate_characters (normalize_spaces (ag_action grant))
                 MAX_APPROVAL_AUDIT_NOTE_CHARACTERS;
          mode = to_ascii_lowercase (normalize_spaces (ag_mode grant));
          created_at = normalize_spaces (ag_created_at grant)
      in if id = [] \<or> request_id = [] \<or> service = [] \<or> action = [] \<or> created_at = [] then
           Inl ''Approval grants need stable request and scope metadata.''
         else if scope \<noteq> ''session'' \<and> scope \<noteq> ''rule'' then
           Inl ''Approval grant scope is not recognized.''
         else if mode \<notin> set APPROVAL_MODES then Inl ''Approval grant mode is not recognized.''
         else Inr \<lparr>ag_id = id, ag_request_id = request_id, ag_scope = scope,
                   ag_service = service, ag_action = action, ag_mode = mode,
                   ag_data_used = normalize_approval_data (ag_data_used grant),
                   ag_created_at = created_at\<rparr>)"

section \<open>Audit log and standing rules\<close>

definition append_approval_audit_entry ::
    "approval_audit_entry list \<Rightarrow> approval_audit_entry \<Rightarrow> approval_audit_entry list" where
  "append_approval_audit_entry entries entry =
     take MAX_APPROVAL_AUDIT_ENTRIES
       (entry # filter (\<lambda>existing. ae_id existing \<noteq> ae_id entry) entries)"

definition persist_approval_audit_entry ::
    "approval_audit_entry \<Rightarrow> approval_audit_entry list
     \<Rightarrow> string + approval_audit_entry \<times> nat \<times> approval_audit_entry list" where
  "persist_approval_audit_entry entry entries =
     bindE (normalize_approval_audit_entry entry) (\<lambda>e.
     let entries' = append_approval_audit_entry entries e
     in Inr (e, length entries', entries'))"

text \<open>The rules of the encrypted document are returned as they are; those of a legacy file (its
  parsed contents) are normalised.\<close>

definition read_approval_rules ::
    "approval_grant list option \<Rightarrow> approval_grant list option \<Rightarrow> string + approval_grant list" where
  "read_approval_rules document legacy =
     (case document of
        Some rules \<Rightarrow> Inr rules
      | None \<Rightarrow> (case legacy of None \<Rightarrow> Inr [] | Some parsed \<Rightarrow> mapE normalize_approval_grant parsed))"

definition add_rule :: "approval_grant \<Rightarrow> approval_grant list \<Rightarrow> approval_grant list" where
  "add_rule grant rules =
     take MAX_APPROVAL_RULES
       (grant # filter (\<lambda>existing. \<not> (ag_service existing = ag_service grant
                                     \<and> ag_action existing = ag_action grant
                                     \<and> ag_mode existing = ag_mode grant)) rules)"

definition persist_approval_rule ::
    "approval_grant \<Rightarrow> approval_grant list option \<Rightarrow> approval_grant list option
     \<Rightarrow> string + approval_grant \<times> approval_grant list" where
  "persist_approval_rule grant document legacy =
     bindE (normalize_approval_grant grant) (\<lambda>g.
     if ag_scope g \<noteq> ''rule'' then Inl ''Only standing rule grants can be persisted.''
     else bindE (read_approval_rules document legacy) (\<lambda>rules. Inr (g, add_rule g rules)))"

section \<open>Resolution\<close>

definition modified_request ::
    "resolution_request \<Rightarrow> approval_request \<Rightarrow> string + approval_request" where
  "modified_request request original =
     (case rq_modification request of
        None \<Rightarrow> Inl ''Modified approvals need a narrowed permission scope.''
      | Some modification \<Rightarrow>
          let mode = to_ascii_lowercase (normalize_spaces (am_mode modification))
          in if mode \<notin> set APPROVAL_MODES then Inl ''Modified approval mode is not recognized.''
             else Inr (original\<lparr>aq_mode := mode,
                                aq_data_used := normalize_approval_data (am_data_used modification),
                                aq_consequence :=
                                  truncate_characters (normalize_spaces (am_consequence modification))
                                    MAX_MEMORY_VALUE_CHARACTERS\<rparr>))"

definition grant_for :: "string \<Rightarrow> string \<Rightarrow> approval_request \<Rightarrow> approval_grant" where
  "grant_for decision decided_at effective =
     \<lparr>ag_id = ''approval-'' @ decision @ ''-''
              @ file_slug (aq_service effective @ ''-'' @ aq_action effective),
      ag_request_id = aq_id effective, ag_scope = decision, ag_service = aq_service effective,
      ag_action = aq_action effective, ag_mode = aq_mode effective,
      ag_data_used = aq_data_used effective, ag_created_at = decided_at\<rparr>"

definition resolution_note :: "string \<Rightarrow> approval_request \<Rightarrow> string" where
  "resolution_note decision effective =
     (if decision = ''modify''
      then aq_service effective @ '' '' @ aq_action effective @ '' modified to ''
           @ aq_mode effective @ '' using '' @ join '', '' (aq_data_used effective)
      else aq_service effective @ '' '' @ aq_action effective)"

definition resolve_approval :: "resolution_request \<Rightarrow> string + resolution_response" where
  "resolve_approval request =
     bindE (normalize_approval_request (rq_request request)) (\<lambda>original.
     let decision = to_ascii_lowercase (normalize_spaces (rq_decision request));
         decided_at = normalize_spaces (rq_decided_at request)
     in if decision \<notin> set APPROVAL_DECISIONS \<or> decision \<notin> set (aq_decisions original) then
          Inl ''Approval decision is not available for this request.''
        else if decided_at = [] then Inl ''Approval decisions need a decision time.''
        else
          bindE (if decision = ''modify'' then modified_request request original
                 else Inr original) (\<lambda>effective.
          if aq_consequence effective = [] then
            Inl ''Modified approvals need a consequence explanation.''
          else
          bindE (if decision = ''session'' \<or> decision = ''rule''
                 then bindE (normalize_approval_grant (grant_for decision decided_at effective))
                        (\<lambda>g. Inr (Some g))
                 else Inr None) (\<lambda>grant.
          bindE (normalize_approval_audit_entry
                   \<lparr>ae_id = aq_id effective @ ''-'' @ decision @ ''-'' @ file_slug decided_at,
                    ae_request_id = aq_id effective, ae_decision = decision,
                    ae_decided_at = decided_at,
                    ae_note = resolution_note decision effective\<rparr>) (\<lambda>audit_entry.
          Inr \<lparr>rs_persisted = False, rs_audit_entry = audit_entry,
               rs_effective_request =
                 (if ae_decision audit_entry = ''modify'' then effective else rq_request request),
               rs_dismissed = True, rs_grant = grant\<rparr>))))"

section \<open>Confirmation of a high-risk permit\<close>

definition webview_echoed_confirmation :: "string option \<Rightarrow> string option \<Rightarrow> bool" where
  "webview_echoed_confirmation confirmation_text confirmation_phrase =
     (case map_option normalize_spaces confirmation_phrase of
        None \<Rightarrow> False
      | Some expected \<Rightarrow>
          if expected = [] then False
          else let provided = (case confirmation_text of None \<Rightarrow> [] | Some t \<Rightarrow> normalize_spaces t)
               in provided \<noteq> [] \<and> provided = expected)"

definition approval_is_high_risk :: "approval_request \<Rightarrow> bool" where
  "approval_is_high_risk request =
     (aq_risk_level request = ''high'' \<or> aq_risk_level request = ''critical''
      \<or> aq_mode request = ''full-access'')"

definition decision_approves :: "string \<Rightarrow> bool" where
  "decision_approves decision =
     (decision = ''once'' \<or> decision = ''session'' \<or> decision = ''rule'' \<or> decision = ''modify'')"

type_synonym dialog = "approval_request \<Rightarrow> string + bool"

definition ensure_permit_mint_confirmation ::
    "string option \<Rightarrow> string \<Rightarrow> approval_request \<Rightarrow> dialog \<Rightarrow> string + unit" where
  "ensure_permit_mint_confirmation confirmation_text decision effective native_confirm =
     (if \<not> decision_approves decision \<or> \<not> approval_is_high_risk effective then Inr ()
      else
        bindE (ok_or ''High-risk approvals need a confirmation phrase.''
                 (aq_confirmation_phrase effective)) (\<lambda>phrase.
        if webview_echoed_confirmation confirmation_text (Some phrase) then
          Inl ''WebView cannot mint a high-risk permit by echoing the confirmation phrase.''
        else bindE (native_confirm effective) (\<lambda>confirmed.
          if \<not> confirmed then
            Inl ''High-risk approval was not confirmed in the native dialog.''
          else Inr ())))"

definition resolve_approval_for_mint ::
    "resolution_request \<Rightarrow> dialog \<Rightarrow> string + resolution_response" where
  "resolve_approval_for_mint request native_confirm =
     bindE (resolve_approval request) (\<lambda>response.
     bindE (ensure_permit_mint_confirmation (rq_confirmation_text request)
              (ae_decision (rs_audit_entry response)) (rs_effective_request response)
              native_confirm) (\<lambda>_.
     Inr response))"

text \<open>The text of the dialog (the dash is its UTF-8 encoding).\<close>

definition em_dash :: string where
  "em_dash = map char_of [226 :: nat, 128, 148]"

definition high_risk_permit_dialog_copy :: "approval_request \<Rightarrow> string" where
  "high_risk_permit_dialog_copy request =
     (let newline = [CHR 0x0A];
          details = join newline
            (filter (\<lambda>v. \<not> starts_with v ''proposal fingerprint:'') (aq_data_used request));
          bounded = concat (take 2048 (scalars details));
          shown = (if length bounded < length details
                   then bounded @ newline
                        @ ''Further details are shown in the conversation approval.''
                   else bounded)
      in aq_service request @ '' '' @ em_dash @ '' '' @ aq_action request @ newline @ newline
         @ aq_consequence request @ newline @ newline @ shown @ newline @ newline
         @ ''Approve this exact action once?'')"

end
