(* ===== verification/Execution_Permits.thy ===== *)
theory Execution_Permits
  imports Approval_Requests Schedule_Records
begin

text \<open>
  One-time execution permits (\<open>execution_approvals.rs\<close>). A decision of the user is kept as a permit
  with the fingerprint of the exact request; a consumer presents the request again and the permit
  is marked as consumed in the same transaction of the document. The permits are the list of the
  document, newest first.

  The SHA-256 digest of the serialised request is a parameter \<open>fp\<close>. The clock of the consumer and
  the answer of the workspace pause (\<open>Attempt_Store\<close>) are arguments. Times are read by the source's
  own conversion of an RFC 3339 text to seconds; its \<open>i64\<close> arithmetic wraps, as the release build
  does.
\<close>

section \<open>Seconds of a timestamp\<close>

definition wrap64 :: "int \<Rightarrow> int" where
  "wrap64 x = sint (word_of_int x :: 64 word)"

text \<open>\<open>str::parse::<i64>\<close>.\<close>

definition parse_i64 :: "string \<Rightarrow> int option" where
  "parse_i64 s =
     (let (negative, digits) =
            (case s of [] \<Rightarrow> (False, [])
             | c # t \<Rightarrow> if c = CHR ''-'' then (True, t)
                       else if c = CHR ''+'' then (False, t) else (False, s))
      in if digits = [] \<or> \<not> list_all ascii_digit digits then None
         else let n = int (dec_value digits); v = (if negative then - n else n)
              in if v < - (2 ^ 63) \<or> 2 ^ 63 \<le> v then None else Some v)"

definition split_once :: "char \<Rightarrow> string \<Rightarrow> (string \<times> string) option" where
  "split_once c s =
     (case dropWhile (\<lambda>x. x \<noteq> c) s of
        [] \<Rightarrow> None
      | _ # rest \<Rightarrow> Some (takeWhile (\<lambda>x. x \<noteq> c) s, rest))"

definition strip_suffix_char :: "char \<Rightarrow> string \<Rightarrow> string option" where
  "strip_suffix_char c s = (if s \<noteq> [] \<and> last s = c then Some (butlast s) else None)"

definition leap :: "int \<Rightarrow> bool" where
  "leap year = (year mod 4 = 0 \<and> (year mod 100 \<noteq> 0 \<or> year mod 400 = 0))"

definition month_days :: "int \<Rightarrow> int list" where
  "month_days year = [31, if leap year then 29 else 28, 31, 30, 31, 30, 31, 31, 30, 31, 30, 31]"

text \<open>Division of \<open>i64\<close> truncates towards zero.\<close>

definition trunc_div :: "int \<Rightarrow> int \<Rightarrow> int" where
  "trunc_div x d = (if 0 \<le> x then x div d else - ((- x) div d))"

definition days_from_civil :: "int \<Rightarrow> int \<Rightarrow> int \<Rightarrow> int" where
  "days_from_civil year month day =
     (let adjusted_year = year - (if month \<le> 2 then 1 else 0);
          era = trunc_div (if 0 \<le> adjusted_year then adjusted_year else adjusted_year - 399) 400;
          year_of_era = adjusted_year - era * 400;
          shifted_month = month + (if 2 < month then - 3 else 9);
          day_of_year = trunc_div (153 * shifted_month + 2) 5 + day - 1;
          day_of_era = year_of_era * 365 + trunc_div year_of_era 4 - trunc_div year_of_era 100
                       + day_of_year
      in era * 146097 + day_of_era - 719468)"

definition parse_date :: "string \<Rightarrow> (int \<times> int \<times> int) option" where
  "parse_date date =
     (case split_char (CHR ''-'') date of
        [y, m, d] \<Rightarrow>
          (case (parse_i64 y, parse_i64 m, parse_i64 d) of
             (Some year, Some month, Some day) \<Rightarrow>
               if month < 1 \<or> 12 < month then None
               else if day < 1 \<or> month_days year ! nat (month - 1) < day then None
               else Some (year, month, day)
           | _ \<Rightarrow> None)
      | _ \<Rightarrow> None)"

definition parse_clock :: "string \<Rightarrow> (int \<times> int \<times> int) option" where
  "parse_clock t =
     (case split_char (CHR '':'') t of
        [h, mi, seconds_part] \<Rightarrow>
          (case (parse_i64 h, parse_i64 mi) of
             (Some hour, Some minute) \<Rightarrow>
               if 23 < hour \<or> 59 < minute then None
               else
                 let (second_text, fraction) =
                       (case split_once (CHR ''.'') seconds_part of
                          Some parts \<Rightarrow> parts | None \<Rightarrow> (seconds_part, []))
                 in if \<not> list_all ascii_digit fraction \<or> length second_text \<noteq> 2 then None
                    else (case parse_i64 second_text of
                            None \<Rightarrow> None
                          | Some second \<Rightarrow>
                              if 59 < second then None else Some (hour, minute, second))
           | _ \<Rightarrow> None)
      | _ \<Rightarrow> None)"

definition parse_rfc3339_utc_seconds :: "string \<Rightarrow> int option" where
  "parse_rfc3339_utc_seconds v =
     Option.bind (strip_suffix_char (CHR ''Z'') v) (\<lambda>v'.
     Option.bind (split_once (CHR ''T'') v') (\<lambda>(date, t).
     Option.bind (parse_date date) (\<lambda>(year, month, day).
     Option.bind (parse_clock t) (\<lambda>(hour, minute, second).
     Some (wrap64 (days_from_civil year month day * 86400 + hour * 3600 + minute * 60 + second))))))"

section \<open>Permits\<close>

record execution_approval =
  ea_request_id :: string
  ea_request_fingerprint :: string
  ea_decision :: string
  ea_decided_at :: string
  ea_consumed_at :: "string option"
  ea_invalidated_at :: "string option"

definition EXECUTION_APPROVAL_TTL_SECONDS :: int where
  "EXECUTION_APPROVAL_TTL_SECONDS = 15 * 60"

definition record_execution_decision_in_records ::
    "(approval_request \<Rightarrow> string) \<Rightarrow> resolution_response \<Rightarrow> execution_approval list
     \<Rightarrow> execution_approval list" where
  "record_execution_decision_in_records fp response records =
     take 500
       (\<lparr>ea_request_id = aq_id (rs_effective_request response),
         ea_request_fingerprint = fp (rs_effective_request response),
         ea_decision = ae_decision (rs_audit_entry response),
         ea_decided_at = ae_decided_at (rs_audit_entry response),
         ea_consumed_at = None, ea_invalidated_at = None\<rparr>
        # filter (\<lambda>r. ea_request_id r \<noteq> aq_id (rs_effective_request response)) records)"

definition invalidate_execution_approvals ::
    "string list \<Rightarrow> string \<Rightarrow> execution_approval list \<Rightarrow> execution_approval list" where
  "invalidate_execution_approvals request_ids invalidated_at records =
     (if request_ids = [] then records
      else map (\<lambda>r. if ea_request_id r \<in> set request_ids \<and> ea_consumed_at r = None
                        \<and> ea_invalidated_at r = None
                     then r\<lparr>ea_invalidated_at := Some invalidated_at\<rparr> else r) records)"

text \<open>The checks of \<open>consume_unconsumed_record\<close> on the record it found.\<close>

definition check_permit :: "execution_approval \<Rightarrow> string \<Rightarrow> string \<Rightarrow> string + unit" where
  "check_permit r expected consumed_at =
     (if ea_request_fingerprint r \<noteq> expected then
        Inl ''Execution blocked: approval metadata changed after the user decision.''
      else if \<not> (ea_decision r = ''once'' \<or> ea_decision r = ''session'' \<or> ea_decision r = ''rule''
                 \<or> ea_decision r = ''modify'') then
        Inl ''Execution blocked: the user did not approve this request.''
      else if ea_invalidated_at r \<noteq> None then
        Inl ''Execution blocked: this approval belongs to an interrupted attempt.''
      else if ea_consumed_at r \<noteq> None then
        Inl ''Execution blocked: this approval was already consumed.''
      else
        bindE (ok_or ''Execution blocked: approval timestamp is invalid.''
                 (parse_rfc3339_utc_seconds (ea_decided_at r))) (\<lambda>decided.
        bindE (ok_or ''Execution blocked: execution timestamp is invalid.''
                 (parse_rfc3339_utc_seconds consumed_at)) (\<lambda>consumed.
        if consumed < decided \<or> EXECUTION_APPROVAL_TTL_SECONDS < wrap64 (consumed - decided) then
          Inl ''Execution blocked: this approval is stale.''
        else Inr ())))"

fun consume_unconsumed_record ::
    "execution_approval list \<Rightarrow> approval_request \<Rightarrow> string \<Rightarrow> string
     \<Rightarrow> string + execution_approval list" where
  "consume_unconsumed_record [] request expected consumed_at =
     Inl ''Execution blocked: no persisted user approval matches this request.''"
| "consume_unconsumed_record (r # rs) request expected consumed_at =
     (if ea_request_id r = aq_id request
      then bindE (check_permit r expected consumed_at) (\<lambda>_.
           Inr (r\<lparr>ea_consumed_at := Some consumed_at\<rparr> # rs))
      else bindE (consume_unconsumed_record rs request expected consumed_at) (\<lambda>rs'.
           Inr (r # rs')))"

definition verify_and_consume_execution_approval ::
    "(approval_request \<Rightarrow> string) \<Rightarrow> string + unit \<Rightarrow> approval_request \<Rightarrow> string
     \<Rightarrow> execution_approval list \<Rightarrow> string + execution_approval list" where
  "verify_and_consume_execution_approval fp gate request consumed_at records =
     bindE gate (\<lambda>_. consume_unconsumed_record records request (fp request) consumed_at)"

section \<open>Evaluation of large numbers\<close>

definition dec_int :: "string \<Rightarrow> int" where
  "dec_int s = foldl (\<lambda>n c. 10 * n + int (byte c - 48)) 0 s"

lemma dec_int: "int (dec_value s) = dec_int s"
proof (induction s rule: rev_induct)
  case (snoc c s)
  then show ?case by (simp add: dec_int_def dec_value_def)
qed (simp add: dec_int_def dec_value_def)

lemmas parse_i64_int [code] = parse_i64_def [unfolded dec_int]

section \<open>The day count\<close>

text \<open>The reference counts the days of the whole years and months before a date.\<close>

definition year_days :: "int \<Rightarrow> int" where
  "year_days year = (if leap year then 366 else 365)"

definition days_before_year :: "nat \<Rightarrow> int" where
  "days_before_year y = (\<Sum>k<y. year_days (int k))"

definition days_before_month :: "int \<Rightarrow> nat \<Rightarrow> int" where
  "days_before_month year m = (\<Sum>k<m. month_days year ! k)"

definition reference_days :: "nat \<Rightarrow> nat \<Rightarrow> int \<Rightarrow> int" where
  "reference_days y m d =
     days_before_year y + days_before_month (int y) (m - 1) + d - 1
     - days_before_year 1970"

lemma ceil_div:
  fixes x k :: int
  assumes "0 < k"
  shows "(x + (k - 1)) div k = x div k + (if x mod k = 0 then 0 else 1)"
proof -
  have "x + (k - 1) = (x mod k + (k - 1)) + x div k * k"
    by simp
  then have "(x + (k - 1)) div k = x div k + (x mod k + (k - 1)) div k"
    using assms by (simp only: div_mult_self1)
  moreover have "(x mod k + (k - 1)) div k = (if x mod k = 0 then 0 else 1)"
  proof (cases "x mod k = 0")
    case True
    with assms show ?thesis by (simp add: div_pos_pos_trivial)
  next
    case False
    have "0 \<le> x mod k" "x mod k < k" using assms by simp_all
    with False have "(x mod k - 1) div k = 0" by (simp add: div_pos_pos_trivial)
    moreover have "x mod k + (k - 1) = (x mod k - 1) + k" by simp
    ultimately show ?thesis using assms False by (simp only: div_add_self2) simp
  qed
  ultimately show ?thesis by simp
qed

lemmas ceil_divs =
  ceil_div [of 4, simplified] ceil_div [of 100, simplified] ceil_div [of 400, simplified]

lemma leap_days_step:
  "x div 4 - x div 100 + x div 400 + 1
   = (x + 3) div 4 - (x + 99) div 100 + (x + 399) div 400 + (if leap x then 1 else 0)"
proof -
  have "x mod 4 = 0" if "x mod 100 = 0"
    using that mod_mod_cancel [of 4 100 x] by simp
  moreover have "x mod 100 = 0" if "x mod 400 = 0"
    using that mod_mod_cancel [of 100 400 x] by simp
  ultimately show ?thesis
    by (auto simp: ceil_divs leap_def)
qed

text \<open>The linear arithmetic of the proofs below, over the quotients as unknowns.\<close>

lemma next_year_sum:
  fixes n :: int
  assumes "D' = D + Y" "a' = p + 1" "b' = q + 1" "c' = r + 1" "Y = 365 + L"
    "D = 365 * n + a - b + c" "p - q + r + 1 = a - b + c + L"
  shows "D' = 365 * (1 + n) + a' - b' + c'"
  using assms by simp

lemma march_sum:
  fixes n :: int
  assumes "X = 365 * n + p - q + r + s + d - 1 - 719468" "M = s + (59 + L)"
    "p - q + r + 1 = a - b + c + L"
  shows "X = 365 * n + a - b + c + M + d - 1 - 719528"
  using assms by simp

lemma january_sum:
  fixes n :: int
  assumes "X = 365 * (n - 1) + p - q + r + s + d - 1 - 719468" "M = s - 306"
    "a = p + 1" "b = q + 1" "c = r + 1"
  shows "X = 365 * n + a - b + c + M + d - 1 - 719528"
  using assms by simp

lemma days_before_year_closed:
  "days_before_year y
   = 365 * int y + (int y + 3) div 4 - (int y + 99) div 100 + (int y + 399) div 400"
proof (induction y)
  case 0
  show ?case by (simp add: days_before_year_def)
next
  case (Suc y)
  have "days_before_year (Suc y) = days_before_year y + year_days (int y)"
    by (simp add: days_before_year_def)
  then show ?case
    unfolding of_nat_Suc
  proof (rule next_year_sum)
    show "(1 + int y + 3) div 4 = int y div 4 + 1"
      "(1 + int y + 99) div 100 = int y div 100 + 1" "(1 + int y + 399) div 400 = int y div 400 + 1"
      by simp_all
    show "year_days (int y) = 365 + (if leap (int y) then 1 else 0)"
      by (simp add: year_days_def)
  qed (rule Suc leap_days_step)+
qed

lemma epoch_days: "days_before_year 1970 = 719528"
  by (simp add: days_before_year_closed)

text \<open>The days from 1 March to the first of a month, and the days before 1 March.\<close>

lemma days_before_month_shift:
  assumes "1 \<le> m" "m \<le> 12"
  shows "days_before_month year (m - 1) =
    (if 2 < m then (153 * (int m - 3) + 2) div 5 + (if leap year then 60 else 59)
     else (153 * (int m + 9) + 2) div 5 - 306)"
proof -
  have "m = 1 \<or> m = 2 \<or> m = 3 \<or> m = 4 \<or> m = 5 \<or> m = 6 \<or> m = 7 \<or> m = 8 \<or> m = 9 \<or> m = 10
      \<or> m = 11 \<or> m = 12"
    using assms by arith
  then show ?thesis
    by (elim disjE)
      (simp_all add: days_before_month_def month_days_def lessThan_nat_numeral lessThan_Suc
         eval_nat_numeral)
qed

lemma era_of:
  "trunc_div (if 0 \<le> a then a else a - 399) 400 = a div 400"
proof (cases "0 \<le> a")
  case True
  then show ?thesis by (simp add: trunc_div_def)
next
  case False
  have "(399 - a) div 400 = - a div 400 + (if - a mod 400 = 0 then 0 else 1)"
    using ceil_div [of 400 "- a"] by simp
  also have "\<dots> = - (a div 400)"
    using pos_mod_bound [of 400 a]
    by (auto simp: zdiv_zminus1_eq_if zmod_zminus1_eq_if simp del: pos_mod_bound)
  finally show ?thesis using False by (simp add: trunc_div_def)
qed

lemma day_of_era:
  fixes a :: int
  shows "(a div 400) * 146097 + ((a - (a div 400) * 400) * 365
           + trunc_div (a - (a div 400) * 400) 4 - trunc_div (a - (a div 400) * 400) 100)
         = 365 * a + a div 4 - a div 100 + a div 400"
proof -
  define e r where "e = a div 400" and "r = a mod 400"
  have a: "a = r + e * 400" and r: "0 \<le> r"
    unfolding e_def r_def by simp_all
  have "a = r + (100 * e) * 4" "a = r + (4 * e) * 100"
    using a by simp_all
  then have "a div 4 = 100 * e + r div 4" "a div 100 = 4 * e + r div 100"
    by (metis div_mult_self1 zero_neq_numeral)+
  moreover have "a - e * 400 = r" using a by simp
  ultimately show ?thesis
    using r a unfolding e_def [symmetric] by (simp add: trunc_div_def)
qed

lemma days_from_civil_closed:
  "days_from_civil year month day =
     (let a = year - (if month \<le> 2 then 1 else 0)
      in (365 * a + a div 4 - a div 100 + a div 400)
         + trunc_div (153 * (month + (if 2 < month then - 3 else 9)) + 2) 5 + day - 1 - 719468)"
  unfolding days_from_civil_def Let_def era_of day_of_era [symmetric] by simp

lemma days_from_civil_reference:
  assumes "1 \<le> m" "m \<le> 12"
  shows "days_from_civil (int y) (int m) d = reference_days y m d"
proof (cases "2 < m")
  case True
  have "days_from_civil (int y) (int m) d = 365 * int y + int y div 4 - int y div 100
      + int y div 400 + (153 * (int m - 3) + 2) div 5 + d - 1 - 719468"
    using True by (simp add: days_from_civil_closed trunc_div_def Let_def)
  then show ?thesis
    unfolding reference_days_def epoch_days days_before_year_closed [of y]
  proof (rule march_sum)
    show "days_before_month (int y) (m - 1)
        = (153 * (int m - 3) + 2) div 5 + (59 + (if leap (int y) then 1 else 0))"
      using True days_before_month_shift [OF assms, of "int y"] by (simp split: if_splits)
  qed (rule leap_days_step)
next
  case False
  have "days_from_civil (int y) (int m) d = 365 * (int y - 1) + (int y - 1) div 4
      - (int y - 1) div 100 + (int y - 1) div 400 + (153 * (int m + 9) + 2) div 5 + d - 1 - 719468"
    using False by (simp add: days_from_civil_closed trunc_div_def Let_def)
  then show ?thesis
    unfolding reference_days_def epoch_days days_before_year_closed [of y]
  proof (rule january_sum)
    show "days_before_month (int y) (m - 1) = (153 * (int m + 9) + 2) div 5 - 306"
      using False days_before_month_shift [OF assms, of "int y"] by simp
    have step: "(int y + (k - 1)) div k = (int y - 1) div k + 1" if "0 < k" for k
      using that div_add_self2 [of k "int y - 1"] by (simp add: algebra_simps)
    show "(int y + 3) div 4 = (int y - 1) div 4 + 1"
      using step [of 4] by simp
    show "(int y + 99) div 100 = (int y - 1) div 100 + 1"
      using step [of 100] by simp
    show "(int y + 399) div 400 = (int y - 1) div 400 + 1"
      using step [of 400] by simp
  qed
qed

section \<open>Reading a printed time\<close>

definition pad :: "nat \<Rightarrow> nat \<Rightarrow> string" where
  "pad w n = replicate (w - length (dec n)) (CHR ''0'') @ dec n"

definition rfc3339 :: "nat \<Rightarrow> nat \<Rightarrow> nat \<Rightarrow> nat \<Rightarrow> nat \<Rightarrow> nat \<Rightarrow> string \<Rightarrow> string" where
  "rfc3339 y m d h mi s fraction =
     pad 4 y @ ''-'' @ pad 2 m @ ''-'' @ pad 2 d @ ''T'' @ pad 2 h @ '':'' @ pad 2 mi @ '':''
     @ pad 2 s @ ''.'' @ fraction @ ''Z''"

lemma dec_value_zeros: "dec_value (replicate k (CHR ''0'') @ t) = dec_value t"
proof (induction k)
  case (Suc k)
  then show ?case by (simp add: dec_value_def byte_def)
qed simp

lemma pad_value: "dec_value (pad w n) = n"
  by (simp add: pad_def dec_value_zeros)

lemma pad_digits: "pad w n \<noteq> [] \<and> list_all ascii_digit (pad w n)"
  using dec_digits [of n] by (auto simp: pad_def list_all_iff ascii_digit_def byte_def)

lemma pad_free: "\<not> ascii_digit c \<Longrightarrow> c \<notin> set (pad w n)"
  using pad_digits [of w n] by (auto simp: list_all_iff)

lemma parse_pad:
  assumes "n < 2 ^ 63"
  shows "parse_i64 (pad w n) = Some (int n)"
proof -
  obtain c t where p: "pad w n = c # t"
    using pad_digits [of w n] by (cases "pad w n") auto
  have "ascii_digit c"
    using pad_digits [of w n] p by simp
  then have "c \<noteq> CHR ''-''" "c \<noteq> CHR ''+''"
    by (auto simp: ascii_digit_def byte_def)
  moreover have "int n < 2 ^ 63"
    using assms by (metis of_nat_less_iff of_nat_numeral of_nat_power)
  ultimately show ?thesis
    using p pad_value [of w n] pad_digits [of w n] by (simp add: parse_i64_def)
qed

lemma split_char_none: "c \<notin> set s \<Longrightarrow> split_char c s = [s]"
  by (induction s) auto

lemma split_char_first: "c \<notin> set s \<Longrightarrow> split_char c (s @ c # t) = s # split_char c t"
  by (induction s) auto

lemma split_once_first: "c \<notin> set s \<Longrightarrow> split_once c (s @ c # t) = Some (s, t)"
proof -
  assume "c \<notin> set s"
  then have "dropWhile (\<lambda>x. x \<noteq> c) (s @ c # t) = c # t" "takeWhile (\<lambda>x. x \<noteq> c) (s @ c # t) = s"
    by (induction s) auto
  then show ?thesis by (simp add: split_once_def)
qed

lemma pad_two: "n < 100 \<Longrightarrow> length (pad 2 n) = 2"
  by (cases "n < 10") (simp_all add: pad_def dec.simps [of n] dec.simps [of "n div 10"])

lemma parse_date_printed:
  assumes "y < 10000" "1 \<le> m" "m \<le> 12" "1 \<le> d" "int d \<le> month_days (int y) ! (m - 1)" "d \<le> 31"
  shows "parse_date (pad 4 y @ ''-'' @ pad 2 m @ ''-'' @ pad 2 d) = Some (int y, int m, int d)"
proof -
  have "\<not> ascii_digit (CHR ''-'')"
    by (simp add: ascii_digit_def byte_def)
  note free = pad_free [OF this]
  have "split_char (CHR ''-'') (pad 4 y @ ''-'' @ pad 2 m @ ''-'' @ pad 2 d)
      = [pad 4 y, pad 2 m, pad 2 d]"
    by (simp add: split_char_first split_char_none free)
  moreover have "nat (int m - 1) = m - 1"
    using assms by simp
  ultimately show ?thesis
    using assms by (simp add: parse_date_def parse_pad)
qed

lemma parse_clock_printed:
  assumes "h \<le> 23" "mi \<le> 59" "s \<le> 59" "list_all ascii_digit fraction"
  shows "parse_clock (pad 2 h @ '':'' @ pad 2 mi @ '':'' @ pad 2 s @ ''.'' @ fraction)
       = Some (int h, int mi, int s)"
proof -
  have "\<not> ascii_digit (CHR '':'')" "\<not> ascii_digit (CHR ''.'')"
    by (simp_all add: ascii_digit_def byte_def)
  note free = this [THEN pad_free]
  have "CHR '':'' \<notin> set fraction"
    using assms(4) by (auto simp: list_all_iff ascii_digit_def byte_def)
  then have "split_char (CHR '':'') (pad 2 h @ '':'' @ pad 2 mi @ '':'' @ pad 2 s @ ''.'' @ fraction)
      = [pad 2 h, pad 2 mi, pad 2 s @ ''.'' @ fraction]"
    by (simp add: split_char_first split_char_none free)
  moreover have "split_once (CHR ''.'') (pad 2 s @ ''.'' @ fraction) = Some (pad 2 s, fraction)"
    by (simp add: split_once_first free)
  ultimately show ?thesis
    using assms by (simp add: parse_clock_def parse_pad pad_two)
qed

lemma wrap64_self: "- (2 ^ 63) \<le> x \<Longrightarrow> x < 2 ^ 63 \<Longrightarrow> wrap64 x = x"
  unfolding wrap64_def int_word_sint by (simp add: mod_pos_pos_trivial)

lemma days_before_year_bounds: "0 \<le> days_before_year y \<and> days_before_year y \<le> 366 * int y"
  by (induction y) (auto simp: days_before_year_def year_days_def)

lemma reference_days_bounds:
  assumes "y < 10000" "1 \<le> m" "m \<le> 12" "0 \<le> d" "d \<le> 31"
  shows "\<bar>reference_days y m d\<bar> < 10000000"
proof -
  have "0 \<le> days_before_month (int y) (m - 1)" "days_before_month (int y) (m - 1) \<le> 400"
    using assms days_before_month_shift [of m "int y"] by (auto split: if_splits)
  moreover have "366 * int y \<le> 3660000"
    using assms by simp
  ultimately show ?thesis
    using days_before_year_bounds [of y] assms unfolding reference_days_def epoch_days by linarith
qed

text \<open>C37. The clock of the freshness fence is exact. The text of a date and time, with any
  fraction of a second, is read as the number of seconds since the epoch that counting the days of
  the whole years and months gives: Hinnant's shifted-year conversion in 64-bit arithmetic agrees
  with the calendar on every date of the years 0 to 9999, leap days included.\<close>

theorem permit_time_is_exact:
  assumes "y < 10000" "1 \<le> m" "m \<le> 12" "1 \<le> d" "int d \<le> month_days (int y) ! (m - 1)"
    and "h \<le> 23" "mi \<le> 59" "s \<le> 59" "list_all ascii_digit fraction"
  shows "parse_rfc3339_utc_seconds (rfc3339 y m d h mi s fraction)
       = Some (reference_days y m (int d) * 86400 + int h * 3600 + int mi * 60 + int s)"
proof -
  let ?date = "pad 4 y @ ''-'' @ pad 2 m @ ''-'' @ pad 2 d"
  let ?time = "pad 2 h @ '':'' @ pad 2 mi @ '':'' @ pad 2 s @ ''.'' @ fraction"
  have "\<not> ascii_digit (CHR ''T'')"
    by (simp add: ascii_digit_def byte_def)
  then have split: "split_once (CHR ''T'') (?date @ CHR ''T'' # ?time) = Some (?date, ?time)"
    by (intro split_once_first) (simp add: pad_free)
  have strip: "strip_suffix_char (CHR ''Z'') (rfc3339 y m d h mi s fraction)
      = Some (?date @ CHR ''T'' # ?time)"
    by (simp add: strip_suffix_char_def rfc3339_def butlast_append)
  have "\<forall>x \<in> set (month_days (int y)). x \<le> 31" "m - 1 < length (month_days (int y))"
    using assms by (simp_all add: month_days_def)
  then have "month_days (int y) ! (m - 1) \<le> 31"
    by (meson nth_mem)
  then have d31: "d \<le> 31"
    using assms(5) by linarith
  have "wrap64 (reference_days y m (int d) * 86400 + int h * 3600 + int mi * 60 + int s)
      = reference_days y m (int d) * 86400 + int h * 3600 + int mi * 60 + int s"
    using reference_days_bounds [of y m "int d"] assms d31 by (intro wrap64_self) simp_all
  then show ?thesis
    unfolding parse_rfc3339_utc_seconds_def
    by (simp only: strip split bind.bind_lunit prod.case days_from_civil_reference [OF assms(2,3)]
        parse_date_printed [OF assms(1-5) d31] parse_clock_printed [OF assms(6-9)])
qed

lemma permit_time_is_exact_witness:
  "parse_rfc3339_utc_seconds (rfc3339 2024 2 29 23 59 58 ''125'') = Some 1709251198"
proof -
  have "parse_rfc3339_utc_seconds (rfc3339 2024 2 29 23 59 58 ''125'')
      = Some (reference_days 2024 2 29 * 86400 + 23 * 3600 + 59 * 60 + 58)"
    using permit_time_is_exact [of 2024 2 29 23 59 58 "''125''"]
    by (simp add: month_days_def leap_def ascii_digit_def byte_def)
  also have "reference_days 2024 2 29 = 19782"
    using days_from_civil_reference [of 2 2024 29] by (simp add: days_from_civil_def trunc_div_def)
  finally show ?thesis by simp
qed

end
