(* ===== verification/Approval_Commands.thy ===== *)
theory Approval_Commands
  imports Execution_Permits
begin

text \<open>
  The commands of the approval boundary (\<open>approvals.rs\<close>): one transaction keeps the audit entry, a
  standing rule and the permit of a decision (\<open>persist_approval_resolution_in_store\<close>), after the
  native dialog has confirmed a high-risk request (\<open>resolve_approval_request\<close>).

  \<open>authority\<close> is the set of histories of the permit document: an event per decision, per consumed
  permit and per recovery that revokes permits. \<open>open_permit\<close> is the specification of the document:
  the decision that still authorises a request is the latest event that mentions it. The lemmas
  relate the document to it, and the property reads a consumed permit back to its decision.

  The generation of the signed-in account is an argument (\<open>identity\<close> is the check that the
  transaction makes); the copy of the decision in the action history is observation only and is
  not modelled.
\<close>

section \<open>Commands\<close>

record approval_docs =
  ad_audit :: "approval_audit_entry list"
  ad_rules :: "approval_grant list"
  ad_permits :: "execution_approval list"

definition no_docs :: approval_docs where
  "no_docs = \<lparr>ad_audit = [], ad_rules = [], ad_permits = []\<rparr>"

definition persist_approval_resolution_in_store ::
    "(approval_request \<Rightarrow> string) \<Rightarrow> string + unit \<Rightarrow> resolution_response \<Rightarrow> approval_docs
     \<Rightarrow> string + resolution_response \<times> approval_docs" where
  "persist_approval_resolution_in_store fp identity response docs =
     bindE identity (\<lambda>_.
     bindE (normalize_approval_audit_entry (rs_audit_entry response)) (\<lambda>audit_entry.
     let audit = append_approval_audit_entry (ad_audit docs) audit_entry
     in bindE (case rs_grant response of
                 Some grant \<Rightarrow>
                   if ag_scope grant = ''rule'' then
                     bindE (mapE normalize_approval_grant (ad_rules docs)) (\<lambda>rules.
                     bindE (normalize_approval_grant grant) (\<lambda>g.
                     Inr (Some g, add_rule g rules)))
                   else Inr (Some grant, ad_rules docs)
               | None \<Rightarrow> Inr (None, ad_rules docs)) (\<lambda>(grant, rules).
        let persisted = response\<lparr>rs_persisted := True, rs_audit_entry := audit_entry,
                                 rs_grant := grant\<rparr>
        in Inr (persisted,
                \<lparr>ad_audit = audit, ad_rules = rules,
                 ad_permits = record_execution_decision_in_records fp persisted (ad_permits docs)\<rparr>))))"

definition resolve_approval_request ::
    "(approval_request \<Rightarrow> string) \<Rightarrow> string + unit \<Rightarrow> dialog \<Rightarrow> resolution_request \<Rightarrow> approval_docs
     \<Rightarrow> string + resolution_response \<times> approval_docs" where
  "resolve_approval_request fp identity native_confirm request docs =
     bindE (resolve_approval_for_mint request native_confirm) (\<lambda>response.
     persist_approval_resolution_in_store fp identity response docs)"

section \<open>Bounds of the documents\<close>

definition docs_wf :: "approval_docs \<Rightarrow> bool" where
  "docs_wf docs =
     (length (ad_audit docs) \<le> MAX_APPROVAL_AUDIT_ENTRIES \<and> distinct (map ae_id (ad_audit docs))
      \<and> length (ad_rules docs) \<le> MAX_APPROVAL_RULES
      \<and> length (ad_permits docs) \<le> 500 \<and> distinct (map ea_request_id (ad_permits docs)))"

lemma distinct_take_fresh:
  assumes "distinct (map f xs)"
  shows "distinct (map f (take n (x # filter (\<lambda>y. f y \<noteq> f x) xs)))"
proof -
  have "distinct (map f (x # filter (\<lambda>y. f y \<noteq> f x) xs))"
    using assms by (auto simp: distinct_map_filter)
  then show ?thesis
    by (metis distinct_take take_map)
qed

lemma append_audit_wf:
  "distinct (map ae_id es) \<Longrightarrow>
     length (append_approval_audit_entry es e) \<le> MAX_APPROVAL_AUDIT_ENTRIES
     \<and> distinct (map ae_id (append_approval_audit_entry es e))"
  using distinct_take_fresh [of ae_id es MAX_APPROVAL_AUDIT_ENTRIES e]
  by (simp add: append_approval_audit_entry_def)

lemma record_decision_wf:
  assumes "distinct (map ea_request_id rs)"
  shows "length (record_execution_decision_in_records fp resp rs) \<le> 500"
    and "distinct (map ea_request_id (record_execution_decision_in_records fp resp rs))"
proof -
  show "length (record_execution_decision_in_records fp resp rs) \<le> 500"
    by (simp add: record_execution_decision_in_records_def)
  let ?r = "\<lparr>ea_request_id = aq_id (rs_effective_request resp),
    ea_request_fingerprint = fp (rs_effective_request resp),
    ea_decision = ae_decision (rs_audit_entry resp),
    ea_decided_at = ae_decided_at (rs_audit_entry resp),
    ea_consumed_at = None, ea_invalidated_at = None\<rparr>"
  show "distinct (map ea_request_id (record_execution_decision_in_records fp resp rs))"
    using distinct_take_fresh [OF assms, of 500 ?r]
    by (simp add: record_execution_decision_in_records_def)
qed

lemma invalidate_ids:
  "map ea_request_id (invalidate_execution_approvals ids at rs) = map ea_request_id rs"
  by (simp add: invalidate_execution_approvals_def o_def if_distrib cong: if_cong)

lemma consume_elim:
  assumes "consume_unconsumed_record rs request expected at = Inr rs'"
  obtains pre r post where "rs = pre @ r # post" "ea_request_id r = aq_id request"
    "check_permit r expected at = Inr ()"
    "rs' = pre @ r\<lparr>ea_consumed_at := Some at\<rparr> # post"
  using assms
proof (induction rs arbitrary: rs' thesis)
  case (Cons r rs)
  show ?case
  proof (cases "ea_request_id r = aq_id request")
    case True
    with Cons.prems(2) have "check_permit r expected at = Inr ()"
      "rs' = r\<lparr>ea_consumed_at := Some at\<rparr> # rs"
      by (auto simp: result_simps)
    with True show ?thesis
      by (intro Cons.prems(1) [of "[]" r rs]) simp_all
  next
    case False
    with Cons.prems(2) obtain rs'' where rest:
      "consume_unconsumed_record rs request expected at = Inr rs''" "rs' = r # rs''"
      by (auto simp: result_simps)
    from Cons.IH [OF _ rest(1)] obtain pre r' post where
      "rs = pre @ r' # post" "ea_request_id r' = aq_id request"
      "check_permit r' expected at = Inr ()"
      "rs'' = pre @ r'\<lparr>ea_consumed_at := Some at\<rparr> # post"
      by blast
    with rest(2) show ?thesis
      by (intro Cons.prems(1) [of "r # pre" r' post]) simp_all
  qed
qed simp

lemma consume_ids:
  "consume_unconsumed_record rs request expected at = Inr rs' \<Longrightarrow>
     map ea_request_id rs' = map ea_request_id rs"
  by (erule consume_elim) simp

lemma persist_elim:
  assumes "persist_approval_resolution_in_store fp identity resp docs = Inr (resp', docs')"
  obtains e grant rules where "identity = Inr ()"
    "normalize_approval_audit_entry (rs_audit_entry resp) = Inr e"
    "resp' = resp\<lparr>rs_persisted := True, rs_audit_entry := e, rs_grant := grant\<rparr>"
    "docs' = \<lparr>ad_audit = append_approval_audit_entry (ad_audit docs) e, ad_rules = rules,
              ad_permits = record_execution_decision_in_records fp resp' (ad_permits docs)\<rparr>"
    "rules = ad_rules docs \<or> (\<exists>g rs. rules = add_rule g rs)"
proof -
  obtain e where e: "identity = Inr ()"
    "normalize_approval_audit_entry (rs_audit_entry resp) = Inr e"
    using assms by (auto simp: persist_approval_resolution_in_store_def result_simps)
  let ?rules = "case rs_grant resp of
      Some grant \<Rightarrow>
        if ag_scope grant = ''rule'' then
          bindE (mapE normalize_approval_grant (ad_rules docs)) (\<lambda>rules.
          bindE (normalize_approval_grant grant) (\<lambda>g. Inr (Some g, add_rule g rules)))
        else Inr (Some grant, ad_rules docs)
    | None \<Rightarrow> Inr (None, ad_rules docs)"
  obtain grant rules where step: "?rules = Inr (grant, rules)"
    "resp' = resp\<lparr>rs_persisted := True, rs_audit_entry := e, rs_grant := grant\<rparr>"
    "docs' = \<lparr>ad_audit = append_approval_audit_entry (ad_audit docs) e, ad_rules = rules,
              ad_permits = record_execution_decision_in_records fp resp' (ad_permits docs)\<rparr>"
    using assms
    unfolding persist_approval_resolution_in_store_def e bindE_simps Let_def bindE_Inr
    by (elim exE conjE) (auto simp: prod.splits)
  have "rules = ad_rules docs \<or> (\<exists>g rs. rules = add_rule g rs)"
    using step(1) by (auto simp: result_simps split: option.splits if_splits)
  with e step show thesis
    by (intro that) simp_all
qed

section \<open>Histories\<close>

datatype permit_event =
    Decided resolution_response bool
  | Consumed approval_request string
  | Revoked "string list"

text \<open>\<open>Decided resp shown\<close>: \<open>shown\<close> is whether the native dialog confirmed the request.\<close>

inductive authority ::
    "(approval_request \<Rightarrow> string) \<Rightarrow> permit_event list \<Rightarrow> approval_docs \<Rightarrow> bool" for fp where
  start: "authority fp [] no_docs"
| decided: "authority fp tr docs \<Longrightarrow>
    resolve_approval_request fp identity native_confirm request docs = Inr (resp, docs') \<Longrightarrow>
    authority fp (Decided resp (native_confirm (rs_effective_request resp) = Inr True) # tr) docs'"
| consumed: "authority fp tr docs \<Longrightarrow>
    verify_and_consume_execution_approval fp gate request at (ad_permits docs) = Inr permits \<Longrightarrow>
    authority fp (Consumed request at # tr) (docs\<lparr>ad_permits := permits\<rparr>)"
| revoked: "authority fp tr docs \<Longrightarrow>
    authority fp (Revoked ids # tr)
      (docs\<lparr>ad_permits := invalidate_execution_approvals ids at (ad_permits docs)\<rparr>)"

inductive_cases authority_consumedE: "authority fp (Consumed request at # tr) docs"

text \<open>The specification: the decision that is still open for a request id.\<close>

fun open_permit :: "permit_event list \<Rightarrow> string \<Rightarrow> (resolution_response \<times> bool) option" where
  "open_permit [] i = None"
| "open_permit (Decided resp shown # tr) i =
     (if aq_id (rs_effective_request resp) = i then Some (resp, shown) else open_permit tr i)"
| "open_permit (Consumed request at # tr) i =
     (if aq_id request = i then None else open_permit tr i)"
| "open_permit (Revoked ids # tr) i = (if i \<in> set ids then None else open_permit tr i)"

fun mentions :: "string \<Rightarrow> permit_event \<Rightarrow> bool" where
  "mentions i (Decided resp shown) = (aq_id (rs_effective_request resp) = i)"
| "mentions i (Consumed request at) = (aq_id request = i)"
| "mentions i (Revoked ids) = (i \<in> set ids)"

lemma open_permit_latest:
  "open_permit tr i = Some (resp, shown) \<Longrightarrow>
     \<exists>later earlier. tr = later @ Decided resp shown # earlier
       \<and> aq_id (rs_effective_request resp) = i \<and> (\<forall>e \<in> set later. \<not> mentions i e)"
proof (induction tr)
  case (Cons e tr)
  show ?case
  proof (cases "mentions i e")
    case True
    with Cons.prems have "e = Decided resp shown" "aq_id (rs_effective_request resp) = i"
      by (cases e; auto)+
    then show ?thesis
      by (intro exI [of _ "[]"] exI [of _ tr]) simp
  next
    case False
    with Cons.prems have "open_permit tr i = Some (resp, shown)"
      by (cases e) auto
    from Cons.IH [OF this] obtain later earlier where
      "tr = later @ Decided resp shown # earlier" "aq_id (rs_effective_request resp) = i"
      "\<forall>e \<in> set later. \<not> mentions i e"
      by blast
    with False show ?thesis
      by (intro exI [of _ "e # later"] exI [of _ earlier]) simp
  qed
qed simp

text \<open>A permit of the document that is neither consumed nor revoked is the open decision.\<close>

definition backed ::
    "(approval_request \<Rightarrow> string) \<Rightarrow> permit_event list \<Rightarrow> execution_approval \<Rightarrow> bool" where
  "backed fp tr r =
     (ea_consumed_at r = None \<longrightarrow> ea_invalidated_at r = None \<longrightarrow>
      (\<exists>resp shown. open_permit tr (ea_request_id r) = Some (resp, shown)
         \<and> ea_request_fingerprint r = fp (rs_effective_request resp)
         \<and> ea_decision r = ae_decision (rs_audit_entry resp)
         \<and> ea_decided_at r = ae_decided_at (rs_audit_entry resp)
         \<and> (decision_approves (ea_decision r) \<longrightarrow> approval_is_high_risk (rs_effective_request resp)
            \<longrightarrow> shown)))"

lemma decisions_are_normal:
  "d \<in> set APPROVAL_DECISIONS \<Longrightarrow> to_ascii_lowercase (normalize_spaces d) = d"
proof -
  have "\<forall>d \<in> set APPROVAL_DECISIONS. to_ascii_lowercase (normalize_spaces d) = d"
    by code_simp
  then show "d \<in> set APPROVAL_DECISIONS \<Longrightarrow> to_ascii_lowercase (normalize_spaces d) = d"
    by blast
qed

lemma audit_decision:
  assumes "normalize_approval_audit_entry entry = Inr e"
  shows "ae_decision e \<in> set APPROVAL_DECISIONS"
    and "ae_decision e = to_ascii_lowercase (normalize_spaces (ae_decision entry))"
  using assms by (auto simp: normalize_approval_audit_entry_def Let_def split: if_splits)

lemma resolve_decision:
  assumes "resolve_approval request = Inr resp"
  shows "ae_decision (rs_audit_entry resp) \<in> set APPROVAL_DECISIONS"
proof -
  obtain entry where "normalize_approval_audit_entry entry = Inr (rs_audit_entry resp)"
    using assms unfolding resolve_approval_def Let_def
    by (auto simp: bindE_Inr if_Inr)
  then show ?thesis by (rule audit_decision)
qed

text \<open>The dialog confirmed every high-risk request that a decision approves.\<close>

lemma mint_is_confirmed:
  assumes "resolve_approval_for_mint request native_confirm = Inr resp"
    "decision_approves (ae_decision (rs_audit_entry resp))"
    "approval_is_high_risk (rs_effective_request resp)"
  shows "native_confirm (rs_effective_request resp) = Inr True"
    and "\<exists>phrase. aq_confirmation_phrase (rs_effective_request resp) = Some phrase
           \<and> \<not> webview_echoed_confirmation (rq_confirmation_text request) (Some phrase)"
  using assms
  by (auto simp: resolve_approval_for_mint_def ensure_permit_mint_confirmation_def result_simps
           split: if_splits)

lemma backed_new:
  assumes "resolve_approval_request fp identity native_confirm request docs = Inr (resp, docs')"
    and "\<forall>r \<in> set (ad_permits docs). backed fp tr r" "r \<in> set (ad_permits docs')"
  shows "backed fp (Decided resp (native_confirm (rs_effective_request resp) = Inr True) # tr) r"
proof -
  let ?e = "Decided resp (native_confirm (rs_effective_request resp) = Inr True)"
  obtain resp0 where mint: "resolve_approval_for_mint request native_confirm = Inr resp0"
    and persist: "persist_approval_resolution_in_store fp identity resp0 docs = Inr (resp, docs')"
    using assms(1) by (auto simp: resolve_approval_request_def result_simps)
  from persist obtain e grant where e: "normalize_approval_audit_entry (rs_audit_entry resp0) = Inr e"
    and resp: "resp = resp0\<lparr>rs_persisted := True, rs_audit_entry := e, rs_grant := grant\<rparr>"
    and permits: "ad_permits docs' = record_execution_decision_in_records fp resp (ad_permits docs)"
    by (elim persist_elim) simp
  have "ae_decision (rs_audit_entry resp0) \<in> set APPROVAL_DECISIONS"
    using mint resolve_decision by (auto simp: resolve_approval_for_mint_def result_simps)
  then have same: "ae_decision e = ae_decision (rs_audit_entry resp0)"
    using audit_decision(2) [OF e] decisions_are_normal by simp
  have shown: "native_confirm (rs_effective_request resp) = Inr True"
    if "decision_approves (ae_decision e)" "approval_is_high_risk (rs_effective_request resp)"
    using mint_is_confirmed(1) [OF mint] that by (simp add: resp same)
  consider (new) "ea_request_id r = aq_id (rs_effective_request resp)"
      "ea_request_fingerprint r = fp (rs_effective_request resp)" "ea_decision r = ae_decision e"
      "ea_decided_at r = ae_decided_at e"
    | (old) "r \<in> set (ad_permits docs)" "ea_request_id r \<noteq> aq_id (rs_effective_request resp)"
  proof -
    have "r \<in> set (take 500 (\<lparr>ea_request_id = aq_id (rs_effective_request resp),
         ea_request_fingerprint = fp (rs_effective_request resp),
         ea_decision = ae_decision e, ea_decided_at = ae_decided_at e,
         ea_consumed_at = None, ea_invalidated_at = None\<rparr>
        # filter (\<lambda>r. ea_request_id r \<noteq> aq_id (rs_effective_request resp)) (ad_permits docs)))"
      using assms(3) unfolding permits record_execution_decision_in_records_def by (simp add: resp)
    from in_set_takeD [OF this] show thesis
      using new old by auto
  qed
  then show ?thesis
  proof cases
    case new
    then show ?thesis
      using shown by (auto simp: backed_def resp)
  next
    case old
    then show ?thesis
      using assms(2) by (auto simp: backed_def)
  qed
qed

lemma backed_consume:
  assumes "consume_unconsumed_record rs request expected at = Inr rs'"
    and "distinct (map ea_request_id rs)" "\<forall>r \<in> set rs. backed fp tr r" "r \<in> set rs'"
  shows "backed fp (Consumed request at # tr) r"
proof -
  obtain pre c post where split: "rs = pre @ c # post" "ea_request_id c = aq_id request"
    "rs' = pre @ c\<lparr>ea_consumed_at := Some at\<rparr> # post"
    using assms(1) by (elim consume_elim)
  consider (this) "r = c\<lparr>ea_consumed_at := Some at\<rparr>" | (other) "r \<in> set pre \<union> set post"
    using assms(4) split(3) by auto
  then show ?thesis
  proof cases
    case this
    then show ?thesis by (simp add: backed_def)
  next
    case other
    then have "ea_request_id r \<noteq> aq_id request"
      using assms(2) split(1,2) by (force simp: image_iff)
    moreover have "backed fp tr r"
      using other assms(3) split(1) by auto
    ultimately show ?thesis
      by (auto simp: backed_def)
  qed
qed

lemma backed_revoke:
  assumes "\<forall>r \<in> set rs. backed fp tr r" "r \<in> set (invalidate_execution_approvals ids at rs)"
  shows "backed fp (Revoked ids # tr) r"
proof (cases "ids = []")
  case True
  then show ?thesis
    using assms by (auto simp: invalidate_execution_approvals_def backed_def)
next
  case False
  then obtain old where old: "old \<in> set rs"
    "r = (if ea_request_id old \<in> set ids \<and> ea_consumed_at old = None \<and> ea_invalidated_at old = None
          then old\<lparr>ea_invalidated_at := Some at\<rparr> else old)"
    using assms(2) by (auto simp: invalidate_execution_approvals_def)
  then show ?thesis
    using assms(1) by (auto simp: backed_def)
qed

lemma authority_invariant:
  assumes "authority fp tr docs"
  shows "distinct (map ea_request_id (ad_permits docs)) \<and> (\<forall>r \<in> set (ad_permits docs). backed fp tr r)"
  using assms
proof induction
  case start
  then show ?case by (simp add: no_docs_def)
next
  case (decided tr docs identity native_confirm request resp docs')
  from decided(2) obtain resp0 where
    "persist_approval_resolution_in_store fp identity resp0 docs = Inr (resp, docs')"
    by (auto simp: resolve_approval_request_def result_simps)
  then have "ad_permits docs' = record_execution_decision_in_records fp resp (ad_permits docs)"
    by (elim persist_elim) simp
  then show ?case
    using record_decision_wf(2) backed_new [OF decided(2)] decided(3) by simp
next
  case (consumed tr docs gate request at permits)
  then have run: "consume_unconsumed_record (ad_permits docs) request (fp request) at = Inr permits"
    by (auto simp: verify_and_consume_execution_approval_def result_simps)
  then show ?case
    using consume_ids [OF run] backed_consume [OF run] consumed(3) by simp
next
  case (revoked tr docs ids at)
  then show ?case
    using backed_revoke [of "ad_permits docs" fp tr] by (simp add: invalidate_ids)
qed

lemma permit_checks:
  assumes "check_permit r expected at = Inr ()"
  shows "ea_request_fingerprint r = expected" "decision_approves (ea_decision r)"
    "ea_invalidated_at r = None" "ea_consumed_at r = None"
    "\<exists>t0 t1. parse_rfc3339_utc_seconds (ea_decided_at r) = Some t0
       \<and> parse_rfc3339_utc_seconds at = Some t1 \<and> t0 \<le> t1
       \<and> (t1 - t0 < 2 ^ 63 \<longrightarrow> t1 - t0 \<le> EXECUTION_APPROVAL_TTL_SECONDS)"
  using assms
  by (auto simp: check_permit_def decision_approves_def result_simps wrap64_self not_less
           split: if_splits)

text \<open>What a consumed permit goes back to.\<close>

lemma consumed_permit:
  assumes "authority fp (Consumed request at # tr) docs"
  obtains resp shown t0 t1 where "open_permit tr (aq_id request) = Some (resp, shown)"
    "fp request = fp (rs_effective_request resp)"
    "decision_approves (ae_decision (rs_audit_entry resp))"
    "approval_is_high_risk (rs_effective_request resp) \<longrightarrow> shown"
    "parse_rfc3339_utc_seconds (ae_decided_at (rs_audit_entry resp)) = Some t0"
    "parse_rfc3339_utc_seconds at = Some t1" "t0 \<le> t1" "t1 - t0 < 2 ^ 63 \<longrightarrow> t1 - t0 \<le> 15 * 60"
  using assms
proof (rule authority_consumedE)
  fix docs' gate permits
  assume old: "authority fp tr docs'"
    and "verify_and_consume_execution_approval fp gate request at (ad_permits docs') = Inr permits"
  then have "consume_unconsumed_record (ad_permits docs') request (fp request) at = Inr permits"
    by (auto simp: verify_and_consume_execution_approval_def result_simps)
  then obtain pre r post where "ad_permits docs' = pre @ r # post"
    and id: "ea_request_id r = aq_id request" and check: "check_permit r (fp request) at = Inr ()"
    by (elim consume_elim)
  then have r: "r \<in> set (ad_permits docs')" "ea_request_id r = aq_id request"
    by simp_all
  note c = permit_checks [OF check]
  obtain resp shown where backing: "open_permit tr (aq_id request) = Some (resp, shown)"
    "fp request = fp (rs_effective_request resp)" "ea_decision r = ae_decision (rs_audit_entry resp)"
    "ea_decided_at r = ae_decided_at (rs_audit_entry resp)"
    "approval_is_high_risk (rs_effective_request resp) \<longrightarrow> shown"
    using authority_invariant [OF old] r c(1-4) by (auto simp: backed_def)
  moreover obtain t0 t1 where "parse_rfc3339_utc_seconds (ea_decided_at r) = Some t0"
    "parse_rfc3339_utc_seconds at = Some t1" "t0 \<le> t1" "t1 - t0 < 2 ^ 63 \<longrightarrow> t1 - t0 \<le> 15 * 60"
    using c(5) by (auto simp: EXECUTION_APPROVAL_TTL_SECONDS_def)
  ultimately show thesis
    using c(2) that [of resp shown t0 t1] by simp
qed

text \<open>C5. Nothing runs on an approval twice, and nothing runs that the user did not approve. In
  every history of decisions, runs and recoveries, a run that consumed a permit goes back to one
  decision: the decision is for the same request (the same id and the same fingerprint of the whole
  request), it approves, no other run, no later decision and no recovery of this request lies
  between them, the request was put before the user in the native dialog and confirmed there if it
  is of high risk, and the run is not before the decision nor, while their distance fits into 64
  bits, more than fifteen minutes after it.\<close>

theorem every_run_has_its_own_decision:
  assumes "authority fp (Consumed request at # tr) docs"
  shows "\<exists>resp shown later earlier t0 t1.
    tr = later @ Decided resp shown # earlier
    \<and> aq_id (rs_effective_request resp) = aq_id request
    \<and> fp (rs_effective_request resp) = fp request
    \<and> decision_approves (ae_decision (rs_audit_entry resp))
    \<and> (\<forall>e \<in> set later. \<not> mentions (aq_id request) e)
    \<and> (approval_is_high_risk (rs_effective_request resp) \<longrightarrow> shown)
    \<and> parse_rfc3339_utc_seconds (ae_decided_at (rs_audit_entry resp)) = Some t0
    \<and> parse_rfc3339_utc_seconds at = Some t1 \<and> t0 \<le> t1
    \<and> (t1 - t0 < 2 ^ 63 \<longrightarrow> t1 - t0 \<le> 15 * 60)"
proof -
  obtain resp shown t0 t1 where permit: "open_permit tr (aq_id request) = Some (resp, shown)"
    "fp request = fp (rs_effective_request resp)"
    "decision_approves (ae_decision (rs_audit_entry resp))"
    "approval_is_high_risk (rs_effective_request resp) \<longrightarrow> shown"
    "parse_rfc3339_utc_seconds (ae_decided_at (rs_audit_entry resp)) = Some t0"
    "parse_rfc3339_utc_seconds at = Some t1" "t0 \<le> t1" "t1 - t0 < 2 ^ 63 \<longrightarrow> t1 - t0 \<le> 15 * 60"
    using assms by (rule consumed_permit)
  obtain later earlier where "tr = later @ Decided resp shown # earlier"
    "aq_id (rs_effective_request resp) = aq_id request" "\<forall>e \<in> set later. \<not> mentions (aq_id request) e"
    using open_permit_latest [OF permit(1)] by blast
  then show ?thesis
    using permit(2-) by (intro exI [of _ resp] exI [of _ shown] exI [of _ later] exI [of _ earlier]
        exI [of _ t0] exI [of _ t1]) simp
qed

section \<open>A concrete history\<close>

definition sample_request :: approval_request where
  "sample_request =
     \<lparr>aq_id = ''a1'', aq_service = ''Tools'', aq_action = ''write-file notes'',
      aq_mode = ''full-access'', aq_risk_level = ''high'', aq_data_used = [''path: notes''],
      aq_consequence = ''Writes notes'', aq_requested_at = ''now'', aq_decisions = [''once'', ''deny''],
      aq_confirmation_phrase = Some ''write''\<rparr>"

definition sample_resolution :: resolution_request where
  "sample_resolution =
     \<lparr>rq_request = sample_request, rq_decision = ''once'', rq_decided_at = ''2026-01-02T10:00:00Z'',
      rq_confirmation_text = None, rq_modification = None\<rparr>"

definition sample_response :: resolution_response where
  "sample_response =
     \<lparr>rs_persisted = True,
      rs_audit_entry = \<lparr>ae_id = ''a1-once-2026-01-02t10-00-00z'', ae_request_id = ''a1'',
        ae_decision = ''once'', ae_decided_at = ''2026-01-02T10:00:00Z'',
        ae_note = ''Tools write-file notes''\<rparr>,
      rs_effective_request = sample_request, rs_dismissed = True, rs_grant = None\<rparr>"

definition sample_permit :: execution_approval where
  "sample_permit =
     \<lparr>ea_request_id = ''a1'', ea_request_fingerprint = ''write-file notes'', ea_decision = ''once'',
      ea_decided_at = ''2026-01-02T10:00:00Z'', ea_consumed_at = None, ea_invalidated_at = None\<rparr>"

lemma sample_resolves:
  "resolve_approval_request aq_action (Inr ()) (\<lambda>_. Inr True) sample_resolution no_docs
   = Inr (sample_response, \<lparr>ad_audit = [rs_audit_entry sample_response], ad_rules = [],
                             ad_permits = [sample_permit]\<rparr>)"
  by code_simp

lemma sample_consumes:
  "verify_and_consume_execution_approval aq_action (Inr ()) sample_request
     ''2026-01-02T10:14:59.250Z'' [sample_permit]
   = Inr [sample_permit\<lparr>ea_consumed_at := Some ''2026-01-02T10:14:59.250Z''\<rparr>]"
  by code_simp

lemma every_run_has_its_own_decision_witness:
  "\<exists>docs. authority aq_action [Consumed sample_request ''2026-01-02T10:14:59.250Z'',
                              Decided sample_response True] docs
     \<and> (\<exists>resp later earlier. [Decided sample_response True] = later @ Decided resp True # earlier
          \<and> aq_id (rs_effective_request resp) = aq_id sample_request)"
proof -
  have "authority aq_action
      [Decided sample_response ((\<lambda>_. Inr True) (rs_effective_request sample_response)
         = (Inr True :: string + bool))]
      \<lparr>ad_audit = [rs_audit_entry sample_response], ad_rules = [], ad_permits = [sample_permit]\<rparr>"
    by (rule authority.decided [OF authority.start sample_resolves])
  then have decided: "authority aq_action [Decided sample_response True]
      \<lparr>ad_audit = [rs_audit_entry sample_response], ad_rules = [], ad_permits = [sample_permit]\<rparr>"
    by simp
  have run: "authority aq_action [Consumed sample_request ''2026-01-02T10:14:59.250Z'',
                                  Decided sample_response True]
      (\<lparr>ad_audit = [rs_audit_entry sample_response], ad_rules = [], ad_permits = [sample_permit]\<rparr>
       \<lparr>ad_permits := [sample_permit\<lparr>ea_consumed_at := Some ''2026-01-02T10:14:59.250Z''\<rparr>]\<rparr>)"
    by (rule authority.consumed [OF decided, of "Inr ()"])
      (simp only: approval_docs.select_convs sample_consumes)
  from every_run_has_its_own_decision [OF run]
  obtain resp shown later earlier where
    split: "[Decided sample_response True] = later @ Decided resp shown # earlier"
    and same: "aq_id (rs_effective_request resp) = aq_id sample_request"
    by (elim exE conjE)
  from split have "shown"
    by (cases later) auto
  with split have "[Decided sample_response True] = later @ Decided resp True # earlier"
    by (simp only: simp_thms)
  then show ?thesis
    using same by (intro exI conjI) (rule run)
qed

section \<open>The fence of fifteen minutes\<close>

text \<open>C39. The freshness fence can be passed with a crafted decision time. The reader of times
  accepts a negative hour, and the age of a permit is a 64-bit difference that wraps in the release
  build: a permit whose decision time is the text below is accepted at every later time that a clock
  will show, while the fence is meant to refuse it after fifteen minutes. The decision time comes
  from the web view.\<close>

theorem crafted_time_never_goes_stale:
  assumes "parse_rfc3339_utc_seconds at = Some now" "1808 \<le> now" "now < 2 ^ 62"
  shows "check_permit (sample_permit\<lparr>ea_decided_at := ''1970-01-01T-2562047788015215:00:00Z''\<rparr>)
           ''write-file notes'' at = Inr ()"
proof -
  have "parse_rfc3339_utc_seconds ''1970-01-01T-2562047788015215:00:00Z''
      = Some (- 9223372036854774000)"
    by code_simp
  moreover have "wrap64 (now - - 9223372036854774000) = now + 9223372036854774000 - 2 ^ 64"
  proof -
    have "now + 9223372036854774000 + 2 ^ 63 = (now - 1808) + 2 ^ 64"
      by simp
    then have "(now + 9223372036854774000 + 2 ^ 63) mod 2 ^ 64 = now - 1808"
      using assms by (simp only: mod_add_self2) (simp add: mod_pos_pos_trivial)
    then show ?thesis
      unfolding wrap64_def int_word_sint by simp
  qed
  ultimately show ?thesis
    using assms
    by (simp add: check_permit_def sample_permit_def EXECUTION_APPROVAL_TTL_SECONDS_def)
qed

lemma crafted_time_never_goes_stale_witness:
  "check_permit (sample_permit\<lparr>ea_decided_at := ''1970-01-01T-2562047788015215:00:00Z''\<rparr>)
     ''write-file notes'' ''2036-01-01T00:00:00Z'' = Inr ()"
proof -
  have "parse_rfc3339_utc_seconds ''2036-01-01T00:00:00Z'' = Some 2082758400"
    by code_simp
  then show ?thesis
    by (rule crafted_time_never_goes_stale) simp_all
qed

end
