(* ===== verification/Web_Fetch.thy ===== *)
theory Web_Fetch
  imports Approval_Requests Work_Context
begin

text \<open>
  The web-fetch tool (\<open>tools/web_fetch.rs\<close>): the policy on URLs, ports, host names and addresses,
  the request loop that resolves a host once, checks every address, pins the connection to them and
  checks every redirect again, and the envelope in which a page enters the model's context.

  The crate \<open>url\<close> is a parameter (\<open>url_lib\<close>): a URL is the record of the components its accessors
  return. The network is a parameter (\<open>net\<close>): the answers of the resolver and of the servers, which
  may differ from hop to hop, the clock and the article extraction of the crate \<open>dom_smoothie\<close>. The
  loop returns the list of its contacts, each the URL of a request with the addresses the
  connection is pinned to.
\<close>

section \<open>Addresses\<close>

type_synonym u16 = "16 word"

datatype ip_addr =
    V4 u8 u8 u8 u8
  | V6 u16 u16 u16 u16 u16 u16 u16 u16

text \<open>The predicates of \<open>std::net\<close> that the policy uses.\<close>

fun v4_is_private :: "u8 \<Rightarrow> u8 \<Rightarrow> bool" where
  "v4_is_private a b = (a = 10 \<or> a = 172 \<and> 16 \<le> b \<and> b \<le> 31 \<or> a = 192 \<and> b = 168)"

fun to_ipv4_mapped :: "ip_addr \<Rightarrow> ip_addr option" where
  "to_ipv4_mapped (V6 s0 s1 s2 s3 s4 s5 s6 s7) =
     (if s0 = 0 \<and> s1 = 0 \<and> s2 = 0 \<and> s3 = 0 \<and> s4 = 0 \<and> s5 = 0xFFFF
      then Some (V4 (ucast (drop_bit 8 s6)) (ucast s6) (ucast (drop_bit 8 s7)) (ucast s7))
      else None)"
| "to_ipv4_mapped (V4 _ _ _ _) = None"

fun is_cloud_metadata_ip :: "ip_addr \<Rightarrow> bool" where
  "is_cloud_metadata_ip (V4 a b c d) =
     (a = 169 \<and> b = 254 \<and> c = 169 \<and> d = 254 \<or> a = 100 \<and> b = 100 \<and> c = 100 \<and> d = 200
      \<or> a = 169 \<and> b = 254 \<and> c = 169)"
| "is_cloud_metadata_ip (V6 _ _ _ _ _ _ _ _) = False"

definition is_reserved_v4 :: "u8 \<Rightarrow> u8 \<Rightarrow> u8 \<Rightarrow> bool" where
  "is_reserved_v4 a b c =
     (a = 192 \<and> b = 0 \<and> c = 2 \<or> a = 198 \<and> b = 51 \<and> c = 100 \<or> a = 203 \<and> b = 0 \<and> c = 113
      \<or> a = 198 \<and> (b = 18 \<or> b = 19) \<or> a = 192 \<and> b = 0 \<and> c = 0)"

definition is_ipv6_link_local :: "u16 \<Rightarrow> bool" where
  "is_ipv6_link_local s0 = (and s0 0xFFC0 = 0xFE80)"

definition is_ipv6_unique_local :: "u16 \<Rightarrow> bool" where
  "is_ipv6_unique_local s0 = (and s0 0xFE00 = 0xFC00)"

fun is_forbidden_v4 :: "ip_addr \<Rightarrow> bool" where
  "is_forbidden_v4 (V4 a b c d) =
     (is_cloud_metadata_ip (V4 a b c d)
      \<or> a = 0 \<and> b = 0 \<and> c = 0 \<and> d = 0
      \<or> a = 127
      \<or> v4_is_private a b
      \<or> a = 169 \<and> b = 254
      \<or> 224 \<le> a \<and> a \<le> 239
      \<or> a = 255 \<and> b = 255 \<and> c = 255 \<and> d = 255
      \<or> 240 \<le> a
      \<or> is_reserved_v4 a b c)"
| "is_forbidden_v4 (V6 _ _ _ _ _ _ _ _) = False"

definition is_forbidden_ip :: "ip_addr \<Rightarrow> bool" where
  "is_forbidden_ip ip =
     (case ip of
        V4 a b c d \<Rightarrow> is_forbidden_v4 (V4 a b c d)
      | V6 s0 s1 s2 s3 s4 s5 s6 s7 \<Rightarrow>
          s0 = 0 \<and> s1 = 0 \<and> s2 = 0 \<and> s3 = 0 \<and> s4 = 0 \<and> s5 = 0 \<and> s6 = 0 \<and> s7 = 0
          \<or> s0 = 0 \<and> s1 = 0 \<and> s2 = 0 \<and> s3 = 0 \<and> s4 = 0 \<and> s5 = 0 \<and> s6 = 0 \<and> s7 = 1
          \<or> is_ipv6_link_local s0
          \<or> is_ipv6_unique_local s0
          \<or> and s0 0xFF00 = 0xFF00
          \<or> (case to_ipv4_mapped ip of None \<Rightarrow> False | Some v4 \<Rightarrow> is_forbidden_v4 v4))"

definition is_unsafe_port :: "u16 \<Rightarrow> bool" where
  "is_unsafe_port port =
     (port \<in> {22, 23, 25, 53, 110, 135, 139, 143, 445, 465, 587, 993, 995, 1433, 1521, 2049, 2379,
              3306, 3389, 5432, 5672, 6379, 7001, 8001, 8081, 8444, 9001})"

definition ends_with :: "string \<Rightarrow> string \<Rightarrow> bool" where
  "ends_with s e = suffix e s"

definition is_forbidden_hostname :: "string \<Rightarrow> bool" where
  "is_forbidden_hostname host =
     (let h = to_ascii_lowercase host
      in h = ''localhost'' \<or> h = ''local'' \<or> h = ''localhost.localdomain'' \<or> h = ''ip6-localhost''
         \<or> h = ''ip6-loopback'' \<or> ends_with h ''.localhost'' \<or> ends_with h ''.local'')"

section \<open>URLs\<close>

datatype host = Domain string | Literal ip_addr

record url =
  u_scheme :: string
  u_username :: string
  u_password :: "string option"
  u_host :: "host option"
  u_port :: "u16 option"
  u_rest :: string
  u_fragment :: "string option"

text \<open>The crate \<open>url\<close>: \<open>Url::parse\<close> (with its error text), \<open>Url::join\<close>, \<open>Display\<close>, and the text of
  an address as \<open>host_str\<close> gives it. \<open>port()\<close> is \<open>None\<close> for the default port of the scheme.\<close>

record url_lib =
  url_parse :: "string \<Rightarrow> string + url"
  url_join :: "url \<Rightarrow> string \<Rightarrow> url option"
  url_print :: "url \<Rightarrow> string"
  ip_text :: "ip_addr \<Rightarrow> string"

definition host_str :: "url_lib \<Rightarrow> url \<Rightarrow> string option" where
  "host_str lib u =
     (case u_host u of
        None \<Rightarrow> None
      | Some (Domain d) \<Rightarrow> Some d
      | Some (Literal ip) \<Rightarrow> Some (ip_text lib ip))"

definition err_blocked :: string where
  "err_blocked = ''web-fetch blocked: target is a loopback, private, reserved, link-local, multicast, unspecified, or cloud-metadata address.''"

definition normalize_url_for_fingerprint :: "url_lib \<Rightarrow> string \<Rightarrow> string option" where
  "normalize_url_for_fingerprint lib raw =
     (case url_parse lib raw of
        Inl _ \<Rightarrow> None
      | Inr u \<Rightarrow>
          if u_scheme u \<noteq> ''http'' \<and> u_scheme u \<noteq> ''https'' then None
          else if u_username u \<noteq> [] \<or> u_password u \<noteq> None then None
          else case u_port u of
                 None \<Rightarrow> Some (url_print lib u)
               | Some port \<Rightarrow>
                   if u_scheme u = ''http'' \<and> port = 80 \<or> u_scheme u = ''https'' \<and> port = 443
                   then Some (url_print lib (u\<lparr>u_port := None\<rparr>))
                   else Some (url_print lib u))"

definition parse_and_validate_fetch_url :: "url_lib \<Rightarrow> string \<Rightarrow> string + url" where
  "parse_and_validate_fetch_url lib raw =
     (case url_parse lib raw of
        Inl e \<Rightarrow> Inl (''web-fetch requires a valid URL: '' @ e)
      | Inr u \<Rightarrow>
          if u_scheme u \<noteq> ''http'' \<and> u_scheme u \<noteq> ''https'' then
            Inl ''web-fetch requires an http(s) URL.''
          else if u_username u \<noteq> [] \<or> u_password u \<noteq> None then
            Inl ''web-fetch does not allow embedded credentials.''
          else if u_host u = None then Inl ''web-fetch requires a host.''
          else if (case u_port u of None \<Rightarrow> False | Some port \<Rightarrow> is_unsafe_port port) then
            Inl ''web-fetch to an unsafe port is not permitted.''
          else if (case host_str lib u of None \<Rightarrow> False | Some h \<Rightarrow> is_forbidden_hostname h) then
            Inl err_blocked
          else if (case u_host u of Some (Literal ip) \<Rightarrow> is_forbidden_ip ip | _ \<Rightarrow> False) then
            Inl err_blocked
          else Inr u)"

definition require_string_argument :: "json \<Rightarrow> string \<Rightarrow> string + string" where
  "require_string_argument arguments key =
     (case jget arguments key of
        Some (JStr v) \<Rightarrow>
          if trim v \<noteq> [] then Inr v
          else Inl (''Tool argument \"'' @ key @ ''\" must be a non-empty string.'')
      | _ \<Rightarrow> Inl (''Tool argument \"'' @ key @ ''\" must be a non-empty string.''))"

definition web_fetch_url_from_args :: "url_lib \<Rightarrow> json \<Rightarrow> string + string" where
  "web_fetch_url_from_args lib arguments =
     bindE (require_string_argument arguments ''url'') (\<lambda>u.
     bindE (parse_and_validate_fetch_url lib u) (\<lambda>_. Inr u))"

section \<open>Responses\<close>

definition WEB_FETCH_MAX_REDIRECTS :: nat where "WEB_FETCH_MAX_REDIRECTS = 5"
definition WEB_FETCH_MAX_BODY_BYTES :: nat where "WEB_FETCH_MAX_BODY_BYTES = 1024 * 1024"
definition WEB_FETCH_MAX_READABLE_CHARACTERS :: nat where "WEB_FETCH_MAX_READABLE_CHARACTERS = 56000"

text \<open>A response: its status, the \<open>Location\<close> header (\<open>Some None\<close>: not text), the content type when
  it is text, the announced length and the chunks of the body (\<open>Inl\<close>: a failed read).\<close>

record response =
  r_status :: nat
  r_location :: "string option option"
  r_content_type :: "string option"
  r_content_length :: "nat option"
  r_chunks :: "(string + string) list"

record article =
  a_title :: string
  a_text_content :: string
  a_byline :: "string option"
  a_site_name :: "string option"
  a_published_time :: "string option"
  a_modified_time :: "string option"

record page_source =
  ps_trust :: string
  ps_instruction_authority :: string
  ps_citation_id :: string
  ps_title :: string
  ps_final_uri :: string
  ps_fetched_at :: string
  ps_media_type :: string
  ps_extraction :: string
  ps_truncated :: bool
  ps_byline :: "string option"
  ps_site_name :: "string option"
  ps_published_time :: "string option"
  ps_modified_time :: "string option"
  ps_content :: string

record tool_result =
  tr_ok :: bool
  tr_output :: string

text \<open>The services the fetch calls. The first argument of \<open>lookup_host\<close> and \<open>http_get\<close> is the number
  of redirects followed so far: answers may change in between. \<open>http_get\<close> gets the addresses the
  connection is pinned to.\<close>

record net =
  lookup_host :: "nat \<Rightarrow> string \<Rightarrow> u16 \<Rightarrow> ip_addr list option"
  http_get :: "nat \<Rightarrow> url \<Rightarrow> ip_addr list \<Rightarrow> string + response"
  client_builds :: bool
  utf8_lossy :: "string \<Rightarrow> string"
  readability :: "string \<Rightarrow> string \<Rightarrow> article option"
  page_json :: "page_source \<Rightarrow> string"
  sha256_hex :: "string \<Rightarrow> string"
  clock_text :: string
  timed_out :: bool

definition resolve_and_check_host ::
    "net \<Rightarrow> nat \<Rightarrow> string \<Rightarrow> u16 \<Rightarrow> string + ip_addr list" where
  "resolve_and_check_host n hop h port =
     (case lookup_host n hop h port of
        None \<Rightarrow> Inl ''DNS resolution failed for web-fetch target''
      | Some addrs \<Rightarrow>
          if addrs = [] then Inl ''DNS resolution returned no addresses for web-fetch target''
          else if list_ex is_forbidden_ip addrs then
            Inl ''web-fetch blocked: target resolves to a loopback, private, reserved, link-local, multicast, unspecified, or cloud-metadata address (DNS rebinding protection).''
          else Inr addrs)"

fun read_chunks :: "nat \<Rightarrow> string \<Rightarrow> (string + string) list \<Rightarrow> string + string" where
  "read_chunks max_bytes bytes [] = Inr bytes"
| "read_chunks max_bytes bytes (Inl e # rest) = Inl (''web-fetch body read error: '' @ e)"
| "read_chunks max_bytes bytes (Inr piece # rest) =
     (if max_bytes < length bytes + length piece then
        Inl ''web-fetch blocked: response body too large''
      else read_chunks max_bytes (bytes @ piece) rest)"

definition read_bounded_text :: "net \<Rightarrow> response \<Rightarrow> nat \<Rightarrow> string + string" where
  "read_bounded_text n resp max_bytes =
     (if (case r_content_length resp of None \<Rightarrow> False | Some len \<Rightarrow> max_bytes < len) then
        Inl ''web-fetch blocked: response body too large''
      else bindE (read_chunks max_bytes [] (r_chunks resp)) (\<lambda>bytes. Inr (utf8_lossy n bytes)))"

definition media_type_of :: "string \<Rightarrow> string" where
  "media_type_of content_type = to_ascii_lowercase (trim (hd (split_char (CHR '';'') content_type)))"

definition is_supported_response_type :: "string \<Rightarrow> bool" where
  "is_supported_response_type content_type =
     (if trim content_type = [] then True
      else let t = media_type_of content_type
           in \<not> (starts_with t ''image/'' \<or> starts_with t ''audio/'' \<or> starts_with t ''video/''
                 \<or> t = ''application/octet-stream'' \<or> t = ''application/pdf''
                 \<or> t = ''application/zip''))"

definition redact_for_error :: "string \<Rightarrow> string" where
  "redact_for_error raw =
     (if contains_sub raw ''://'' \<or> CHR ''@'' \<in> set raw then ''connection or policy error''
      else concat (take 120 (scalars raw)))"

definition bounded_readable_content :: "string \<Rightarrow> string \<times> bool" where
  "bounded_readable_content content =
     (concat (take WEB_FETCH_MAX_READABLE_CHARACTERS (scalars content)),
      drop WEB_FETCH_MAX_READABLE_CHARACTERS (scalars content) \<noteq> [])"

definition web_citation_id :: "net \<Rightarrow> string \<Rightarrow> string" where
  "web_citation_id n final_uri = ''web-'' @ take 16 (sha256_hex n final_uri)"

definition trim_start :: "string \<Rightarrow> string" where
  "trim_start s = concat (dropWhile white_space (scalars s))"

definition non_blank :: "string option \<Rightarrow> string option" where
  "non_blank v = (case v of None \<Rightarrow> None | Some t \<Rightarrow> if trim t = [] then None else Some t)"

definition format_web_page_source ::
    "url_lib \<Rightarrow> net \<Rightarrow> string \<Rightarrow> url \<Rightarrow> string \<Rightarrow> string \<Rightarrow> page_source" where
  "format_web_page_source lib n body final_url content_type fetched_at =
     (let citation_url = url_print lib (final_url\<lparr>u_fragment := None\<rparr>);
          final_uri = (case normalize_url_for_fingerprint lib citation_url of
                         Some u \<Rightarrow> u | None \<Rightarrow> citation_url);
          media_type = media_type_of content_type;
          is_html = media_type = ''text/html'' \<or> media_type = ''application/xhtml+xml''
                    \<or> media_type = [] \<and> starts_with (trim_start body) ''<'';
          host_title = (case host_str lib final_url of Some h \<Rightarrow> h | None \<Rightarrow> ''Web page'');
          article = (if is_html
                     then (case readability n body final_uri of
                             Some a \<Rightarrow> if trim (a_text_content a) \<noteq> [] then Some a else None
                           | None \<Rightarrow> None)
                     else None);
          readable = (case article of Some a \<Rightarrow> a_text_content a | None \<Rightarrow> body);
          (content, truncated) = bounded_readable_content (trim readable)
      in \<lparr>ps_trust = ''untrusted'', ps_instruction_authority = ''none'',
          ps_citation_id = web_citation_id n final_uri,
          ps_title = (case article of
                        Some a \<Rightarrow> if trim (a_title a) \<noteq> [] then trim (a_title a) else host_title
                      | None \<Rightarrow> host_title),
          ps_final_uri = final_uri, ps_fetched_at = fetched_at,
          ps_media_type = (if media_type = [] then ''text/plain'' else media_type),
          ps_extraction = (if article = None then ''plain-text'' else ''readability''),
          ps_truncated = truncated,
          ps_byline = (case article of None \<Rightarrow> None | Some a \<Rightarrow> non_blank (a_byline a)),
          ps_site_name = (case article of None \<Rightarrow> None | Some a \<Rightarrow> non_blank (a_site_name a)),
          ps_published_time =
            (case article of None \<Rightarrow> None | Some a \<Rightarrow> non_blank (a_published_time a)),
          ps_modified_time =
            (case article of None \<Rightarrow> None | Some a \<Rightarrow> non_blank (a_modified_time a)),
          ps_content = content\<rparr>)"

datatype web_fetch_outcome = Success string | NonSuccess nat | TransportError string

definition outcome_of_status :: "nat \<Rightarrow> web_fetch_outcome" where
  "outcome_of_status status = (if 200 \<le> status \<and> status < 300 then Success [] else NonSuccess status)"

fun into_tool_result :: "web_fetch_outcome \<Rightarrow> tool_result" where
  "into_tool_result (Success body) = \<lparr>tr_ok = True, tr_output = body\<rparr>"
| "into_tool_result (NonSuccess status) =
     \<lparr>tr_ok = False, tr_output = ''web-fetch failed with status '' @ dec status @ ''.''\<rparr>"
| "into_tool_result (TransportError message) =
     \<lparr>tr_ok = False, tr_output = ''web-fetch transport error: '' @ message\<rparr>"

section \<open>The request loop\<close>

type_synonym contact = "url \<times> ip_addr list"

text \<open>The addresses the client of one hop is pinned to.\<close>

definition pinned_addresses :: "net \<Rightarrow> nat \<Rightarrow> url \<Rightarrow> string + ip_addr list" where
  "pinned_addresses n hop u =
     (case u_host u of
        None \<Rightarrow> Inr []
      | Some (Domain d) \<Rightarrow>
          resolve_and_check_host n hop d
            (case u_port u of Some p \<Rightarrow> p | None \<Rightarrow> if u_scheme u = ''https'' then 443 else 80)
      | Some (Literal ip) \<Rightarrow> if is_forbidden_ip ip then Inl err_blocked else Inr [ip])"

definition hop_admitted :: "net \<Rightarrow> nat \<Rightarrow> url \<Rightarrow> string + ip_addr list" where
  "hop_admitted n hop u =
     bindE (pinned_addresses n hop u) (\<lambda>addrs.
     if (case u_port u of None \<Rightarrow> False | Some port \<Rightarrow> is_unsafe_port port) then
       Inl ''web-fetch blocked: unsafe port''
     else if \<not> client_builds n then Inl ''web-fetch client initialization failed''
     else Inr addrs)"

definition next_hop :: "url_lib \<Rightarrow> url \<Rightarrow> string option \<Rightarrow> string + url" where
  "next_hop lib u location =
     bindE (ok_or ''web-fetch blocked: invalid redirect'' location) (\<lambda>text.
     bindE (ok_or ''web-fetch blocked: unresolvable redirect target'' (url_join lib u text)) (\<lambda>next.
     case parse_and_validate_fetch_url lib (url_print lib next) of
       Inl e \<Rightarrow> Inl (''web-fetch blocked by redirect: '' @ e)
     | Inr _ \<Rightarrow>
         if u_username next \<noteq> [] \<or> u_password next \<noteq> None then
           Inl ''web-fetch blocked: redirect target contains credentials''
         else Inr next))"

definition finished_page ::
    "url_lib \<Rightarrow> net \<Rightarrow> url \<Rightarrow> response \<Rightarrow> string + tool_result" where
  "finished_page lib n u resp =
     (if \<not> (200 \<le> r_status resp \<and> r_status resp < 300) then
        Inr (into_tool_result (outcome_of_status (r_status resp)))
      else
        let content_type = (case r_content_type resp of Some t \<Rightarrow> t | None \<Rightarrow> [])
        in if \<not> is_supported_response_type content_type then
             Inl ''web-fetch blocked: unsupported response type''
           else bindE (read_bounded_text n resp WEB_FETCH_MAX_BODY_BYTES) (\<lambda>body.
             Inr (into_tool_result
                    (Success (page_json n (format_web_page_source lib n body u content_type
                                             (clock_text n)))))))"

function egress_loop ::
    "url_lib \<Rightarrow> net \<Rightarrow> nat \<Rightarrow> url \<Rightarrow> (string + tool_result) \<times> contact list" where
  "egress_loop lib n redirects current =
     (case hop_admitted n redirects current of
        Inl e \<Rightarrow> (Inl e, [])
      | Inr addrs \<Rightarrow>
          (case http_get n redirects current addrs of
             Inl e \<Rightarrow> (Inl (''web-fetch transport error: '' @ redact_for_error e), [(current, addrs)])
           | Inr resp \<Rightarrow>
               if 300 \<le> r_status resp \<and> r_status resp < 400 then
                 if WEB_FETCH_MAX_REDIRECTS < redirects + 1
                 then (Inl ''web-fetch blocked: excessive redirects'', [(current, addrs)])
                 else (case r_location resp of
                         None \<Rightarrow> (Inr (into_tool_result (outcome_of_status (r_status resp))),
                                 [(current, addrs)])
                       | Some location \<Rightarrow>
                           (case next_hop lib current location of
                              Inl e \<Rightarrow> (Inl e, [(current, addrs)])
                            | Inr next \<Rightarrow>
                                (case egress_loop lib n (redirects + 1) next of
                                   (result, contacts) \<Rightarrow> (result, (current, addrs) # contacts))))
               else (finished_page lib n current resp, [(current, addrs)])))"
  by pat_completeness auto

termination egress_loop
  by (relation "measure (\<lambda>(_, _, redirects, _). WEB_FETCH_MAX_REDIRECTS + 1 - redirects)") auto

declare egress_loop.simps [simp del]

definition run_web_fetch_egress ::
    "url_lib \<Rightarrow> net \<Rightarrow> string \<Rightarrow> (string + tool_result) \<times> contact list" where
  "run_web_fetch_egress lib n raw =
     (case parse_and_validate_fetch_url lib raw of
        Inl e \<Rightarrow> (Inl (''web-fetch blocked: '' @ e), [])
      | Inr initial \<Rightarrow>
          (case egress_loop lib n 0 initial of
             (result, contacts) \<Rightarrow>
               (if timed_out n
                then Inr (into_tool_result (TransportError ''web-fetch timed out''))
                else case result of
                       Inr r \<Rightarrow> Inr r
                     | Inl message \<Rightarrow>
                         Inr (into_tool_result (TransportError (redact_for_error message))),
                contacts)))"

section \<open>The forbidden blocks\<close>

text \<open>A block of addresses: its first address and the length of its prefix.\<close>

type_synonym cidr = "nat \<times> nat \<times> nat \<times> nat \<times> nat"

definition forbidden_blocks :: "cidr list" where
  "forbidden_blocks =
     [(0, 0, 0, 0, 32), (127, 0, 0, 0, 8), (10, 0, 0, 0, 8), (172, 16, 0, 0, 12),
      (192, 168, 0, 0, 16), (169, 254, 0, 0, 16), (224, 0, 0, 0, 4), (240, 0, 0, 0, 4),
      (192, 0, 2, 0, 24), (198, 51, 100, 0, 24), (203, 0, 113, 0, 24), (198, 18, 0, 0, 15),
      (192, 0, 0, 0, 24), (100, 100, 100, 200, 32)]"

definition address_number :: "nat \<Rightarrow> nat \<Rightarrow> nat \<Rightarrow> nat \<Rightarrow> nat" where
  "address_number a b c d = 16777216 * a + 65536 * b + 256 * c + d"

definition in_block :: "nat \<Rightarrow> cidr \<Rightarrow> bool" where
  "in_block n block =
     (case block of (a, b, c, d, len) \<Rightarrow>
        n div 2 ^ (32 - len) = address_number a b c d div 2 ^ (32 - len))"

lemma address_prefixes:
  assumes "b < 256" "c < 256" "d < 256"
  shows "address_number a b c d div 16777216 = a"
    and "address_number a b c d div 65536 = 256 * a + b"
    and "address_number a b c d div 256 = 65536 * a + 256 * b + c"
    and "address_number a b c d div 1048576 = 16 * a + b div 16"
    and "address_number a b c d div 131072 = 128 * a + b div 2"
    and "address_number a b c d div 268435456 = a div 16"
proof -
  let ?low = "256 * c + d"
  have n: "address_number a b c d = (256 * a + b) * 65536 + ?low" and low: "?low < 65536"
    using assms by (simp_all add: address_number_def)
  show p16: "address_number a b c d div 65536 = 256 * a + b"
    unfolding n using low by (subst div_mult_self3) simp_all
  show "address_number a b c d div 256 = 65536 * a + 256 * b + c"
    using assms by (simp add: address_number_def div_mult_self3)
  have "address_number a b c d div 16777216 = address_number a b c d div 65536 div 256"
    "address_number a b c d div 1048576 = address_number a b c d div 65536 div 16"
    "address_number a b c d div 131072 = address_number a b c d div 65536 div 2"
    "address_number a b c d div 268435456 = address_number a b c d div 65536 div 256 div 16"
    by (simp_all add: div_mult2_eq [symmetric])
  moreover have "(256 * a + b) div 256 = a" "(256 * a + b) div 16 = 16 * a + b div 16"
    "(256 * a + b) div 2 = 128 * a + b div 2"
    using assms by simp_all
  ultimately show "address_number a b c d div 16777216 = a"
    and "address_number a b c d div 1048576 = 16 * a + b div 16"
    and "address_number a b c d div 131072 = 128 * a + b div 2"
    and "address_number a b c d div 268435456 = a div 16"
    unfolding p16 by simp_all
qed

lemma byte_word_iff:
  fixes w :: u8
  shows "w = numeral k \<longleftrightarrow> unat w = unat (numeral k :: u8)"
    and "numeral k \<le> w \<longleftrightarrow> unat (numeral k :: u8) \<le> unat w"
    and "w \<le> numeral k \<longleftrightarrow> unat w \<le> unat (numeral k :: u8)"
    and "w = 0 \<longleftrightarrow> unat w = 0"
  by (simp_all add: word_unat_eq_iff word_le_nat_alt)

lemma digits_eq:
  fixes A :: nat
  assumes "B < k" "b < k"
  shows "k * A + B = k * a + b \<longleftrightarrow> A = a \<and> B = b"
proof
  assume eq: "k * A + B = k * a + b"
  have "A = (k * A + B) div k" "B = (k * A + B) mod k" "a = (k * a + b) div k" "b = (k * a + b) mod k"
    using assms by simp_all
  with eq show "A = a \<and> B = b" by metis
qed simp

lemma blocks:
  assumes "A < 256" "B < 256" "C < 256" "D < 256" "a < 256" "b < 256" "c < 256" "d < 256"
  shows "in_block (address_number A B C D) (a, b, c, d, 4) \<longleftrightarrow> A div 16 = a div 16"
    and "in_block (address_number A B C D) (a, b, c, d, 8) \<longleftrightarrow> A = a"
    and "in_block (address_number A B C D) (a, b, c, d, 12) \<longleftrightarrow> A = a \<and> B div 16 = b div 16"
    and "in_block (address_number A B C D) (a, b, c, d, 15) \<longleftrightarrow> A = a \<and> B div 2 = b div 2"
    and "in_block (address_number A B C D) (a, b, c, d, 16) \<longleftrightarrow> A = a \<and> B = b"
    and "in_block (address_number A B C D) (a, b, c, d, 24) \<longleftrightarrow> A = a \<and> B = b \<and> C = c"
    and "in_block (address_number A B C D) (a, b, c, d, 32) \<longleftrightarrow> A = a \<and> B = b \<and> C = c \<and> D = d"
proof -
  note p = address_prefixes [OF assms(2-4), of A] address_prefixes [OF assms(6-8), of a]
  have two: "256 * A + B = 256 * a + b \<longleftrightarrow> A = a \<and> B = b"
    using assms by (intro digits_eq)
  have three: "65536 * A + 256 * B + C = 65536 * a + 256 * b + c \<longleftrightarrow> A = a \<and> B = b \<and> C = c"
    using digits_eq [of C 256 c "256 * A + B" "256 * a + b"] assms two by (simp add: algebra_simps)
  have four: "address_number A B C D = address_number a b c d
      \<longleftrightarrow> A = a \<and> B = b \<and> C = c \<and> D = d"
    using digits_eq [of D 256 d "65536 * A + 256 * B + C" "65536 * a + 256 * b + c"] assms three
    by (simp add: address_number_def algebra_simps)
  have small: "B div 16 < 16" "b div 16 < 16" "B div 2 < 128" "b div 2 < 128"
    using assms by simp_all
  show "in_block (address_number A B C D) (a, b, c, d, 4) \<longleftrightarrow> A div 16 = a div 16"
    "in_block (address_number A B C D) (a, b, c, d, 8) \<longleftrightarrow> A = a"
    by (simp_all add: in_block_def p)
  show "in_block (address_number A B C D) (a, b, c, d, 12) \<longleftrightarrow> A = a \<and> B div 16 = b div 16"
    using digits_eq [OF small(1,2), of A a] by (simp add: in_block_def p)
  show "in_block (address_number A B C D) (a, b, c, d, 15) \<longleftrightarrow> A = a \<and> B div 2 = b div 2"
    using digits_eq [OF small(3,4), of A a] by (simp add: in_block_def p)
  show "in_block (address_number A B C D) (a, b, c, d, 16) \<longleftrightarrow> A = a \<and> B = b"
    using two by (simp add: in_block_def p)
  show "in_block (address_number A B C D) (a, b, c, d, 24) \<longleftrightarrow> A = a \<and> B = b \<and> C = c"
    using three by (simp add: in_block_def p)
  show "in_block (address_number A B C D) (a, b, c, d, 32) \<longleftrightarrow> A = a \<and> B = b \<and> C = c \<and> D = d"
    using four by (simp add: in_block_def)
qed

lemma unat_byte: "unat (w :: u8) < 256"
proof -
  have "unat w < 2 ^ LENGTH(8)" by (rule unsigned_less)
  then show ?thesis by simp
qed

lemma div_eq_range:
  fixes x k :: nat
  assumes "0 < k"
  shows "x div k = q \<longleftrightarrow> q * k \<le> x \<and> x < (q + 1) * k"
  using less_eq_div_iff_mult_less_eq [OF assms, of q x] div_less_iff_less_mult [OF assms, of x "q + 1"]
  by (auto simp: less_Suc_eq_le)

text \<open>C36. The octet tests of the web-fetch policy forbid exactly the IPv4 addresses of fourteen
  blocks: the unspecified address, loopback, the three private networks, link-local with the
  metadata services, multicast, the reserved upper range with broadcast, the three documentation
  networks, benchmarking, protocol assignments and the metadata service at 100.100.100.200. An
  IPv4 address that an IPv6 address maps is judged by the same blocks.\<close>

theorem forbidden_addresses_exact:
  "is_forbidden_ip (V4 a b c d) =
     list_ex (in_block (address_number (unat a) (unat b) (unat c) (unat d))) forbidden_blocks
   \<and> (to_ipv4_mapped (V6 s0 s1 s2 s3 s4 s5 s6 s7) = Some v4
      \<longrightarrow> is_forbidden_ip (V6 s0 s1 s2 s3 s4 s5 s6 s7) = is_forbidden_ip v4)"
proof
  have multicast: "224 \<le> unat a \<and> unat a \<le> 239 \<longleftrightarrow> unat a div 16 = 14"
    and upper: "240 \<le> unat a \<longleftrightarrow> unat a div 16 = 15"
    and inner: "16 \<le> unat b \<and> unat b \<le> 31 \<longleftrightarrow> unat b div 16 = 1"
    and benchmark: "unat b = 18 \<or> unat b = 19 \<longleftrightarrow> unat b div 2 = 9"
    using unat_byte [of a] by (auto simp: div_eq_range)
  have broadcast: "unat a = 255 \<longrightarrow> unat a div 16 = 15"
    by simp
  have rhs: "list_ex (in_block (address_number (unat a) (unat b) (unat c) (unat d))) forbidden_blocks
      \<longleftrightarrow> unat a = 0 \<and> unat b = 0 \<and> unat c = 0 \<and> unat d = 0 \<or> unat a = 127 \<or> unat a = 10
        \<or> unat a = 172 \<and> unat b div 16 = 1 \<or> unat a = 192 \<and> unat b = 168
        \<or> unat a = 169 \<and> unat b = 254 \<or> unat a div 16 = 14 \<or> unat a div 16 = 15
        \<or> unat a = 192 \<and> unat b = 0 \<and> unat c = 2 \<or> unat a = 198 \<and> unat b = 51 \<and> unat c = 100
        \<or> unat a = 203 \<and> unat b = 0 \<and> unat c = 113 \<or> unat a = 198 \<and> unat b div 2 = 9
        \<or> unat a = 192 \<and> unat b = 0 \<and> unat c = 0
        \<or> unat a = 100 \<and> unat b = 100 \<and> unat c = 100 \<and> unat d = 200"
    by (simp add: forbidden_blocks_def blocks unat_byte)
  have lhs: "is_forbidden_ip (V4 a b c d)
      \<longleftrightarrow> (unat a = 169 \<and> unat b = 254 \<and> unat c = 169 \<and> unat d = 254
            \<or> unat a = 100 \<and> unat b = 100 \<and> unat c = 100 \<and> unat d = 200
            \<or> unat a = 169 \<and> unat b = 254 \<and> unat c = 169)
        \<or> unat a = 0 \<and> unat b = 0 \<and> unat c = 0 \<and> unat d = 0 \<or> unat a = 127
        \<or> (unat a = 10 \<or> unat a = 172 \<and> 16 \<le> unat b \<and> unat b \<le> 31 \<or> unat a = 192 \<and> unat b = 168)
        \<or> unat a = 169 \<and> unat b = 254 \<or> 224 \<le> unat a \<and> unat a \<le> 239
        \<or> unat a = 255 \<and> unat b = 255 \<and> unat c = 255 \<and> unat d = 255 \<or> 240 \<le> unat a
        \<or> (unat a = 192 \<and> unat b = 0 \<and> unat c = 2 \<or> unat a = 198 \<and> unat b = 51 \<and> unat c = 100
           \<or> unat a = 203 \<and> unat b = 0 \<and> unat c = 113
           \<or> unat a = 198 \<and> (unat b = 18 \<or> unat b = 19) \<or> unat a = 192 \<and> unat b = 0 \<and> unat c = 0)"
    by (simp add: is_forbidden_ip_def is_reserved_v4_def byte_word_iff)
  show "is_forbidden_ip (V4 a b c d) =
      list_ex (in_block (address_number (unat a) (unat b) (unat c) (unat d))) forbidden_blocks"
    unfolding lhs rhs multicast upper inner benchmark using broadcast by argo
next
  show "to_ipv4_mapped (V6 s0 s1 s2 s3 s4 s5 s6 s7) = Some v4
      \<longrightarrow> is_forbidden_ip (V6 s0 s1 s2 s3 s4 s5 s6 s7) = is_forbidden_ip v4"
    by (auto simp: is_forbidden_ip_def is_ipv6_link_local_def is_ipv6_unique_local_def
        split: if_splits)
qed

lemma forbidden_addresses_exact_witness:
  "is_forbidden_ip (V6 0 0 0 0 0 0xFFFF 0xA9FE 0xA9FE) = is_forbidden_ip (V4 169 254 169 254)"
proof -
  have "to_ipv4_mapped (V6 0 0 0 0 0 0xFFFF 0xA9FE 0xA9FE) = Some (V4 169 254 169 254)"
    by code_simp
  then show ?thesis
    using forbidden_addresses_exact by blast
qed

section \<open>What a fetch contacts\<close>

definition contact_ok :: "contact \<Rightarrow> bool" where
  "contact_ok c =
     (case c of (u, addrs) \<Rightarrow>
        list_all (\<lambda>ip. \<not> is_forbidden_ip ip) addrs
        \<and> (case u_port u of None \<Rightarrow> True | Some port \<Rightarrow> \<not> is_unsafe_port port)
        \<and> u_username u = [] \<and> u_password u = None
        \<and> (case u_host u of None \<Rightarrow> True | Some (Literal ip) \<Rightarrow> addrs = [ip]
           | Some (Domain d) \<Rightarrow> addrs \<noteq> []))"

lemma admitted_contact:
  assumes "hop_admitted n hop u = Inr addrs" "u_username u = []" "u_password u = None"
  shows "contact_ok (u, addrs)"
  using assms
  by (auto simp: hop_admitted_def pinned_addresses_def resolve_and_check_host_def contact_ok_def
      result_simps list_all_iff list_ex_iff split: option.splits host.splits if_splits)

lemma validated_url:
  assumes "parse_and_validate_fetch_url lib raw = Inr u"
  shows "url_parse lib raw = Inr u" "u_username u = []" "u_password u = None" "u_host u \<noteq> None"
    "u_scheme u = ''http'' \<or> u_scheme u = ''https''"
  using assms
  by (auto simp: parse_and_validate_fetch_url_def split: sum.splits if_splits)

lemma next_hop_clean:
  assumes "next_hop lib u location = Inr v"
  shows "u_username v = []" "u_password v = None"
proof -
  obtain target where step: "(case parse_and_validate_fetch_url lib (url_print lib target) of
      Inl e \<Rightarrow> Inl (''web-fetch blocked by redirect: '' @ e)
    | Inr _ \<Rightarrow> if u_username target \<noteq> [] \<or> u_password target \<noteq> None
        then Inl ''web-fetch blocked: redirect target contains credentials'' else Inr target) = Inr v"
    using assms unfolding next_hop_def bindE_Inr by blast
  show "u_username v = []" "u_password v = None"
    using step by (cases "parse_and_validate_fetch_url lib (url_print lib target)"; simp split: if_splits)+
qed

text \<open>The page that ends a successful fetch.\<close>

definition good_page :: "net \<Rightarrow> nat \<Rightarrow> contact \<Rightarrow> bool" where
  "good_page n hop c =
     (case c of (u, addrs) \<Rightarrow>
        (case http_get n hop u addrs of
           Inl _ \<Rightarrow> False
         | Inr resp \<Rightarrow>
             200 \<le> r_status resp \<and> r_status resp < 300
             \<and> is_supported_response_type (case r_content_type resp of Some t \<Rightarrow> t | None \<Rightarrow> [])
             \<and> is_ok (read_bounded_text n resp WEB_FETCH_MAX_BODY_BYTES)))"

lemma finished_ok:
  assumes "finished_page lib n u resp = Inr r" "tr_ok r" "http_get n hop u addrs = Inr resp"
  shows "good_page n hop (u, addrs)"
  using assms
  by (auto simp: finished_page_def outcome_of_status_def good_page_def Let_def result_simps
      is_ok_iff split: if_splits)

lemma redirect_not_ok: "300 \<le> status \<Longrightarrow> \<not> tr_ok (into_tool_result (outcome_of_status status))"
  by (simp add: outcome_of_status_def)

lemma egress_contacts:
  assumes "egress_loop lib n redirects u = (result, contacts)"
    and "u_username u = []" "u_password u = None" "redirects \<le> WEB_FETCH_MAX_REDIRECTS"
  shows "list_all contact_ok contacts
    \<and> length contacts + redirects \<le> WEB_FETCH_MAX_REDIRECTS + 1
    \<and> (contacts \<noteq> [] \<longrightarrow> fst (hd contacts) = u)
    \<and> (\<forall>r. result = Inr r \<longrightarrow> tr_ok r \<longrightarrow>
         contacts \<noteq> [] \<and> good_page n (redirects + length contacts - 1) (last contacts))"
  using assms
proof (induction lib n redirects u arbitrary: result contacts rule: egress_loop.induct)
  case (1 lib n redirects u)
  note run = 1(2) [unfolded egress_loop.simps [of lib n redirects u]]
  show ?case
  proof (cases "hop_admitted n redirects u")
    case (Inl e)
    with run 1(5) show ?thesis by auto
  next
    case (Inr addrs)
    note ok = admitted_contact [OF Inr 1(3,4)]
    show ?thesis
    proof (cases "http_get n redirects u addrs")
      case (Inl e)
      with run Inr ok 1(5) show ?thesis by auto
    next
      case http: (Inr resp)
      show ?thesis
      proof (cases "300 \<le> r_status resp \<and> r_status resp < 400")
        case False
        with run Inr http have "result = finished_page lib n u resp" "contacts = [(u, addrs)]"
          by auto
        with ok 1(5) finished_ok [OF _ _ http] show ?thesis by auto
      next
        case redirect: True
        show ?thesis
        proof (cases "WEB_FETCH_MAX_REDIRECTS < redirects + 1 \<or> r_location resp = None
            \<or> (\<exists>e. next_hop lib u (the (r_location resp)) = Inl e)")
          case True
          with run Inr http redirect have "contacts = [(u, addrs)]"
            "\<And>r. result = Inr r \<Longrightarrow> \<not> tr_ok r"
            by (auto simp: redirect_not_ok split: option.splits if_splits)
          with ok 1(5) show ?thesis by auto
        next
          case False
          then obtain location v where hop: "r_location resp = Some location"
            "next_hop lib u location = Inr v" and bound: "\<not> WEB_FETCH_MAX_REDIRECTS < redirects + 1"
            by (cases "r_location resp"; cases "next_hop lib u (the (r_location resp))") auto
          obtain contacts' where rest: "egress_loop lib n (redirects + 1) v = (result, contacts')"
            and contacts: "contacts = (u, addrs) # contacts'"
            using run Inr http redirect hop bound by (auto split: prod.splits)
          note ih = 1(1) [OF Inr http redirect bound hop(1,2) rest next_hop_clean [OF hop(2)]]
          have "redirects + 1 \<le> WEB_FETCH_MAX_REDIRECTS" using bound by simp
          from ih [OF this] show ?thesis
            using ok contacts by (auto simp: Suc_diff_Suc)
        qed
      qed
    qed
  qed
qed


text \<open>A server that redirects once, and a resolver for its name.\<close>

definition sample_url :: "string \<Rightarrow> url" where
  "sample_url name =
     \<lparr>u_scheme = ''https'', u_username = [], u_password = None, u_host = Some (Domain name),
      u_port = None, u_rest = ''/'', u_fragment = None\<rparr>"

definition sample_lib :: url_lib where
  "sample_lib =
     \<lparr>url_parse = (\<lambda>raw. Inr (sample_url raw)), url_join = (\<lambda>u location. Some (sample_url location)),
      url_print = (\<lambda>u. case u_host u of Some (Domain d) \<Rightarrow> d | _ \<Rightarrow> []), ip_text = (\<lambda>_. [])\<rparr>"

definition sample_net :: net where
  "sample_net =
     \<lparr>lookup_host = (\<lambda>hop name port. Some [V4 93 184 216 34]),
      http_get = (\<lambda>hop u addrs.
        Inr \<lparr>r_status = (if hop = 0 then 302 else 200), r_location = Some (Some ''b.example''),
             r_content_type = Some ''text/plain'', r_content_length = None, r_chunks = []\<rparr>),
      client_builds = True, utf8_lossy = (\<lambda>s. s), readability = (\<lambda>_ _. None),
      page_json = ps_final_uri, sha256_hex = (\<lambda>s. s), clock_text = [], timed_out = False\<rparr>"

lemma sample_selectors:
  "url_parse sample_lib raw = Inr (sample_url raw)"
  "url_join sample_lib u location = Some (sample_url location)"
  "url_print sample_lib (sample_url d) = d"
  "url_print sample_lib (sample_url d\<lparr>u_fragment := None\<rparr>) = d"
  "u_host (sample_url d) = Some (Domain d)" "u_port (sample_url d) = None"
  "u_username (sample_url d) = []" "u_password (sample_url d) = None"
  "u_scheme (sample_url d) = ''https''"
  "lookup_host sample_net hop d port = Some [V4 93 184 216 34]"
  "http_get sample_net hop u addrs =
     Inr \<lparr>r_status = (if hop = 0 then 302 else 200), r_location = Some (Some ''b.example''),
          r_content_type = Some ''text/plain'', r_content_length = None, r_chunks = []\<rparr>"
  "client_builds sample_net" "\<not> timed_out sample_net" "page_json sample_net = ps_final_uri"
  by (simp_all add: sample_lib_def sample_url_def sample_net_def)

lemma sample_pages:
  "parse_and_validate_fetch_url sample_lib ''a.example'' = Inr (sample_url ''a.example'')"
  "parse_and_validate_fetch_url sample_lib ''b.example'' = Inr (sample_url ''b.example'')"
  "is_supported_response_type ''text/plain''"
  by code_simp+


end
