(* ===== verification/Tool_Authority.thy ===== *)
theory Tool_Authority
  imports Approval_Commands Web_Fetch
begin

text \<open>
  The authority check in front of every native tool (\<open>tools/approval_policy.rs\<close>, the guards of
  \<open>execute_native_tool\<close> in \<open>tools.rs\<close>): the closed registry, the policy of each tool, the binding
  of an approval to the arguments by previews and, for some tools, by a digest of their canonical
  JSON text, and the consumption of the one-time permit.

  \<open>services\<close> holds what comes from crates: SHA-256, the JSON text of a string, the JavaScript text
  of a number and the parser of URLs. A set of strings stands for the \<open>BTreeSet\<close> of the source.
\<close>

section \<open>Registry\<close>

definition ARGUMENT_DIGEST_PREFIX :: string where
  "ARGUMENT_DIGEST_PREFIX = ''Arguments SHA-256: ''"

definition SUPPORTED_TOOLS :: "string list" where
  "SUPPORTED_TOOLS =
     [''repository-pr-read'', ''repository-pr-local'', ''repository-pr-action'',
      ''repository-pr-watch'', ''request-secret'', ''secret-request-status'',
      ''webhook-signing-install'', ''webhook-signing-status'', ''webhook-signing-verify'',
      ''webhook-signing-remove'', ''repository-start'', ''workspace-start'',
      ''command-jobs'', ''command-output'', ''command-stop'', ''command-input'',
      ''repository-checkpoint-list'', ''repository-checkpoint-capture'',
      ''repository-checkpoint-preview'', ''repository-checkpoint-restore'',
      ''repository-checkpoint-delete'', ''repository-recover'', ''repository-status'',
      ''repository-read'', ''repository-write'', ''repository-run'', ''workspace-run'',
      ''workspace-inspect'', ''agent-create'', ''agent-update'', ''agent-delete'',
      ''project-create'', ''project-team-update'', ''repository-commit'',
      ''repository-publish'', ''read-file'', ''write-file'', ''create-spreadsheet'',
      ''create-document'', ''create-presentation'', ''create-pdf'', ''run-shell'',
      ''web-fetch'', ''computer-artifact'', ''generate-image'', ''edit-image'',
      ''local-app-observe'', ''local-app-list'', ''local-browser-open'',
      ''local-browser-tabs'', ''local-browser-observe'', ''local-browser-navigate'',
      ''local-browser-activate'', ''local-browser-fill'', ''local-browser-download'',
      ''local-browser-upload-choices'', ''local-browser-upload'',
      ''local-browser-handover'', ''local-browser-click'', ''local-browser-scroll'',
      ''local-app-select'', ''local-app-action'', ''local-desktop-observe'',
      ''local-desktop-action'', ''connection-read'', ''github-read'', ''vercel-read'',
      ''linear-read'', ''google-drive-read'', ''gmail-read'', ''google-calendar-read'',
      ''search-notion'', ''search-slack'']"

definition tool_policy_table :: "(string list \<times> string \<times> string) list" where
  "tool_policy_table =
     [([''repository-pr-read''], ''read-only'', ''low''),
      ([''repository-pr-local'', ''repository-pr-watch''], ''full-access'', ''high''),
      ([''repository-pr-action''], ''full-access'', ''critical''),
      ([''request-secret'', ''webhook-signing-install'', ''webhook-signing-remove''],
        ''full-access'', ''high''),
      ([''secret-request-status'', ''webhook-signing-status'', ''webhook-signing-verify''],
        ''read-only'', ''low''),
      ([''repository-checkpoint-list'', ''repository-checkpoint-preview''], ''read-only'', ''low''),
      ([''repository-checkpoint-capture''], ''full-access'', ''high''),
      ([''repository-checkpoint-restore'', ''repository-checkpoint-delete''],
        ''full-access'', ''critical''),
      ([''repository-status'', ''repository-read'', ''command-jobs'', ''command-output''],
        ''read-only'', ''low''),
      ([''command-stop'', ''command-input''], ''full-access'', ''high''),
      ([''repository-write'', ''repository-commit''], ''full-access'', ''high''),
      ([''repository-run'', ''repository-start'', ''repository-publish'',
        ''workspace-run'', ''workspace-start''], ''full-access'', ''critical''),
      ([''workspace-inspect''], ''read-only'', ''low''),
      ([''agent-create'', ''agent-update'', ''project-create'', ''project-team-update''],
        ''full-access'', ''high''),
      ([''agent-delete''], ''full-access'', ''critical''),
      ([''repository-recover''], ''full-access'', ''high''),
      ([''read-file''], ''read-only'', ''low''),
      ([''write-file''], ''full-access'', ''high''),
      ([''create-spreadsheet'', ''create-document'', ''create-presentation'',
        ''create-pdf''], ''full-access'', ''high''),
      ([''run-shell''], ''full-access'', ''critical''),
      ([''web-fetch''], ''read-only'', ''medium''),
      ([''local-app-list''], ''read-only'', ''low''),
      ([''local-browser-open''], ''full-access'', ''high''),
      ([''local-browser-navigate'', ''local-browser-activate'', ''local-browser-handover''],
        ''full-access'', ''high''),
      ([''local-browser-click'', ''local-browser-scroll'', ''local-browser-fill'',
        ''local-browser-download'', ''local-browser-upload''], ''full-access'', ''critical''),
      ([''local-browser-tabs'', ''local-browser-observe'', ''local-browser-upload-choices''],
        ''read-only'', ''medium''),
      ([''local-app-select''], ''read-only'', ''medium''),
      ([''local-app-observe'', ''local-desktop-observe''], ''read-only'', ''medium''),
      ([''local-app-action'', ''local-desktop-action''], ''full-access'', ''critical''),
      ([''computer-artifact''], ''read-only'', ''low''),
      ([''generate-image'', ''edit-image''], ''full-access'', ''high''),
      ([''cloud-browser'', ''cloud-browser-action''], ''full-access'', ''critical''),
      ([''connection-read'', ''github-read'', ''vercel-read'', ''linear-read''],
        ''read-only'', ''medium''),
      ([''google-drive-read''], ''read-only'', ''low''),
      ([''gmail-read''], ''read-only'', ''medium''),
      ([''google-calendar-read''], ''read-only'', ''low''),
      ([''search-notion'', ''search-slack''], ''read-only'', ''low'')]"

definition tool_policy :: "string \<Rightarrow> (string \<times> string) option" where
  "tool_policy tool =
     map_option snd (find (\<lambda>(tools, _). tool \<in> set tools) tool_policy_table)"

record tool_request =
  tq_tool :: string
  tq_arguments :: json
  tq_approval :: resolution_request
  tq_workspace_id :: "string option"
  tq_agent_id :: "string option"
  tq_computer_generation :: "u64 option"

definition require_computer_generation :: "tool_request \<Rightarrow> string + u64" where
  "require_computer_generation request =
     (case tq_computer_generation request of
        Some g \<Rightarrow>
          if 0 < g \<and> g \<le> 9007199254740991 then Inr g
          else Inl ''Refresh this computer before requesting a tool action; its control generation is missing or invalid.''
      | None \<Rightarrow> Inl ''Refresh this computer before requesting a tool action; its control generation is missing or invalid.'')"

definition validate_tool_name :: "string \<Rightarrow> string + unit" where
  "validate_tool_name tool =
     (if tool \<in> set SUPPORTED_TOOLS then Inr ()
      else Inl (''Tool '' @ tool @ '' is not in Mivlet's tool registry.''))"

definition routine_connector_read :: "string \<Rightarrow> bool" where
  "routine_connector_read tool =
     (tool \<in> {''google-drive-read'', ''gmail-read'', ''google-calendar-read'', ''github-read'',
              ''vercel-read'', ''linear-read'', ''search-notion'', ''search-slack''})"

definition is_protected_secret_tool :: "string \<Rightarrow> bool" where
  "is_protected_secret_tool tool =
     (tool \<in> {''request-secret'', ''secret-request-status'', ''webhook-signing-install'',
              ''webhook-signing-status'', ''webhook-signing-verify'', ''webhook-signing-remove''})"

definition is_computer_tool :: "string \<Rightarrow> bool" where
  "is_computer_tool tool =
     (is_protected_secret_tool tool
      \<or> starts_with tool ''repository-'' \<or> starts_with tool ''command-'' \<or> tool = ''workspace-start''
      \<or> tool \<in> {''run-shell'', ''workspace-run'', ''read-file'', ''write-file'', ''create-spreadsheet'',
                ''create-document'', ''create-presentation'', ''create-pdf'', ''computer-artifact'',
                ''generate-image'', ''edit-image'', ''local-app-observe'', ''local-app-list'',
                ''local-browser-open'', ''local-browser-tabs'', ''local-browser-observe'',
                ''local-browser-navigate'', ''local-browser-activate'', ''local-browser-fill'',
                ''local-browser-download'', ''local-browser-upload-choices'',
                ''local-browser-upload'', ''local-browser-handover'', ''local-browser-click'',
                ''local-browser-scroll'', ''local-app-select'', ''local-app-action'',
                ''local-desktop-observe'', ''local-desktop-action''})"

definition tool_requires_argument_digest :: "string \<Rightarrow> bool" where
  "tool_requires_argument_digest tool =
     (tool \<in> {''create-spreadsheet'', ''create-document'', ''create-presentation'', ''create-pdf'',
              ''workspace-run'', ''workspace-start'', ''workspace-inspect'', ''agent-create'',
              ''agent-update'', ''agent-delete'', ''project-create'', ''project-team-update''}
      \<or> starts_with tool ''repository-'' \<or> starts_with tool ''local-browser-''
      \<or> starts_with tool ''command-'' \<or> is_protected_secret_tool tool)"

section \<open>Canonical JSON\<close>

record services =
  sv_sha256_hex :: "string \<Rightarrow> string"
  sv_quote :: "string \<Rightarrow> string"
  sv_number_js :: "string \<Rightarrow> string option"
  sv_url :: url_lib

text \<open>The code point of a UTF-8 chunk and the UTF-16 code units of a string.\<close>

definition code_point :: "string \<Rightarrow> nat" where
  "code_point ch =
     (case map byte ch of
        [a] \<Rightarrow> a
      | [a, b] \<Rightarrow> (a mod 32) * 64 + b mod 64
      | [a, b, c] \<Rightarrow> (a mod 16) * 4096 + (b mod 64) * 64 + c mod 64
      | [a, b, c, d] \<Rightarrow> (a mod 8) * 262144 + (b mod 64) * 4096 + (c mod 64) * 64 + d mod 64
      | _ \<Rightarrow> 0)"

definition encode_utf16 :: "string \<Rightarrow> nat list" where
  "encode_utf16 s =
     concat (map (\<lambda>ch. let p = code_point ch
                        in if p < 65536 then [p]
                           else [55296 + (p - 65536) div 1024, 56320 + (p - 65536) mod 1024])
                 (scalars s))"

text \<open>Keys that JavaScript takes for array indices come first, in numeric order.\<close>

definition index_key :: "string \<Rightarrow> nat option" where
  "index_key key =
     (if key \<noteq> [] \<and> list_all ascii_digit key \<and> int (dec_value key) < 2 ^ 32 - 1
         \<and> dec (dec_value key) = key
      then Some (dec_value key) else None)"

definition key_order :: "string \<Rightarrow> nat \<times> nat \<times> nat list" where
  "key_order key =
     (case index_key key of Some i \<Rightarrow> (0, i, []) | None \<Rightarrow> (1, 0, encode_utf16 key))"

definition canonical_number :: "services \<Rightarrow> string \<Rightarrow> string + string" where
  "canonical_number sv number =
     (if (case jint (JNum number) of None \<Rightarrow> False | Some i \<Rightarrow> 9007199254740991 < \<bar>i\<bar>) then
        Inl ''Tool argument integer exceeds the exact JavaScript range.''
      else ok_or ''Invalid tool argument number.'' (sv_number_js sv number))"

lemma mapE_cong [fundef_cong]:
  "xs = ys \<Longrightarrow> (\<And>x. x \<in> set ys \<Longrightarrow> f x = g x) \<Longrightarrow> mapE f xs = mapE g ys"
  by (induction ys arbitrary: xs) auto

lemma json_entry_smaller: "(k, v) \<in> set ob \<Longrightarrow> size v < size (JObj ob)"
  by (induction ob) auto

lemma json_element_smaller: "v \<in> set vs \<Longrightarrow> size v < size (JArr vs)"
  by (induction vs) auto

function canonical_json :: "services \<Rightarrow> json \<Rightarrow> string + string" where
  "canonical_json sv (JObj ob) =
     bindE (mapE (\<lambda>(k, v). bindE (canonical_json sv v) (\<lambda>t. Inr (sv_quote sv k @ '':'' @ t)))
              (sort_key (\<lambda>(k, _). key_order k) ob)) (\<lambda>parts.
     Inr (''{'' @ join '','' parts @ ''}''))"
| "canonical_json sv (JArr vs) =
     bindE (mapE (canonical_json sv) vs) (\<lambda>parts. Inr (''['' @ join '','' parts @ '']''))"
| "canonical_json sv (JNum number) = canonical_number sv number"
| "canonical_json sv (JStr s) = Inr (sv_quote sv s)"
| "canonical_json sv (JBool b) = Inr (if b then ''true'' else ''false'')"
| "canonical_json sv JNull = Inr ''null''"
  by pat_completeness auto
termination
  by (relation "measure (\<lambda>(_, v). size v)")
    (auto dest: json_entry_smaller json_element_smaller simp del: json.size)

definition argument_digest :: "services \<Rightarrow> json \<Rightarrow> string + string" where
  "argument_digest sv arguments =
     bindE (canonical_json sv arguments) (\<lambda>text.
     Inr (ARGUMENT_DIGEST_PREFIX @ sv_sha256_hex sv text))"

definition tool_arguments_fingerprint :: "services \<Rightarrow> string \<Rightarrow> json \<Rightarrow> string + string" where
  "tool_arguments_fingerprint sv tool arguments =
     bindE (canonical_json sv arguments) (\<lambda>canonical.
     Inr (sv_sha256_hex sv (tool @ '':'' @ canonical)))"

section \<open>Pages of the cloud browser\<close>

definition trim_end_matches :: "char \<Rightarrow> string \<Rightarrow> string" where
  "trim_end_matches c s = rev (dropWhile (\<lambda>x. x = c) (rev s))"

definition public_browser_host :: "host \<Rightarrow> bool" where
  "public_browser_host h =
     (case h of
        Domain d \<Rightarrow>
          let domain = to_ascii_lowercase (trim_end_matches (CHR ''.'') d)
          in CHR ''.'' \<in> set domain \<and> domain \<noteq> ''localhost'' \<and> \<not> ends_with domain ''.localhost''
             \<and> \<not> ends_with domain ''.local''
      | Literal (V4 a b c d) \<Rightarrow>
          \<not> (v4_is_private a b \<or> a = 127 \<or> a = 169 \<and> b = 254
             \<or> a = 0 \<and> b = 0 \<and> c = 0 \<and> d = 0 \<or> 224 \<le> a \<and> a \<le> 239 \<or> a = 0)
      | Literal (V6 _ _ _ _ _ _ _ _) \<Rightarrow> False)"

definition normalize_public_https_url :: "url_lib \<Rightarrow> string \<Rightarrow> string + string" where
  "normalize_public_https_url lib v =
     (if trim v \<noteq> v \<or> 2048 < length v \<or> list_ex is_control (scalars v) then
        Inl ''The cloud browser URL is invalid.''
      else case url_parse lib v of
             Inl _ \<Rightarrow> Inl ''The cloud browser URL is invalid.''
           | Inr u \<Rightarrow>
               bindE (ok_or ''The cloud browser URL is invalid.'' (u_host u)) (\<lambda>h.
               if u_scheme u \<noteq> ''https'' \<or> u_username u \<noteq> [] \<or> u_password u \<noteq> None
                  \<or> \<not> public_browser_host h
               then Inl ''Only public HTTPS pages can open in the cloud browser.''
               else Inr (url_print lib (u\<lparr>u_fragment := None\<rparr>))))"

definition normalize_user_navigation :: "url_lib \<Rightarrow> string \<Rightarrow> string + string" where
  "normalize_user_navigation lib raw =
     (let v = trim raw
      in if v = [] \<or> 2048 < chars_count v then Inl ''Enter a valid page address.''
         else case url_parse lib v of
                Inl _ \<Rightarrow> Inl ''Enter a valid page address.''
              | Inr u \<Rightarrow>
                  if \<not> (u_scheme u = ''http'' \<or> u_scheme u = ''https'') \<or> u_username u \<noteq> []
                     \<or> u_password u \<noteq> None \<or> host_str lib u = None
                  then Inl ''The local browser accepts credential-free HTTP or HTTPS addresses.''
                  else Inr (url_print lib (u\<lparr>u_fragment := None\<rparr>)))"

section \<open>Binding to the arguments\<close>

definition preview_of_entry :: "services \<Rightarrow> string \<Rightarrow> string \<times> json \<Rightarrow> string + string" where
  "preview_of_entry sv tool entry =
     (case entry of (key, v) \<Rightarrow>
        bindE (case v of JStr text \<Rightarrow> Inr text | _ \<Rightarrow> canonical_json sv v) (\<lambda>raw.
        let rendered =
              (if tool = ''web-fetch'' \<and> key = ''url'' then
                 (case normalize_url_for_fingerprint (sv_url sv) raw of Some u \<Rightarrow> u | None \<Rightarrow> raw)
               else if tool = ''cloud-browser'' \<and> key = ''url'' then
                 (case normalize_public_https_url (sv_url sv) raw of
                    Inr u \<Rightarrow> u
                  | Inl _ \<Rightarrow> (case normalize_user_navigation (sv_url sv) raw of
                               Inr u \<Rightarrow> u | Inl _ \<Rightarrow> raw))
               else raw)
        in Inr (truncate_characters (normalize_spaces (key @ '': '' @ rendered)) 240)))"

definition approval_argument_previews :: "services \<Rightarrow> string \<Rightarrow> json \<Rightarrow> string + string set" where
  "approval_argument_previews sv tool arguments =
     (case arguments of
        JObj ob \<Rightarrow>
          bindE (mapE (preview_of_entry sv tool)
                   (take 16 (sort_key (\<lambda>(k, _). encode_utf16 k) ob))) (\<lambda>previews.
          Inr (set previews))
      | _ \<Rightarrow> Inl (''Tool '' @ tool @ '' arguments must be an object at the execution boundary.''))"

definition err_arguments_changed :: "string \<Rightarrow> string" where
  "err_arguments_changed tool = ''Tool '' @ tool @ '' arguments changed after the approval preview.''"

definition validate_tool_approval_binding ::
    "services \<Rightarrow> string \<Rightarrow> json \<Rightarrow> approval_request \<Rightarrow> string + unit" where
  "validate_tool_approval_binding sv tool arguments approval =
     bindE (ok_or (''Tool '' @ tool @ '' has no execution policy.'') (tool_policy tool))
       (\<lambda>(required_mode, required_risk).
     if aq_mode approval \<noteq> required_mode \<or> aq_risk_level approval \<noteq> required_risk then
       Inl (''Tool '' @ tool @ '' approval does not match its required permission policy.'')
     else
     bindE (ok_or (''Tool '' @ tool @ '' has no permission effect.'') (effect_for_tool tool)) (\<lambda>effect.
     bindE (ensure_permission_allowed (aq_mode approval) None effect (aq_risk_level approval)) (\<lambda>_.
     if (case split_whitespace (aq_action approval) of [] \<Rightarrow> True | w # _ \<Rightarrow> w \<noteq> tool) then
       Inl (''Tool '' @ tool @ '' approval is bound to a different action.'')
     else
     bindE (approval_argument_previews sv tool arguments) (\<lambda>expected.
     let approved = set (map (\<lambda>v. truncate_characters (normalize_spaces v) 240) (aq_data_used approval))
     in if tool_requires_argument_digest tool then
          bindE (argument_digest sv arguments) (\<lambda>expected_digest.
          if {v \<in> approved. starts_with v ARGUMENT_DIGEST_PREFIX} \<noteq> {expected_digest} then
            Inl (err_arguments_changed tool)
          else if expected \<noteq> approved - {expected_digest} then Inl (err_arguments_changed tool)
          else Inr ())
        else if expected \<noteq> approved then Inl (err_arguments_changed tool)
        else Inr ()))))"

definition validate_computer_approval_binding :: "services \<Rightarrow> tool_request \<Rightarrow> string + unit" where
  "validate_computer_approval_binding sv request =
     bindE (require_computer_generation request) (\<lambda>generation.
     bindE (ok_or ''Computer approval requires its exact workspace.'' (tq_workspace_id request))
       (\<lambda>workspace_id.
     bindE (ok_or ''Computer approval requires its exact agent.'' (tq_agent_id request)) (\<lambda>agent_id.
     let expected = [''Computer workspace: '' @ workspace_id, ''Computer agent: '' @ agent_id,
                     ''Computer generation: '' @ dec (unat generation)];
         approval = rq_request (tq_approval request);
         used = aq_data_used approval
     in if \<not> suffix expected used then
          Inl ''Computer scope or control changed after this action was approved. Request a fresh approval.''
        else validate_tool_approval_binding sv (tq_tool request) (tq_arguments request)
               (approval\<lparr>aq_data_used := take (length used - length expected) used\<rparr>))))"

section \<open>Permits\<close>

definition verify_execution_permit ::
    "services \<Rightarrow> (approval_request \<Rightarrow> string) \<Rightarrow> string + unit \<Rightarrow> tool_request \<Rightarrow> string
     \<Rightarrow> execution_approval list \<Rightarrow> string + execution_approval list" where
  "verify_execution_permit sv fp gate request now permits =
     bindE (if is_computer_tool (tq_tool request)
            then validate_computer_approval_binding sv request
            else validate_tool_approval_binding sv (tq_tool request) (tq_arguments request)
                   (rq_request (tq_approval request))) (\<lambda>_.
     if routine_connector_read (tq_tool request) then
       if rq_decision (tq_approval request) \<noteq> ''once'' then
         Inl ''Connector read was denied or has an invalid decision.''
       else Inr permits
     else if rq_decision (tq_approval request) = ''session'' \<or> rq_decision (tq_approval request) = ''rule''
     then Inl ''Execution blocked: standing session/rule decisions cannot authorize this effect.''
     else verify_and_consume_execution_approval fp gate (rq_request (tq_approval request)) now permits)"

text \<open>\<open>binding\<close> is the answer of \<open>check_managed_runtime_tool\<close>.\<close>

definition verify_tool_authority ::
    "services \<Rightarrow> (approval_request \<Rightarrow> string) \<Rightarrow> string + unit \<Rightarrow> string + unit \<Rightarrow> tool_request \<Rightarrow> string
     \<Rightarrow> execution_approval list \<Rightarrow> string + execution_approval list" where
  "verify_tool_authority sv fp gate binding request now permits =
     bindE binding (\<lambda>_. verify_execution_permit sv fp gate request now permits)"

text \<open>The guards of \<open>execute_native_tool\<close>; an accepted request is dispatched with the permits that
  are left.\<close>

definition admit_native_tool ::
    "services \<Rightarrow> (approval_request \<Rightarrow> string) \<Rightarrow> string + unit \<Rightarrow> string + unit \<Rightarrow> bool \<Rightarrow> tool_request
     \<Rightarrow> string \<Rightarrow> execution_approval list \<Rightarrow> string + execution_approval list" where
  "admit_native_tool sv fp gate binding provider_binding_checked request now permits =
     bindE (validate_tool_name (tq_tool request)) (\<lambda>_.
     bindE gate (\<lambda>_.
     if provider_binding_checked then verify_execution_permit sv fp gate request now permits
     else verify_tool_authority sv fp gate binding request now permits))"

section \<open>Laws of the boundary\<close>

lemma routine_is_a_read: "routine_connector_read tool \<Longrightarrow> effect_for_tool tool = Some ''connector-read''"
  unfolding routine_connector_read_def
  by (elim insertE emptyE) (simp_all add: effect_for_tool_def tool_effects_def)

lemma binding_policy:
  assumes "validate_tool_approval_binding sv tool arguments approval = Inr ()"
  shows "tool_policy tool = Some (aq_mode approval, aq_risk_level approval)"
    and "\<exists>rest. split_whitespace (aq_action approval) = tool # rest"
proof -
  obtain m r where policy: "tool_policy tool = Some (m, r)"
    using assms by (auto simp: validate_tool_approval_binding_def bindE_Inr ok_or_Inr)
  have match: "\<not> (aq_mode approval \<noteq> m \<or> aq_risk_level approval \<noteq> r)"
    using assms unfolding validate_tool_approval_binding_def policy by (auto split: if_splits)
  then show "tool_policy tool = Some (aq_mode approval, aq_risk_level approval)"
    using policy by simp
  have "\<not> (case split_whitespace (aq_action approval) of [] \<Rightarrow> True | w # _ \<Rightarrow> w \<noteq> tool)"
    using assms match unfolding validate_tool_approval_binding_def policy
    by (auto simp: bindE_Inr split: if_splits)
  then show "\<exists>rest. split_whitespace (aq_action approval) = tool # rest"
    by (cases "split_whitespace (aq_action approval)") auto
qed

lemma binding_digest:
  assumes "validate_tool_approval_binding sv tool arguments approval = Inr ()"
    "tool_requires_argument_digest tool"
  shows "\<exists>digest. argument_digest sv arguments = Inr digest
    \<and> {v \<in> (\<lambda>v. truncate_characters (normalize_spaces v) 240) ` set (aq_data_used approval).
         starts_with v ARGUMENT_DIGEST_PREFIX} = {digest}"
proof -
  obtain m r where policy: "tool_policy tool = Some (m, r)"
    using assms by (auto simp: validate_tool_approval_binding_def bindE_Inr ok_or_Inr)
  have match: "\<not> (aq_mode approval \<noteq> m \<or> aq_risk_level approval \<noteq> r)"
    using assms(1) unfolding validate_tool_approval_binding_def policy by (auto split: if_splits)
  show ?thesis
    using assms(1) match assms(2)
    unfolding validate_tool_approval_binding_def policy ok_or_simps bindE_simps prod.case
      if_not_P [OF match] Let_def set_map
    by (auto simp: bindE_Inr split: if_splits)
qed

text \<open>The approval that a computer tool is bound by, without the lines of its scope.\<close>

definition bound_approval :: "tool_request \<Rightarrow> approval_request" where
  "bound_approval request =
     (let approval = rq_request (tq_approval request); used = aq_data_used approval
      in if is_computer_tool (tq_tool request)
         then approval\<lparr>aq_data_used := take (length used - 3) used\<rparr> else approval)"

lemma permit_binding:
  assumes "verify_execution_permit sv fp gate request now permits = Inr permits'"
  shows "validate_tool_approval_binding sv (tq_tool request) (tq_arguments request)
           (bound_approval request) = Inr ()"
  using assms
  by (auto simp: verify_execution_permit_def bound_approval_def Let_def bindE_Inr numeral_3_eq_3
      validate_computer_approval_binding_def split: if_splits)

lemma admitted_permit:
  assumes "admit_native_tool sv fp gate binding checked request now permits = Inr permits'"
  shows "tq_tool request \<in> set SUPPORTED_TOOLS" "gate = Inr ()"
    "verify_execution_permit sv fp gate request now permits = Inr permits'"
    "\<not> checked \<longrightarrow> binding = Inr ()"
  using assms
  by (auto simp: admit_native_tool_def validate_tool_name_def verify_tool_authority_def bindE_Inr
      split: if_splits)

lemma permit_cases:
  assumes "verify_execution_permit sv fp gate request now permits = Inr permits'"
  shows "if routine_connector_read (tq_tool request)
    then permits' = permits \<and> rq_decision (tq_approval request) = ''once''
    else verify_and_consume_execution_approval fp gate (rq_request (tq_approval request)) now permits
         = Inr permits'"
  using assms by (auto simp: verify_execution_permit_def bindE_Inr split: if_splits)

lemma bound_same: "aq_mode (bound_approval request) = aq_mode (rq_request (tq_approval request))"
  "aq_risk_level (bound_approval request) = aq_risk_level (rq_request (tq_approval request))"
  "aq_action (bound_approval request) = aq_action (rq_request (tq_approval request))"
  by (simp_all add: bound_approval_def Let_def)

text \<open>C6. A native tool runs only as the user approved it. Take a history of the permits and a tool
  request that passes the boundary, and suppose that the fingerprints of the decided requests do
  not collide with that of the presented one. The tool is in the registry and the workspace is not
  paused. If it is a routine connector read, its effect is a connector read and no permit is
  touched. Otherwise the history has an approving decision on exactly this request, whose action
  names this tool and whose mode and risk are those of the tool's policy; if these make it a
  high-risk request, the native dialog confirmed it; and the run is recorded in the history, so that
  the same decision cannot admit a second one.\<close>

theorem tools_run_only_as_approved:
  assumes "authority fp tr docs"
    and "admit_native_tool sv fp gate binding checked request now (ad_permits docs) = Inr permits'"
    and "\<forall>resp shown. Decided resp shown \<in> set tr
      \<longrightarrow> fp (rs_effective_request resp) = fp (rq_request (tq_approval request))
      \<longrightarrow> rs_effective_request resp = rq_request (tq_approval request)"
  shows "tq_tool request \<in> set SUPPORTED_TOOLS \<and> gate = Inr ()
    \<and> (if routine_connector_read (tq_tool request)
       then effect_for_tool (tq_tool request) = Some ''connector-read'' \<and> permits' = ad_permits docs
       else
         (\<exists>resp shown. Decided resp shown \<in> set tr
            \<and> rs_effective_request resp = rq_request (tq_approval request)
            \<and> decision_approves (ae_decision (rs_audit_entry resp))
            \<and> (approval_is_high_risk (rq_request (tq_approval request)) \<longrightarrow> shown))
         \<and> tool_policy (tq_tool request)
             = Some (aq_mode (rq_request (tq_approval request)),
                     aq_risk_level (rq_request (tq_approval request)))
         \<and> (\<exists>rest. split_whitespace (aq_action (rq_request (tq_approval request)))
                   = tq_tool request # rest)
         \<and> authority fp (Consumed (rq_request (tq_approval request)) now # tr)
             (docs\<lparr>ad_permits := permits'\<rparr>))"
proof -
  note adm = admitted_permit [OF assms(2)]
  show ?thesis
  proof (cases "routine_connector_read (tq_tool request)")
    case True
    then show ?thesis
      using adm permit_cases [OF adm(3)] routine_is_a_read by simp
  next
    case False
    let ?aq = "rq_request (tq_approval request)"
    have run: "authority fp (Consumed ?aq now # tr) (docs\<lparr>ad_permits := permits'\<rparr>)"
      using authority.consumed [OF assms(1)] permit_cases [OF adm(3)] False by simp
    obtain resp shown where dec: "open_permit tr (aq_id ?aq) = Some (resp, shown)"
      "fp ?aq = fp (rs_effective_request resp)" "decision_approves (ae_decision (rs_audit_entry resp))"
      "approval_is_high_risk (rs_effective_request resp) \<longrightarrow> shown"
      using run by (rule consumed_permit)
    have "Decided resp shown \<in> set tr"
      using open_permit_latest [OF dec(1)] by auto
    moreover from this dec(2) assms(3) have "rs_effective_request resp = ?aq" by metis
    ultimately have "\<exists>resp shown. Decided resp shown \<in> set tr \<and> rs_effective_request resp = ?aq
        \<and> decision_approves (ae_decision (rs_audit_entry resp))
        \<and> (approval_is_high_risk ?aq \<longrightarrow> shown)"
      using dec(3,4) by (intro exI [of _ resp] exI [of _ shown]) simp
    then show ?thesis
      using False run adm binding_policy [OF permit_binding [OF adm(3)]] by (simp add: bound_same)
  qed
qed


section \<open>Concrete requests\<close>

definition sample_services :: services where
  "sample_services =
     \<lparr>sv_sha256_hex = (\<lambda>_. ''d''), sv_quote = (\<lambda>s. s), sv_number_js = Some, sv_url = sample_lib\<rparr>"

definition sample_tool_approval :: approval_request where
  "sample_tool_approval =
     sample_request\<lparr>aq_action := ''agent-create x'', aq_data_used := [''Arguments SHA-256: d'']\<rparr>"

definition sample_tool_request :: tool_request where
  "sample_tool_request =
     \<lparr>tq_tool = ''agent-create'', tq_arguments = JObj [],
      tq_approval = sample_resolution\<lparr>rq_request := sample_tool_approval\<rparr>, tq_workspace_id = None,
      tq_agent_id = None, tq_computer_generation = None\<rparr>"

definition sample_tool_response :: resolution_response where
  "sample_tool_response =
     sample_response\<lparr>rs_effective_request := sample_tool_approval,
       rs_audit_entry := (rs_audit_entry sample_response)\<lparr>ae_note := ''Tools agent-create x''\<rparr>\<rparr>"

definition sample_tool_permit :: execution_approval where
  "sample_tool_permit = sample_permit\<lparr>ea_request_fingerprint := ''agent-create x''\<rparr>"

definition sample_tool_docs :: approval_docs where
  "sample_tool_docs =
     \<lparr>ad_audit = [rs_audit_entry sample_tool_response], ad_rules = [],
      ad_permits = [sample_tool_permit]\<rparr>"

lemma sample_tool_resolves:
  "resolve_approval_request aq_action (Inr ()) (\<lambda>_. Inr True)
     (sample_resolution\<lparr>rq_request := sample_tool_approval\<rparr>) no_docs
   = Inr (sample_tool_response, sample_tool_docs)"
  by code_simp

lemma sample_tool_binding:
  "validate_tool_approval_binding sample_services ''agent-create'' (JObj []) sample_tool_approval
   = Inr ()"
  by code_simp

lemma sample_tool_admitted:
  "admit_native_tool sample_services aq_action (Inr ()) (Inr ()) False sample_tool_request
     ''2026-01-02T10:05:00Z'' [sample_tool_permit]
   = Inr [sample_tool_permit\<lparr>ea_consumed_at := Some ''2026-01-02T10:05:00Z''\<rparr>]"
proof -
  have plain: "\<not> is_computer_tool ''agent-create''" "\<not> routine_connector_read ''agent-create''"
    "validate_tool_name ''agent-create'' = Inr ()"
    by (simp_all add: is_computer_tool_def routine_connector_read_def is_protected_secret_tool_def
        starts_with_def validate_tool_name_def SUPPORTED_TOOLS_def)
  have "verify_and_consume_execution_approval aq_action (Inr ()) sample_tool_approval
      ''2026-01-02T10:05:00Z'' [sample_tool_permit]
    = Inr [sample_tool_permit\<lparr>ea_consumed_at := Some ''2026-01-02T10:05:00Z''\<rparr>]"
    by code_simp
  then show ?thesis
    by (simp add: admit_native_tool_def verify_tool_authority_def verify_execution_permit_def plain
        sample_tool_binding sample_tool_request_def sample_resolution_def)
qed

lemma sample_tool_history:
  "authority aq_action [Decided sample_tool_response True] sample_tool_docs"
  using authority.decided [OF authority.start sample_tool_resolves] by simp

lemma tools_run_only_as_approved_witness:
  "approval_is_high_risk (rq_request (tq_approval sample_tool_request))
   \<and> (\<exists>resp. Decided resp True \<in> set [Decided sample_tool_response True]
        \<and> rs_effective_request resp = rq_request (tq_approval sample_tool_request))"
proof -
  have admitted: "admit_native_tool sample_services aq_action (Inr ()) (Inr ()) False sample_tool_request
      ''2026-01-02T10:05:00Z'' (ad_permits sample_tool_docs)
    = Inr [sample_tool_permit\<lparr>ea_consumed_at := Some ''2026-01-02T10:05:00Z''\<rparr>]"
    using sample_tool_admitted by (simp only: sample_tool_docs_def approval_docs.select_convs)
  have exact: "\<forall>resp shown. Decided resp shown \<in> set [Decided sample_tool_response True]
      \<longrightarrow> aq_action (rs_effective_request resp) = aq_action (rq_request (tq_approval sample_tool_request))
      \<longrightarrow> rs_effective_request resp = rq_request (tq_approval sample_tool_request)"
    by (simp add: sample_tool_response_def sample_tool_request_def)
  have plain: "\<not> routine_connector_read (tq_tool sample_tool_request)"
    by (simp add: routine_connector_read_def sample_tool_request_def)
  have risk: "approval_is_high_risk (rq_request (tq_approval sample_tool_request))"
    by (simp add: approval_is_high_risk_def sample_tool_request_def sample_tool_approval_def
        sample_request_def)
  from tools_run_only_as_approved [OF sample_tool_history admitted exact] plain
  obtain resp shown where "Decided resp shown \<in> set [Decided sample_tool_response True]"
    "rs_effective_request resp = rq_request (tq_approval sample_tool_request)"
    "approval_is_high_risk (rq_request (tq_approval sample_tool_request)) \<longrightarrow> shown"
    by (simp only: if_False) (elim exE conjE)
  with risk show ?thesis
    by (intro conjI exI [of _ resp]) simp_all
qed


definition shell_approval :: approval_request where
  "shell_approval =
     sample_request\<lparr>aq_action := ''run-shell make'', aq_risk_level := ''critical'',
       aq_data_used := [''command: make clean'']\<rparr>"

definition shell_arguments :: "string \<Rightarrow> json" where
  "shell_arguments command = JObj [(''command'', JStr command)]"


end
