(* ===== verification/Capability_Grants.thy ===== *)
theory Capability_Grants
  imports Approval_Commands
begin

text \<open>
  Standing capability grants (\<open>store/repos/capability_grant.rs\<close>): a grant allows a capability on one
  Connection in a workspace or in one of its projects, with an optional number of uses and an
  optional expiry. The rows are those of one owner in one workspace, ordered by id, as the primary
  key does; their sealed payload is a field of the row. Times are read by the crate \<open>chrono\<close>: \<open>clock\<close>
  holds its parser, which gives an instant, and the text it prints for one. The revisions of the
  Connection records are an argument of the creation.

  \<open>grants_ok\<close> is the invariant of the rows, with the unique index on active grants; every operation
  keeps it. The lemmas show what a check selects, what a use writes and, over the step relation
  \<open>grant_step\<close>, what a history of creations, uses and revocations can make of a grant.
\<close>

section \<open>Rows\<close>

definition CONSEQUENCES :: "string list" where
  "CONSEQUENCES = [''read'', ''draft'', ''write'', ''publish'', ''destructive'', ''financial'',
                   ''identity-sensitive'']"

record grant_payload =
  gp_composition :: string
  gp_approval_requirement :: string
  gp_member_id :: "string option"
  gp_project_id :: "string option"
  gp_eligible_connection_id :: string
  gp_allowed_consequence :: string

record grant_row =
  cg_owner_member_id :: "string option"
  cg_id :: string
  cg_revision :: int
  cg_capability_key :: string
  cg_connection_id :: string
  cg_connection_revision_at_grant :: int
  cg_consequence_class :: string
  cg_scope_kind :: string
  cg_scope_key :: string
  cg_project_id :: "string option"
  cg_state :: string
  cg_max_uses :: "int option"
  cg_uses_consumed :: int
  cg_expires_at :: "string option"
  cg_granted_at :: string
  cg_updated_at :: string
  cg_revoked_at :: "string option"
  cg_payload :: grant_payload

record safe_grant =
  sg_id :: string
  sg_capability_id :: string
  sg_connection_id :: string
  sg_consequence :: string
  sg_scope_kind :: string
  sg_workspace_id :: string
  sg_project_id :: "string option"
  sg_state :: string
  sg_max_uses :: "int option"
  sg_uses_consumed :: int
  sg_expires_at :: "string option"
  sg_approval_requirement :: string
  sg_revision :: int
  sg_granted_at :: string
  sg_updated_at :: string

record create_grant =
  nd_id :: string
  nd_capability_key :: string
  nd_connection_id :: string
  nd_connection_revision_at_grant :: int
  nd_consequence_class :: string
  nd_max_uses :: "int option"
  nd_expires_at :: "string option"
  nd_granted_at :: string

record grant_failure =
  gf_code :: string
  gf_message :: string

record grant_scope =
  gs_workspace_id :: string
  gs_project_id :: "string option"
  gs_member_id :: "string option"
  gs_exists :: bool

record clock =
  ck_parse :: "string \<Rightarrow> int option"
  ck_millis :: "int \<Rightarrow> string"

type_synonym grants = "(string, grant_row) table"

section \<open>Reading\<close>

definition bounded_id :: "string \<Rightarrow> string \<Rightarrow> nat \<Rightarrow> string + string" where
  "bounded_id raw label limit =
     (let v = trim raw
      in if v = [] \<or> limit < length v
            \<or> \<not> list_all (\<lambda>c. ascii_alphanumeric c \<or> c \<in> set ''._:-'') v
         then Inl (label @ '' must be 1-'' @ dec limit @ '' URL-safe characters.'')
         else Inr v)"

definition parsed_time :: "clock \<Rightarrow> string \<Rightarrow> string \<Rightarrow> string + int" where
  "parsed_time ck v label = ok_or (label @ '' must be an RFC 3339 timestamp.'') (ck_parse ck v)"

definition scope_parts :: "grant_scope \<Rightarrow> string \<times> string \<times> string option" where
  "scope_parts scope =
     (case gs_project_id scope of
        Some p \<Rightarrow> (''project'', ''project:'' @ p, Some p)
      | None \<Rightarrow> (''workspace'', ''workspace'', None))"

definition open_safe :: "grant_scope \<Rightarrow> grant_row \<Rightarrow> string + safe_grant" where
  "open_safe scope row =
     (let payload = cg_payload row
      in if gp_composition payload \<noteq> ''default-deny''
            \<or> gp_approval_requirement payload \<noteq> ''required-for-every-action''
         then Inl ''Capability grant policy is unsupported.''
         else if gp_member_id payload \<noteq> cg_owner_member_id row
                 \<or> gp_project_id payload \<noteq> cg_project_id row
                 \<or> gp_eligible_connection_id payload \<noteq> cg_connection_id row
                 \<or> gp_allowed_consequence payload \<noteq> cg_consequence_class row
         then Inl ''Capability grant payload crosses its authority columns.''
         else Inr \<lparr>sg_id = cg_id row, sg_capability_id = cg_capability_key row,
                   sg_connection_id = cg_connection_id row, sg_consequence = cg_consequence_class row,
                   sg_scope_kind = cg_scope_kind row, sg_workspace_id = gs_workspace_id scope,
                   sg_project_id = cg_project_id row, sg_state = cg_state row,
                   sg_max_uses = cg_max_uses row, sg_uses_consumed = cg_uses_consumed row,
                   sg_expires_at = cg_expires_at row,
                   sg_approval_requirement = gp_approval_requirement payload,
                   sg_revision = cg_revision row, sg_granted_at = cg_granted_at row,
                   sg_updated_at = cg_updated_at row\<rparr>)"

definition get_grant :: "grant_scope \<Rightarrow> string \<Rightarrow> grants \<Rightarrow> string + safe_grant option" where
  "get_grant scope i rows = optE (open_safe scope) (tget rows i)"

definition list_grants :: "grant_scope \<Rightarrow> grants \<Rightarrow> string + safe_grant list" where
  "list_grants scope rows = mapE (open_safe scope) (newest_first cg_updated_at (trows rows))"

section \<open>Writing\<close>

definition err_constraint :: string where
  "err_constraint = ''constraint failed''"

definition same_authority :: "grant_row \<Rightarrow> grant_row \<Rightarrow> bool" where
  "same_authority a b =
     (cg_capability_key a = cg_capability_key b \<and> cg_connection_id a = cg_connection_id b
      \<and> cg_consequence_class a = cg_consequence_class b \<and> cg_scope_key a = cg_scope_key b)"

text \<open>\<open>INSERT\<close> with the primary key and the unique index on active grants.\<close>

definition insert_grant :: "grant_row \<Rightarrow> grants \<Rightarrow> string + grants" where
  "insert_grant row rows =
     (if tget rows (cg_id row) \<noteq> None
         \<or> list_ex (\<lambda>r. cg_state r = ''active'' \<and> same_authority r row) (trows rows)
      then Inl err_constraint else Inr (tput (cg_id row) row rows))"

definition new_grant_row :: "grant_scope \<Rightarrow> create_grant \<Rightarrow> string \<Rightarrow> string \<Rightarrow> string \<Rightarrow> grant_row" where
  "new_grant_row scope draft i capability_key connection_id =
     (case scope_parts scope of (scope_kind, scope_key, project_id) \<Rightarrow>
        \<lparr>cg_owner_member_id = gs_member_id scope, cg_id = i, cg_revision = 1,
         cg_capability_key = capability_key, cg_connection_id = connection_id,
         cg_connection_revision_at_grant = nd_connection_revision_at_grant draft,
         cg_consequence_class = nd_consequence_class draft, cg_scope_kind = scope_kind,
         cg_scope_key = scope_key, cg_project_id = project_id, cg_state = ''active'',
         cg_max_uses = nd_max_uses draft, cg_uses_consumed = 0, cg_expires_at = nd_expires_at draft,
         cg_granted_at = nd_granted_at draft, cg_updated_at = nd_granted_at draft,
         cg_revoked_at = None,
         cg_payload = \<lparr>gp_composition = ''default-deny'',
                       gp_approval_requirement = ''required-for-every-action'',
                       gp_member_id = gs_member_id scope, gp_project_id = project_id,
                       gp_eligible_connection_id = connection_id,
                       gp_allowed_consequence = nd_consequence_class draft\<rparr>\<rparr>)"

text \<open>\<open>connection\<close> gives the revision of a Connection record, if there is one.\<close>

definition create_grant_op ::
    "clock \<Rightarrow> (string \<Rightarrow> int option) \<Rightarrow> grant_scope \<Rightarrow> create_grant \<Rightarrow> grants
     \<Rightarrow> string + safe_grant \<times> grants" where
  "create_grant_op ck connection scope draft rows =
     (if \<not> gs_exists scope then Inl ''Workspace is unavailable.'' else
      bindE (bounded_id (nd_id draft) ''Capability grant'' 160) (\<lambda>i.
      bindE (bounded_id (nd_capability_key draft) ''Capability'' 160) (\<lambda>capability_key.
      bindE (bounded_id (nd_connection_id draft) ''Connection'' 160) (\<lambda>connection_id.
      if nd_consequence_class draft \<notin> set CONSEQUENCES then
        Inl ''Capability consequence is unsupported.''
      else if nd_connection_revision_at_grant draft < 1 then Inl ''Connection revision is invalid.''
      else if (case nd_max_uses draft of None \<Rightarrow> False | Some v \<Rightarrow> v < 1) then
        Inl ''Capability grant use limit must be positive.''
      else
      bindE (parsed_time ck (nd_granted_at draft) ''Grant time'') (\<lambda>granted_at.
      bindE (case nd_expires_at draft of
               None \<Rightarrow> Inr ()
             | Some e \<Rightarrow> bindE (parsed_time ck e ''Grant expiry'') (\<lambda>expires.
                 if expires \<le> granted_at then
                   Inl ''Capability grant expiry must be after its grant time.''
                 else Inr ())) (\<lambda>_.
      bindE (ok_or ''Capability grant Connection is unavailable.'' (connection connection_id))
        (\<lambda>revision.
      if revision \<noteq> nd_connection_revision_at_grant draft then
        Inl ''Capability grant Connection changed before confirmation.''
      else
      bindE (insert_grant (new_grant_row scope draft i capability_key connection_id) rows) (\<lambda>rows'.
      bindE (get_grant scope (nd_id draft) rows') (\<lambda>saved.
      bindE (ok_or ''Capability grant could not be read after creation.'' saved) (\<lambda>grant.
      Inr (grant, rows')))))))))))"

section \<open>Authorisation\<close>

definition failure :: "string \<Rightarrow> string \<Rightarrow> grant_failure" where
  "failure code message = \<lparr>gf_code = code, gf_message = message\<rparr>"

definition in_scope :: "string option \<Rightarrow> safe_grant \<Rightarrow> bool" where
  "in_scope project g =
     (sg_scope_kind g = ''workspace'' \<or> sg_scope_kind g = ''project'' \<and> sg_project_id g = project)"

definition has_project_policy :: "string option \<Rightarrow> safe_grant list \<Rightarrow> bool" where
  "has_project_policy project gs =
     (project \<noteq> None \<and> list_ex (\<lambda>g. sg_scope_kind g = ''project'' \<and> sg_project_id g = project) gs)"

definition expired_at :: "clock \<Rightarrow> int \<Rightarrow> safe_grant \<Rightarrow> bool" where
  "expired_at ck now g =
     (case sg_expires_at g of
        None \<Rightarrow> False
      | Some e \<Rightarrow> (case ck_parse ck e of None \<Rightarrow> False | Some expires \<Rightarrow> expires \<le> now))"

definition exhausted :: "safe_grant \<Rightarrow> bool" where
  "exhausted g = (case sg_max_uses g of None \<Rightarrow> False | Some limit \<Rightarrow> limit \<le> sg_uses_consumed g)"

text \<open>\<open>check\<close> after it has read its time.\<close>

definition check_at ::
    "clock \<Rightarrow> grant_scope \<Rightarrow> string \<Rightarrow> string \<Rightarrow> string \<Rightarrow> int \<Rightarrow> grants
     \<Rightarrow> string + (grant_failure + safe_grant list)" where
  "check_at ck scope capability_key connection_id consequence now rows =
     bindE (list_grants scope rows) (\<lambda>all.
     let project = gs_project_id scope;
         candidates = filter (\<lambda>g. sg_capability_id g = capability_key
                                \<and> sg_connection_id g = connection_id
                                \<and> sg_consequence g = consequence) all;
         gs = filter (in_scope project) candidates;
         active = filter (\<lambda>g. sg_state g = ''active'')
                    (filter (\<lambda>g. \<not> has_project_policy project gs \<or> sg_scope_kind g = ''project'') gs)
     in if candidates = [] then
          Inr (Inl (failure ''grant-missing''
            ''This capability has no explicit grant for the selected Connection and scope.''))
        else if gs = [] then
          Inr (Inl (failure ''scope-denied''
            ''The capability grant does not include this project scope.''))
        else if active = [] \<or> list_ex (expired_at ck now) active then
          Inr (Inl (failure ''grant-expired-or-revoked''
            ''The matching capability grant is expired, suspended, or revoked.''))
        else if list_ex exhausted active then
          Inr (Inl (failure ''budget-exhausted''
            ''The matching capability grant has reached its use limit.''))
        else Inr (Inr active))"

definition check_grant ::
    "clock \<Rightarrow> grant_scope \<Rightarrow> string \<Rightarrow> string \<Rightarrow> string \<Rightarrow> string \<Rightarrow> grants
     \<Rightarrow> string + (grant_failure + safe_grant list)" where
  "check_grant ck scope capability_key connection_id consequence now rows =
     bindE (parsed_time ck now ''Capability check time'') (\<lambda>t.
     check_at ck scope capability_key connection_id consequence t rows)"

text \<open>The guarded \<open>UPDATE\<close> of one use; \<open>None\<close> when it changed no row.\<close>

definition use_grant :: "string \<Rightarrow> safe_grant \<Rightarrow> grants \<Rightarrow> grants option" where
  "use_grant at g rows =
     (case tget rows (sg_id g) of
        None \<Rightarrow> None
      | Some r \<Rightarrow>
          if cg_revision r = sg_revision g \<and> cg_state r = ''active''
             \<and> (case cg_max_uses r of None \<Rightarrow> True | Some limit \<Rightarrow> cg_uses_consumed r < limit)
          then Some (tput (sg_id g)
                 (r\<lparr>cg_uses_consumed := cg_uses_consumed r + 1, cg_revision := cg_revision r + 1,
                    cg_updated_at := at\<rparr>) rows)
          else None)"

fun use_all :: "string \<Rightarrow> safe_grant list \<Rightarrow> grants \<Rightarrow> bool \<times> grants" where
  "use_all at [] rows = (True, rows)"
| "use_all at (g # gs) rows =
     (case use_grant at g rows of
        None \<Rightarrow> (False, rows)
      | Some rows' \<Rightarrow> use_all at gs rows')"

definition read_back :: "grant_scope \<Rightarrow> grants \<Rightarrow> safe_grant \<Rightarrow> string + safe_grant" where
  "read_back scope rows g =
     bindE (get_grant scope (sg_id g) rows) (\<lambda>saved.
     ok_or ''Capability grant disappeared during use.'' saved)"

text \<open>A failure that the caller reports ends the transaction with a commit, so the rows are part of
  both outcomes.\<close>

definition authorize_and_consume ::
    "clock \<Rightarrow> grant_scope \<Rightarrow> string \<Rightarrow> string \<Rightarrow> string \<Rightarrow> string \<Rightarrow> grants
     \<Rightarrow> string + (grant_failure + safe_grant list) \<times> grants" where
  "authorize_and_consume ck scope capability_key connection_id consequence now rows =
     bindE (parsed_time ck now ''Capability use time'') (\<lambda>t.
     bindE (check_at ck scope capability_key connection_id consequence t rows) (\<lambda>verdict.
     case verdict of
       Inl f \<Rightarrow> Inr (Inl f, rows)
     | Inr gs \<Rightarrow>
         (case use_all (ck_millis ck t) gs rows of
            (False, rows') \<Rightarrow>
              Inr (Inl (failure ''budget-exhausted''
                ''Capability grant authority changed before execution.''), rows')
          | (True, rows') \<Rightarrow>
              bindE (mapE (read_back scope rows') gs) (\<lambda>consumed.
              Inr (Inr consumed, rows')))))"

definition authorize_and_consume_exact ::
    "clock \<Rightarrow> grant_scope \<Rightarrow> string \<Rightarrow> string \<Rightarrow> string \<Rightarrow> string \<Rightarrow> string \<Rightarrow> grants
     \<Rightarrow> string + (grant_failure + safe_grant) \<times> grants" where
  "authorize_and_consume_exact ck scope grant_id capability_key connection_id consequence now rows =
     bindE (parsed_time ck now ''Capability use time'') (\<lambda>t.
     bindE (check_at ck scope capability_key connection_id consequence t rows) (\<lambda>verdict.
     case verdict of
       Inl f \<Rightarrow> Inr (Inl f, rows)
     | Inr gs \<Rightarrow>
         (case find (\<lambda>g. sg_id g = grant_id) gs of
            None \<Rightarrow>
              Inr (Inl (failure ''grant-missing''
                ''The worker's exact capability grant is not active for this Connection and scope.''),
                rows)
          | Some g \<Rightarrow>
              (case use_grant (ck_millis ck t) g rows of
                 None \<Rightarrow>
                   Inr (Inl (failure ''budget-exhausted''
                     ''The worker's capability grant changed before execution.''), rows)
               | Some rows' \<Rightarrow> bindE (read_back scope rows' g) (\<lambda>saved. Inr (Inr saved, rows'))))))"

definition revoke_grant ::
    "clock \<Rightarrow> grant_scope \<Rightarrow> string \<Rightarrow> int \<Rightarrow> string \<Rightarrow> grants \<Rightarrow> string + safe_grant \<times> grants" where
  "revoke_grant ck scope i expected_revision now rows =
     bindE (parsed_time ck now ''Revocation time'') (\<lambda>_.
     case tget rows i of
       None \<Rightarrow> Inl ''Capability grant changed before revocation.''
     | Some r \<Rightarrow>
         if cg_revision r \<noteq> expected_revision \<or> cg_state r \<noteq> ''active'' then
           Inl ''Capability grant changed before revocation.''
         else
           let rows' = tput i (r\<lparr>cg_state := ''revoked'', cg_revoked_at := Some now,
                                cg_updated_at := now, cg_revision := cg_revision r + 1\<rparr>) rows
           in bindE (get_grant scope i rows') (\<lambda>saved.
              bindE (ok_or ''Capability grant disappeared after revocation.'' saved) (\<lambda>grant.
              Inr (grant, rows'))))"
section \<open>Well-formed grants\<close>

text \<open>What the constraints of the table and its writers guarantee of a row and of the rows.\<close>

definition row_ok :: "grant_row \<Rightarrow> bool" where
  "row_ok r =
     (0 \<le> cg_uses_consumed r
      \<and> (case cg_max_uses r of None \<Rightarrow> True | Some limit \<Rightarrow> cg_uses_consumed r \<le> limit)
      \<and> (cg_scope_kind r = ''workspace'' \<and> cg_scope_key r = ''workspace'' \<and> cg_project_id r = None
         \<or> (\<exists>p. cg_scope_kind r = ''project'' \<and> cg_scope_key r = ''project:'' @ p
                \<and> cg_project_id r = Some p))
      \<and> (cg_state r = ''active'' \<or> cg_state r = ''revoked'') \<and> trim (cg_id r) = cg_id r)"

definition grants_ok :: "grants \<Rightarrow> bool" where
  "grants_ok rows =
     (tinv rows \<and> (\<forall>i r. tget rows i = Some r \<longrightarrow> cg_id r = i \<and> row_ok r)
      \<and> (\<forall>i r j q. tget rows i = Some r \<longrightarrow> tget rows j = Some q
           \<longrightarrow> cg_state r = ''active'' \<longrightarrow> cg_state q = ''active'' \<longrightarrow> same_authority r q \<longrightarrow> i = j))"

lemma grants_okD:
  assumes "grants_ok rows"
  shows "tinv rows" "tget rows i = Some r \<Longrightarrow> cg_id r = i" "tget rows i = Some r \<Longrightarrow> row_ok r"
    "tget rows i = Some r \<Longrightarrow> tget rows j = Some q \<Longrightarrow> cg_state r = ''active'' \<Longrightarrow>
       cg_state q = ''active'' \<Longrightarrow> same_authority r q \<Longrightarrow> i = j"
  using assms unfolding grants_ok_def by blast+

lemma new_row_ok:
  assumes "\<not> (case nd_max_uses draft of None \<Rightarrow> False | Some v \<Rightarrow> v < 1)" "trim i = i"
  shows "row_ok (new_grant_row scope draft i c n)" "cg_id (new_grant_row scope draft i c n) = i"
  using assms
  by (auto simp: new_grant_row_def scope_parts_def row_ok_def split: option.splits)

lemma insert_ok:
  assumes "grants_ok rows" "insert_grant row rows = Inr rows'" "row_ok row"
  shows "grants_ok rows'" "rows' = tput (cg_id row) row rows" "tget rows (cg_id row) = None"
proof -
  have free: "tget rows (cg_id row) = None"
    and alone: "\<And>r. r \<in> set (trows rows) \<Longrightarrow> cg_state r = ''active'' \<Longrightarrow> \<not> same_authority r row"
    and rows': "rows' = tput (cg_id row) row rows"
    using assms(2) by (auto simp: insert_grant_def list_ex_iff split: if_splits)
  have sym: "same_authority a b \<Longrightarrow> same_authority b a" for a b
    by (simp add: same_authority_def)
  note ok = grants_okD [OF assms(1)]
  have old: "\<not> same_authority r row" if "tget rows i = Some r" "cg_state r = ''active''" for i r
    using alone tget_trows [OF ok(1)] that by blast
  show "grants_ok rows'"
    unfolding grants_ok_def rows'
  proof (intro conjI allI impI)
    show "tinv (tput (cg_id row) row rows)"
      using ok(1) by (rule tinv_tput)
  next
    fix i r assume "tget (tput (cg_id row) row rows) i = Some r"
    then show "cg_id r = i" "row_ok r"
      using ok(2,3) assms(3) by (auto simp: tget_tput split: if_splits)
  next
    fix i r j q
    assume "tget (tput (cg_id row) row rows) i = Some r" "tget (tput (cg_id row) row rows) j = Some q"
      "cg_state r = ''active''" "cg_state q = ''active''" "same_authority r q"
    then show "i = j"
      using ok(4) [of i r j q] old [of i r] old [of j q] sym [of r q]
      by (auto simp: tget_tput split: if_splits)
  qed
  show "rows' = tput (cg_id row) row rows" "tget rows (cg_id row) = None"
    using rows' free by simp_all
qed

text \<open>A write to one row that keeps its authority and does not make it active.\<close>

lemma update_ok:
  assumes "grants_ok rows" "tget rows i = Some r" "cg_id r' = i" "row_ok r'"
    "same_authority r' r" "cg_state r' = ''active'' \<Longrightarrow> cg_state r = ''active''"
  shows "grants_ok (tput i r' rows)"
  unfolding grants_ok_def
proof (intro conjI allI impI)
  note ok = grants_okD [OF assms(1)]
  show "tinv (tput i r' rows)"
    using ok(1) by (rule tinv_tput)
  fix k q assume q: "tget (tput i r' rows) k = Some q"
  then show "cg_id q = k" "row_ok q"
    using ok(2,3) assms(3,4) by (auto simp: tget_tput split: if_splits)
  fix j p
  assume p: "tget (tput i r' rows) j = Some p"
    and live: "cg_state q = ''active''" "cg_state p = ''active''" and same: "same_authority q p"
  have older: "\<exists>x. tget rows k = Some x \<and> cg_state x = ''active'' \<and> same_authority x q"
    if "tget (tput i r' rows) k = Some q" "cg_state q = ''active''" for k q
    using that assms(2,5,6) by (auto simp: tget_tput same_authority_def split: if_splits)
  obtain x y where "tget rows k = Some x" "cg_state x = ''active''" "same_authority x q"
    "tget rows j = Some y" "cg_state y = ''active''" "same_authority y p"
    using older [OF q live(1)] older [OF p live(2)] by blast
  then show "k = j"
    using ok(4) [of k x j y] same by (simp add: same_authority_def)
qed

section \<open>What an authorised use is\<close>

lemma opened:
  assumes "open_safe scope r = Inr g"
  shows "sg_id g = cg_id r" "sg_capability_id g = cg_capability_key r"
    "sg_connection_id g = cg_connection_id r" "sg_consequence g = cg_consequence_class r"
    "sg_scope_kind g = cg_scope_kind r" "sg_project_id g = cg_project_id r" "sg_state g = cg_state r"
    "sg_max_uses g = cg_max_uses r" "sg_uses_consumed g = cg_uses_consumed r"
    "sg_expires_at g = cg_expires_at r" "sg_revision g = cg_revision r"
  using assms by (auto simp: open_safe_def Let_def split: if_splits)

lemma listed:
  assumes "grants_ok rows" "list_grants scope rows = Inr all"
  shows "g \<in> set all \<Longrightarrow> \<exists>r. tget rows (sg_id g) = Some r \<and> open_safe scope r = Inr g"
    and "distinct (map sg_id all)"
proof -
  note ok = grants_okD [OF assms(1)]
  let ?sorted = "newest_first cg_updated_at (trows rows)"
  have rel: "list_all2 (\<lambda>r g. open_safe scope r = Inr g) ?sorted all"
    using assms(2) by (simp add: list_grants_def mapE_Inr)
  show "\<exists>r. tget rows (sg_id g) = Some r \<and> open_safe scope r = Inr g" if "g \<in> set all"
  proof -
    note mem = that
    obtain r where r: "r \<in> set ?sorted" "open_safe scope r = Inr g"
      using mapE_member [OF assms(2) [unfolded list_grants_def] mem] by blast
    then obtain i where "tget rows i = Some r"
      using trows_iff [OF ok(1)] by auto
    then show ?thesis
      using r(2) opened(1) [OF r(2)] ok(2) by auto
  qed
  have "map sg_id all = map cg_id ?sorted"
    using rel by (induction rule: list_all2_induct) (simp_all add: opened(1))
  moreover have "distinct (map cg_id ?sorted)"
  proof -
    have "map cg_id (trows rows) = map fst rows"
      unfolding trows_def map_map
    proof (rule map_cong [OF refl])
      fix x assume "x \<in> set rows"
      then have "tget rows (fst x) = Some (snd x)"
        using store_table.entries_get [OF ok(1), of "fst x" "snd x"] by simp
      then show "(cg_id \<circ> snd) x = fst x"
        using ok(2) by simp
    qed
    moreover have "distinct (map fst rows)"
      using ok(1) by (simp add: tinv_def strict_sorted_iff)
    ultimately have "distinct (map cg_id (trows rows))" by simp
    then have "distinct (trows rows)" "inj_on cg_id (set (trows rows))"
      by (simp_all add: distinct_map)
    then show ?thesis
      by (simp add: newest_first_def distinct_map rev_map [symmetric])
  qed
  ultimately show "distinct (map sg_id all)" by simp
qed

text \<open>The verdict of a check: exactly one grant, active, unexpired and with a use left.\<close>

lemma check_selects_one:
  assumes "grants_ok rows"
    and "check_at ck scope capability connection consequence now rows = Inr (Inr gs)"
  obtains g r where "gs = [g]" "tget rows (sg_id g) = Some r" "open_safe scope r = Inr g"
    "cg_state r = ''active''" "cg_capability_key r = capability" "cg_connection_id r = connection"
    "cg_consequence_class r = consequence" "\<not> expired_at ck now g" "\<not> exhausted g"
    "cg_project_id r = None \<or> cg_project_id r = gs_project_id scope"
proof -
  note ok = grants_okD [OF assms(1)]
  obtain all where all: "list_grants scope rows = Inr all"
    using assms(2) by (auto simp: check_at_def bindE_Inr)
  let ?p = "gs_project_id scope"
  define cand where "cand = filter (\<lambda>g. sg_capability_id g = capability \<and> sg_connection_id g = connection
    \<and> sg_consequence g = consequence) all"
  define inside where "inside = filter (in_scope ?p) cand"
  define policy where "policy = has_project_policy ?p inside"
  have gs: "gs = filter (\<lambda>g. sg_state g = ''active'')
      (filter (\<lambda>g. \<not> policy \<or> sg_scope_kind g = ''project'') inside)"
    and live: "gs \<noteq> []" "\<not> list_ex (expired_at ck now) gs" "\<not> list_ex exhausted gs"
    using assms(2) unfolding check_at_def all bindE_simps Let_def cand_def [symmetric]
      inside_def [symmetric] policy_def [symmetric]
    by (auto split: if_splits)
  have row: "\<exists>r. tget rows (sg_id g) = Some r \<and> open_safe scope r = Inr g
      \<and> cg_state r = ''active'' \<and> cg_capability_key r = capability \<and> cg_connection_id r = connection
      \<and> cg_consequence_class r = consequence
      \<and> (cg_project_id r = None \<or> cg_project_id r = ?p)
      \<and> cg_scope_key r = (if policy then ''project:'' @ the ?p else ''workspace'')"
    if g: "g \<in> set gs" for g
  proof -
    have mem: "g \<in> set all" "g \<in> set inside" "in_scope ?p g" "sg_state g = ''active''"
      "sg_capability_id g = capability" "sg_connection_id g = connection" "sg_consequence g = consequence"
      "\<not> policy \<or> sg_scope_kind g = ''project''"
      using g unfolding gs inside_def cand_def by auto
    obtain r where r: "tget rows (sg_id g) = Some r" "open_safe scope r = Inr g"
      using listed(1) [OF assms(1) all mem(1)] by blast
    note o = opened [OF r(2)]
    have kinds: "cg_scope_kind r = ''workspace'' \<and> cg_scope_key r = ''workspace'' \<and> cg_project_id r = None
        \<or> (\<exists>p. cg_scope_kind r = ''project'' \<and> cg_scope_key r = ''project:'' @ p \<and> cg_project_id r = Some p)"
      using ok(3) [OF r(1)] by (simp add: row_ok_def)
    have "policy" if "cg_scope_kind r = ''project''"
    proof -
      have "sg_scope_kind g = ''project''" "sg_project_id g = ?p" "?p \<noteq> None"
        using that mem(3) kinds o by (auto simp: in_scope_def)
      then show ?thesis
        using mem(2) by (auto simp: policy_def has_project_policy_def list_ex_iff)
    qed
    then show ?thesis
      using r o mem kinds
      by (auto simp: in_scope_def dest!: sym [of "Some _" "gs_project_id scope"])
  qed
  obtain g rest where split: "gs = g # rest"
    using live(1) by (cases gs) auto
  have "rest = []"
  proof (rule ccontr)
    assume "rest \<noteq> []"
    then obtain h rest' where h: "rest = h # rest'" by (cases rest) auto
    obtain r q where "tget rows (sg_id g) = Some r" "tget rows (sg_id h) = Some q"
      "cg_state r = ''active''" "cg_state q = ''active''" "same_authority r q"
      using row [of g] row [of h] split h by (auto simp: same_authority_def)
    then have "sg_id g = sg_id h"
      by (rule ok(4))
    moreover have "distinct (map sg_id gs)"
      unfolding gs inside_def cand_def by (intro distinct_map_filter listed(2) [OF assms(1) all])
    ultimately show False
      using split h by simp
  qed
  moreover obtain r where "tget rows (sg_id g) = Some r" "open_safe scope r = Inr g"
    "cg_state r = ''active''" "cg_capability_key r = capability" "cg_connection_id r = connection"
    "cg_consequence_class r = consequence" "cg_project_id r = None \<or> cg_project_id r = ?p"
    using row [of g] split by auto
  ultimately show thesis
    using split live that [of g r] by simp
qed

lemma use_all_one:
  "use_all at [g] rows = (case use_grant at g rows of None \<Rightarrow> (False, rows) | Some rows' \<Rightarrow> (True, rows'))"
  by (simp split: option.splits)

lemma use_grant_ok:
  assumes "grants_ok rows" "use_grant at g rows = Some rows'"
  obtains r where "tget rows (sg_id g) = Some r" "cg_state r = ''active''"
    "case cg_max_uses r of None \<Rightarrow> True | Some limit \<Rightarrow> cg_uses_consumed r < limit"
    "rows' = tput (sg_id g) (r\<lparr>cg_uses_consumed := cg_uses_consumed r + 1,
                               cg_revision := cg_revision r + 1, cg_updated_at := at\<rparr>) rows"
    "grants_ok rows'"
proof -
  obtain r where r: "tget rows (sg_id g) = Some r" "cg_state r = ''active''"
    "case cg_max_uses r of None \<Rightarrow> True | Some limit \<Rightarrow> cg_uses_consumed r < limit"
    "rows' = tput (sg_id g) (r\<lparr>cg_uses_consumed := cg_uses_consumed r + 1,
                               cg_revision := cg_revision r + 1, cg_updated_at := at\<rparr>) rows"
    using assms(2) by (auto simp: use_grant_def split: option.splits if_splits)
  note ok = grants_okD [OF assms(1)]
  have "row_ok (r\<lparr>cg_uses_consumed := cg_uses_consumed r + 1, cg_revision := cg_revision r + 1,
      cg_updated_at := at\<rparr>)"
    using ok(3) [OF r(1)] r(3) by (auto simp: row_ok_def split: option.splits)
  then have "grants_ok rows'"
    unfolding r(4) using ok(2) [OF r(1)] r(2)
    by (intro update_ok [OF assms(1) r(1)]) (simp_all add: same_authority_def)
  with r that show thesis by blast
qed

text \<open>What a created grant is.\<close>

lemma bounded_id_trims: "bounded_id raw label limit = Inr v \<Longrightarrow> v = trim raw"
  by (auto simp: bounded_id_def Let_def split: if_splits)

lemma create_grant_ok:
  assumes "grants_ok rows" "create_grant_op ck connection scope draft rows = Inr (g, rows')"
  obtains r where "r = new_grant_row scope draft (sg_id g) (trim (nd_capability_key draft))
                         (trim (nd_connection_id draft))"
    "tget rows (sg_id g) = None" "rows' = tput (sg_id g) r rows" "grants_ok rows'"
    "open_safe scope r = Inr g" "connection (cg_connection_id r) = Some (nd_connection_revision_at_grant draft)"
    "\<not> list_ex (\<lambda>q. cg_state q = ''active'' \<and> same_authority q r) (trows rows)"
proof -
  let ?i = "trim (nd_id draft)"
  let ?r = "new_grant_row scope draft ?i (trim (nd_capability_key draft)) (trim (nd_connection_id draft))"
  have steps: "\<not> (case nd_max_uses draft of None \<Rightarrow> False | Some v \<Rightarrow> v < 1)"
    "connection (trim (nd_connection_id draft)) = Some (nd_connection_revision_at_grant draft)"
    "insert_grant ?r rows = Inr rows'" "get_grant scope (nd_id draft) rows' = Inr (Some g)"
    using assms(2)
    by (auto simp: create_grant_op_def bindE_Inr ok_or_Inr dest!: bounded_id_trims split: if_splits)
  note row = new_row_ok [OF steps(1) trim_trim, of scope "nd_id draft"]
  have ins: "grants_ok rows'" "rows' = tput ?i ?r rows" "tget rows ?i = None"
    using insert_ok [OF assms(1) steps(3) row(1)] row(2) by simp_all
  obtain q where q: "tget rows' (nd_id draft) = Some q" "open_safe scope q = Inr g"
    using steps(4) by (auto simp: get_grant_def optE_def bindE_Inr split: option.splits)
  have found: "cg_id q = nd_id draft"
    by (rule grants_okD(2) [OF ins(1) q(1)])
  then have same: "nd_id draft = ?i"
    using grants_okD(3) [OF ins(1) q(1)] by (simp add: row_ok_def)
  have "tget rows' ?i = Some ?r"
    by (simp add: ins(2) tget_tput)
  with q(1) same have q_is: "q = ?r" "sg_id g = ?i"
    using found opened(1) [OF q(2)] by simp_all
  have "cg_connection_id ?r = trim (nd_connection_id draft)"
    by (simp add: new_grant_row_def split: prod.splits)
  then show thesis
    using that [of ?r] steps(2,3) ins q q_is by (auto simp: insert_grant_def row(2) split: if_splits)
qed

lemma authorized_use:
  assumes "grants_ok rows"
    and "authorize_and_consume ck scope capability connection consequence now rows
         = Inr (Inr consumed, rows')"
  obtains g r t where "ck_parse ck now = Some t"
    "check_at ck scope capability connection consequence t rows = Inr (Inr [g])"
    "tget rows (sg_id g) = Some r" "open_safe scope r = Inr g" "map sg_id consumed = [sg_id g]"
    "use_grant (ck_millis ck t) g rows = Some rows'"
proof -
  obtain t verdict0 where time: "ck_parse ck now = Some t"
    and check: "check_at ck scope capability connection consequence t rows = Inr verdict0"
    using assms(2) by (auto simp: authorize_and_consume_def parsed_time_def bindE_Inr ok_or_Inr)
  obtain gs where gs: "check_at ck scope capability connection consequence t rows = Inr (Inr gs)"
    using assms(2) time check
    by (cases verdict0) (auto simp: authorize_and_consume_def parsed_time_def)
  then obtain g r where one: "gs = [g]" "tget rows (sg_id g) = Some r" "open_safe scope r = Inr g"
    by (rule check_selects_one [OF assms(1)])
  obtain h where used: "use_grant (ck_millis ck t) g rows = Some rows'"
    and h: "consumed = [h]" "read_back scope rows' g = Inr h"
    using assms(2) gs one(1) time
    by (auto simp: authorize_and_consume_def parsed_time_def use_all_one bindE_Inr
             simp del: use_all.simps split: option.splits)
  have ok: "grants_ok rows'"
    using used by (rule use_grant_ok [OF assms(1)])
  obtain q where q: "tget rows' (sg_id g) = Some q" "open_safe scope q = Inr h"
    using h(2) by (auto simp: read_back_def get_grant_def optE_def bindE_Inr ok_or_Inr split: option.splits)
  have "sg_id h = sg_id g"
    using opened(1) [OF q(2)] grants_okD(2) [OF ok q(1)] by simp
  then show thesis
    using that [of t g r] time gs one used h(1) by simp
qed

lemma exact_names_grant:
  assumes "authorize_and_consume_exact ck scope i capability connection consequence now rows
           = Inr (Inr saved, rows')"
  shows "\<exists>g at. use_grant at g rows = Some rows' \<and> sg_id g = i"
  using assms unfolding authorize_and_consume_exact_def
  by (elim bindE_elim) (auto simp: bindE_Inr find_Some_iff split: sum.splits option.splits)

lemma refused_use:
  assumes "grants_ok rows"
    and "authorize_and_consume ck scope capability connection consequence now rows
         = Inr (Inl f, rows')"
  shows "rows' = rows"
proof -
  obtain t verdict0 where run: "parsed_time ck now ''Capability use time'' = Inr t"
    "check_at ck scope capability connection consequence t rows = Inr verdict0"
    using assms(2) unfolding authorize_and_consume_def by (elim bindE_elim)
  show ?thesis
  proof (cases verdict0)
    case (Inr gs)
    then have "check_at ck scope capability connection consequence t rows = Inr (Inr gs)"
      using run(2) by simp
    then obtain g where "gs = [g]"
      by (rule check_selects_one [OF assms(1)])
    then show ?thesis
      using assms(2) run Inr
      by (auto simp: authorize_and_consume_def use_all_one bindE_Inr simp del: use_all.simps
               split: option.splits)
  qed (use assms(2) run in \<open>simp add: authorize_and_consume_def\<close>)
qed

text \<open>C8. An authorised use of a capability spends exactly one use of exactly one grant. The grant is
  active and unexpired, it is for this capability, this Connection and this consequence, in the
  whole workspace or in the project of the caller, and a use of it was left; its count of uses goes
  up by one and stays within its limit, its revision goes up by one, every other grant stays as it
  is and the grants stay well-formed. A refused use changes nothing.\<close>

theorem use_spends_one_grant:
  assumes "grants_ok rows"
    and "authorize_and_consume ck scope capability connection consequence now rows
         = Inr (verdict, rows')"
  shows "grants_ok rows'
    \<and> (case verdict of
        Inl _ \<Rightarrow> rows' = rows
      | Inr consumed \<Rightarrow>
          \<exists>i r r' t. map sg_id consumed = [i] \<and> tget rows i = Some r \<and> rows' = tput i r' rows
            \<and> cg_state r = ''active'' \<and> cg_capability_key r = capability
            \<and> cg_connection_id r = connection \<and> cg_consequence_class r = consequence
            \<and> (cg_project_id r = None \<or> cg_project_id r = gs_project_id scope)
            \<and> ck_parse ck now = Some t
            \<and> (\<forall>e expires. cg_expires_at r = Some e \<longrightarrow> ck_parse ck e = Some expires \<longrightarrow> t < expires)
            \<and> r' = r\<lparr>cg_uses_consumed := cg_uses_consumed r + 1, cg_revision := cg_revision r + 1,
                     cg_updated_at := ck_millis ck t\<rparr>
            \<and> (\<forall>limit. cg_max_uses r = Some limit \<longrightarrow> cg_uses_consumed r' \<le> limit))"
proof (cases verdict)
  case (Inl f)
  with assms(2) have "rows' = rows"
    by (intro refused_use [OF assms(1)]) simp
  then show ?thesis
    using assms(1) Inl by simp
next
  case (Inr consumed)
  obtain g r t where use: "ck_parse ck now = Some t"
    "check_at ck scope capability connection consequence t rows = Inr (Inr [g])"
    "tget rows (sg_id g) = Some r" "open_safe scope r = Inr g" "map sg_id consumed = [sg_id g]"
    "use_grant (ck_millis ck t) g rows = Some rows'"
    by (rule authorized_use [OF assms(1) assms(2) [unfolded Inr]])
  let ?r = "r\<lparr>cg_uses_consumed := cg_uses_consumed r + 1, cg_revision := cg_revision r + 1,
    cg_updated_at := ck_millis ck t\<rparr>"
  obtain h q where h: "[g] = [h]" "tget rows (sg_id h) = Some q"
    and q: "cg_state q = ''active''" "cg_capability_key q = capability" "cg_connection_id q = connection"
      "cg_consequence_class q = consequence" "cg_project_id q = None \<or> cg_project_id q = gs_project_id scope"
      "\<not> expired_at ck t h"
    by (rule check_selects_one [OF assms(1) use(2)])
  then have "h = g" "q = r"
    using use(3) by simp_all
  note sel = q [unfolded this]
  have early: "\<forall>e expires. cg_expires_at r = Some e \<longrightarrow> ck_parse ck e = Some expires \<longrightarrow> t < expires"
    using sel(6) opened(10) [OF use(4)] by (auto simp: expired_at_def)
  have put: "rows' = tput (sg_id g) ?r rows" "grants_ok rows'"
    and bound: "\<forall>limit. cg_max_uses r = Some limit \<longrightarrow> cg_uses_consumed ?r \<le> limit"
    using use(3) by (auto intro: use_grant_ok [OF assms(1) use(6)])
  show ?thesis
    unfolding Inr sum.case
    using put(2) use(5,3) put(1) sel(1-5) use(1) early bound
    by (intro conjI exI [of _ "sg_id g"] exI [of _ r] exI [of _ ?r] exI [of _ t])
       (assumption | rule refl)+
qed

section \<open>Histories of grants\<close>

lemma revoke_grant_ok:
  assumes "grants_ok rows" "revoke_grant ck scope i revision now rows = Inr (g, rows')"
  obtains r where "tget rows i = Some r" "cg_state r = ''active''" "cg_revision r = revision"
    "rows' = tput i (r\<lparr>cg_state := ''revoked'', cg_revoked_at := Some now, cg_updated_at := now,
                       cg_revision := cg_revision r + 1\<rparr>) rows" "grants_ok rows'"
proof -
  obtain r where r: "tget rows i = Some r" "cg_state r = ''active''" "cg_revision r = revision"
    "rows' = tput i (r\<lparr>cg_state := ''revoked'', cg_revoked_at := Some now, cg_updated_at := now,
                       cg_revision := cg_revision r + 1\<rparr>) rows"
    using assms(2) by (auto simp: revoke_grant_def bindE_Inr Let_def split: option.splits if_splits)
  note ok = grants_okD [OF assms(1)]
  have "grants_ok rows'"
    unfolding r(4) using ok(2,3) [OF r(1)] r(2)
    by (intro update_ok [OF assms(1) r(1)]) (simp_all add: same_authority_def row_ok_def split: option.splits)
  with r that show thesis by blast
qed

inductive grant_step :: "grants \<Rightarrow> grants \<Rightarrow> bool" where
  created: "create_grant_op ck connection scope draft rows = Inr (g, rows') \<Longrightarrow> grant_step rows rows'"
| used: "authorize_and_consume ck scope capability connection consequence now rows
          = Inr (verdict, rows') \<Longrightarrow> grant_step rows rows'"
| used_exactly: "authorize_and_consume_exact ck scope i capability connection consequence now rows
          = Inr (verdict, rows') \<Longrightarrow> grant_step rows rows'"
| revoked: "revoke_grant ck scope i revision now rows = Inr (g, rows') \<Longrightarrow> grant_step rows rows'"

lemma use_all_or_none:
  assumes "grants_ok rows"
    and "authorize_and_consume ck scope capability connection consequence now rows
         = Inr (verdict, rows')"
  shows "rows' = rows \<or> (\<exists>g at. use_grant at g rows = Some rows')"
proof (cases verdict)
  case (Inl f)
  then show ?thesis
    using refused_use [OF assms(1)] assms(2) by simp
next
  case (Inr consumed)
  with assms(2) have "authorize_and_consume ck scope capability connection consequence now rows
      = Inr (Inr consumed, rows')" by simp
  then show ?thesis
    by (rule authorized_use [OF assms(1)]) blast
qed

lemma exact_use:
  assumes "authorize_and_consume_exact ck scope i capability connection consequence now rows
           = Inr (verdict, rows')"
  shows "rows' = rows \<or> (\<exists>g at. use_grant at g rows = Some rows')"
  using assms unfolding authorize_and_consume_exact_def
  by (elim bindE_elim) (auto simp: bindE_Inr split: sum.splits option.splits)

text \<open>A step writes at most one row: a new one, or an active one that keeps its limits and takes back
  no use.\<close>

definition one_write :: "grants \<Rightarrow> grants \<Rightarrow> bool" where
  "one_write rows rows' =
     (rows' = rows \<or> (\<exists>i r. rows' = tput i r rows
        \<and> (\<forall>q. tget rows i = Some q \<longrightarrow> cg_state q = ''active'' \<and> cg_uses_consumed q \<le> cg_uses_consumed r
             \<and> cg_max_uses r = cg_max_uses q \<and> cg_expires_at r = cg_expires_at q)))"

lemma one_writeI:
  assumes "rows' = tput i r rows"
    and "\<And>q. tget rows i = Some q \<Longrightarrow> cg_state q = ''active'' \<and> cg_uses_consumed q \<le> cg_uses_consumed r
           \<and> cg_max_uses r = cg_max_uses q \<and> cg_expires_at r = cg_expires_at q"
  shows "one_write rows rows'"
  unfolding one_write_def using assms by (intro disjI2 exI [of _ i] exI [of _ r]) simp

lemma use_writes_one:
  assumes "grants_ok rows" "rows' = rows \<or> (\<exists>g at. use_grant at g rows = Some rows')"
  shows "grants_ok rows' \<and> one_write rows rows'"
  using assms(2)
proof (elim disjE exE)
  fix g at assume "use_grant at g rows = Some rows'"
  then show ?thesis
  proof (rule use_grant_ok [OF assms(1)])
    fix r assume r: "tget rows (sg_id g) = Some r" "cg_state r = ''active''" "grants_ok rows'"
      "rows' = tput (sg_id g) (r\<lparr>cg_uses_consumed := cg_uses_consumed r + 1,
                                 cg_revision := cg_revision r + 1, cg_updated_at := at\<rparr>) rows"
    then show ?thesis
      by (intro conjI one_writeI [OF r(4)]) simp_all
  qed
qed (use assms(1) in \<open>simp add: one_write_def\<close>)

lemma step_writes_one:
  assumes "grants_ok rows" "grant_step rows rows'"
  shows "grants_ok rows' \<and> one_write rows rows'"
  using assms(2)
proof cases
  case (created ck connection scope draft g)
  show ?thesis
  proof (rule create_grant_ok [OF assms(1) created])
    fix r assume r: "tget rows (sg_id g) = None" "rows' = tput (sg_id g) r rows" "grants_ok rows'"
    then show ?thesis
      by (intro conjI one_writeI [OF r(2)]) simp_all
  qed
next
  case (revoked ck scope i revision now g)
  show ?thesis
  proof (rule revoke_grant_ok [OF assms(1) revoked])
    fix r assume r: "tget rows i = Some r" "cg_state r = ''active''" "grants_ok rows'"
      "rows' = tput i (r\<lparr>cg_state := ''revoked'', cg_revoked_at := Some now, cg_updated_at := now,
                         cg_revision := cg_revision r + 1\<rparr>) rows"
    then show ?thesis
      by (intro conjI one_writeI [OF r(4)]) simp_all
  qed
next
  case (used ck scope capability connection consequence now verdict)
  show ?thesis
    using assms(1) use_all_or_none [OF assms(1) used] by (rule use_writes_one)
next
  case (used_exactly ck scope i capability connection consequence now verdict)
  show ?thesis
    using assms(1) exact_use [OF used_exactly] by (rule use_writes_one)
qed

definition later_row :: "grant_row \<Rightarrow> grant_row \<Rightarrow> bool" where
  "later_row r q =
     ((cg_state r \<noteq> ''active'' \<longrightarrow> q = r) \<and> cg_uses_consumed r \<le> cg_uses_consumed q
      \<and> cg_max_uses q = cg_max_uses r \<and> cg_expires_at q = cg_expires_at r)"

lemma later_row_trans: "later_row a b \<Longrightarrow> later_row b c \<Longrightarrow> later_row a c"
  by (auto simp: later_row_def)

lemma one_write_later:
  assumes "one_write rows rows'" "tget rows i = Some r"
  obtains q where "tget rows' i = Some q" "later_row r q"
  using assms by (fastforce simp: one_write_def later_row_def tget_tput split: if_splits)

lemma history_invariant:
  assumes "grant_step\<^sup>*\<^sup>* rows rows'" "grants_ok rows"
  shows "grants_ok rows' \<and> (\<forall>i r. tget rows i = Some r \<longrightarrow> (\<exists>q. tget rows' i = Some q \<and> later_row r q))"
  using assms
proof (induction rule: rtranclp_induct)
  case base
  then show ?case by (simp add: later_row_def)
next
  case (step mid rows')
  note ih = step.IH [OF step.prems]
  have w: "grants_ok rows'" "one_write mid rows'"
    using step_writes_one [OF conjunct1 [OF ih] step.hyps(2)] by simp_all
  have "\<exists>q. tget rows' i = Some q \<and> later_row r q" if r: "tget rows i = Some r" for i r
  proof -
    obtain m where m: "tget mid i = Some m" "later_row r m"
      using ih r by blast
    obtain q where "tget rows' i = Some q" "later_row m q"
      using one_write_later [OF w(2) m(1)] .
    then show ?thesis
      using later_row_trans [OF m(2)] by blast
  qed
  with w(1) show ?case by blast
qed

text \<open>C10. A revoked grant stays as it is and never authorises anything again. After any sequence of
  creations, uses and revocations, whoever asks and whatever for, its row is the one that the
  revocation left, and a use that is authorised, on the policy or on an exact grant, does not name
  it. No grant takes back a use, loses its limit or its expiry, or is used beyond its limit.\<close>

theorem revocation_is_final:
  assumes "grants_ok start" "tget start i = Some r" "grant_step\<^sup>*\<^sup>* start rows"
  shows "grants_ok rows
    \<and> (\<exists>q. tget rows i = Some q \<and> cg_uses_consumed r \<le> cg_uses_consumed q
         \<and> cg_max_uses q = cg_max_uses r \<and> cg_expires_at q = cg_expires_at r
         \<and> (\<forall>limit. cg_max_uses r = Some limit \<longrightarrow> cg_uses_consumed q \<le> limit)
         \<and> (cg_state r = ''revoked'' \<longrightarrow> q = r))
    \<and> (cg_state r = ''revoked'' \<longrightarrow>
         authorize_and_consume ck scope capability connection consequence now rows
           = Inr (Inr consumed, rows') \<longrightarrow> i \<notin> set (map sg_id consumed))
    \<and> (cg_state r = ''revoked'' \<longrightarrow>
         authorize_and_consume_exact ck scope i capability connection consequence now rows
           \<noteq> Inr (Inr g, rows'))"
proof (intro conjI)
  show ok: "grants_ok rows"
    using history_invariant [OF assms(3,1)] by blast
  obtain q where q: "tget rows i = Some q" "later_row r q"
    using history_invariant [OF assms(3,1)] assms(2) by blast
  have "\<forall>limit. cg_max_uses r = Some limit \<longrightarrow> cg_uses_consumed q \<le> limit"
    using grants_okD(3) [OF ok q(1)] q(2) by (auto simp: row_ok_def later_row_def)
  then show "\<exists>q. tget rows i = Some q \<and> cg_uses_consumed r \<le> cg_uses_consumed q
       \<and> cg_max_uses q = cg_max_uses r \<and> cg_expires_at q = cg_expires_at r
       \<and> (\<forall>limit. cg_max_uses r = Some limit \<longrightarrow> cg_uses_consumed q \<le> limit)
       \<and> (cg_state r = ''revoked'' \<longrightarrow> q = r)"
    using q by (intro exI [of _ q]) (auto simp: later_row_def)
  show "cg_state r = ''revoked'' \<longrightarrow>
      authorize_and_consume ck scope capability connection consequence now rows
        = Inr (Inr consumed, rows') \<longrightarrow> i \<notin> set (map sg_id consumed)"
  proof (intro impI)
    assume gone: "cg_state r = ''revoked''"
      and run: "authorize_and_consume ck scope capability connection consequence now rows
        = Inr (Inr consumed, rows')"
    obtain g t where "map sg_id consumed = [sg_id g]" "use_grant (ck_millis ck t) g rows = Some rows'"
      by (rule authorized_use [OF ok run])
    then show "i \<notin> set (map sg_id consumed)"
      using q gone by (auto simp: use_grant_def later_row_def)
  qed
  show "cg_state r = ''revoked'' \<longrightarrow>
      authorize_and_consume_exact ck scope i capability connection consequence now rows
        \<noteq> Inr (Inr g, rows')"
  proof (intro impI notI)
    assume gone: "cg_state r = ''revoked''"
      and run: "authorize_and_consume_exact ck scope i capability connection consequence now rows
        = Inr (Inr g, rows')"
    obtain at h where "use_grant at h rows = Some rows'" "sg_id h = i"
      using exact_names_grant [OF run] by blast
    then show False
      using q gone by (auto simp: use_grant_def later_row_def)
  qed
qed
section \<open>Refused uses and double grants\<close>

lemma mapE_image:
  assumes "mapE f xs = Inr ys" "x \<in> set xs"
  shows "\<exists>y \<in> set ys. f x = Inr y"
  using assms by (induction xs arbitrary: ys) (auto simp: bindE_Inr)

text \<open>An active grant of the scope with no use left, or past its expiry, refuses every use.\<close>

lemma spent_is_refused:
  assumes "grants_ok rows" "tget rows i = Some r" "cg_state r = ''active''"
    and "cg_scope_key r = fst (snd (scope_parts scope))" "cg_capability_key r = capability"
    and "cg_connection_id r = connection" "cg_consequence_class r = consequence"
    and "(\<exists>limit. cg_max_uses r = Some limit \<and> limit \<le> cg_uses_consumed r)
      \<or> (\<exists>e expires. cg_expires_at r = Some e \<and> ck_parse ck e = Some expires \<and> expires \<le> t)"
  shows "check_at ck scope capability connection consequence t rows \<noteq> Inr (Inr gs)"
proof
  assume check: "check_at ck scope capability connection consequence t rows = Inr (Inr gs)"
  let ?p = "gs_project_id scope"
  obtain all where all: "list_grants scope rows = Inr all"
    using check by (auto simp: check_at_def bindE_Inr)
  have "r \<in> set (newest_first cg_updated_at (trows rows))"
    using tget_trows [OF grants_okD(1) [OF assms(1)] assms(2)] by simp
  then obtain g where g: "g \<in> set all" "open_safe scope r = Inr g"
    using mapE_image [OF all [unfolded list_grants_def]] by blast
  note o = opened [OF g(2)]
  have kind: "cg_scope_kind r = ''project'' \<and> cg_project_id r = ?p \<and> ?p \<noteq> None
      \<or> cg_scope_kind r = ''workspace'' \<and> ?p = None"
    using grants_okD(3) [OF assms(1,2)] assms(4)
    by (auto simp: row_ok_def scope_parts_def split: option.splits)
  have spent: "expired_at ck t g \<or> exhausted g"
    using assms(8) o by (auto simp: expired_at_def exhausted_def)
  define inside where "inside = filter (in_scope ?p) (filter (\<lambda>g. sg_capability_id g = capability
    \<and> sg_connection_id g = connection \<and> sg_consequence g = consequence) all)"
  define live where "live = filter (\<lambda>g. sg_state g = ''active'')
    (filter (\<lambda>g. \<not> has_project_policy ?p inside \<or> sg_scope_kind g = ''project'') inside)"
  have "g \<in> set inside"
    using g(1) o assms(5-7) kind by (auto simp: inside_def in_scope_def)
  then have "g \<in> set live"
    using kind o assms(3) by (auto simp: live_def has_project_policy_def)
  moreover have "\<not> list_ex (expired_at ck t) live" "\<not> list_ex exhausted live"
    using check unfolding check_at_def all bindE_simps Let_def inside_def [symmetric]
      live_def [symmetric] by (auto split: if_splits)
  ultimately show False
    using spent by (auto simp: list_ex_iff)
qed

lemma active_twice:
  assumes "grants_ok rows" "tget rows i = Some r" "cg_state r = ''active''"
    and "cg_scope_key r = fst (snd (scope_parts scope))" "cg_capability_key r = trim (nd_capability_key draft)"
    and "cg_connection_id r = trim (nd_connection_id draft)" "cg_consequence_class r = nd_consequence_class draft"
  shows "create_grant_op ck connection scope draft rows \<noteq> Inr (g, rows')"
proof
  assume "create_grant_op ck connection scope draft rows = Inr (g, rows')"
  then show False
  proof (rule create_grant_ok [OF assms(1)])
    fix n
    assume n: "n = new_grant_row scope draft (sg_id g) (trim (nd_capability_key draft))
        (trim (nd_connection_id draft))"
      and alone: "\<not> list_ex (\<lambda>q. cg_state q = ''active'' \<and> same_authority q n) (trows rows)"
    have "same_authority r n"
      using assms(4-7) by (simp add: n same_authority_def new_grant_row_def split: prod.splits)
    then show False
      using alone assms(3) tget_trows [OF grants_okD(1) [OF assms(1)] assms(2)]
      by (auto simp: list_ex_iff)
  qed
qed

section \<open>Sample grants\<close>

definition sample_clock :: clock where
  "sample_clock = \<lparr>ck_parse = (\<lambda>_. Some 5), ck_millis = (\<lambda>_. ''now'')\<rparr>"

definition sample_scope :: grant_scope where
  "sample_scope = \<lparr>gs_workspace_id = ''w'', gs_project_id = None, gs_member_id = None, gs_exists = True\<rparr>"

definition sample_draft :: create_grant where
  "sample_draft =
     \<lparr>nd_id = ''capability-grant-00'', nd_capability_key = ''search'', nd_connection_id = ''c'',
      nd_connection_revision_at_grant = 1, nd_consequence_class = ''read'', nd_max_uses = Some 2,
      nd_expires_at = None, nd_granted_at = ''2026-01-02T10:00:00Z''\<rparr>"

definition sample_row :: grant_row where
  "sample_row = new_grant_row sample_scope sample_draft ''capability-grant-00'' ''search'' ''c''"

lemma single_ok: "row_ok r \<Longrightarrow> cg_id r = i \<Longrightarrow> grants_ok [(i, r)]"
  by (auto simp: grants_ok_def tinv_def tget_def split: if_splits)

lemma sample_row_ok:
  assumes "trim i = i" "0 \<le> n" "n \<le> 2" "state = ''active'' \<or> state = ''revoked''"
  shows "grants_ok [(i, sample_row\<lparr>cg_id := i, cg_uses_consumed := n, cg_state := state\<rparr>)]"
  using assms
  by (intro single_ok) (simp_all add: row_ok_def sample_row_def new_grant_row_def scope_parts_def
      sample_scope_def sample_draft_def)

lemma sample_ids: "trim ''capability-grant-00'' = ''capability-grant-00''" "trim ''g0'' = ''g0''"
  "trim ''search'' = ''search''" "trim ''c'' = ''c''"
  by code_simp+

lemma sample_created:
  "create_grant_op sample_clock (\<lambda>_. Some 1) sample_scope sample_draft []
   = bindE (open_safe sample_scope sample_row) (\<lambda>g. Inr (g, [(''capability-grant-00'', sample_row)]))"
  by code_simp

definition sample_grant :: safe_grant where
  "sample_grant =
     \<lparr>sg_id = ''capability-grant-00'', sg_capability_id = ''search'', sg_connection_id = ''c'',
      sg_consequence = ''read'', sg_scope_kind = ''workspace'', sg_workspace_id = ''w'', sg_project_id = None,
      sg_state = ''active'', sg_max_uses = Some 2, sg_uses_consumed = 0, sg_expires_at = None,
      sg_approval_requirement = ''required-for-every-action'', sg_revision = 1,
      sg_granted_at = ''2026-01-02T10:00:00Z'', sg_updated_at = ''2026-01-02T10:00:00Z''\<rparr>"

lemmas sample_rows = sample_row_def new_grant_row_def scope_parts_def sample_scope_def sample_draft_def
  open_safe_def sample_grant_def

lemma sample_opened: "open_safe sample_scope sample_row = Inr sample_grant"
  by (simp add: sample_rows)

lemmas sample_listing = check_at_def list_grants_def newest_first_def trows_def in_scope_def
  has_project_policy_def expired_at_def exhausted_def sample_rows

lemma sample_use:
  "authorize_and_consume sample_clock sample_scope ''search'' ''c'' ''read'' ''now''
     [(''g0'', sample_row\<lparr>cg_id := ''g0'', cg_uses_consumed := 1, cg_state := ''active''\<rparr>)]
   = Inr (Inr [sample_grant\<lparr>sg_id := ''g0'', sg_uses_consumed := 2, sg_revision := 2, sg_updated_at := ''now''\<rparr>],
       [(''g0'', sample_row\<lparr>cg_id := ''g0'', cg_uses_consumed := 2, cg_revision := 2,
          cg_updated_at := ''now''\<rparr>)])"
  by (simp add: authorize_and_consume_def sample_clock_def parsed_time_def sample_listing use_grant_def
      tget_def read_back_def get_grant_def)

lemma sample_renewed:
  "create_grant_op sample_clock (\<lambda>_. Some 1) sample_scope sample_draft
     [(''g0'', sample_row\<lparr>cg_id := ''g0'', cg_uses_consumed := 2, cg_state := ''revoked''\<rparr>)]
   = bindE (open_safe sample_scope sample_row) (\<lambda>g. Inr (g, [(''capability-grant-00'', sample_row),
       (''g0'', sample_row\<lparr>cg_id := ''g0'', cg_uses_consumed := 2, cg_state := ''revoked''\<rparr>)]))"
  by code_simp

lemma sample_second_use:
  "authorize_and_consume sample_clock sample_scope ''search'' ''c'' ''read'' ''now''
     [(''capability-grant-00'', sample_row),
      (''g0'', sample_row\<lparr>cg_id := ''g0'', cg_uses_consumed := 2, cg_state := ''revoked''\<rparr>)]
   = Inr (Inr [sample_grant\<lparr>sg_uses_consumed := 1, sg_revision := 2, sg_updated_at := ''now''\<rparr>],
       [(''capability-grant-00'', sample_row\<lparr>cg_uses_consumed := 1, cg_revision := 2,
          cg_updated_at := ''now''\<rparr>),
        (''g0'', sample_row\<lparr>cg_id := ''g0'', cg_uses_consumed := 2, cg_state := ''revoked''\<rparr>)])"
  by (simp add: authorize_and_consume_def sample_clock_def parsed_time_def sample_listing use_grant_def
      tget_def read_back_def get_grant_def)

lemma use_spends_one_grant_witness:
  "\<exists>r r'. tget [(''g0'', sample_row\<lparr>cg_id := ''g0'', cg_uses_consumed := 1, cg_state := ''active''\<rparr>)] ''g0'' = Some r
     \<and> cg_state r = ''active'' \<and> cg_uses_consumed r' = cg_uses_consumed r + 1
     \<and> [(''g0'', sample_row\<lparr>cg_id := ''g0'', cg_uses_consumed := 2, cg_revision := 2,
           cg_updated_at := ''now''\<rparr>)]
       = tput ''g0'' r' [(''g0'', sample_row\<lparr>cg_id := ''g0'', cg_uses_consumed := 1, cg_state := ''active''\<rparr>)]"
proof -
  have ok: "grants_ok [(''g0'', sample_row\<lparr>cg_id := ''g0'', cg_uses_consumed := 1, cg_state := ''active''\<rparr>)]"
    by (rule sample_row_ok [OF sample_ids(2)]) simp_all
  show ?thesis
    using use_spends_one_grant [OF ok sample_use] unfolding sum.case
    by (elim conjE exE) (simp only: list.map grant_row.simps, auto)
qed

lemma revocation_is_final_witness:
  "\<exists>q. tget [(''capability-grant-00'', sample_row),
      (''g0'', sample_row\<lparr>cg_id := ''g0'', cg_uses_consumed := 2, cg_state := ''revoked''\<rparr>)] ''g0'' = Some q
    \<and> q = sample_row\<lparr>cg_id := ''g0'', cg_uses_consumed := 2, cg_state := ''revoked''\<rparr>
    \<and> ''g0'' \<notin> set (map sg_id [sample_grant\<lparr>sg_uses_consumed := 1, sg_revision := 2,
         sg_updated_at := ''now''\<rparr>])"
proof -
  let ?start = "[(''g0'', sample_row\<lparr>cg_id := ''g0'', cg_uses_consumed := 2, cg_state := ''revoked''\<rparr>)]"
  have ok: "grants_ok ?start"
    by (rule sample_row_ok [OF sample_ids(2)]) simp_all
  have row: "tget ?start ''g0'' = Some (sample_row\<lparr>cg_id := ''g0'', cg_uses_consumed := 2, cg_state := ''revoked''\<rparr>)"
    by (simp add: tget_def)
  have step: "grant_step ?start ((''capability-grant-00'', sample_row) # ?start)"
    by (rule created [OF sample_renewed [unfolded sample_opened bindE_simps]])
  note final = revocation_is_final [OF ok row r_into_rtranclp [of grant_step, OF step]]
  have "''g0'' \<notin> set (map sg_id [sample_grant\<lparr>sg_uses_consumed := 1, sg_revision := 2,
      sg_updated_at := ''now''\<rparr>])"
    by (rule final [THEN conjunct2, THEN conjunct2, THEN conjunct1, THEN mp, THEN mp, OF _ sample_second_use])
      simp
  moreover obtain q where "tget ((''capability-grant-00'', sample_row) # ?start) ''g0'' = Some q"
    "q = sample_row\<lparr>cg_id := ''g0'', cg_uses_consumed := 2, cg_state := ''revoked''\<rparr>"
    using final [THEN conjunct2, THEN conjunct1] by (elim exE conjE) simp
  ultimately show ?thesis by blast
qed

end
