(* ===== verification/Grant_Confirmation.thy ===== *)
theory Grant_Confirmation
  imports Capability_Grants
begin

text \<open>
  The confirmation of a new standing grant (\<open>capability_grants.rs\<close>): a preparation shows the user
  what the grant would allow, and a commit resolves the proposal again, spends the one-time approval
  of the request that the preparation asked for, and creates the grant. What the capability registry
  resolves for a proposal (\<open>resolved\<close>), the digest of the proposal with its target (\<open>fingerprint\<close>),
  the random part of an id and the clocks are arguments.

  The properties relate a created grant to the history of decisions of \<open>Approval_Commands\<close> and show
  that a grant that is spent, but still active, cannot be renewed.
\<close>

section \<open>Commands\<close>

record grant_proposal =
  pr_workspace_id :: string
  pr_project_id :: "string option"
  pr_capability_id :: string
  pr_connection_id :: "string option"
  pr_max_uses :: "int option"
  pr_expires_at :: "string option"

record grant_target =
  gt_capability_id :: string
  gt_connection_id :: string
  gt_connection_revision :: int
  gt_connection_display_name :: string
  gt_consequence :: string
  gt_availability :: string

definition approval_for :: "grant_proposal \<Rightarrow> grant_target \<Rightarrow> string \<Rightarrow> string \<Rightarrow> approval_request" where
  "approval_for proposal target i requested_at =
     \<lparr>aq_id = i, aq_service = ''Connected sources'',
      aq_action = ''capability-grant '' @ gt_capability_id target,
      aq_mode = ''full-access'', aq_risk_level = ''high'',
      aq_data_used =
        [''capability: Search connected work sources ('' @ gt_capability_id target @ '')'',
         ''Connection: '' @ gt_connection_display_name target @ '' ('' @ gt_connection_id target @ '')'',
         ''consequence: '' @ gt_consequence target,
         ''scope: '' @ (case pr_project_id proposal of
                        None \<Rightarrow> ''workspace: '' @ pr_workspace_id proposal
                      | Some project \<Rightarrow> ''project: '' @ project),
         (case pr_max_uses proposal of
            None \<Rightarrow> ''uses: no fixed limit'' | Some v \<Rightarrow> ''uses: up to '' @ show_int v),
         (case pr_expires_at proposal of
            None \<Rightarrow> ''expiry: until revoked'' | Some v \<Rightarrow> ''expiry: '' @ v)],
      aq_consequence = ''Allows Mivlet to search this Connection in the named scope. Every search still requires its own exact-action approval.'',
      aq_requested_at = requested_at, aq_decisions = [''once'', ''deny''],
      aq_confirmation_phrase = Some ''allow connected source search''\<rparr>"

text \<open>\<open>resolved\<close> is the authorized scope with the target that the registry finds for the proposal.\<close>

definition validate_proposal ::
    "clock \<Rightarrow> int \<Rightarrow> string + grant_scope \<times> grant_target \<Rightarrow> grant_proposal
     \<Rightarrow> string + grant_scope \<times> grant_target" where
  "validate_proposal ck now resolved proposal =
     (if (case pr_max_uses proposal of None \<Rightarrow> False | Some v \<Rightarrow> v < 1) then
        Inl ''Capability grant limits must be positive.''
      else
      bindE (case pr_expires_at proposal of
               None \<Rightarrow> Inr ()
             | Some e \<Rightarrow>
                 bindE (ok_or ''Capability grant expiry must be an RFC 3339 timestamp.''
                          (ck_parse ck e)) (\<lambda>expiry.
                 if expiry \<le> now then Inl ''Capability grant expiry must be in the future.''
                 else Inr ())) (\<lambda>_. resolved))"

datatype prepared_grant = Granted safe_grant | ConfirmationRequired string grant_target approval_request

definition prepare_capability_grant ::
    "clock \<Rightarrow> int \<Rightarrow> int \<Rightarrow> string + grant_scope \<times> grant_target \<Rightarrow> (grant_scope \<Rightarrow> grant_target \<Rightarrow> string)
     \<Rightarrow> string \<Rightarrow> grant_proposal \<Rightarrow> grants \<Rightarrow> string + prepared_grant" where
  "prepare_capability_grant ck now later resolved fingerprint random proposal rows =
     bindE (validate_proposal ck now resolved proposal) (\<lambda>(scope, target).
     bindE (check_grant ck scope (gt_capability_id target) (gt_connection_id target)
              (gt_consequence target) (ck_millis ck later) rows) (\<lambda>verdict.
     let asked = ConfirmationRequired (fingerprint scope target) target
                   (approval_for proposal target (''approval-capability-grant-'' @ random)
                      (ck_millis ck later))
     in case verdict of
          Inl _ \<Rightarrow> Inr asked
        | Inr [] \<Rightarrow> Inr asked
        | Inr (g # gs) \<Rightarrow>
            let grant = last (g # gs)
            in if sg_max_uses grant \<noteq> pr_max_uses proposal \<or> sg_expires_at grant \<noteq> pr_expires_at proposal
               then Inl ''An active capability grant already exists with different limits. Revoke it before replacing its authority.''
               else Inr (Granted grant)))"

text \<open>The consumption of the permit and the creation of the grant are two transactions: the permits
  are part of the outcome of a commit that fails after the first.\<close>

definition commit_capability_grant ::
    "clock \<Rightarrow> (string \<Rightarrow> int option) \<Rightarrow> (approval_request \<Rightarrow> string) \<Rightarrow> string + unit
     \<Rightarrow> (grant_scope \<Rightarrow> grant_target \<Rightarrow> string) \<Rightarrow> int \<Rightarrow> int
     \<Rightarrow> string + grant_scope \<times> grant_target \<Rightarrow> string + grant_scope \<times> grant_target \<Rightarrow> string
     \<Rightarrow> grant_proposal \<Rightarrow> resolution_request \<Rightarrow> string \<Rightarrow> execution_approval list \<times> grants
     \<Rightarrow> (string + safe_grant) \<times> execution_approval list \<times> grants" where
  "commit_capability_grant ck connection fp gate fingerprint now later resolved resolved' random
     proposal resolution at state =
     (case state of (permits, rows) \<Rightarrow>
      case bindE (validate_proposal ck now resolved proposal) (\<lambda>(scope, target).
           let expected = approval_for proposal target (aq_id (rq_request resolution))
                            (aq_requested_at (rq_request resolution))
           in if rq_request resolution \<noteq> expected \<or> rq_decision resolution \<noteq> ''once''
                 \<or> rq_modification resolution \<noteq> None
              then Inl ''The capability grant changed after confirmation preview.''
              else bindE (resolve_approval resolution) (\<lambda>response.
                   bindE (verify_and_consume_execution_approval fp gate
                            (rs_effective_request response) at permits) (\<lambda>permits'.
                   Inr (scope, target, response, permits')))) of
        Inl e \<Rightarrow> (Inl e, permits, rows)
      | Inr (scope, target, response, permits') \<Rightarrow>
          (case bindE (validate_proposal ck later resolved' proposal) (\<lambda>(scope', target').
                if fingerprint scope' target' \<noteq> fingerprint scope target then
                  Inl ''The capability grant target changed during confirmation.''
                else
                create_grant_op ck connection scope'
                  \<lparr>nd_id = ''capability-grant-'' @ random, nd_capability_key = gt_capability_id target',
                   nd_connection_id = gt_connection_id target',
                   nd_connection_revision_at_grant = gt_connection_revision target',
                   nd_consequence_class = gt_consequence target',
                   nd_max_uses = pr_max_uses proposal, nd_expires_at = pr_expires_at proposal,
                   nd_granted_at = ae_decided_at (rs_audit_entry response)\<rparr> rows) of
             Inl e \<Rightarrow> (Inl e, permits', rows)
           | Inr (grant, rows') \<Rightarrow> (Inr grant, permits', rows')))"
section \<open>Commits\<close>

lemma resolve_once:
  assumes "resolve_approval request = Inr resp" "rq_decision request = ''once''"
  shows "rs_effective_request resp = rq_request request"
proof -
  have once: "to_ascii_lowercase (normalize_spaces ''once'') = ''once''"
    by code_simp
  obtain entry effective where e: "normalize_approval_audit_entry entry = Inr (rs_audit_entry resp)"
    "ae_decision entry = ''once''"
    "rs_effective_request resp
       = (if ae_decision (rs_audit_entry resp) = ''modify'' then effective else rq_request request)"
    using assms unfolding resolve_approval_def Let_def
    by (auto simp: bindE_Inr if_Inr once)
  show ?thesis
    using e(3) audit_decision(2) [OF e(1)] e(2) once by simp
qed

lemma validated: "validate_proposal ck now resolved proposal = Inr x \<Longrightarrow> resolved = Inr x"
  by (auto simp: validate_proposal_def bindE_Inr split: if_splits)

text \<open>A commit up to the consumption of its permit, and its second half.\<close>

lemma commit_steps:
  assumes "commit_capability_grant ck connection fp gate fingerprint now later resolved resolved' random
             proposal resolution at (permits, rows) = (Inr g, permits', rows')"
  obtains scope target scope' target' response draft where
    "resolved = Inr (scope, target)" "resolved' = Inr (scope', target')"
    "fingerprint scope' target' = fingerprint scope target"
    "rq_request resolution = approval_for proposal target (aq_id (rq_request resolution))
       (aq_requested_at (rq_request resolution))" "rq_decision resolution = ''once''"
    "resolve_approval resolution = Inr response"
    "verify_and_consume_execution_approval fp gate (rs_effective_request response) at permits = Inr permits'"
    "create_grant_op ck connection scope' draft rows = Inr (g, rows')"
    "nd_capability_key draft = gt_capability_id target'" "nd_connection_id draft = gt_connection_id target'"
    "nd_connection_revision_at_grant draft = gt_connection_revision target'"
    "nd_consequence_class draft = gt_consequence target'" "nd_max_uses draft = pr_max_uses proposal"
    "nd_expires_at draft = pr_expires_at proposal"
    "nd_granted_at draft = ae_decided_at (rs_audit_entry response)"
  using assms that unfolding commit_capability_grant_def
  by (auto simp: bindE_Inr Let_def dest!: validated split: sum.splits if_splits)


lemma failed_commit:
  assumes "commit_capability_grant ck connection fp gate fingerprint now later resolved resolved' random
             proposal resolution at (permits, rows) = (Inl e, permits', rows')"
  shows "rows' = rows"
  using assms unfolding commit_capability_grant_def by (auto split: sum.splits)

section \<open>Sample confirmations\<close>

definition sample_target :: grant_target where
  "sample_target = \<lparr>gt_capability_id = ''search'', gt_connection_id = ''c'', gt_connection_revision = 1,
     gt_connection_display_name = ''Mail'', gt_consequence = ''read'',
     gt_availability = ''available''\<rparr>"

definition sample_proposal :: grant_proposal where
  "sample_proposal = \<lparr>pr_workspace_id = ''w'', pr_project_id = None, pr_capability_id = ''search'',
     pr_connection_id = None, pr_max_uses = Some 2, pr_expires_at = None\<rparr>"

definition sample_grant_approval :: approval_request where
  "sample_grant_approval = approval_for sample_proposal sample_target ''q1'' ''now''"

definition sample_grant_resolution :: resolution_request where
  "sample_grant_resolution =
     \<lparr>rq_request = sample_grant_approval, rq_decision = ''once'', rq_decided_at = ''2026-01-02T10:00:00Z'',
      rq_confirmation_text = None, rq_modification = None\<rparr>"

definition sample_grant_response :: resolution_response where
  "sample_grant_response =
     \<lparr>rs_persisted = True,
      rs_audit_entry = \<lparr>ae_id = ''q1-once-2026-01-02t10-00-00z'', ae_request_id = ''q1'',
        ae_decision = ''once'', ae_decided_at = ''2026-01-02T10:00:00Z'',
        ae_note = ''Connected sources capability-grant search''\<rparr>,
      rs_effective_request = sample_grant_approval, rs_dismissed = True, rs_grant = None\<rparr>"

definition sample_grant_permit :: execution_approval where
  "sample_grant_permit =
     sample_permit\<lparr>ea_request_id := ''q1'', ea_request_fingerprint := ''capability-grant search''\<rparr>"

definition spent_permit :: execution_approval where
  "spent_permit = sample_grant_permit\<lparr>ea_consumed_at := Some ''2026-01-02T10:05:00Z''\<rparr>"

definition sample_grant_docs :: approval_docs where
  "sample_grant_docs =
     \<lparr>ad_audit = [rs_audit_entry sample_grant_response], ad_rules = [], ad_permits = [sample_grant_permit]\<rparr>"

definition sample_commit ::
    "grants \<Rightarrow> (string + safe_grant) \<times> execution_approval list \<times> grants" where
  "sample_commit rows =
     commit_capability_grant sample_clock (\<lambda>_. Some 1) aq_action (Inr ()) (\<lambda>_ _. ''f'') 4 4
       (Inr (sample_scope, sample_target)) (Inr (sample_scope, sample_target)) ''00'' sample_proposal
       sample_grant_resolution ''2026-01-02T10:05:00Z'' ([sample_grant_permit], rows)"

lemma truncate_short: "length v \<le> n \<Longrightarrow> truncate_characters v n = v"
  using chars_count_le_length [of v] by (simp add: truncate_characters_def)

lemma sample_texts:
  "normalize_spaces ''q1'' = ''q1''" "normalize_spaces ''now'' = ''now''"
  "normalize_spaces ''once'' = ''once''" "normalize_spaces ''deny'' = ''deny''"
  "normalize_spaces ''high'' = ''high''" "normalize_spaces ''full-access'' = ''full-access''"
  "to_ascii_lowercase ''once'' = ''once''" "to_ascii_lowercase ''deny'' = ''deny''"
  "to_ascii_lowercase ''high'' = ''high''" "to_ascii_lowercase ''full-access'' = ''full-access''"
  "normalize_spaces ''Connected sources'' = ''Connected sources''"
  "normalize_spaces ''capability-grant search'' = ''capability-grant search''"
  "normalize_spaces ''allow connected source search'' = ''allow connected source search''"
  "normalize_spaces ''2026-01-02T10:00:00Z'' = ''2026-01-02T10:00:00Z''"
  "file_slug ''2026-01-02T10:00:00Z'' = ''2026-01-02t10-00-00z''"
  "normalize_spaces ''q1-once-2026-01-02t10-00-00z'' = ''q1-once-2026-01-02t10-00-00z''"
  "normalize_spaces ''Connected sources capability-grant search'' = ''Connected sources capability-grant search''"
  by code_simp+

lemma sample_consequence:
  "normalize_spaces ''Allows Mivlet to search this Connection in the named scope. Every search still requires its own exact-action approval.''
   = ''Allows Mivlet to search this Connection in the named scope. Every search still requires its own exact-action approval.''"
  by code_simp

lemma sample_normal:
  "normalize_approval_request sample_grant_approval
   = Inr (sample_grant_approval\<lparr>aq_data_used := normalize_approval_data (aq_data_used sample_grant_approval)\<rparr>)"
  by (simp add: normalize_approval_request_def sample_grant_approval_def approval_for_def sample_target_def
      sample_texts sample_consequence truncate_short MAX_RUNTIME_SNAPSHOT_ID_CHARACTERS_def
      MAX_MEMORY_TITLE_CHARACTERS_def MAX_APPROVAL_AUDIT_NOTE_CHARACTERS_def MAX_MEMORY_VALUE_CHARACTERS_def
      APPROVAL_MODES_def APPROVAL_RISK_LEVELS_def APPROVAL_DECISIONS_def)

lemma sample_resolved:
  "resolve_approval sample_grant_resolution = Inr (sample_grant_response\<lparr>rs_persisted := False\<rparr>)"
proof -
  have fields: "aq_id sample_grant_approval = ''q1''" "aq_decisions sample_grant_approval = [''once'', ''deny'']"
    "aq_service sample_grant_approval = ''Connected sources''"
    "aq_action sample_grant_approval = ''capability-grant search''"
    "aq_consequence sample_grant_approval \<noteq> []"
    by (simp_all add: sample_grant_approval_def approval_for_def sample_target_def)
  show ?thesis
    by (simp add: resolve_approval_def sample_grant_resolution_def sample_normal sample_texts fields
        APPROVAL_DECISIONS_def normalize_approval_audit_entry_def resolution_note_def truncate_short
        MAX_APPROVAL_AUDIT_NOTE_CHARACTERS_def sample_grant_response_def)
qed

lemma sample_grant_history:
  "authority aq_action [Decided sample_grant_response True] sample_grant_docs"
proof -
  have risk: "aq_confirmation_phrase sample_grant_approval = Some ''allow connected source search''"
    "aq_id sample_grant_approval = ''q1''" "aq_action sample_grant_approval = ''capability-grant search''"
    by (simp_all add: sample_grant_approval_def approval_for_def sample_target_def)
  have "resolve_approval_for_mint sample_grant_resolution (\<lambda>_. Inr True)
      = Inr (sample_grant_response\<lparr>rs_persisted := False\<rparr>)"
    unfolding resolve_approval_for_mint_def sample_resolved
    by (simp add: ensure_permit_mint_confirmation_def webview_echoed_confirmation_def
        sample_grant_resolution_def sample_grant_response_def risk sample_texts)
  then have "resolve_approval_request aq_action (Inr ()) (\<lambda>_. Inr True) sample_grant_resolution no_docs
      = Inr (sample_grant_response, sample_grant_docs)"
    by (simp add: resolve_approval_request_def persist_approval_resolution_in_store_def
        normalize_approval_audit_entry_def sample_grant_response_def sample_texts truncate_short
        MAX_APPROVAL_AUDIT_NOTE_CHARACTERS_def APPROVAL_DECISIONS_def no_docs_def sample_grant_docs_def
        append_approval_audit_entry_def MAX_APPROVAL_AUDIT_ENTRIES_def
        record_execution_decision_in_records_def sample_grant_permit_def sample_permit_def risk)
  from authority.decided [OF authority.start this] show ?thesis by simp
qed

lemma sample_spends:
  "verify_and_consume_execution_approval aq_action (Inr ()) sample_grant_approval ''2026-01-02T10:05:00Z''
     [sample_grant_permit] = Inr [spent_permit]"
  by code_simp

lemma sample_commit_is:
  "sample_commit rows =
     (case create_grant_op sample_clock (\<lambda>_. Some 1) sample_scope sample_draft rows of
        Inl e \<Rightarrow> (Inl e, [spent_permit], rows)
      | Inr (g, rows') \<Rightarrow> (Inr g, [spent_permit], rows'))"
proof -
  have valid: "validate_proposal sample_clock 4 (Inr (sample_scope, sample_target)) sample_proposal
      = Inr (sample_scope, sample_target)"
    by (simp add: validate_proposal_def sample_proposal_def)
  have asked: "rq_request sample_grant_resolution = sample_grant_approval"
    "rq_decision sample_grant_resolution = ''once''" "rq_modification sample_grant_resolution = None"
    "approval_for sample_proposal sample_target (aq_id sample_grant_approval)
       (aq_requested_at sample_grant_approval) = sample_grant_approval"
    by (simp_all add: sample_grant_resolution_def sample_grant_approval_def approval_for_def)
  have drafted: "\<lparr>nd_id = ''capability-grant-'' @ ''00'', nd_capability_key = gt_capability_id sample_target,
      nd_connection_id = gt_connection_id sample_target,
      nd_connection_revision_at_grant = gt_connection_revision sample_target,
      nd_consequence_class = gt_consequence sample_target, nd_max_uses = pr_max_uses sample_proposal,
      nd_expires_at = pr_expires_at sample_proposal,
      nd_granted_at = ae_decided_at (rs_audit_entry sample_grant_response)\<rparr> = sample_draft"
    by (simp add: sample_target_def sample_proposal_def sample_draft_def sample_grant_response_def)
  have effective: "rs_effective_request sample_grant_response = sample_grant_approval"
    by (simp add: sample_grant_response_def)
  show ?thesis
    unfolding sample_commit_def commit_capability_grant_def
    using drafted
    by (simp add: valid asked sample_resolved effective sample_spends split: sum.splits)
qed

lemma sample_committed:
  "sample_commit [] = (Inr sample_grant, [spent_permit], [(''capability-grant-00'', sample_row)])"
  by (simp add: sample_commit_is sample_created sample_opened)

lemma sample_blocked:
  "sample_commit [(''g0'', sample_row\<lparr>cg_id := ''g0'', cg_uses_consumed := 2, cg_state := ''active''\<rparr>)]
   = (Inl err_constraint, [spent_permit],
      [(''g0'', sample_row\<lparr>cg_id := ''g0'', cg_uses_consumed := 2, cg_state := ''active''\<rparr>)])"
proof -
  have "create_grant_op sample_clock (\<lambda>_. Some 1) sample_scope sample_draft
      [(''g0'', sample_row\<lparr>cg_id := ''g0'', cg_uses_consumed := 2, cg_state := ''active''\<rparr>)] = Inl err_constraint"
    by code_simp
  then show ?thesis by (simp add: sample_commit_is)
qed



end
