(* ===== verification/Spec2Isabelle.thy ===== *)
theory Spec2Isabelle
  imports Engine_Safety Run_Safety Ledger_Safety Event_Safety Tool_Authority
    Grant_Confirmation
begin

text \<open>
  A verification library of the native core of Mivlet, the Rust program under
  \<open>src/apps/desktop/src-tauri/src\<close> (all file names below are relative to that directory).

  \<^bold>\<open>The program.\<close> Mivlet runs AI teammates on a desktop. A request of the user becomes a Work
  record of the collaboration engine; an executor (the window, a background worker or a schedule)
  binds a queued Work to a provider attempt, the attempt calls tools, delegates and asks, and its
  saved result finishes the Work and wakes what waited for it. Every transition is one transaction
  of an encrypted SQLite store. Local schedules and signed events claim an occurrence of a ledger,
  stage it as a Work and report its outcome. A tool that a teammate calls passes the authority
  boundary: the permission policy, an approval of the user with its one-time permit, and for the
  network a check of every address.

  \<^bold>\<open>How it is modelled.\<close> The store is a record of tables (\<open>store\<close>, \<open>Collab_Models\<close>); a table is an
  association list ordered by key (\<open>Mivlet_Prelude\<close>). An operation of the source that runs inside a
  transaction is a function from the store to an error or the next store: \<open>Inl\<close> is \<open>Err\<close> and the
  transaction is undone, \<open>Inr\<close> is a commit. \<open>bindE\<close> is the question mark operator. Integers with a
  width are words (\<open>u8\<close>, \<open>u32\<close>, \<open>u64\<close>), with saturating addition where the source saturates;
  strings are UTF-8 byte lists (\<open>Rust_Text\<close>). What the code takes from outside is an argument: the
  clock, random ids, the profiles of agents, the paths of the process and the services of crates
  are fields of the calling context \<open>ctx\<close> or parameters of the operation that uses them, with what
  is relied on as a named hypothesis (\<open>zone_ok\<close>, \<open>civil_ok\<close>, ...) that a witness instantiates.

  \<^bold>\<open>Theories.\<close>
  \<^item> Foundations: \<open>Mivlet_Prelude\<close> (results, tables, words), \<open>Rust_Text\<close> (strings),
    \<open>Secret_Redaction\<close> (\<open>secret_redaction.rs\<close>), \<open>Collab_Errors\<close>, \<open>Collab_Models\<close>
    (\<open>collaboration/models.rs\<close> and the rows of neighbouring tables), \<open>Collab_Store\<close> (reads and
    writes, ownership checks), \<open>Store_Laws\<close> (what a transaction may change; the locale \<open>work_law\<close>
    is interpreted for the four laws the engine keeps), \<open>Collab_Samples\<close> (a concrete workspace).
  \<^item> The engine (\<open>collaboration.rs\<close>, \<open>collaboration/\<close>): \<open>Work_Goals\<close> (\<open>goals.rs\<close>), \<open>Work_Queue\<close>
    (\<open>queue.rs\<close>), \<open>Work_Context\<close> (\<open>context.rs\<close>), \<open>Work_Start\<close>, \<open>Work_Run\<close>, \<open>Work_Agent\<close>
    (\<open>work.rs\<close>), \<open>Work_Exchange\<close> (\<open>exchanges.rs\<close>, \<open>steering.rs\<close>), \<open>Work_Facts\<close>, \<open>Work_Layout\<close>,
    \<open>Work_Commands\<close> (\<open>commands.rs\<close>), \<open>Work_Chats\<close> (\<open>chats.rs\<close>), \<open>Work_Continue\<close>
    (\<open>provider_resets.rs\<close>, \<open>provider_continuation.rs\<close>), \<open>Work_Background\<close> (\<open>background.rs\<close>),
    \<open>Work_Recovery\<close> (restart, account end, \<open>handover.rs\<close>), \<open>Work_Schedules\<close> (\<open>schedules.rs\<close>),
    \<open>Work_Adoption\<close> (legacy records), \<open>Work_Engine\<close> (the entry points and the step relation over
    all of them); \<open>Work_Run_Laws\<close> and \<open>Work_Start_Laws\<close> hold the laws of two of these.
  \<^item> Neighbouring stores: \<open>Message_Log\<close> (\<open>store/repos/message.rs\<close>, \<open>thread.rs\<close>), \<open>Attempt_Store\<close>
    (\<open>store/repos/execution_attempt.rs\<close>, \<open>execution_control.rs\<close>, the settings of the worker).
  \<^item> Schedules (\<open>local_schedules.rs\<close>, \<open>local_schedules/\<close>): \<open>Schedule_Records\<close> (payloads and their
    JSON), \<open>Civil_Time\<close> (\<open>civil_time.rs\<close>, \<open>validation.rs\<close>), \<open>Event_Templates\<close> (templates and
    signatures of events), \<open>Schedule_Store\<close> (the ledger), \<open>Event_Outbox\<close>, \<open>Schedule_Commands\<close>,
    \<open>Schedule_Dispatch\<close>, \<open>Schedule_Dispatcher\<close>, \<open>Schedule_Views\<close>, \<open>Ledger_Laws\<close> (the step relation
    of the ledger; the locale \<open>transaction_law\<close> carries a law through its transactions).
  \<^item> The authority boundary: \<open>Permission_Policy\<close> (\<open>permission_policy.rs\<close> with its vocabulary),
    \<open>Approval_Requests\<close> (\<open>approvals.rs\<close>: normalisation and resolution), \<open>Execution_Permits\<close>
    (\<open>execution_approvals.rs\<close>), \<open>Approval_Commands\<close> (the transaction of a decision and the
    histories of permits), \<open>Web_Fetch\<close> (\<open>tools/web_fetch.rs\<close>), \<open>Tool_Authority\<close>
    (\<open>tools/approval_policy.rs\<close> and the guards of \<open>tools.rs\<close>), \<open>Capability_Grants\<close>
    (\<open>store/repos/capability_grant.rs\<close>: standing grants, their uses and revocation) and
    \<open>Grant_Confirmation\<close> (\<open>capability_grants.rs\<close>: the confirmation of a new grant).
  \<^item> Properties that span components: \<open>Engine_Safety\<close>, \<open>Run_Safety\<close>, \<open>Ledger_Safety\<close>,
    \<open>Event_Safety\<close>.

  \<^bold>\<open>What is shown.\<close> For the engine: along any sequence of transactions the store stays
  well-formed, the history, the permission bound and the authorship of Work survive, only the
  transactions that are meant to start an execution start one, and an agent executes one assignment
  at a time. A stop reaches exactly the descendants (refinement of the transitive closure) and
  makes every answer of the old generation late; a completion needs saved evidence; the wake-up
  loop ends and leaves nobody waiting for finished work; waits stay acyclic; delegation is bounded;
  a repeated tool call changes nothing. For the conversation log: append only, replay safe, a
  branch is the complete path of its head. For the gates: a terminal attempt is immutable, a pause
  and a revocation fail closed. For schedules: a slot runs at most once and the run that starts is
  the one that was claimed, an expired lease cannot be revived, a stopped schedule starts nothing,
  an authenticated event is admitted once, event text is confined to its fields, payloads survive
  their JSON form, and a civil time is resolved to the first valid minute. For the authority
  boundary: the profiles are ordered and no profile lets a mutating tool run without approval; every
  run of a tool goes back to a decision of its own on exactly this request, which the native dialog
  confirmed if the request is of high risk; the permit document refines the specification
  \<open>open_permit\<close>; the conversion of times agrees with the calendar; a standing grant is created only on a confirmed
  decision that names it, an authorised use spends one use of one active, unexpired grant, and a
  revoked grant stays revoked; a web fetch connects only to
  addresses outside the forbidden blocks, which are determined exactly. Some theorems exhibit
  behaviour that the surrounding code seems to exclude: a second execution through the status
  command, a cycle of waits through delegation, a rewritten author on load, a permit that never goes
  stale, a preview that admits another command, and a spent grant that cannot be renewed.

  \<^bold>\<open>Bounds and fuel.\<close> The wake-up loop is modelled with fuel, one more than the number of Work
  records: each round that does not end the loop changes the status of a record that no later round
  changes again, so on a well-formed store the fuel is never spent. The request loop of a web fetch
  ends because the source counts its redirects. Every other loop is a recursion on its data or has
  a termination proof.

  \<^bold>\<open>Not modelled.\<close> Sealing, key management, schema and migrations of the encrypted store (SQL text
  and cryptography; the tables are modelled as what the statements read and write); the provider
  adapters, HTTP, OAuth, MCP and browser transports, processes and windows (I/O); the assembly of
  the captured text (\<open>capture_for_edit\<close>), the check of attachment files against the disk
  (\<open>verify_attachment_files\<close>) and the collection of provider usage, which are parameters; regular
  expressions and the time zone database, which are crates outside the repository. Operations of
  different processes are interleaved at the granularity of transactions, as SQLite serialises
  them; a poisoned lock is not modelled.
\<close>

end
